(* ===== verification/Prelude.thy ===== *)
theory Prelude
  imports Main "HOL-Library.Word"
begin

text \<open>
  Shared vocabulary of the development: the machine integers of the firmware, the collections of
  simplification rules the component theories extend, and the facts about words, byte lists and
  list update that several components use.

  The firmware is C for a 32-bit ARM core.  An unsigned object of width w is a word of that width
  (so assignment truncates), and an expression that the C integer promotions evaluate in a wider type
  before it is truncated or compared is written with \<open>unat\<close> or \<open>ucast\<close>.  An
  access outside an array, which C leaves undefined, is the value None of an option.
\<close>

unbundle bit_operations_syntax

type_synonym u8 = "8 word"
type_synonym u16 = "16 word"
type_synonym u32 = "32 word"
type_synonym u64 = "64 word"

text \<open>The size of a raw HID report, which the radio module and the factory test share.\<close>

definition RAW_EPSIZE :: nat where "RAW_EPSIZE = 32"

named_theorems codec_simps "decoding rules for encoded bytes"
named_theorems frame_simps "what an operation leaves unchanged"
named_theorems inv_intros "preservation of component invariants"

section \<open>Words\<close>

lemma unat_u8_lt [simp]: "unat (x :: u8) < 256"
  using unsigned_less [of x] by simp

lemma unat_u16_lt [simp]: "unat (x :: u16) < 65536"
  using unsigned_less [of x] by simp

lemma unat_u32_lt [simp]: "unat (x :: u32) < 4294967296"
  using unsigned_less [of x] by simp

lemma unat_of_nat_u8: "n < 256 \<Longrightarrow> unat (of_nat n :: u8) = n"
  by (simp add: unat_of_nat take_bit_nat_eq_self)

lemma unat_of_nat_u16: "n < 65536 \<Longrightarrow> unat (of_nat n :: u16) = n"
  by (simp add: unat_of_nat take_bit_nat_eq_self)

lemma unat_of_nat_u32: "n < 4294967296 \<Longrightarrow> unat (of_nat n :: u32) = n"
  by (simp add: unat_of_nat take_bit_nat_eq_self)

lemma unat_ucast_u8_u32 [simp]: "unat (ucast (x :: u8) :: u32) = unat x"
  by (simp add: unsigned_ucast_eq take_bit_nat_eq_self less_trans [OF unat_u8_lt])

lemma unat_ucast_u8_u16 [simp]: "unat (ucast (x :: u8) :: u16) = unat x"
  by (simp add: unsigned_ucast_eq take_bit_nat_eq_self less_trans [OF unat_u8_lt])

lemma unat_ucast_u16_u32 [simp]: "unat (ucast (x :: u16) :: u32) = unat x"
  by (simp add: unsigned_ucast_eq take_bit_nat_eq_self less_trans [OF unat_u16_lt])

lemma word_eq_unatI: "unat x = unat y \<Longrightarrow> x = y"
  by (rule word_unat_eq_iff [THEN iffD2])

lemma bit_u8_high [simp]: "bit (x :: u8) n \<Longrightarrow> n < 8"
  using bit_imp_le_length [of x n] by simp

section \<open>Free-running timers\<close>

text \<open>
  \<open>TIMER_DIFF_16\<close> and \<open>TIMER_DIFF_32\<close> of platforms/timer.h subtract two readings of a
  free-running counter.  Word subtraction wraps at the width of the counter.
\<close>

definition timer_diff16 :: "u16 \<Rightarrow> u16 \<Rightarrow> u16" where
  "timer_diff16 a b = a - b"

definition timer_diff32 :: "u32 \<Rightarrow> u32 \<Rightarrow> u32" where
  "timer_diff32 a b = a - b"

section \<open>Lists updated by index\<close>

lemma nth_list_update_mod:
  "i < length xs \<Longrightarrow> (xs[i := x]) ! j = (if j = i then x else xs ! j)"
  by (cases "j < length xs") auto

lemma map_nth_update_notin:
  "i \<notin> set ks \<Longrightarrow> map ((!) (xs[i := v])) ks = map ((!) xs) ks"
  by (auto intro!: map_cong nth_list_update_neq)

lemma set_filter_upt: "set (filter P [0..<n]) = {i. i < n \<and> P i}"
  by auto

end
