(* ===== verification/Bitwise.thy ===== *)
theory Bitwise
  imports Prelude
begin

text \<open>
  quantum/bitwise.c: population count, index of the highest set bit and bit reversal for 8, 16 and
  32 bit values.  The layer code reads the highest active layer with \<open>biton\<close>, and the matrix
  and report code counts keys with \<open>bitpop\<close>.
\<close>

section \<open>Operations\<close>

lemma and_dec_less: "(x :: 'a::len word) \<noteq> 0 \<Longrightarrow> unat (x AND (x - 1)) < unat x"
proof -
  assume "x \<noteq> 0"
  then have "unat (x - 1) < unat x"
    using unat_gt_0 [of x] by (simp add: unat_minus_one)
  moreover have "x AND (x - 1) \<le> x - 1"
    by (rule word_and_le1)
  ultimately show ?thesis
    by (meson le_less_trans word_le_nat_alt)
qed

text \<open>\<open>for (c = 0; bits; c++) bits &= bits - 1;\<close>, with c an 8-bit counter.\<close>

function bitpop_loop :: "'a::len word \<Rightarrow> u8 \<Rightarrow> u8" where
  "bitpop_loop bits c = (if bits = 0 then c else bitpop_loop (bits AND (bits - 1)) (c + 1))"
  by pat_completeness auto
termination
  by (relation "measure (\<lambda>(bits, _). unat bits)") (auto intro: and_dec_less)

declare bitpop_loop.simps [simp del]

definition bitpop :: "u8 \<Rightarrow> u8" where
  "bitpop bits = bitpop_loop bits 0"

definition bitpop16 :: "u16 \<Rightarrow> u8" where
  "bitpop16 bits = bitpop_loop bits 0"

definition bitpop32 :: "u32 \<Rightarrow> u8" where
  "bitpop32 bits = bitpop_loop bits 0"

text \<open>One \<open>if (bits >> k) { bits >>= k; n += k; }\<close> of the binary search in \<open>biton\<close>.\<close>

definition biton_step :: "nat \<Rightarrow> 'a::len word \<times> u8 \<Rightarrow> 'a word \<times> u8" where
  "biton_step k = (\<lambda>(bits, n). if drop_bit k bits \<noteq> 0 then (drop_bit k bits, n + of_nat k) else (bits, n))"

definition biton :: "u8 \<Rightarrow> u8" where
  "biton bits = snd (biton_step 1 (biton_step 2 (biton_step 4 (bits, 0))))"

definition biton16 :: "u16 \<Rightarrow> u8" where
  "biton16 bits = snd (biton_step 1 (biton_step 2 (biton_step 4 (biton_step 8 (bits, 0)))))"

definition biton32 :: "u32 \<Rightarrow> u8" where
  "biton32 bits =
     snd (biton_step 1 (biton_step 2 (biton_step 4 (biton_step 8 (biton_step 16 (bits, 0))))))"

definition bitrev :: "u8 \<Rightarrow> u8" where
  "bitrev bits =
    (let b1 = push_bit 4 (bits AND 0x0F) OR drop_bit 4 (bits AND 0xF0);
         b2 = push_bit 2 (b1 AND 0x33) OR drop_bit 2 (b1 AND 0xCC)
     in push_bit 1 (b2 AND 0x55) OR drop_bit 1 (b2 AND 0xAA))"

definition bitrev16 :: "u16 \<Rightarrow> u16" where
  "bitrev16 bits =
     push_bit 8 (ucast (bitrev (ucast (bits AND 0x00FF)))) OR
     ucast (bitrev (ucast (drop_bit 8 (bits AND 0xFF00))))"

definition bitrev32 :: "u32 \<Rightarrow> u32" where
  "bitrev32 bits =
     push_bit 16 (ucast (bitrev16 (ucast (bits AND 0x0000FFFF)))) OR
     ucast (bitrev16 (ucast (drop_bit 16 (bits AND 0xFFFF0000))))"

section \<open>Population count\<close>

fun pop :: "nat \<Rightarrow> nat" where
  "pop n = (if n = 0 then 0 else n mod 2 + pop (n div 2))"

declare pop.simps [simp del]

lemma pop_0 [simp]: "pop 0 = 0"
  by (simp add: pop.simps)

lemma pop_double [simp]: "pop (2 * n) = pop n"
  by (subst pop.simps) simp

lemma pop_double_Suc [simp]: "pop (Suc (2 * n)) = Suc (pop n)"
  by (subst pop.simps) simp

lemma finite_bits_nat: "finite {i. bit (n :: nat) i}"
proof (rule finite_subset)
  show "{i. bit n i} \<subseteq> {..<n}"
  proof
    fix i assume "i \<in> {i. bit n i}"
    then have "n div 2 ^ i \<noteq> 0"
      by (auto simp: bit_iff_odd intro: Nat.gr0I)
    then have "2 ^ i \<le> n"
      by (meson div_less leI)
    then show "i \<in> {..<n}"
      using less_le_trans [OF less_exp [of i]] by simp
  qed
qed simp

lemma bits_nat_step:
  "{i. bit (n :: nat) i} = (if odd n then {0} else {}) \<union> Suc ` {i. bit (n div 2) i}"
proof (rule set_eqI)
  fix i
  show "i \<in> {i. bit n i} \<longleftrightarrow> i \<in> (if odd n then {0} else {}) \<union> Suc ` {i. bit (n div 2) i}"
    by (cases i) (auto simp: bit_0 bit_Suc)
qed

lemma pop_card: "pop n = card {i. bit n i}"
proof (induction n rule: pop.induct)
  case (1 n)
  show ?case
  proof (cases "n = 0")
    case False
    have "card {i. bit n i} = n mod 2 + card (Suc ` {i. bit (n div 2) i})"
      by (subst bits_nat_step, subst card_Un_disjoint)
         (auto simp: finite_bits_nat odd_iff_mod_2_eq_one)
    then show ?thesis
      using False 1 by (subst pop.simps) (simp add: card_image)
  qed simp
qed

lemma pop_clear_lowest: "0 < n \<Longrightarrow> pop n = Suc (pop (n AND (n - 1)))"
proof (induction n rule: less_induct)
  case (less n)
  obtain k where n: "n = 2 * k \<or> n = Suc (2 * k)"
    by (metis evenE oddE Suc_eq_plus1)
  show ?case
  proof (cases "n = 2 * k")
    case True
    with less have k: "0 < k" "k < n" by auto
    then have "n - 1 = Suc (2 * (k - 1))"
      using True by simp
    then have "n AND (n - 1) = 2 * k AND Suc (2 * (k - 1))"
      using True by simp
    also have "\<dots> = 2 * (k AND (k - 1))"
      by (subst and_nat_rec) simp
    finally have "n AND (n - 1) = 2 * (k AND (k - 1))" .
    then show ?thesis
      using less(1) [OF k(2,1)] True by simp
  next
    case False
    with n have "n = Suc (2 * k)" by simp
    moreover have "Suc (2 * k) AND 2 * k = 2 * k"
      by (subst and_nat_rec) simp
    ultimately show ?thesis by simp
  qed
qed

lemma bitpop_loop_pop:
  "unat c + pop (unat bits) < 256 \<Longrightarrow> unat (bitpop_loop bits c) = unat c + pop (unat bits)"
proof (induction bits c rule: bitpop_loop.induct)
  case (1 bits c)
  show ?case
  proof (cases "bits = 0")
    case True
    then show ?thesis by (simp add: bitpop_loop.simps)
  next
    case False
    then have "0 < unat bits"
      by (simp add: unat_gt_0)
    moreover have "unat (bits AND (bits - 1)) = unat bits AND (unat bits - 1)"
      using False by (simp add: unsigned_and_eq unat_minus_one)
    ultimately have p: "pop (unat bits) = Suc (pop (unat (bits AND (bits - 1))))"
      using pop_clear_lowest by simp
    have c: "unat (c + 1) = unat c + 1"
      using 1(2) p by (simp add: unat_word_ariths)
    show ?thesis
      using False 1(1) [OF False] 1(2) p c by (subst bitpop_loop.simps) simp
  qed
qed

lemma pop_word_card: "pop (unat (w :: 'a::len word)) = card {i. bit w i}"
  by (simp add: pop_card bit_unsigned_iff bit_imp_possible_bit)

lemma card_bits_le: "card {i. bit (w :: 'a::len word) i} \<le> LENGTH('a)"
proof -
  have "{i. bit w i} \<subseteq> {..<LENGTH('a)}"
    using bit_imp_le_length by auto
  then show ?thesis
    using card_mono [of "{..<LENGTH('a)}" "{i. bit w i}"] by simp
qed

lemma bitpop_loop_card:
  "LENGTH('a) < 256 \<Longrightarrow> unat (bitpop_loop (w :: 'a::len word) 0) = card {i. bit w i}"
  using bitpop_loop_pop [of 0 w] card_bits_le [of w] by (simp add: pop_word_card)

section \<open>Highest set bit\<close>

text \<open>\<open>top_inv X k (x, n)\<close>: x is X shifted right by n, not zero, and below 2 to the power k.\<close>

definition top_inv :: "'a::len word \<Rightarrow> nat \<Rightarrow> 'a word \<times> u8 \<Rightarrow> bool" where
  "top_inv X k = (\<lambda>(x, n). x = drop_bit (unat n) X \<and> x \<noteq> 0 \<and> drop_bit k x = 0 \<and> unat n + k \<le> LENGTH('a))"

lemma top_inv_step:
  assumes "top_inv X (2 * k) s" and "LENGTH('a) < 128"
  shows "top_inv (X :: 'a::len word) k (biton_step k s)"
proof -
  obtain x n where s: "s = (x, n)" by (cases s)
  with assms have x: "x = drop_bit (unat n) X" "x \<noteq> 0" "drop_bit (2 * k) x = 0"
      "unat n + 2 * k \<le> LENGTH('a)"
    by (auto simp: top_inv_def)
  then have n: "unat (n + of_nat k) = unat n + k"
    using assms(2) by (simp add: unat_word_ariths unat_of_nat_u8)
  show ?thesis
  proof (cases "drop_bit k x = 0")
    case True
    then show ?thesis using x by (simp add: s top_inv_def biton_step_def)
  next
    case False
    then show ?thesis
      using x n by (simp add: s top_inv_def biton_step_def mult_2 add.commute add.left_commute)
  qed
qed

lemma top_inv_final:
  assumes "top_inv X 1 (x, n)"
  shows "bit X (unat n) \<and> (\<forall>j. unat n < j \<longrightarrow> \<not> bit X j)"
proof -
  from assms have x: "x = drop_bit (unat n) X" "x \<noteq> 0" "drop_bit 1 x = 0"
    by (auto simp: top_inv_def)
  have hi: "\<not> bit X (unat n + Suc i)" for i
  proof -
    have "bit X (unat n + Suc i) = bit (drop_bit 1 x) i"
      by (simp add: x(1) bit_drop_bit_eq)
    then show ?thesis using x(3) by simp
  qed
  moreover have "bit x 0"
  proof (rule ccontr)
    assume "\<not> bit x 0"
    then have "x = 0"
    proof (intro bit_word_eqI)
      fix i
      show "bit x i = bit 0 i"
        using hi [of "i - 1"] \<open>\<not> bit x 0\<close> by (cases i) (simp_all add: x(1) bit_drop_bit_eq)
    qed
    with x show False by simp
  qed
  then have "bit X (unat n)"
    by (simp add: x(1) bit_drop_bit_eq)
  moreover have "\<not> bit X j" if "unat n < j" for j
    using hi [of "j - unat n - 1"] that by simp
  ultimately show ?thesis by blast
qed

lemma top_inv_start: "X \<noteq> 0 \<Longrightarrow> top_inv (X :: 'a::len word) LENGTH('a) (X, 0)"
  by (simp add: top_inv_def drop_bit_eq_zero_iff_not_bit_last)

lemma biton_top:
  assumes "X \<noteq> 0"
  shows "top_inv X 1 (biton_step 1 (biton_step 2 (biton_step 4 (X :: u8, 0))))"
proof -
  have "top_inv X (2 * (2 * (2 * 1))) (X, 0)"
    using top_inv_start [OF assms] by simp
  then show ?thesis
    using top_inv_step [of X 4 "(X, 0)"] top_inv_step [of X 2 "biton_step 4 (X, 0)"]
      top_inv_step [of X 1 "biton_step 2 (biton_step 4 (X, 0))"] by simp
qed

lemma biton16_top:
  assumes "X \<noteq> 0"
  shows "top_inv X 1 (biton_step 1 (biton_step 2 (biton_step 4 (biton_step 8 (X :: u16, 0)))))"
proof -
  have "top_inv X 8 (biton_step 8 (X, 0))"
    using top_inv_start [OF assms] top_inv_step [of X 8 "(X, 0)"] by simp
  then show ?thesis
    using top_inv_step [of X 4 "biton_step 8 (X, 0)"]
      top_inv_step [of X 2 "biton_step 4 (biton_step 8 (X, 0))"]
      top_inv_step [of X 1 "biton_step 2 (biton_step 4 (biton_step 8 (X, 0)))"] by simp
qed

lemma biton32_top:
  assumes "X \<noteq> 0"
  shows "top_inv X 1
    (biton_step 1 (biton_step 2 (biton_step 4 (biton_step 8 (biton_step 16 (X :: u32, 0))))))"
proof -
  have "top_inv X 8 (biton_step 8 (biton_step 16 (X, 0)))"
    using top_inv_start [OF assms] top_inv_step [of X 16 "(X, 0)"]
      top_inv_step [of X 8 "biton_step 16 (X, 0)"] by simp
  then show ?thesis
    using top_inv_step [of X 4 "biton_step 8 (biton_step 16 (X, 0))"]
      top_inv_step [of X 2 "biton_step 4 (biton_step 8 (biton_step 16 (X, 0)))"]
      top_inv_step [of X 1 "biton_step 2 (biton_step 4 (biton_step 8 (biton_step 16 (X, 0))))"] by simp
qed

lemma top_inv_final_snd:
  "top_inv X 1 s \<Longrightarrow> bit X (unat (snd s)) \<and> (\<forall>j. unat (snd s) < j \<longrightarrow> \<not> bit X j)"
  using top_inv_final [of X "fst s" "snd s"] by simp

lemma biton_highest:
  "X \<noteq> 0 \<Longrightarrow> bit X (unat (biton X)) \<and> (\<forall>j. unat (biton X) < j \<longrightarrow> \<not> bit X j)"
  unfolding biton_def by (rule top_inv_final_snd [OF biton_top])

lemma biton16_highest:
  "X \<noteq> 0 \<Longrightarrow> bit X (unat (biton16 X)) \<and> (\<forall>j. unat (biton16 X) < j \<longrightarrow> \<not> bit X j)"
  unfolding biton16_def by (rule top_inv_final_snd [OF biton16_top])

lemma biton32_highest:
  "X \<noteq> 0 \<Longrightarrow> bit X (unat (biton32 X)) \<and> (\<forall>j. unat (biton32 X) < j \<longrightarrow> \<not> bit X j)"
  unfolding biton32_def by (rule top_inv_final_snd [OF biton32_top])

lemma biton_zero: "biton 0 = 0" "biton16 0 = 0" "biton32 0 = 0"
  by (simp_all add: biton_def biton16_def biton32_def biton_step_def)

section \<open>Bit reversal\<close>

lemma less_8_cases: "i < 8 \<Longrightarrow> i = 0 \<or> i = 1 \<or> i = 2 \<or> i = 3 \<or> i = 4 \<or> i = 5 \<or> i = 6 \<or> (i :: nat) = 7"
  by arith

lemma bit_bitrev: "bit (bitrev x) i \<longleftrightarrow> i < 8 \<and> bit x (7 - i)"
proof (cases "i < 8")
  case True
  then show ?thesis
    by (elim less_8_cases [elim_format] disjE)
       (simp_all add: bitrev_def Let_def bit_simps del: push_bit_Suc)
qed (use bit_u8_high in blast)

lemma half_masks:
  "(0x00FF :: u16) = mask 8" "(0xFF00 :: u16) = push_bit 8 (mask 8)"
  "(0x0000FFFF :: u32) = mask 16" "(0xFFFF0000 :: u32) = push_bit 16 (mask 16)"
  by (simp_all add: mask_eq_exp_minus_1)

lemma bit_bitrev16: "bit (bitrev16 x) i \<longleftrightarrow> i < 16 \<and> bit x (15 - i)"
proof (cases "i < 8")
  case True
  then have "8 + (7 - i) = 15 - i" by simp
  with True show ?thesis
    by (auto simp: bitrev16_def bit_simps bit_bitrev half_masks)
next
  case False
  then show ?thesis
    using bit_imp_le_length [of "bitrev16 x" i]
    by (auto simp: bitrev16_def bit_simps bit_bitrev half_masks)
qed

lemma bit_bitrev32: "bit (bitrev32 x) i \<longleftrightarrow> i < 32 \<and> bit x (31 - i)"
proof (cases "i < 16")
  case True
  then have "16 + (15 - i) = 31 - i" by simp
  with True show ?thesis
    by (auto simp: bitrev32_def bit_simps bit_bitrev16 half_masks)
next
  case False
  then show ?thesis
    using bit_imp_le_length [of "bitrev32 x" i]
    by (auto simp: bitrev32_def bit_simps bit_bitrev16 half_masks)
qed

section \<open>The functions against their definitions\<close>

lemma highest_is_Max:
  assumes "X \<noteq> 0" and "bit X n \<and> (\<forall>j. n < j \<longrightarrow> \<not> bit (X :: 'a::len word) j)"
  shows "n = Max {i. bit X i}"
proof -
  have "{i. bit X i} \<subseteq> {..<LENGTH('a)}" using bit_imp_le_length by auto
  then have "finite {i. bit X i}" by (rule finite_subset) simp
  moreover have "i \<le> n" if "bit X i" for i using assms(2) that by (meson not_le)
  ultimately show ?thesis using assms(2) by (intro Max_eqI [symmetric]) auto
qed

text \<open>
  The population counts of a byte, a half-word and a word are the numbers of their set bits.
\<close>

theorem bitpop_counts:
  "unat (bitpop b) = card {i. bit b i} \<and> unat (bitpop16 h) = card {i. bit h i} \<and> unat (bitpop32 w) = card {i. bit w i}"
  by (simp add: bitpop_def bitpop16_def bitpop32_def bitpop_loop_card)

text \<open>
  The binary searches for the highest layer give the index of the highest set bit, and 0 for 0.
\<close>

theorem biton_finds_highest:
  "unat (biton b) = (if b = 0 then 0 else Max {i. bit b i}) \<and>
   unat (biton16 h) = (if h = 0 then 0 else Max {i. bit h i}) \<and>
   unat (biton32 w) = (if w = 0 then 0 else Max {i. bit w i})"
  using highest_is_Max [OF _ biton_highest] highest_is_Max [OF _ biton16_highest] highest_is_Max [OF _ biton32_highest]
  by (auto simp: biton_zero)

text \<open>
  Reversing the bits of a byte, a half-word or a word twice gives it back, and bit i becomes the bit i from the top.
\<close>

theorem bitrev_involution:
  "bitrev (bitrev b) = b \<and> bitrev16 (bitrev16 h) = h \<and> bitrev32 (bitrev32 w) = w \<and>
   (bit (bitrev b) i \<longleftrightarrow> i < 8 \<and> bit b (7 - i)) \<and> (bit (bitrev16 h) i \<longleftrightarrow> i < 16 \<and> bit h (15 - i)) \<and>
   (bit (bitrev32 w) i \<longleftrightarrow> i < 32 \<and> bit w (31 - i))"
proof -
  have "bitrev (bitrev b) = b" by (rule bit_word_eqI) (auto simp: bit_bitrev intro: le_less_trans [OF diff_le_self])
  moreover have "bitrev16 (bitrev16 h) = h" by (rule bit_word_eqI) (auto simp: bit_bitrev16 intro: le_less_trans [OF diff_le_self])
  moreover have "bitrev32 (bitrev32 w) = w" by (rule bit_word_eqI) (auto simp: bit_bitrev32 intro: le_less_trans [OF diff_le_self])
  ultimately show ?thesis using bit_bitrev bit_bitrev16 bit_bitrev32 by blast
qed

end
