(* ===== verification/Ring_Queue.thy ===== *)
theory Ring_Queue
  imports Prelude
begin

text \<open>
  The bounded queues of the firmware are arrays with a head and a tail index that wrap.  This theory
  holds the list a ring stands for and its two index steps, the interface \<open>fifo\<close> every
  queue of the firmware promises to its clients, what any sequence of calls does to such a queue, and the first
  instance, the byte ring of quantum/ring_buffer.h.
\<close>

section \<open>The list a ring stands for\<close>

definition ring_len :: "nat \<Rightarrow> nat \<Rightarrow> nat \<Rightarrow> nat" where
  "ring_len n h t = (if t \<le> h then h - t else h + n - t)"

definition ring_list :: "'a list \<Rightarrow> nat \<Rightarrow> nat \<Rightarrow> 'a list" where
  "ring_list buf h t = map (\<lambda>i. buf ! ((t + i) mod length buf)) [0..<ring_len (length buf) h t]"

definition ring_ok :: "nat \<Rightarrow> 'a list \<Rightarrow> nat \<Rightarrow> nat \<Rightarrow> bool" where
  "ring_ok n buf h t \<longleftrightarrow> length buf = n \<and> h < n \<and> t < n"

lemma length_ring_list [simp]: "length (ring_list buf h t) = ring_len (length buf) h t"
  by (simp add: ring_list_def)

lemma ring_len_bound: "h < n \<Longrightarrow> t < n \<Longrightarrow> ring_len n h t < n"
  by (auto simp: ring_len_def)

lemma ring_empty_iff: "h < n \<Longrightarrow> t < n \<Longrightarrow> ring_len n h t = 0 \<longleftrightarrow> h = t"
  by (auto simp: ring_len_def)

lemma next_index: "h < n \<Longrightarrow> (h + 1) mod n = (if h + 1 = n then 0 else h + (1 :: nat))"
  by auto

lemma ring_full_iff:
  "h < n \<Longrightarrow> t < n \<Longrightarrow> (h + 1) mod n = t \<longleftrightarrow> ring_len n h t = n - 1"
  unfolding next_index by (auto simp: ring_len_def split: if_splits)

lemma ring_slot: "h < n \<Longrightarrow> t < n \<Longrightarrow> (t + ring_len n h t) mod n = h"
  by (auto simp: ring_len_def)

lemma ring_slot_inj:
  assumes "i < ring_len n h t" "h < n" "t < n"
  shows "(t + i) mod n \<noteq> h"
proof (cases "t + i < n")
  case False
  have "t + i < n + n"
    using assms by (simp add: ring_len_def split: if_splits)
  with False have "(t + i) mod n = t + i - n"
    by (simp add: le_mod_geq)
  then show ?thesis
    using assms False by (simp add: ring_len_def split: if_splits)
qed (use assms in \<open>simp add: ring_len_def split: if_splits\<close>)

lemma ring_len_enq:
  "h < n \<Longrightarrow> t < n \<Longrightarrow> (h + 1) mod n \<noteq> t \<Longrightarrow>
   ring_len n ((h + 1) mod n) t = Suc (ring_len n h t)"
  by (cases "h + 1 = n") (auto simp: ring_len_def)

lemma ring_len_deq:
  "h < n \<Longrightarrow> t < n \<Longrightarrow> h \<noteq> t \<Longrightarrow> ring_len n h t = Suc (ring_len n h ((t + 1) mod n))"
  by (cases "t + 1 = n") (auto simp: ring_len_def)

lemma ring_enq:
  assumes "ring_ok n buf h t" and "(h + 1) mod n \<noteq> t"
  shows "ring_list (buf[h := x]) ((h + 1) mod n) t = ring_list buf h t @ [x]"
proof -
  from assms have h: "length buf = n" "h < n" "t < n"
    by (auto simp: ring_ok_def)
  have len: "ring_len n ((h + 1) mod n) t = Suc (ring_len n h t)"
    by (rule ring_len_enq [OF h(2,3) assms(2)])
  have "buf[h := x] ! ((t + i) mod n) = buf ! ((t + i) mod n)" if "i < ring_len n h t" for i
    using ring_slot_inj [OF that h(2,3)] by simp
  then show ?thesis
    using h by (simp add: ring_list_def len [simplified] ring_slot)
qed

lemma ring_deq:
  assumes "ring_ok n buf h t" and "h \<noteq> t"
  shows "ring_list buf h t = buf ! t # ring_list buf h ((t + 1) mod n)"
proof -
  from assms have h: "length buf = n" "h < n" "t < n"
    by (auto simp: ring_ok_def)
  have len: "ring_len n h t = Suc (ring_len n h ((t + 1) mod n))"
    by (rule ring_len_deq [OF h(2,3) assms(2)])
  have "[0..<ring_len n h t] = 0 # map Suc [0..<ring_len n h ((t + 1) mod n)]"
    unfolding len map_Suc_upt by (simp add: upt_conv_Cons)
  then show ?thesis
    using h by (simp add: ring_list_def o_def mod_Suc_eq mod_add_left_eq)
qed

lemma ring_ok_enq: "ring_ok n buf h t \<Longrightarrow> ring_ok n (buf[h := x]) ((h + 1) mod n) t"
  by (auto simp: ring_ok_def)

lemma ring_ok_deq: "ring_ok n buf h t \<Longrightarrow> ring_ok n buf h ((t + 1) mod n)"
  by (auto simp: ring_ok_def)

section \<open>What a client of a queue relies on\<close>

datatype 'a qop = Enq 'a | Deq

text \<open>
  A run makes the calls in order.  It yields the elements the queue accepted, the elements it
  delivered and the final queue.
\<close>

fun qrun :: "('a \<Rightarrow> 'q \<Rightarrow> bool \<times> 'q) \<Rightarrow> ('q \<Rightarrow> 'a option \<times> 'q) \<Rightarrow> 'a qop list \<Rightarrow> 'q \<Rightarrow>
    'a list \<times> 'a list \<times> 'q" where
  "qrun enq deq [] q = ([], [], q)"
| "qrun enq deq (Enq x # ops) q =
    (let (ok, q1) = enq x q; (acc, del, q2) = qrun enq deq ops q1
     in (if ok then x # acc else acc, del, q2))"
| "qrun enq deq (Deq # ops) q =
    (let (r, q1) = deq q; (acc, del, q2) = qrun enq deq ops q1
     in (acc, (case r of None \<Rightarrow> del | Some x \<Rightarrow> x # del), q2))"

text \<open>The bounded queue as a list, the specification the rings implement.\<close>

definition spec_enq :: "nat \<Rightarrow> 'a \<Rightarrow> 'a list \<Rightarrow> bool \<times> 'a list" where
  "spec_enq cap x xs = (if length xs < cap then (True, xs @ [x]) else (False, xs))"

fun spec_deq :: "'a list \<Rightarrow> 'a option \<times> 'a list" where
  "spec_deq [] = (None, [])"
| "spec_deq (x # xs) = (Some x, xs)"

locale fifo =
  fixes enq :: "'a \<Rightarrow> 'q \<Rightarrow> bool \<times> 'q"
    and deq :: "'q \<Rightarrow> 'a option \<times> 'q"
    and content :: "'q \<Rightarrow> 'a list"
    and inv :: "'q \<Rightarrow> bool"
    and cap :: nat
  assumes content_bound: "inv q \<Longrightarrow> length (content q) \<le> cap"
    and enq_inv: "inv q \<Longrightarrow> inv (snd (enq x q))"
    and deq_inv: "inv q \<Longrightarrow> inv (snd (deq q))"
    and enq_content: "inv q \<Longrightarrow>
      (fst (enq x q), content (snd (enq x q))) = spec_enq cap x (content q)"
    and deq_content: "inv q \<Longrightarrow> (fst (deq q), content (snd (deq q))) = spec_deq (content q)"
begin

lemma enq_accepts: "inv q \<Longrightarrow> fst (enq x q) \<longleftrightarrow> length (content q) < cap"
  using enq_content [of q x] by (simp add: spec_enq_def split: if_splits)

lemma deq_none: "inv q \<Longrightarrow> fst (deq q) = None \<longleftrightarrow> content q = []"
  using deq_content [of q] by (cases "content q") auto

text \<open>A run on the ring is the run on the list: same acceptances, same deliveries, same rest.\<close>

lemma run_refines:
  "inv q \<Longrightarrow> qrun enq deq ops q = (acc, del, q') \<Longrightarrow>
   inv q' \<and> qrun (spec_enq cap) spec_deq ops (content q) = (acc, del, content q')"
proof (induction ops arbitrary: q acc del q')
  case (Cons op ops)
  show ?case
  proof (cases op)
    case (Enq x)
    obtain ok q1 where e: "enq x q = (ok, q1)" by (cases "enq x q")
    obtain acc1 del1 q2 where r: "qrun enq deq ops q1 = (acc1, del1, q2)"
      by (cases "qrun enq deq ops q1") auto
    have "inv q1" "spec_enq cap x (content q) = (ok, content q1)"
      using enq_inv [OF Cons.prems(1), of x] enq_content [OF Cons.prems(1), of x] e by auto
    with Cons.IH [OF _ r] Cons.prems(2) show ?thesis
      by (auto simp: Enq e r)
  next
    case Deq
    obtain y q1 where e: "deq q = (y, q1)" by (cases "deq q")
    obtain acc1 del1 q2 where r: "qrun enq deq ops q1 = (acc1, del1, q2)"
      by (cases "qrun enq deq ops q1") auto
    have "inv q1" "spec_deq (content q) = (y, content q1)"
      using deq_inv [OF Cons.prems(1)] deq_content [OF Cons.prems(1)] e by auto
    with Cons.IH [OF _ r] Cons.prems(2) show ?thesis
      by (auto simp: Deq e r)
  qed
qed simp

end

lemma spec_enq_cases:
  "spec_enq cap x xs = (ok, xs1) \<Longrightarrow> (ok \<and> xs1 = xs @ [x]) \<or> (\<not> ok \<and> xs1 = xs)"
  by (auto simp: spec_enq_def split: if_splits)

text \<open>
  On the list the queue neither loses, duplicates nor reorders: what was there followed by what was
  accepted is what was delivered followed by what is left.
\<close>

lemma spec_run_conserves:
  "qrun (spec_enq cap) spec_deq ops xs = (acc, del, ys) \<Longrightarrow> xs @ acc = del @ ys"
proof (induction ops arbitrary: xs acc del ys)
  case (Cons op ops)
  show ?case
  proof (cases op)
    case (Enq x)
    obtain ok xs1 where e: "spec_enq cap x xs = (ok, xs1)" by (cases "spec_enq cap x xs")
    obtain acc1 del1 zs where r: "qrun (spec_enq cap) spec_deq ops xs1 = (acc1, del1, zs)"
      by (cases "qrun (spec_enq cap) spec_deq ops xs1") auto
    show ?thesis
      using Cons.prems Cons.IH [OF r] spec_enq_cases [OF e]
      by (auto simp: Enq e r)
  next
    case Deq
    obtain y xs1 where e: "spec_deq xs = (y, xs1)" by (cases "spec_deq xs")
    obtain acc1 del1 zs where r: "qrun (spec_enq cap) spec_deq ops xs1 = (acc1, del1, zs)"
      by (cases "qrun (spec_enq cap) spec_deq ops xs1") auto
    show ?thesis
      using Cons.prems Cons.IH [OF r] e r
      by (cases xs) (auto simp: Deq)
  qed
qed simp

section \<open>The byte ring\<close>

text \<open>quantum/ring_buffer.h with its default \<open>RBUF_SIZE\<close> of 32.\<close>

definition RBUF_SIZE :: nat where
  "RBUF_SIZE = 32"

record rbuf_state =
  rbuf :: "u8 list"
  rbuf_head :: u8
  rbuf_tail :: u8

definition rbuf_init :: rbuf_state where
  "rbuf_init = \<lparr>rbuf = replicate RBUF_SIZE 0, rbuf_head = 0, rbuf_tail = 0\<rparr>"

definition rbuf_enqueue :: "u8 \<Rightarrow> rbuf_state \<Rightarrow> bool \<times> rbuf_state" where
  "rbuf_enqueue data s =
    (let nxt = of_nat ((unat (rbuf_head s) + 1) mod RBUF_SIZE) in
     if nxt \<noteq> rbuf_tail s
     then (True, s\<lparr>rbuf := (rbuf s)[unat (rbuf_head s) := data], rbuf_head := nxt\<rparr>)
     else (False, s))"

definition rbuf_dequeue :: "rbuf_state \<Rightarrow> u8 \<times> rbuf_state" where
  "rbuf_dequeue s =
    (if rbuf_head s \<noteq> rbuf_tail s
     then (rbuf s ! unat (rbuf_tail s),
           s\<lparr>rbuf_tail := of_nat ((unat (rbuf_tail s) + 1) mod RBUF_SIZE)\<rparr>)
     else (0, s))"

definition rbuf_has_data :: "rbuf_state \<Rightarrow> bool" where
  "rbuf_has_data s \<longleftrightarrow> rbuf_head s \<noteq> rbuf_tail s"

definition rbuf_clear :: "rbuf_state \<Rightarrow> rbuf_state" where
  "rbuf_clear s = s\<lparr>rbuf_head := 0, rbuf_tail := 0\<rparr>"

definition rbuf_inv :: "rbuf_state \<Rightarrow> bool" where
  "rbuf_inv s \<longleftrightarrow> ring_ok RBUF_SIZE (rbuf s) (unat (rbuf_head s)) (unat (rbuf_tail s))"

definition rbuf_content :: "rbuf_state \<Rightarrow> u8 list" where
  "rbuf_content s = ring_list (rbuf s) (unat (rbuf_head s)) (unat (rbuf_tail s))"

text \<open>The caller idiom \<open>if (rbuf_has_data()) x = rbuf_dequeue();\<close>.\<close>

definition rbuf_poll :: "rbuf_state \<Rightarrow> u8 option \<times> rbuf_state" where
  "rbuf_poll s =
    (if rbuf_has_data s then (let (x, s1) = rbuf_dequeue s in (Some x, s1)) else (None, s))"

lemma rbuf_index: "unat (of_nat (k mod RBUF_SIZE) :: u8) = k mod RBUF_SIZE"
  by (rule unat_of_nat_u8) (simp add: RBUF_SIZE_def less_trans [OF mod_less_divisor])

interpretation rb: fifo rbuf_enqueue rbuf_poll rbuf_content rbuf_inv "RBUF_SIZE - 1"
proof
  fix q :: rbuf_state and x :: u8
  assume inv: "rbuf_inv q"
  let ?h = "unat (rbuf_head q)" and ?t = "unat (rbuf_tail q)"
  from inv have ok: "ring_ok RBUF_SIZE (rbuf q) ?h ?t" and lt: "?h < RBUF_SIZE" "?t < RBUF_SIZE"
    and len: "length (rbuf q) = RBUF_SIZE"
    by (auto simp: rbuf_inv_def ring_ok_def)
  have full: "of_nat ((?h + 1) mod RBUF_SIZE) = rbuf_tail q \<longleftrightarrow> (?h + 1) mod RBUF_SIZE = ?t"
    by (simp add: word_unat_eq_iff rbuf_index)
  have emp: "rbuf_head q = rbuf_tail q \<longleftrightarrow> ?h = ?t"
    by (simp add: word_unat_eq_iff)
  show "length (rbuf_content q) \<le> RBUF_SIZE - 1"
    using ring_len_bound [OF lt] by (simp add: rbuf_content_def len)
  show "rbuf_inv (snd (rbuf_enqueue x q))"
    using inv ok ring_ok_enq [OF ok]
    by (auto simp: rbuf_inv_def rbuf_enqueue_def Let_def rbuf_index)
  show "rbuf_inv (snd (rbuf_poll q))"
    using inv ring_ok_deq [OF ok]
    by (auto simp: rbuf_inv_def rbuf_poll_def rbuf_dequeue_def rbuf_has_data_def rbuf_index)
  show "(fst (rbuf_enqueue x q), rbuf_content (snd (rbuf_enqueue x q)))
      = spec_enq (RBUF_SIZE - 1) x (rbuf_content q)"
    using ring_enq [OF ok] ring_full_iff [OF lt] ring_len_bound [OF lt] full
    by (auto simp: rbuf_enqueue_def spec_enq_def rbuf_content_def Let_def rbuf_index len)
  show "(fst (rbuf_poll q), rbuf_content (snd (rbuf_poll q))) = spec_deq (rbuf_content q)"
    using ring_deq [OF ok] ring_empty_iff [OF lt] emp len
    by (auto simp: rbuf_poll_def rbuf_dequeue_def rbuf_has_data_def rbuf_content_def rbuf_index
        ring_list_def)
qed

text \<open>
  C36.  Any run of enqueues and guarded dequeues on the byte ring keeps its indices well formed, delivers the accepted
  bytes in order without loss or duplication, and accepts a byte exactly when a bounded queue of 31 bytes would.
\<close>

theorem rbuf_fifo:
  assumes "rbuf_inv q" and "qrun rbuf_enqueue rbuf_poll ops q = (acc, del, q')"
  shows "rbuf_inv q' \<and> rbuf_content q @ acc = del @ rbuf_content q' \<and>
    qrun (spec_enq 31) spec_deq ops (rbuf_content q) = (acc, del, rbuf_content q')"
proof -
  have "rbuf_inv q' \<and> qrun (spec_enq 31) spec_deq ops (rbuf_content q) = (acc, del, rbuf_content q')"
    using rb.run_refines [OF assms] by (simp add: RBUF_SIZE_def)
  then show ?thesis using spec_run_conserves by blast
qed

theorem rbuf_fifo_witness:
  "let (acc, del, q') = qrun rbuf_enqueue rbuf_poll [Enq 7, Enq 9, Deq, Enq 5, Deq] rbuf_init
   in acc = del @ rbuf_content q'"
proof -
  have "rbuf_inv rbuf_init" "rbuf_content rbuf_init = []"
    by (simp_all add: rbuf_inv_def rbuf_init_def ring_ok_def rbuf_content_def ring_list_def ring_len_def RBUF_SIZE_def)
  then show ?thesis using rbuf_fifo [of rbuf_init "[Enq 7, Enq 9, Deq, Enq 5, Deq]"]
    by (simp add: split_def Let_def prod_eq_iff)
qed

end
