(* ===== verification/Report.thy ===== *)
theory Report
  imports Bitwise
begin

text \<open>
  The keyboard report of tmk_core/protocol/report.c.  \<open>report_keyboard_t\<close> is a union, so it is
  modelled by the bytes it occupies: the NKRO view (report id, modifiers, 30 bytes of key bits) is the
  longer one and takes 32 bytes; in the boot view the first eight of them are the modifiers, a reserved
  byte and six key codes.  The flag \<open>nkro\<close> of the operations is the condition
  \<open>keyboard_protocol && keymap_config.nkro\<close>.

  The operations keep a set of keys.  The two views implement that set within their own limits, and
  the locale \<open>key_set\<close> states what the callers rely on; it is interpreted on both views.
\<close>

section \<open>The report and its operations\<close>

definition KEYBOARD_REPORT_KEYS :: nat where "KEYBOARD_REPORT_KEYS = 6"
definition KEYBOARD_REPORT_BITS :: nat where "KEYBOARD_REPORT_BITS = 30"

type_synonym report_keyboard_t = "u8 list"

definition report_ok :: "report_keyboard_t \<Rightarrow> bool" where
  "report_ok r = (length r = 2 + KEYBOARD_REPORT_BITS)"

definition report_keys :: "report_keyboard_t \<Rightarrow> u8 list" where
  "report_keys r = take KEYBOARD_REPORT_KEYS (drop 2 r)"

definition report_bits :: "report_keyboard_t \<Rightarrow> u8 list" where
  "report_bits r = take KEYBOARD_REPORT_BITS (drop 2 r)"

definition has_anykey :: "bool \<Rightarrow> report_keyboard_t \<Rightarrow> u8" where
  "has_anykey nkro r = of_nat (length (filter (\<lambda>b. b \<noteq> 0) (if nkro then report_bits r else report_keys r)))"

definition get_first_key :: "bool \<Rightarrow> report_keyboard_t \<Rightarrow> u8 option" where
  "get_first_key nkro r =
    (if nkro then
       (let i = length (takeWhile (\<lambda>b. b = 0) (report_bits r)) in
        if i < length (report_bits r) then Some (push_bit 3 (of_nat i) OR biton (report_bits r ! i)) else None)
     else Some (report_keys r ! 0))"

definition is_key_pressed :: "bool \<Rightarrow> report_keyboard_t \<Rightarrow> u8 \<Rightarrow> bool" where
  "is_key_pressed nkro r key =
    (if key = 0 then False
     else if nkro then
       (if unat (drop_bit 3 key) < KEYBOARD_REPORT_BITS
        then bit (r ! (2 + unat (drop_bit 3 key))) (unat (key AND 7)) else False)
     else key \<in> set (report_keys r))"

text \<open>The loop of \<open>add_key_byte\<close>: the index it stops at and the first empty slot it has passed.\<close>

fun key_scan :: "u8 \<Rightarrow> nat \<Rightarrow> nat option \<Rightarrow> u8 list \<Rightarrow> nat \<times> nat option" where
  "key_scan code i free [] = (i, free)"
| "key_scan code i free (k # ks) =
    (if k = code then (i, free)
     else key_scan code (Suc i) (if free = None \<and> k = 0 then Some i else free) ks)"

definition add_key_byte :: "report_keyboard_t \<Rightarrow> u8 \<Rightarrow> report_keyboard_t" where
  "add_key_byte r code =
    (case key_scan code 0 None (report_keys r) of (i, free) \<Rightarrow>
       if i = KEYBOARD_REPORT_KEYS then (case free of None \<Rightarrow> r | Some j \<Rightarrow> r[2 + j := code]) else r)"

definition del_key_byte :: "report_keyboard_t \<Rightarrow> u8 \<Rightarrow> report_keyboard_t" where
  "del_key_byte r code =
    take 2 r @ map (\<lambda>k. if k = code then 0 else k) (report_keys r) @ drop (2 + KEYBOARD_REPORT_KEYS) r"

definition add_key_bit :: "report_keyboard_t \<Rightarrow> u8 \<Rightarrow> report_keyboard_t" where
  "add_key_bit r code =
    (let i = 2 + unat (drop_bit 3 code) in
     if unat (drop_bit 3 code) < KEYBOARD_REPORT_BITS
     then r[i := r ! i OR push_bit (unat (code AND 7)) 1] else r)"

definition del_key_bit :: "report_keyboard_t \<Rightarrow> u8 \<Rightarrow> report_keyboard_t" where
  "del_key_bit r code =
    (let i = 2 + unat (drop_bit 3 code) in
     if unat (drop_bit 3 code) < KEYBOARD_REPORT_BITS
     then r[i := r ! i AND NOT (push_bit (unat (code AND 7)) 1)] else r)"

definition add_key_to_report :: "bool \<Rightarrow> report_keyboard_t \<Rightarrow> u8 \<Rightarrow> report_keyboard_t" where
  "add_key_to_report nkro r key = (if nkro then add_key_bit r key else add_key_byte r key)"

definition del_key_from_report :: "bool \<Rightarrow> report_keyboard_t \<Rightarrow> u8 \<Rightarrow> report_keyboard_t" where
  "del_key_from_report nkro r key = (if nkro then del_key_bit r key else del_key_byte r key)"

definition clear_keys_from_report :: "bool \<Rightarrow> report_keyboard_t \<Rightarrow> report_keyboard_t" where
  "clear_keys_from_report nkro r =
    (if nkro then take 2 r @ replicate KEYBOARD_REPORT_BITS 0 @ drop (2 + KEYBOARD_REPORT_BITS) r
     else take 2 r @ replicate KEYBOARD_REPORT_KEYS 0 @ drop (2 + KEYBOARD_REPORT_KEYS) r)"

lemmas report_defs = report_ok_def report_keys_def report_bits_def KEYBOARD_REPORT_KEYS_def KEYBOARD_REPORT_BITS_def

section \<open>What the callers rely on\<close>

text \<open>A run of presses (True) and releases (False), and the set of keys that are down after it.\<close>

fun key_run :: "(report_keyboard_t \<Rightarrow> u8 \<Rightarrow> report_keyboard_t) \<Rightarrow> (report_keyboard_t \<Rightarrow> u8 \<Rightarrow> report_keyboard_t) \<Rightarrow>
    (bool \<times> u8) list \<Rightarrow> report_keyboard_t \<Rightarrow> report_keyboard_t" where
  "key_run add del [] r = r"
| "key_run add del ((p, k) # evs) r = key_run add del evs (if p then add r k else del r k)"

fun keys_down :: "(bool \<times> u8) list \<Rightarrow> u8 set \<Rightarrow> u8 set" where
  "keys_down [] K = K"
| "keys_down ((p, k) # evs) K = keys_down evs (if p then insert k K else K - {k})"

text \<open>The run stays within what a report can hold.\<close>

fun keys_fit :: "(u8 \<Rightarrow> bool) \<Rightarrow> nat \<Rightarrow> (bool \<times> u8) list \<Rightarrow> u8 set \<Rightarrow> bool" where
  "keys_fit reportable room [] K = True"
| "keys_fit reportable room ((p, k) # evs) K =
    (let K' = (if p then insert k K else K - {k})
     in k \<noteq> 0 \<and> (p \<longrightarrow> reportable k \<and> card K' \<le> room) \<and> keys_fit reportable room evs K')"

text \<open>
  A bounded set of keys: an added key is held unless the report has no room for it, a deleted key is
  not held, and no other key changes.
\<close>

locale key_set =
  fixes add :: "report_keyboard_t \<Rightarrow> u8 \<Rightarrow> report_keyboard_t"
    and del :: "report_keyboard_t \<Rightarrow> u8 \<Rightarrow> report_keyboard_t"
    and held :: "report_keyboard_t \<Rightarrow> u8 set"
    and ok :: "report_keyboard_t \<Rightarrow> bool"
    and reportable :: "u8 \<Rightarrow> bool"
    and room :: nat
  assumes add_ok: "ok r \<Longrightarrow> k \<noteq> 0 \<Longrightarrow> ok (add r k)"
    and del_ok: "ok r \<Longrightarrow> k \<noteq> 0 \<Longrightarrow> ok (del r k)"
    and held_add: "ok r \<Longrightarrow> k \<noteq> 0 \<Longrightarrow> reportable k \<Longrightarrow> card (insert k (held r)) \<le> room \<Longrightarrow> held (add r k) = insert k (held r)"
    and held_del: "ok r \<Longrightarrow> k \<noteq> 0 \<Longrightarrow> held (del r k) = held r - {k}"
begin

lemma run_holds:
  "ok r \<Longrightarrow> keys_fit reportable room evs (held r) \<Longrightarrow>
    ok (key_run add del evs r) \<and> held (key_run add del evs r) = keys_down evs (held r)"
proof (induction evs arbitrary: r)
  case (Cons e evs)
  obtain p k where e: "e = (p, k)" by (cases e)
  show ?case
    using Cons.IH [of "if p then add r k else del r k"] Cons.prems
    by (cases p) (simp_all add: e Let_def add_ok del_ok held_add held_del)
qed simp

end

section \<open>The boot view\<close>

lemma length_report_keys: "report_ok r \<Longrightarrow> length (report_keys r) = 6"
  by (simp add: report_defs)

lemma takeWhile_stops: "x \<in> set ks \<Longrightarrow> \<not> P x \<Longrightarrow> length (takeWhile P ks) < length ks"
  by (induction ks) auto

lemma key_scan_result:
  "key_scan c i e ks =
    (i + length (takeWhile (\<lambda>k. k \<noteq> c) ks),
     if e \<noteq> None then e
     else if 0 \<in> set (takeWhile (\<lambda>k. k \<noteq> c) ks) then Some (i + length (takeWhile (\<lambda>k. k \<noteq> c \<and> k \<noteq> 0) ks)) else None)"
  by (induction c i e ks rule: key_scan.induct) auto

definition byte_keys :: "report_keyboard_t \<Rightarrow> u8 set" where
  "byte_keys r = set (report_keys r) - {0}"

definition byte_ok :: "report_keyboard_t \<Rightarrow> bool" where
  "byte_ok r = (report_ok r \<and> distinct (filter (\<lambda>k. k \<noteq> 0) (report_keys r)))"

lemma report_keys_update: "report_ok r \<Longrightarrow> j < 6 \<Longrightarrow> report_keys (r[Suc (Suc j) := c]) = (report_keys r)[j := c]"
  by (simp add: report_defs drop_update_swap take_update_swap)

lemma add_key_byte_keys:
  assumes "report_ok r"
  shows "report_keys (add_key_byte r c) =
    (let ks = report_keys r in
     if c \<in> set ks \<or> 0 \<notin> set ks then ks else ks[length (takeWhile (\<lambda>k. k \<noteq> 0) ks) := c])"
proof -
  let ?ks = "report_keys r"
  have len: "length ?ks = 6" using assms by (rule length_report_keys)
  show ?thesis
  proof (cases "c \<in> set ?ks")
    case True
    then have "length (takeWhile (\<lambda>k. k \<noteq> c) ?ks) < 6"
      using takeWhile_stops [of c ?ks "\<lambda>k. k \<noteq> c"] len by simp
    then show ?thesis using True by (simp add: add_key_byte_def key_scan_result KEYBOARD_REPORT_KEYS_def)
  next
    case False
    then have all: "takeWhile (\<lambda>k. k \<noteq> c) ?ks = ?ks" by (auto simp: takeWhile_eq_all_conv)
    have cong: "takeWhile (\<lambda>k. k \<noteq> c \<and> k \<noteq> 0) ?ks = takeWhile (\<lambda>k. k \<noteq> 0) ?ks"
      using False by (intro takeWhile_cong) auto
    have "0 \<in> set ?ks \<Longrightarrow> length (takeWhile (\<lambda>k. k \<noteq> 0) ?ks) < 6"
      using takeWhile_stops [of 0 ?ks "\<lambda>k. k \<noteq> 0"] len by simp
    then show ?thesis using False
      by (simp add: add_key_byte_def key_scan_result KEYBOARD_REPORT_KEYS_def all cong len report_keys_update assms Let_def)
  qed
qed

lemma del_key_byte_keys: "report_ok r \<Longrightarrow> report_keys (del_key_byte r c) = map (\<lambda>k. if k = c then 0 else k) (report_keys r)"
  by (simp add: del_key_byte_def report_defs)

lemma report_ok_add_byte [simp]: "report_ok (add_key_byte r c) = report_ok r"
  by (auto simp: add_key_byte_def report_ok_def split: prod.splits option.splits)

lemma report_ok_del_byte [simp]: "report_ok r \<Longrightarrow> report_ok (del_key_byte r c)"
  by (simp add: del_key_byte_def report_defs)

lemma fill_first_zero:
  assumes "(0::u8) \<in> set ks" and "c \<noteq> 0"
  defines "ks' \<equiv> ks[length (takeWhile (\<lambda>k. k \<noteq> 0) ks) := c]"
  shows "set ks' - {0} = insert c (set ks - {0})"
    and "c \<notin> set ks \<Longrightarrow> distinct (filter (\<lambda>k. k \<noteq> 0) ks) \<Longrightarrow> distinct (filter (\<lambda>k. k \<noteq> 0) ks')"
proof -
  obtain ys zs where ks: "ks = ys @ 0 # zs" "0 \<notin> set ys"
    using assms(1) by (meson split_list_first)
  then have "takeWhile (\<lambda>k. k \<noteq> 0) ks = ys" by (simp add: takeWhile_tail) (metis takeWhile_eq_all_conv)
  then have ks': "ks' = ys @ c # zs" by (simp add: ks'_def ks(1))
  show "set ks' - {0} = insert c (set ks - {0})" using assms(2) by (auto simp: ks' ks(1))
  show "c \<notin> set ks \<Longrightarrow> distinct (filter (\<lambda>k. k \<noteq> 0) ks) \<Longrightarrow> distinct (filter (\<lambda>k. k \<noteq> 0) ks')"
    using assms(2) by (auto simp: ks' ks(1))
qed

lemma no_room:
  assumes "0 \<notin> set (ks :: u8 list)" and "distinct (filter (\<lambda>k. k \<noteq> 0) ks)"
  shows "card (set ks - {0}) = length ks"
proof -
  have "filter (\<lambda>k. k \<noteq> 0) ks = ks" using assms(1) by (auto simp: filter_id_conv)
  then show ?thesis using assms distinct_card [of ks] by simp
qed

lemma byte_keys_add:
  assumes "byte_ok r" and "c \<noteq> 0"
  shows "byte_ok (add_key_byte r c)"
    and "card (insert c (byte_keys r)) \<le> 6 \<Longrightarrow> byte_keys (add_key_byte r c) = insert c (byte_keys r)"
proof -
  let ?ks = "report_keys r"
  have ok: "report_ok r" and d: "distinct (filter (\<lambda>k. k \<noteq> 0) ?ks)" using assms(1) by (simp_all add: byte_ok_def)
  have len: "length ?ks = 6" using ok by (rule length_report_keys)
  note k = add_key_byte_keys [OF ok, of c]
  show "byte_ok (add_key_byte r c)"
    using ok d fill_first_zero(2) [of ?ks c] assms(2) by (auto simp: byte_ok_def k Let_def)
  assume room: "card (insert c (byte_keys r)) \<le> 6"
  show "byte_keys (add_key_byte r c) = insert c (byte_keys r)"
  proof (cases "c \<in> set ?ks \<or> 0 \<in> set ?ks")
    case True
    then show ?thesis using fill_first_zero(1) [of ?ks c] assms(2) by (auto simp: byte_keys_def k Let_def)
  next
    case False
    then have "card (byte_keys r) = 6" using no_room [OF _ d] len by (simp add: byte_keys_def)
    then have "card (insert c (byte_keys r)) = 7"
      using False by (subst card_insert_disjoint) (auto simp: byte_keys_def)
    then show ?thesis using room by simp
  qed
qed

lemma byte_keys_del:
  assumes "byte_ok r" and "c \<noteq> 0"
  shows "byte_ok (del_key_byte r c)" and "byte_keys (del_key_byte r c) = byte_keys r - {c}"
proof -
  have ok: "report_ok r" and d: "distinct (filter (\<lambda>k. k \<noteq> 0) (report_keys r))"
    using assms(1) by (simp_all add: byte_ok_def)
  have f: "filter (\<lambda>k. k \<noteq> 0) (map (\<lambda>k. if k = c then 0 else k) ks) = filter (\<lambda>k. k \<noteq> c) (filter (\<lambda>k. k \<noteq> 0) ks)" for ks
    using assms(2) by (induction ks) auto
  show "byte_ok (del_key_byte r c)" using ok distinct_filter [OF d, of "\<lambda>k. k \<noteq> c"] by (simp only: byte_ok_def del_key_byte_keys f report_ok_del_byte)
  show "byte_keys (del_key_byte r c) = byte_keys r - {c}"
    using ok assms(2) by (auto simp: byte_keys_def del_key_byte_keys)
qed

interpretation boot: key_set add_key_byte del_key_byte byte_keys byte_ok "\<lambda>_. True" KEYBOARD_REPORT_KEYS
  by unfold_locales (auto simp: byte_keys_add byte_keys_del KEYBOARD_REPORT_KEYS_def)

section \<open>The NKRO view\<close>

definition bit_keys :: "report_keyboard_t \<Rightarrow> u8 set" where
  "bit_keys r = {k. is_key_pressed True r k}"

definition nkro_reportable :: "u8 \<Rightarrow> bool" where
  "nkro_reportable k = (unat k < 8 * KEYBOARD_REPORT_BITS)"

lemma key_index_parts:
  "unat (drop_bit 3 (k :: u8)) = unat k div 8" "unat (k AND 7) = unat k mod 8"
proof -
  show "unat (drop_bit 3 k) = unat k div 8" by (simp only: unsigned_drop_bit_eq) (simp add: drop_bit_eq_div take_bit_nat_eq_self less_imp_le)
  have "(7 :: u8) = mask 3" by (simp add: mask_eq_exp_minus_1)
  then show "unat (k AND 7) = unat k mod 8"
    by (simp only: flip: take_bit_eq_mask) (simp only: unsigned_take_bit_eq, simp add: take_bit_eq_mod)
qed

lemma low_bits_nat: "(x :: nat) < 2 ^ m \<Longrightarrow> bit x n \<Longrightarrow> n < m"
  by (metis bit_take_bit_iff take_bit_nat_eq_self)

lemma low_bits: "unat (x :: u8) < 2 ^ m \<Longrightarrow> bit x n \<Longrightarrow> n < m"
  using low_bits_nat [of "unat x" m n] by (simp add: bit_unsigned_iff)

lemma join_parts:
  assumes "i < 32" and "unat (y :: u8) < 8"
  defines "k \<equiv> push_bit 3 (of_nat i) OR y :: u8"
  shows "unat (drop_bit 3 k) = i" and "k AND 7 = y"
proof -
  have hi: "bit i n \<Longrightarrow> n < 5" for n using low_bits_nat [of i 5 n] assms(1) by simp
  have lo: "bit y n \<Longrightarrow> n < 3" for n using low_bits [of y 3 n] assms(2) by simp
  have "drop_bit 3 k = of_nat i" unfolding k_def
    by (rule bit_word_eqI) (auto simp: bit_simps dest: hi lo)
  then show "unat (drop_bit 3 k) = i" using assms(1) by (simp add: unat_of_nat_u8)
  have "(7 :: u8) = mask 3" by (simp add: mask_eq_exp_minus_1)
  moreover have "k AND mask 3 = y" unfolding k_def
    by (rule bit_word_eqI) (auto simp: bit_simps dest: lo)
  ultimately show "k AND 7 = y" by simp
qed

lemma same_key: "unat (a :: u8) div 8 = unat b div 8 \<Longrightarrow> unat a mod 8 = unat b mod 8 \<Longrightarrow> a = b"
  by (metis div_mult_mod_eq word_eq_unatI)

lemma pressed_bits:
  "is_key_pressed True r k \<longleftrightarrow> k \<noteq> 0 \<and> unat k div 8 < 30 \<and> bit (r ! (2 + unat k div 8)) (unat k mod 8)"
  by (simp add: is_key_pressed_def key_index_parts KEYBOARD_REPORT_BITS_def)

lemma bit_key_mask: "bit (2 ^ m :: u8) n \<longleftrightarrow> n = m \<and> n < 8"
  by (auto simp: bit_simps)

lemma add_bit_pressed:
  assumes "report_ok r" and "unat c div 8 < 30" and "c \<noteq> 0"
  shows "is_key_pressed True (add_key_bit r c) k \<longleftrightarrow> k = c \<or> is_key_pressed True r k"
  using assms same_key [of k c]
  by (auto simp: pressed_bits add_key_bit_def key_index_parts report_defs Let_def nth_list_update bit_or_iff bit_key_mask)

lemma del_bit_pressed:
  assumes "report_ok r"
  shows "is_key_pressed True (del_key_bit r c) k \<longleftrightarrow> k \<noteq> c \<and> is_key_pressed True r k"
  using assms same_key [of k c]
  by (auto simp: pressed_bits del_key_bit_def key_index_parts report_defs Let_def nth_list_update bit_and_iff bit_not_iff bit_key_mask)

lemma report_ok_add_bit [simp]: "report_ok (add_key_bit r c) = report_ok r"
  by (simp add: add_key_bit_def report_ok_def Let_def)

lemma report_ok_del_bit [simp]: "report_ok (del_key_bit r c) = report_ok r"
  by (simp add: del_key_bit_def report_ok_def Let_def)

interpretation nkro: key_set add_key_bit del_key_bit bit_keys report_ok nkro_reportable 256
proof unfold_locales
  show "report_ok r \<Longrightarrow> k \<noteq> 0 \<Longrightarrow> nkro_reportable k \<Longrightarrow> card (insert k (bit_keys r)) \<le> 256 \<Longrightarrow>
      bit_keys (add_key_bit r k) = insert k (bit_keys r)" for r k
    by (auto simp: bit_keys_def add_bit_pressed nkro_reportable_def KEYBOARD_REPORT_BITS_def)
  show "report_ok r \<Longrightarrow> k \<noteq> 0 \<Longrightarrow> bit_keys (del_key_bit r k) = bit_keys r - {k}" for r k
    by (auto simp: bit_keys_def del_bit_pressed)
qed simp_all

section \<open>The operations the firmware calls\<close>

definition report_held :: "bool \<Rightarrow> report_keyboard_t \<Rightarrow> u8 set" where
  "report_held n r = {k. is_key_pressed n r k}"

definition report_valid :: "bool \<Rightarrow> report_keyboard_t \<Rightarrow> bool" where
  "report_valid n r = (if n then report_ok r else byte_ok r)"

definition report_reportable :: "bool \<Rightarrow> u8 \<Rightarrow> bool" where
  "report_reportable n k = (n \<longrightarrow> nkro_reportable k)"

definition report_room :: "bool \<Rightarrow> nat" where
  "report_room n = (if n then 256 else KEYBOARD_REPORT_KEYS)"

lemma held_views: "report_held True = bit_keys" "report_held False = byte_keys"
  by (auto simp: fun_eq_iff report_held_def bit_keys_def byte_keys_def is_key_pressed_def)

text \<open>Whichever view is in use, \<open>add_key_to_report\<close> and its companions keep the set.\<close>

lemma report_key_set:
  "key_set (add_key_to_report n) (del_key_from_report n) (report_held n) (report_valid n) (report_reportable n) (report_room n)"
proof (cases n)
  case True
  then show ?thesis using nkro.key_set_axioms
    by (simp add: held_views add_key_to_report_def [abs_def] del_key_from_report_def [abs_def]
        report_valid_def [abs_def] report_reportable_def [abs_def] report_room_def)
next
  case False
  then show ?thesis using boot.key_set_axioms
    by (simp add: held_views add_key_to_report_def [abs_def] del_key_from_report_def [abs_def]
        report_valid_def [abs_def] report_reportable_def [abs_def] report_room_def)
qed

interpretation rep: key_set "add_key_to_report n" "del_key_from_report n" "report_held n" "report_valid n" "report_reportable n" "report_room n" for n
  by (rule report_key_set)

section \<open>Properties\<close>

text \<open>
  C25.  However keys go down and up, the report holds exactly the keys that are down, as long as they fit: at
  most six in the boot view, every key below 240 in the NKRO view.
\<close>

theorem report_holds_keys_down:
  assumes "report_valid n r" and "keys_fit (report_reportable n) (report_room n) evs (report_held n r)"
  shows "report_held n (key_run (add_key_to_report n) (del_key_from_report n) evs r) = keys_down evs (report_held n r)"
  using rep.run_holds [OF assms] by simp

theorem report_holds_keys_down_witness:
  "report_held False (key_run (add_key_to_report False) (del_key_from_report False)
     [(True, 4), (True, 5), (False, 4), (True, 6)] (replicate 32 0)) = {5, 6}"
proof -
  have "report_held False (replicate 32 0) = {}" by (auto simp: report_held_def is_key_pressed_def report_defs)
  moreover have "report_valid False (replicate 32 0)" by (simp add: report_valid_def byte_ok_def report_defs)
  ultimately show ?thesis
    using report_holds_keys_down [of False "replicate 32 0" "[(True, 4), (True, 5), (False, 4), (True, 6)]"]
    by (simp add: report_reportable_def report_room_def KEYBOARD_REPORT_KEYS_def insert_Diff_if) auto
qed

text \<open>
  \<open>get_first_key\<close> on an NKRO report gives a key that is down; when no key is down its loop runs to
  the end of the bits and it reads the byte behind them.
\<close>

theorem get_first_key_nkro:
  assumes "report_ok r" and "\<not> bit (r ! 2) 0"
  shows "case get_first_key True r of Some k \<Rightarrow> is_key_pressed True r k | None \<Rightarrow> report_held True r = {}"
proof -
  let ?bits = "report_bits r" and ?i = "length (takeWhile (\<lambda>b. b = 0) (report_bits r))"
  have len: "length ?bits = 30" and nth: "\<And>j. j < 30 \<Longrightarrow> ?bits ! j = r ! (2 + j)"
    using assms(1) by (simp_all add: report_defs)
  show ?thesis
  proof (cases "?i < 30")
    case True
    let ?b = "?bits ! ?i"
    have nz: "?b \<noteq> 0" using nth_length_takeWhile [of "\<lambda>b. b = 0" ?bits] True len by simp
    note high = biton_highest [OF nz]
    let ?k = "push_bit 3 (of_nat ?i) OR biton ?b :: u8"
    have small: "unat (biton ?b) < 8" using high bit_u8_high by blast
    note parts = join_parts [of ?i "biton ?b"]
    have pos: "?k \<noteq> 0"
    proof
      assume "?k = 0"
      then have "?i = 0" "biton ?b = 0" using parts small True by auto
      then show False using high nth [of 0] assms(2) by simp
    qed
    have "bit (r ! (2 + ?i)) (unat (biton ?b))" using high nth [OF True] by simp
    then have "is_key_pressed True r ?k"
      using parts small True pos by (simp add: is_key_pressed_def KEYBOARD_REPORT_BITS_def)
    then show ?thesis using True len by (simp add: get_first_key_def Let_def)
  next
    case False
    then have "?i = 30" using length_takeWhile_le [of "\<lambda>b. b = 0" ?bits] len by simp
    then have "takeWhile (\<lambda>b. b = 0) ?bits = ?bits" using len by (metis takeWhile_eq_take take_all order_refl)
    then have "\<forall>b \<in> set ?bits. b = 0" by (simp add: takeWhile_eq_all_conv)
    then have "\<And>j. j < 30 \<Longrightarrow> r ! (2 + j) = 0" using nth len by (metis nth_mem)
    then have "report_held True r = {}" by (auto simp: report_held_def pressed_bits)
    then show ?thesis using False len by (simp add: get_first_key_def Let_def)
  qed
qed

theorem get_first_key_nkro_witness:
  "case get_first_key True ((replicate 32 0)[5 := 2]) of
     Some k \<Rightarrow> is_key_pressed True ((replicate 32 0)[5 := 2]) k | None \<Rightarrow> report_held True ((replicate 32 0)[5 := 2]) = {}"
  by (rule get_first_key_nkro) (simp_all add: report_ok_def KEYBOARD_REPORT_BITS_def)

end
