(* ===== verification/Wear_Log.thy ===== *)
theory Wear_Log
  imports Prelude
begin

text \<open>
  The write-log entries of quantum/wear_leveling/wear_leveling_internal.h, for a backing store written in
  16-bit units (\<open>BACKING_STORE_WRITE_SIZE == 2\<close>).  An entry is the union \<open>write_log_entry_t\<close>, held as its
  eight bytes \<open>raw8\<close>; \<open>raw16\<close> reads the same bytes in little-endian pairs.  The accessor
  and constructor macros are one definition each, followed by the round trips between them.
\<close>

section \<open>The union and its views\<close>

type_synonym log_entry = "u8 list"

definition raw16 :: "log_entry \<Rightarrow> nat \<Rightarrow> u16" where
  "raw16 e i = ucast (e ! (2 * i)) OR push_bit 8 (ucast (e ! (2 * i + 1)))"

definition set_raw16 :: "log_entry \<Rightarrow> nat \<Rightarrow> u16 \<Rightarrow> log_entry" where
  "set_raw16 e i v = e[2 * i := ucast v, 2 * i + 1 := ucast (drop_bit 8 v)]"

definition log_entry_get_type :: "log_entry \<Rightarrow> u8" where
  "log_entry_get_type e = drop_bit 6 (e ! 0) AND mask 2"

definition LOG_ENTRY_TYPE_MULTIBYTE :: u8 where "LOG_ENTRY_TYPE_MULTIBYTE = 0"
definition LOG_ENTRY_TYPE_OPTIMIZED_64 :: u8 where "LOG_ENTRY_TYPE_OPTIMIZED_64 = 1"
definition LOG_ENTRY_TYPE_WORD_01 :: u8 where "LOG_ENTRY_TYPE_WORD_01 = 2"

lemmas log_types = LOG_ENTRY_TYPE_MULTIBYTE_def LOG_ENTRY_TYPE_OPTIMIZED_64_def LOG_ENTRY_TYPE_WORD_01_def

definition LOG_ENTRY_MULTIBYTE_MAX_BYTES :: nat where
  "LOG_ENTRY_MULTIBYTE_MAX_BYTES = 5"

section \<open>Multi-byte entries\<close>

definition multibyte_get_address :: "log_entry \<Rightarrow> u32" where
  "multibyte_get_address e =
     push_bit 16 (ucast (e ! 0) AND mask 3) OR push_bit 8 (ucast (e ! 1)) OR ucast (e ! 2)"

definition multibyte_get_length :: "log_entry \<Rightarrow> u8" where
  "multibyte_get_length e = drop_bit 3 (e ! 0) AND mask 3"

definition make_multibyte :: "u32 \<Rightarrow> nat \<Rightarrow> log_entry" where
  "make_multibyte address len =
    [push_bit 6 (LOG_ENTRY_TYPE_MULTIBYTE AND mask 2) OR push_bit 3 (of_nat len AND mask 3) OR
       (ucast (drop_bit 16 address) AND mask 3),
     ucast (drop_bit 8 address) AND mask 8,
     ucast address AND mask 8,
     0, 0, 0, 0, 0]"

section \<open>Byte writes below address 64\<close>

definition optimized_64_get_address :: "log_entry \<Rightarrow> u32" where
  "optimized_64_get_address e = ucast (e ! 0 AND mask 6)"

definition optimized_64_get_value :: "log_entry \<Rightarrow> u8" where
  "optimized_64_get_value e = e ! 1"

definition make_optimized_64 :: "u32 \<Rightarrow> u8 \<Rightarrow> log_entry" where
  "make_optimized_64 address v =
    [push_bit 6 (LOG_ENTRY_TYPE_OPTIMIZED_64 AND mask 2) OR (ucast address AND mask 6),
     v, 0, 0, 0, 0, 0, 0]"

section \<open>Words holding 0 or 1\<close>

definition word_01_get_address :: "log_entry \<Rightarrow> u32" where
  "word_01_get_address e = push_bit 9 (ucast (e ! 0 AND mask 5)) OR push_bit 1 (ucast (e ! 1))"

definition word_01_get_value :: "log_entry \<Rightarrow> u8" where
  "word_01_get_value e = drop_bit 5 (e ! 0) AND mask 1"

definition make_word_01 :: "u32 \<Rightarrow> u16 \<Rightarrow> log_entry" where
  "make_word_01 address v =
    [push_bit 6 (LOG_ENTRY_TYPE_WORD_01 AND mask 2) OR
       push_bit 5 ((if v \<noteq> 0 then 1 else 0) AND mask 1) OR
       (ucast (drop_bit 9 address) AND mask 5),
     ucast (drop_bit 1 address), 0, 0, 0, 0, 0, 0]"

section \<open>Round trips\<close>

lemma bit_small_nat: "(n :: nat) < 2 ^ k \<Longrightarrow> bit n i \<Longrightarrow> i < k"
  by (metis bit_take_bit_iff take_bit_nat_eq_self)

lemma bit_small_word: "unat (x :: 'a::len word) < 2 ^ k \<Longrightarrow> bit x i \<Longrightarrow> i < k"
  using bit_small_nat [of "unat x" k i] by (simp add: bit_unsigned_iff bit_imp_possible_bit)

lemma bit_one_u8 [simp]: "bit (1 :: u8) i \<longleftrightarrow> i = 0"
  by (simp add: bit_1_iff)

lemma length_makes [simp]:
  "length (make_multibyte a n) = 8" "length (make_optimized_64 a v) = 8" "length (make_word_01 a w) = 8"
  by (simp_all add: make_multibyte_def make_optimized_64_def make_word_01_def)

lemma type_multibyte [codec_simps]:
  "log_entry_get_type (make_multibyte a n) = LOG_ENTRY_TYPE_MULTIBYTE"
  by (rule bit_word_eqI) (auto simp: log_entry_get_type_def make_multibyte_def log_types bit_simps)

lemma type_optimized_64 [codec_simps]:
  "log_entry_get_type (make_optimized_64 a v) = LOG_ENTRY_TYPE_OPTIMIZED_64"
  by (rule bit_word_eqI) (auto simp: log_entry_get_type_def make_optimized_64_def log_types bit_simps)

lemma type_word_01 [codec_simps]: "log_entry_get_type (make_word_01 a w) = LOG_ENTRY_TYPE_WORD_01"
proof -
  have "(2 :: u8) = push_bit 1 1" by simp
  then show ?thesis
    by (intro bit_word_eqI)
       (auto simp: log_entry_get_type_def make_word_01_def log_types bit_simps simp del: push_bit_Suc)
qed

lemma address_multibyte [codec_simps]:
  assumes "unat a < 2 ^ 19"
  shows "multibyte_get_address (make_multibyte a n) = a"
proof (rule bit_word_eqI)
  fix i assume "i < LENGTH(32)"
  have "bit a i \<Longrightarrow> i < 19"
    using assms by (rule bit_small_word)
  then show "bit (multibyte_get_address (make_multibyte a n)) i = bit a i"
    by (auto simp: multibyte_get_address_def make_multibyte_def bit_simps log_types)
qed

lemma length_multibyte [codec_simps]:
  assumes "n < 8"
  shows "unat (multibyte_get_length (make_multibyte a n)) = n"
proof -
  have n: "unat (of_nat n :: u8) = n"
    using assms by (simp add: unat_of_nat_u8)
  have "multibyte_get_length (make_multibyte a n) = of_nat n"
  proof (rule bit_word_eqI)
    fix i
    have "bit (of_nat n :: u8) i \<Longrightarrow> i < 3"
      using assms by (intro bit_small_word [of "of_nat n :: u8" 3]) (auto simp: n)
    then show "bit (multibyte_get_length (make_multibyte a n)) i = bit (of_nat n :: u8) i"
      by (auto simp: multibyte_get_length_def make_multibyte_def bit_simps log_types)
  qed
  then show ?thesis using n by simp
qed

lemma address_optimized_64 [codec_simps]:
  assumes "unat a < 64"
  shows "optimized_64_get_address (make_optimized_64 a v) = a"
proof (rule bit_word_eqI)
  fix i assume "i < LENGTH(32)"
  have "bit a i \<Longrightarrow> i < 6"
    using assms by (intro bit_small_word [of a 6]) auto
  then show "bit (optimized_64_get_address (make_optimized_64 a v)) i = bit a i"
    by (auto simp: optimized_64_get_address_def make_optimized_64_def bit_simps log_types)
qed

lemma value_optimized_64 [codec_simps]: "optimized_64_get_value (make_optimized_64 a v) = v"
  by (simp add: optimized_64_get_value_def make_optimized_64_def)

lemma address_word_01 [codec_simps]:
  assumes "even (unat a)" and "unat a < 16384"
  shows "word_01_get_address (make_word_01 a w) = a"
proof (rule bit_word_eqI)
  fix i assume "i < LENGTH(32)"
  have "bit a i \<Longrightarrow> i < 14"
    using assms(2) by (intro bit_small_word [of a 14]) auto
  moreover have "\<not> bit a 0"
    using assms(1) bit_0 [of "unat a"] by (simp add: bit_unsigned_iff)
  ultimately show "bit (word_01_get_address (make_word_01 a w)) i = bit a i"
    by (cases i) (auto simp: word_01_get_address_def make_word_01_def bit_simps log_types simp del: push_bit_Suc)
qed

lemma value_word_01 [codec_simps]:
  "word_01_get_value (make_word_01 a w) = (if w = 0 then 0 else 1)"
  by (rule bit_word_eqI) (auto simp: word_01_get_value_def make_word_01_def bit_simps log_types)

end
