(* ===== verification/Wear_Leveling.thy ===== *)
theory Wear_Leveling
  imports Wear_Log
begin

text \<open>
  quantum/wear_leveling/wear_leveling.c for a backing store written in 16-bit units: a RAM cache of the
  logical EEPROM, a consolidated copy with an FNV-1a checksum at the start of the backing store, and a log of writes
  behind it that is replayed at start-up.  The driver functions the linker supplies and the sizes the build sets are the
  record \<open>wl_env\<close>.  An operation that could read or write outside its buffers returns an option, None
  being that undefined behaviour.
\<close>

section \<open>State\<close>

datatype wl_status = WL_FAILED | WL_SUCCESS | WL_CONSOLIDATED

datatype lock_status = STATUS_FAILURE | STATUS_SUCCESS | STATUS_UNCHANGED

record 'b wl_env =
  logical_size :: nat
  backing_size :: nat
  bs_init :: "'b \<Rightarrow> bool \<times> 'b"
  bs_unlock :: "'b \<Rightarrow> bool \<times> 'b"
  bs_erase :: "'b \<Rightarrow> bool \<times> 'b"
  bs_write :: "u32 \<Rightarrow> u16 \<Rightarrow> 'b \<Rightarrow> bool \<times> 'b"
  bs_lock :: "'b \<Rightarrow> bool \<times> 'b"
  bs_read :: "u32 \<Rightarrow> 'b \<Rightarrow> u16 option"

record 'b wl =
  cache :: "u8 list"
  write_address :: u32
  unlocked :: bool
  store :: 'b

text \<open>\<open>memcpy\<close> into an array: undefined when the copy leaves the array.\<close>

definition memcpy_at :: "u8 list \<Rightarrow> nat \<Rightarrow> u8 list \<Rightarrow> u8 list option" where
  "memcpy_at dst a src =
    (if a + length src \<le> length dst
     then Some (take a dst @ src @ drop (a + length src) dst) else None)"

section \<open>Bulk access, in 16-bit units\<close>

text \<open>The weak \<open>backing_store_read_bulk\<close> and \<open>backing_store_write_bulk\<close>, from item i on.\<close>

fun read_bulk :: "'b wl_env \<Rightarrow> u32 \<Rightarrow> nat \<Rightarrow> 'b \<Rightarrow> u16 list option" where
  "read_bulk env a 0 b = Some []"
| "read_bulk env a (Suc n) b =
    (case bs_read env a b of
       None \<Rightarrow> None
     | Some v \<Rightarrow> (case read_bulk env (a + 2) n b of None \<Rightarrow> None | Some vs \<Rightarrow> Some (v # vs)))"

fun write_bulk :: "'b wl_env \<Rightarrow> u32 \<Rightarrow> u16 list \<Rightarrow> 'b \<Rightarrow> bool \<times> 'b" where
  "write_bulk env a [] b = (True, b)"
| "write_bulk env a (v # vs) b =
    (let (ok, b1) = bs_write env a v b in if ok then write_bulk env (a + 2) vs b1 else (False, b1))"

text \<open>The casts between a byte array and 16-bit units on a little-endian machine.\<close>

fun units_of_bytes :: "u8 list \<Rightarrow> u16 list" where
  "units_of_bytes (x # y # xs) = (ucast x OR push_bit 8 (ucast y)) # units_of_bytes xs"
| "units_of_bytes _ = []"

fun bytes_of_units :: "u16 list \<Rightarrow> u8 list" where
  "bytes_of_units [] = []"
| "bytes_of_units (v # vs) = ucast v # ucast (drop_bit 8 v) # bytes_of_units vs"

text \<open>The bytes of a 64-bit value in memory, lowest first.\<close>

definition bytes_of_u64 :: "u64 \<Rightarrow> u8 list" where
  "bytes_of_u64 x = map (\<lambda>i. ucast (drop_bit (8 * i) x)) [0..<8]"

text \<open>\<open>fnv_64a_buf\<close> of lib/fnv/hash_64a.c, with the shift-and-add form of the multiplication.\<close>

definition FNV1A_64_INIT :: u64 where
  "FNV1A_64_INIT = 0xcbf29ce484222325"

definition fnv_step :: "u8 \<Rightarrow> u64 \<Rightarrow> u64" where
  "fnv_step c hval =
    (let h = hval XOR ucast c
     in h + (push_bit 1 h + push_bit 4 h + push_bit 5 h + push_bit 7 h + push_bit 8 h + push_bit 40 h))"

definition fnv_64a_buf :: "u8 list \<Rightarrow> u64 \<Rightarrow> u64" where
  "fnv_64a_buf buf hval = fold fnv_step buf hval"

section \<open>Locking\<close>

definition wear_leveling_unlock :: "'b wl_env \<Rightarrow> 'b wl \<Rightarrow> lock_status \<times> 'b wl" where
  "wear_leveling_unlock env s =
    (if unlocked s then (STATUS_UNCHANGED, s)
     else let (ok, b) = bs_unlock env (store s) in
       if \<not> ok then (STATUS_FAILURE, s\<lparr>store := b\<rparr>)
       else (STATUS_SUCCESS, s\<lparr>store := b, unlocked := True\<rparr>))"

definition wear_leveling_lock :: "'b wl_env \<Rightarrow> 'b wl \<Rightarrow> lock_status \<times> 'b wl" where
  "wear_leveling_lock env s =
    (if \<not> unlocked s then (STATUS_UNCHANGED, s)
     else let (ok, b) = bs_lock env (store s) in
       if \<not> ok then (STATUS_FAILURE, s\<lparr>store := b\<rparr>)
       else (STATUS_SUCCESS, s\<lparr>store := b, unlocked := False\<rparr>))"

section \<open>Consolidated data\<close>

definition log_start :: "'b wl_env \<Rightarrow> u32" where
  "log_start env = of_nat (logical_size env) + 8"

definition clear_cache :: "'b wl_env \<Rightarrow> 'b wl \<Rightarrow> 'b wl" where
  "clear_cache env s = s\<lparr>cache := replicate (logical_size env) 0, write_address := log_start env\<rparr>"

text \<open>
  A failed read of the checksum leaves the local \<open>entry\<close> uninitialised; the code compares it nevertheless, which
  is the value None here.
\<close>

definition read_consolidated :: "'b wl_env \<Rightarrow> 'b wl \<Rightarrow> (wl_status \<times> 'b wl) option" where
  "read_consolidated env s =
    (case read_bulk env 0 (logical_size env div 2) (store s) of
       None \<Rightarrow> Some (WL_FAILED, clear_cache env s)
     | Some us \<Rightarrow>
        (let s1 = s\<lparr>cache := bytes_of_units us\<rparr>;
             expected = fnv_64a_buf (cache s1) FNV1A_64_INIT
         in case read_bulk env (of_nat (logical_size env)) 4 (store s1) of
              None \<Rightarrow> None
            | Some es \<Rightarrow>
               if bytes_of_units es = bytes_of_u64 expected then Some (WL_SUCCESS, s1)
               else Some (WL_SUCCESS, clear_cache env s1)))"

definition write_consolidated :: "'b wl_env \<Rightarrow> 'b wl \<Rightarrow> wl_status \<times> 'b wl" where
  "write_consolidated env s0 =
    (let (lock, s) = wear_leveling_unlock env s0;
         (ok, b) = write_bulk env 0 (units_of_bytes (cache s)) (store s);
         s1 = s\<lparr>store := b\<rparr>;
         (status, s2) =
           (if \<not> ok then (WL_FAILED, s1)
            else let raw64 = fnv_64a_buf (cache s1) FNV1A_64_INIT;
                     (ok2, b2) = write_bulk env (of_nat (logical_size env))
                                   (units_of_bytes (bytes_of_u64 raw64)) (store s1)
                 in (if ok2 then WL_CONSOLIDATED else WL_FAILED, s1\<lparr>store := b2\<rparr>))
     in (status, if lock = STATUS_SUCCESS then snd (wear_leveling_lock env s2) else s2))"

definition consolidate_force :: "'b wl_env \<Rightarrow> 'b wl \<Rightarrow> wl_status \<times> 'b wl" where
  "consolidate_force env s =
    (let (ok, b) = bs_erase env (store s); s1 = s\<lparr>store := b\<rparr> in
     if \<not> ok then (WL_FAILED, s1)
     else let (status, s2) = write_consolidated env s1 in (status, s2\<lparr>write_address := log_start env\<rparr>))"

definition consolidate_if_needed :: "'b wl_env \<Rightarrow> 'b wl \<Rightarrow> wl_status \<times> 'b wl" where
  "consolidate_if_needed env s =
    (if backing_size env \<le> unat (write_address s) then consolidate_force env s else (WL_SUCCESS, s))"

section \<open>Appending to the log\<close>

definition append_raw :: "'b wl_env \<Rightarrow> u16 \<Rightarrow> 'b wl \<Rightarrow> wl_status \<times> 'b wl" where
  "append_raw env v s =
    (let (ok, b) = bs_write env (write_address s) v (store s); s1 = s\<lparr>store := b\<rparr> in
     if \<not> ok then (WL_FAILED, s1)
     else consolidate_if_needed env (s1\<lparr>write_address := write_address s1 + 2\<rparr>))"

text \<open>A sequence of \<open>status = append_raw(..); if (status != SUCCESS) return status;\<close> steps.\<close>

fun append_seq :: "'b wl_env \<Rightarrow> u16 list \<Rightarrow> 'b wl \<Rightarrow> wl_status \<times> 'b wl" where
  "append_seq env [] s = (WL_SUCCESS, s)"
| "append_seq env (v # vs) s =
    (let (status, s1) = append_raw env v s in
     if status \<noteq> WL_SUCCESS then (status, s1) else append_seq env vs s1)"

definition multibyte_units :: "u32 \<Rightarrow> u8 list \<Rightarrow> u16 list" where
  "multibyte_units address vs =
    (let log = take 3 (make_multibyte address (length vs)) @ vs @
               drop (3 + length vs) (make_multibyte address (length vs))
     in [raw16 log 0, raw16 log 1] @ (if 1 < length vs then [raw16 log 2] else []) @
        (if 3 < length vs then [raw16 log 3] else []))"

definition write_raw_multibyte :: "'b wl_env \<Rightarrow> u32 \<Rightarrow> u8 list \<Rightarrow> 'b wl \<Rightarrow> wl_status \<times> 'b wl" where
  "write_raw_multibyte env address vs s = append_seq env (multibyte_units address vs) s"

text \<open>
  \<open>wear_leveling_write_raw\<close>: the bytes still to write are the list, whose length is \<open>remaining\<close>.
\<close>

function write_raw :: "'b wl_env \<Rightarrow> u32 \<Rightarrow> u8 list \<Rightarrow> 'b wl \<Rightarrow> wl_status \<times> 'b wl" where
  "write_raw env address p s =
    (if p = [] then (WL_SUCCESS, s)
     else if 2 \<le> length p \<and> address mod 2 = 0 \<and> address < 16384 \<and>
             (push_bit 8 (ucast (p ! 1)) OR ucast (p ! 0) :: u16) \<in> {0, 1}
     then (let v = push_bit 8 (ucast (p ! 1)) OR ucast (p ! 0) :: u16;
               (status, s1) = append_raw env (raw16 (make_word_01 address v) 0) s
           in if status \<noteq> WL_SUCCESS then (status, s1)
              else write_raw env (address + 2) (drop 2 p) s1)
     else if address < 64
     then (let (status, s1) = append_raw env (raw16 (make_optimized_64 address (p ! 0)) 0) s
           in if status \<noteq> WL_SUCCESS then (status, s1)
              else write_raw env (address + 1) (drop 1 p) s1)
     else (let this_length = (if LOG_ENTRY_MULTIBYTE_MAX_BYTES \<le> length p
                              then LOG_ENTRY_MULTIBYTE_MAX_BYTES else length p);
               (status, s1) = write_raw_multibyte env address (take this_length p) s
           in if status \<noteq> WL_SUCCESS then (status, s1)
              else write_raw env (address + of_nat this_length) (drop this_length p) s1))"
  by pat_completeness auto
termination
  by (relation "measure (\<lambda>(_, _, p, _). length p)")
     (auto simp: LOG_ENTRY_MULTIBYTE_MAX_BYTES_def split: if_splits)

declare write_raw.simps [simp del]

section \<open>Replaying the log\<close>

text \<open>
  One case of the switch of \<open>wear_leveling_playback_log\<close>, after the first unit of the entry is in
  \<open>log\<close> and the address points behind it.  The result is whether playback goes on, the address and the
  cache; None is a \<open>memcpy\<close> that leaves one of its arrays.
\<close>

definition playback_multibyte :: "'b wl_env \<Rightarrow> u32 \<Rightarrow> log_entry \<Rightarrow> u8 list \<Rightarrow> 'b \<Rightarrow>
    (bool \<times> u32 \<times> u8 list) option" where
  "playback_multibyte env address log0 c b =
    (case bs_read env address b of
       None \<Rightarrow> Some (False, address, c)
     | Some v1 \<Rightarrow>
        (let log1 = set_raw16 log0 1 v1; address1 = address + 2;
             a = multibyte_get_address log1; l = multibyte_get_length log1
         in if logical_size env < unat (a + ucast l) then Some (False, address1, c)
            else case (if 1 < l then bs_read env address1 b else Some 0) of
              None \<Rightarrow> Some (False, address1, c)
            | Some v2 \<Rightarrow>
               (let log2 = (if 1 < l then set_raw16 log1 2 v2 else log1);
                    address2 = (if 1 < l then address1 + 2 else address1)
                in case (if 3 < l then bs_read env address2 b else Some 0) of
                     None \<Rightarrow> Some (False, address2, c)
                   | Some v3 \<Rightarrow>
                      (let log3 = (if 3 < l then set_raw16 log2 3 v3 else log2);
                           address3 = (if 3 < l then address2 + 2 else address2)
                       in if 8 < 3 + unat l then None
                          else case memcpy_at c (unat a) (take (unat l) (drop 3 log3)) of
                            None \<Rightarrow> None
                          | Some c1 \<Rightarrow> Some (True, address3, c1)))))"

definition playback_optimized_64 :: "'b wl_env \<Rightarrow> u32 \<Rightarrow> log_entry \<Rightarrow> u8 list \<Rightarrow>
    (bool \<times> u32 \<times> u8 list) option" where
  "playback_optimized_64 env address log c =
    (let a = optimized_64_get_address log; v = optimized_64_get_value log
     in if logical_size env \<le> unat a then Some (False, address, c)
        else Some (True, address, c[unat a := v]))"

definition playback_word_01 :: "'b wl_env \<Rightarrow> u32 \<Rightarrow> log_entry \<Rightarrow> u8 list \<Rightarrow>
    (bool \<times> u32 \<times> u8 list) option" where
  "playback_word_01 env address log c =
    (let a = word_01_get_address log; v = word_01_get_value log
     in if logical_size env \<le> unat (a + 1) then Some (False, address, c)
        else Some (True, address, c[unat a := v, unat (a + 1) := 0]))"

definition playback_entry :: "'b wl_env \<Rightarrow> u32 \<Rightarrow> log_entry \<Rightarrow> u8 list \<Rightarrow> 'b \<Rightarrow>
    (bool \<times> u32 \<times> u8 list) option" where
  "playback_entry env address log c b =
    (if log_entry_get_type log = LOG_ENTRY_TYPE_MULTIBYTE then playback_multibyte env address log c b
     else if log_entry_get_type log = LOG_ENTRY_TYPE_OPTIMIZED_64 then playback_optimized_64 env address log c
     else if log_entry_get_type log = LOG_ENTRY_TYPE_WORD_01 then playback_word_01 env address log c
     else Some (False, address, c))"

text \<open>
  The replay loop.  The fuel bounds the number of entries; an entry takes at least one unit of two bytes, so the size of
  the backing store is enough.  The flag says that no read failed and no entry was malformed.
\<close>

fun playback_loop :: "'b wl_env \<Rightarrow> nat \<Rightarrow> u32 \<Rightarrow> u8 list \<Rightarrow> 'b \<Rightarrow>
    (bool \<times> u32 \<times> u8 list) option" where
  "playback_loop env 0 address c b = None"
| "playback_loop env (Suc fuel) address c b =
    (if unat address < backing_size env then
       (case bs_read env address b of
          None \<Rightarrow> Some (False, address, c)
        | Some v \<Rightarrow>
           if v = 0 then Some (True, address, c)
           else (case playback_entry env (address + 2) (set_raw16 (replicate 8 0) 0 v) c b of
                   None \<Rightarrow> None
                 | Some (ok, address1, c1) \<Rightarrow>
                    if ok then playback_loop env fuel address1 c1 b else Some (False, address1, c1)))
     else Some (True, address, c))"

definition playback_log :: "'b wl_env \<Rightarrow> 'b wl \<Rightarrow> (wl_status \<times> 'b wl) option" where
  "playback_log env s =
    (case playback_loop env (backing_size env) (log_start env) (cache s) (store s) of
       None \<Rightarrow> None
     | Some (ok, address, c) \<Rightarrow>
        (let s1 = s\<lparr>cache := c, write_address := address\<rparr>
         in Some (if \<not> ok then consolidate_force env s1 else consolidate_if_needed env s1)))"

section \<open>The interface\<close>

definition wear_leveling_init :: "'b wl_env \<Rightarrow> 'b wl \<Rightarrow> (wl_status \<times> 'b wl) option" where
  "wear_leveling_init env s0 =
    (let s = clear_cache env s0; (ok, b) = bs_init env (store s); s1 = s\<lparr>store := b\<rparr> in
     if \<not> ok then Some (WL_FAILED, clear_cache env s1)
     else case read_consolidated env s1 of
       None \<Rightarrow> None
     | Some (status, s2) \<Rightarrow>
        if status = WL_FAILED then Some (status, clear_cache env s2)
        else (case playback_log env s2 of
                None \<Rightarrow> None
              | Some (status2, s3) \<Rightarrow>
                 if status2 = WL_FAILED then Some (status2, clear_cache env s3) else Some (status2, s3)))"

definition wear_leveling_erase :: "'b wl_env \<Rightarrow> 'b wl \<Rightarrow> wl_status \<times> 'b wl" where
  "wear_leveling_erase env s0 =
    (let (lock, s) = wear_leveling_unlock env s0 in
     if lock = STATUS_FAILURE then (WL_FAILED, snd (wear_leveling_lock env s))
     else let (ret, b) = bs_erase env (store s);
              s1 = clear_cache env (s\<lparr>store := b\<rparr>);
              (ret2, s2) = (if lock = STATUS_SUCCESS
                            then let (l, s2) = wear_leveling_lock env s1 in (ret \<and> l \<noteq> STATUS_FAILURE, s2)
                            else (ret, s1))
          in (if ret2 then WL_SUCCESS else WL_FAILED, s2))"

definition wear_leveling_write :: "'b wl_env \<Rightarrow> u32 \<Rightarrow> u8 list \<Rightarrow> 'b wl \<Rightarrow> (wl_status \<times> 'b wl) option" where
  "wear_leveling_write env address value s =
    (if logical_size env < unat (address + of_nat (length value)) then Some (WL_FAILED, s)
     else case memcpy_at (cache s) (unat address) value of
       None \<Rightarrow> None
     | Some c \<Rightarrow>
        if take (length value) (drop (unat address) (cache s)) = value then Some (WL_SUCCESS, s)
        else let (lock, s1) = wear_leveling_unlock env (s\<lparr>cache := c\<rparr>) in
          if lock = STATUS_FAILURE then Some (WL_FAILED, snd (wear_leveling_lock env s1))
          else let (status, s2) = write_raw env address value s1;
                   (status3, s3) = (case status of
                                      WL_SUCCESS \<Rightarrow> consolidate_if_needed env s2
                                    | _ \<Rightarrow> (status, s2))
               in Some (if lock = STATUS_SUCCESS
                        then let (l, s4) = wear_leveling_lock env s3
                             in (if l = STATUS_FAILURE then WL_FAILED else status3, s4)
                        else (status3, s3)))"

definition wear_leveling_read :: "'b wl_env \<Rightarrow> u32 \<Rightarrow> nat \<Rightarrow> 'b wl \<Rightarrow> (wl_status \<times> u8 list) option" where
  "wear_leveling_read env address len s =
    (if logical_size env < unat (address + of_nat len) then Some (WL_FAILED, [])
     else if length (cache s) < unat address + len then None
     else Some (WL_SUCCESS, take len (drop (unat address) (cache s))))"

end
