(* ===== verification/Wear_Replay.thy ===== *)
theory Wear_Replay
  imports Wear_Leveling
begin

text \<open>
  The write log as a list of entries: what an entry means for the cache, how the code splits a write into entries, and
  that replaying the units of an entry has its meaning.  The driver is known by its interface
  \<open>backing_store\<close>.
\<close>

section \<open>Entries and their meaning\<close>

datatype wl_entry = Multi u32 "u8 list" | Byte u32 u8 | Word01 u32 u16

definition patch :: "u8 list \<Rightarrow> nat \<Rightarrow> u8 list \<Rightarrow> u8 list" where
  "patch c a vs = take a c @ vs @ drop (a + length vs) c"

fun entry_units :: "wl_entry \<Rightarrow> u16 list" where
  "entry_units (Multi a vs) = multibyte_units a vs"
| "entry_units (Byte a v) = [raw16 (make_optimized_64 a v) 0]"
| "entry_units (Word01 a v) = [raw16 (make_word_01 a v) 0]"

fun entry_effect :: "wl_entry \<Rightarrow> u8 list \<Rightarrow> u8 list" where
  "entry_effect (Multi a vs) c = patch c (unat a) vs"
| "entry_effect (Byte a v) c = c[unat a := v]"
| "entry_effect (Word01 a v) c = c[unat a := ucast v, unat a + 1 := 0]"

fun entry_ok :: "nat \<Rightarrow> wl_entry \<Rightarrow> bool" where
  "entry_ok L (Multi a vs) \<longleftrightarrow>
     vs \<noteq> [] \<and> length vs \<le> 5 \<and> unat a < 2 ^ 19 \<and> unat a + length vs \<le> L"
| "entry_ok L (Byte a v) \<longleftrightarrow> unat a < 64 \<and> unat a < L"
| "entry_ok L (Word01 a v) \<longleftrightarrow> even (unat a) \<and> unat a < 16384 \<and> unat a + 1 < L \<and> v \<in> {0, 1}"

function split_write :: "u32 \<Rightarrow> u8 list \<Rightarrow> wl_entry list" where
  "split_write a p =
    (if p = [] then []
     else if 2 \<le> length p \<and> a mod 2 = 0 \<and> a < 16384 \<and>
             (push_bit 8 (ucast (p ! 1)) OR ucast (p ! 0) :: u16) \<in> {0, 1}
     then Word01 a (push_bit 8 (ucast (p ! 1)) OR ucast (p ! 0)) # split_write (a + 2) (drop 2 p)
     else if a < 64 then Byte a (p ! 0) # split_write (a + 1) (drop 1 p)
     else (let n = (if 5 \<le> length p then 5 else length p)
           in Multi a (take n p) # split_write (a + of_nat n) (drop n p)))"
  by pat_completeness auto
termination
  by (relation "measure (\<lambda>(_, p). length p)") (auto split: if_splits)

declare split_write.simps [simp del]

lemma length_patch [simp]: "a + length vs \<le> length c \<Longrightarrow> length (patch c a vs) = length c"
  by (simp add: patch_def)

lemma patch_Nil [simp]: "patch c a [] = c"
  by (simp add: patch_def)

lemma patch_append:
  "a + length vs + length ws \<le> length c \<Longrightarrow> patch (patch c a vs) (a + length vs) ws = patch c a (vs @ ws)"
  by (simp add: patch_def add.assoc add.commute add.left_commute)

lemma patch_one: "a < length c \<Longrightarrow> patch c a [v] = c[a := v]"
  by (simp add: patch_def upd_conv_take_nth_drop)

lemma patch_two: "a + 1 < length c \<Longrightarrow> patch c a [v, w] = c[a := v, a + 1 := w]"
  using patch_append [of a "[v]" "[w]" c] by (simp add: patch_one)

lemma patch_same: "take (length vs) (drop a c) = vs \<Longrightarrow> patch c a vs = c"
  by (metis append_take_drop_id drop_drop patch_def add.commute)

lemma memcpy_patch: "a + length vs \<le> length c \<Longrightarrow> memcpy_at c a vs = Some (patch c a vs)"
  by (simp add: memcpy_at_def patch_def)

lemma length_effect [simp]: "entry_ok (length c) e \<Longrightarrow> length (entry_effect e c) = length c"
  by (cases e) auto

lemma fold_effect_length:
  "\<forall>e \<in> set es. entry_ok L e \<Longrightarrow> length c = L \<Longrightarrow> length (fold entry_effect es c) = L"
  by (induction es arbitrary: c) auto

lemma word01_bytes:
  fixes x y :: u8
  assumes "(push_bit 8 (ucast y) OR ucast x :: u16) \<in> {0, 1}"
  shows "ucast (push_bit 8 (ucast y) OR ucast x :: u16) = x" and "y = 0"
proof -
  let ?v = "push_bit 8 (ucast y) OR ucast x :: u16"
  show "ucast ?v = x"
    by (rule bit_word_eqI) (auto simp: bit_simps)
  have "bit ?v (i + 8) = bit y i" for i
    using bit_u8_high [of x "i + 8"] less_trans [OF bit_u8_high [of y i], of 16]
    by (auto simp: bit_simps)
  moreover have "\<not> bit ?v (i + 8)" for i
    using assms by (auto simp: bit_1_iff)
  ultimately show "y = 0"
    by (intro bit_word_eqI) auto
qed

lemma split_write_meaning:
  assumes "unat a + length p \<le> L" and "L \<le> 2 ^ 19" and "length c = L"
  shows "(\<forall>e \<in> set (split_write a p). entry_ok L e) \<and> fold entry_effect (split_write a p) c = patch c (unat a) p"
  using assms
proof (induction a p arbitrary: c rule: split_write.induct)
  case (1 a p)
  note len = 1(4) and L = 1(5) and c = 1(6)
  let ?w = "push_bit 8 (ucast (p ! 1)) OR ucast (p ! 0) :: u16"
  let ?word = "2 \<le> length p \<and> a mod 2 = 0 \<and> a < 16384 \<and> ?w \<in> {0, 1}"
  have plus: "unat (a + of_nat n) = unat a + n" if "n \<le> length p" for n
    using len L that by (simp add: unat_word_ariths unat_of_nat_u32)
  have step: ?case
    if e: "split_write a p = e # split_write (a + of_nat n) (drop n p)"
      and ok: "entry_ok L e" and n: "n \<le> length p"
      and eff: "entry_effect e c = patch c (unat a) (take n p)"
      and IH: "\<And>c. length c = L \<Longrightarrow>
        (\<forall>e \<in> set (split_write (a + of_nat n) (drop n p)). entry_ok L e) \<and>
        fold entry_effect (split_write (a + of_nat n) (drop n p)) c = patch c (unat (a + of_nat n)) (drop n p)"
    for e n
  proof -
    have "patch (patch c (unat a) (take n p)) (unat a + n) (drop n p) = patch c (unat a) p"
      using patch_append [of "unat a" "take n p" "drop n p" c] n len c by simp
    moreover have "length (patch c (unat a) (take n p)) = L"
      using n len c by simp
    ultimately show ?thesis
      using IH [of "entry_effect e c"] ok eff e c by (simp add: plus [OF n])
  qed
  consider "p = []" | (word) "p \<noteq> []" ?word | (byte) "p \<noteq> []" "\<not> ?word" "a < 64"
    | (multi) "p \<noteq> []" "\<not> ?word" "\<not> a < 64"
    by blast
  then show ?case
  proof cases
    case word
    then obtain x y q where p: "p = x # y # q"
      by (cases p rule: remdups_adj.cases) auto
    have "unat (a mod 2) = unat a mod 2"
      by (simp add: unat_mod_distrib)
    with word have ev: "even (unat a)"
      by auto
    show ?thesis
    proof (rule step [of "Word01 a ?w" 2])
      show "split_write a p = Word01 a ?w # split_write (a + of_nat 2) (drop 2 p)"
        using word by (subst split_write.simps) simp
      show "entry_ok L (Word01 a ?w)"
        using word ev len by (auto simp: p word_less_nat_alt)
      show "entry_effect (Word01 a ?w) c = patch c (unat a) (take 2 p)"
        using word01_bytes [of "p ! 1" "p ! 0"] word len c by (simp add: p patch_two)
    qed (use 1(1) [OF word] L len plus [of 2] word(2) in \<open>simp_all add: p\<close>)
  next
    case byte
    show ?thesis
    proof (rule step [of "Byte a (p ! 0)" 1])
      show "split_write a p = Byte a (p ! 0) # split_write (a + of_nat 1) (drop 1 p)"
        using byte by (subst split_write.simps) simp
      show "entry_ok L (Byte a (p ! 0))"
        using byte len by (cases p) (auto simp: word_less_nat_alt)
      show "entry_effect (Byte a (p ! 0)) c = patch c (unat a) (take 1 p)"
        using byte len c by (cases p) (simp_all add: patch_one)
    qed (use 1(2) [OF byte] L len plus [of 1] byte(1) in \<open>simp_all add: Suc_le_eq\<close>)
  next
    case multi
    let ?n = "if 5 \<le> length p then 5 else length p"
    show ?thesis
    proof (rule step [of "Multi a (take ?n p)" ?n])
      show "split_write a p = Multi a (take ?n p) # split_write (a + of_nat ?n) (drop ?n p)"
        using multi by (subst split_write.simps) (simp only: Let_def if_False if_True simp_thms)
      show "entry_ok L (Multi a (take ?n p))"
      proof -
        have "unat a < 2 ^ 19"
          using multi(1) len L by (cases p) auto
        then show ?thesis using multi len by auto
      qed
    qed (use 1(3) [OF multi refl] L len plus [of ?n] in simp_all)
  qed (simp add: split_write.simps)
qed

text \<open>The code that writes the log appends the units of these entries one after the other.\<close>

lemma append_seq_append:
  "append_seq env (us @ vs) s =
    (let (st, s1) = append_seq env us s in if st \<noteq> WL_SUCCESS then (st, s1) else append_seq env vs s1)"
  by (induction us arbitrary: s) (auto split: prod.splits)

lemma append_seq_one: "append_seq env [u] s = append_raw env u s"
  by (auto split: prod.splits)

lemma write_raw_appends:
  "write_raw env a p s = append_seq env (concat (map entry_units (split_write a p))) s"
proof (induction env a p s rule: write_raw.induct)
  case (1 env a p s)
  let ?w = "push_bit 8 (ucast (p ! 1)) OR ucast (p ! 0) :: u16"
  let ?word = "2 \<le> length p \<and> a mod 2 = 0 \<and> a < 16384 \<and> ?w \<in> {0, 1}"
  define n where "n = (if LOG_ENTRY_MULTIBYTE_MAX_BYTES \<le> length p then LOG_ENTRY_MULTIBYTE_MAX_BYTES else length p)"
  have n5: "(if 5 \<le> length p then 5 else length p) = n"
    by (simp add: n_def LOG_ENTRY_MULTIBYTE_MAX_BYTES_def)
  have step: ?case
    if "split_write a p = e # split_write a' q"
      and "append_seq env (entry_units e) s = (st1, s1)"
      and "write_raw env a p s = (if st1 \<noteq> WL_SUCCESS then (st1, s1) else write_raw env a' q s1)"
      and "st1 = WL_SUCCESS \<Longrightarrow>
        write_raw env a' q s1 = append_seq env (concat (map entry_units (split_write a' q))) s1"
    for e a' q st1 s1
    using that by (simp add: append_seq_append)
  consider "p = []" | (word) "p \<noteq> []" ?word | (byte) "p \<noteq> []" "\<not> ?word" "a < 64"
    | (multi) "p \<noteq> []" "\<not> ?word" "\<not> a < 64"
    by blast
  then show ?case
  proof cases
    case word
    obtain st1 s1 where w: "append_raw env (raw16 (make_word_01 a ?w) 0) s = (st1, s1)" by fastforce
    show ?thesis
    proof (rule step [of "Word01 a ?w" "a + 2" "drop 2 p" st1 s1])
      show "split_write a p = Word01 a ?w # split_write (a + 2) (drop 2 p)"
        using word by (subst split_write.simps) simp
      show "write_raw env a p s = (if st1 \<noteq> WL_SUCCESS then (st1, s1) else write_raw env (a + 2) (drop 2 p) s1)"
        using word w by (subst write_raw.simps) simp
    qed (use w append_seq_one 1(1) [OF word refl w [symmetric] refl] in simp_all)
  next
    case byte
    obtain st1 s1 where w: "append_raw env (raw16 (make_optimized_64 a (p ! 0)) 0) s = (st1, s1)" by fastforce
    show ?thesis
    proof (rule step [of "Byte a (p ! 0)" "a + 1" "drop 1 p" st1 s1])
      show "split_write a p = Byte a (p ! 0) # split_write (a + 1) (drop 1 p)"
        using byte by (subst split_write.simps) simp
      show "write_raw env a p s = (if st1 \<noteq> WL_SUCCESS then (st1, s1) else write_raw env (a + 1) (drop 1 p) s1)"
        using byte w by (subst write_raw.simps) (simp only: if_False if_True simp_thms Let_def prod.case)
    qed (use w append_seq_one 1(2) [OF byte w [symmetric] refl] in simp_all)
  next
    case multi
    obtain st1 s1 where w: "write_raw_multibyte env a (take n p) s = (st1, s1)" by fastforce
    show ?thesis
    proof (rule step [of "Multi a (take n p)" "a + of_nat n" "drop n p" st1 s1])
      show "split_write a p = Multi a (take n p) # split_write (a + of_nat n) (drop n p)"
        using multi by (subst split_write.simps) (simp only: Let_def if_False if_True simp_thms n5)
      show "write_raw env a p s =
          (if st1 \<noteq> WL_SUCCESS then (st1, s1) else write_raw env (a + of_nat n) (drop n p) s1)"
        using multi w
        by (subst write_raw.simps) (simp only: n_def [symmetric] Let_def if_False simp_thms prod.case)
    qed (use w 1(3) [OF multi n_def w [symmetric] refl] in \<open>simp_all add: write_raw_multibyte_def\<close>)
  qed (simp add: write_raw.simps split_write.simps)
qed

section \<open>What the code relies on in a driver\<close>

text \<open>
  \<open>cell b x\<close> is the unit at byte address x of the store.  A failing operation may leave any state;
  an operation that reports success has had its effect.  A unit is written only while it still reads as zero, which is
  what flash memory supports.
\<close>

definition same_cells :: "('b \<Rightarrow> nat \<Rightarrow> u16) \<Rightarrow> nat \<Rightarrow> 'b \<Rightarrow> 'b \<Rightarrow> bool" where
  "same_cells cell n b b' \<longleftrightarrow> (\<forall>x. even x \<longrightarrow> x < n \<longrightarrow> cell b' x = cell b x)"

locale backing_store =
  fixes env :: "'b wl_env" and cell :: "'b \<Rightarrow> nat \<Rightarrow> u16"
  assumes sizes: "logical_size env + 8 < backing_size env" "even (logical_size env)" "logical_size env \<le> 2 ^ 19"
      "even (backing_size env)" "backing_size env < 2 ^ 31"
    and init_cells: "bs_init env b = (ok, b') \<Longrightarrow> same_cells cell (backing_size env) b b'"
    and unlock_cells: "bs_unlock env b = (ok, b') \<Longrightarrow> same_cells cell (backing_size env) b b'"
    and lock_cells: "bs_lock env b = (ok, b') \<Longrightarrow> same_cells cell (backing_size env) b b'"
    and read_cell: "even (unat a) \<Longrightarrow> unat a < backing_size env \<Longrightarrow> bs_read env a b = Some (cell b (unat a))"
    and write_cell: "bs_write env a v b = (True, b') \<Longrightarrow> even (unat a) \<Longrightarrow> unat a < backing_size env \<Longrightarrow>
      cell b (unat a) = 0 \<Longrightarrow> even x \<Longrightarrow> x < backing_size env \<Longrightarrow>
      cell b' x = (if x = unat a then v else cell b x)"
    and erase_cells: "bs_erase env b = (True, b') \<Longrightarrow> even x \<Longrightarrow> x < backing_size env \<Longrightarrow> cell b' x = 0"

section \<open>Replaying one entry\<close>

definition cells_at :: "('b \<Rightarrow> nat \<Rightarrow> u16) \<Rightarrow> 'b \<Rightarrow> nat \<Rightarrow> u16 list \<Rightarrow> bool" where
  "cells_at cell b x us \<longleftrightarrow> (\<forall>i < length us. cell b (x + 2 * i) = us ! i)"

lemma cells_at_Nil [simp]: "cells_at cell b x []"
  by (simp add: cells_at_def)

lemma cells_at_Cons: "cells_at cell b x (u # us) \<longleftrightarrow> cell b x = u \<and> cells_at cell b (x + 2) us"
  by (auto simp: cells_at_def nth_Cons' less_Suc_eq_0_disj)

lemma cells_at_append:
  "cells_at cell b x (us @ vs) \<longleftrightarrow> cells_at cell b x us \<and> cells_at cell b (x + 2 * length us) vs"
  by (induction us arbitrary: x) (auto simp: cells_at_Cons)

lemma raw16_low [simp]: "ucast (raw16 e i) = e ! (2 * i)"
  by (rule bit_word_eqI) (auto simp: raw16_def bit_simps)

lemma raw16_high [simp]: "ucast (drop_bit 8 (raw16 e i)) = e ! (2 * i + 1)"
proof (rule bit_word_eqI)
  fix k assume "k < LENGTH(8)"
  then show "bit (ucast (drop_bit 8 (raw16 e i)) :: u8) k = bit (e ! (2 * i + 1)) k"
    using bit_u8_high [of "e ! (2 * i)" "k + 8"] by (auto simp: raw16_def bit_simps add.commute)
qed

lemma raw16_neq_0: "e ! (2 * i) \<noteq> 0 \<Longrightarrow> raw16 e i \<noteq> 0"
  by (metis raw16_low unsigned_0)

lemma set_raw16_raw16 [simp]:
  "set_raw16 f i (raw16 e i) = f[2 * i := e ! (2 * i), 2 * i + 1 := e ! (2 * i + 1)]"
  by (simp add: set_raw16_def)

lemma first_byte_neq_0:
  "log_entry_get_type e \<noteq> 0 \<Longrightarrow> e ! 0 \<noteq> 0" "multibyte_get_length e \<noteq> 0 \<Longrightarrow> e ! 0 \<noteq> 0"
  by (auto simp: log_entry_get_type_def multibyte_get_length_def)

lemma multibyte_shape:
  assumes "entry_ok L (Multi a vs)"
  obtains m0 m1 m2 where "make_multibyte a (length vs) = [m0, m1, m2, 0, 0, 0, 0, 0]"
    and "\<And>xs. multibyte_get_address (m0 # m1 # m2 # xs) = a"
    and "\<And>xs. log_entry_get_type (m0 # xs) = LOG_ENTRY_TYPE_MULTIBYTE"
    and "\<And>xs. unat (multibyte_get_length (m0 # xs)) = length vs" and "m0 \<noteq> 0"
proof -
  obtain m0 m1 m2 where m: "make_multibyte a (length vs) = [m0, m1, m2, 0, 0, 0, 0, 0]"
    by (simp add: make_multibyte_def)
  have "multibyte_get_address (m0 # m1 # m2 # xs) = a" for xs
    using address_multibyte [of a "length vs"] assms by (simp add: m multibyte_get_address_def)
  moreover have "log_entry_get_type (m0 # xs) = LOG_ENTRY_TYPE_MULTIBYTE" for xs
    using type_multibyte [of a "length vs"] by (simp add: m log_entry_get_type_def)
  moreover have l: "unat (multibyte_get_length (m0 # xs)) = length vs" for xs
    using length_multibyte [of "length vs" a] assms by (simp add: m multibyte_get_length_def)
  moreover have "m0 \<noteq> 0"
    using l [of "[]"] assms by (auto simp: multibyte_get_length_def)
  ultimately show ?thesis
    using that m by blast
qed

lemma entry_units_nonzero: "entry_ok L e \<Longrightarrow> entry_units e = u # us \<Longrightarrow> u \<noteq> 0"
proof (cases e)
  case (Multi a vs)
  assume e: "entry_ok L e" "entry_units e = u # us"
  obtain m0 m1 m2 where "make_multibyte a (length vs) = [m0, m1, m2, 0, 0, 0, 0, 0]" "m0 \<noteq> 0"
    using multibyte_shape e(1) Multi by metis
  then show ?thesis
    using raw16_neq_0 [of _ 0] e(2)
    by (auto simp: Multi multibyte_units_def Let_def)
next
  case (Byte a v)
  assume "entry_units e = u # us"
  then show ?thesis
    using raw16_neq_0 [of "make_optimized_64 a v" 0] first_byte_neq_0(1) [of "make_optimized_64 a v"]
    by (auto simp: Byte type_optimized_64 log_types)
next
  case (Word01 a v)
  assume "entry_units e = u # us"
  then show ?thesis
    using raw16_neq_0 [of "make_word_01 a v" 0] first_byte_neq_0(1) [of "make_word_01 a v"]
    by (auto simp: Word01 type_word_01 log_types)
qed

lemma entry_units_Cons: "\<exists>u us. entry_units e = u # us"
  by (cases e) (auto simp: multibyte_units_def Let_def)

lemma u32_step: "unat a + k < 2 ^ 32 \<Longrightarrow> unat (a + of_nat k :: u32) = unat a + k"
  by (simp add: unat_word_ariths unat_of_nat_u32)

context backing_store
begin

lemma read_at:
  "unat a = x \<Longrightarrow> even x \<Longrightarrow> x < backing_size env \<Longrightarrow> bs_read env a b = Some (cell b x)"
  using read_cell by auto

lemma playback_multibyte_entry:
  assumes ok: "entry_ok (logical_size env) (Multi a vs)"
    and us: "multibyte_units a vs = u # us"
    and cells: "cells_at cell b (unat addr) us"
    and addr: "even (unat addr)" "unat addr + 2 * length us \<le> backing_size env"
    and c: "length c = logical_size env"
  shows "playback_multibyte env addr (set_raw16 (replicate 8 0) 0 u) c b
    = Some (True, addr + of_nat (2 * length us), patch c (unat a) vs)"
proof -
  obtain m0 m1 m2 where m: "make_multibyte a (length vs) = [m0, m1, m2, 0, 0, 0, 0, 0]"
    and adr: "\<And>xs. multibyte_get_address (m0 # m1 # m2 # xs) = a"
    and len: "\<And>xs. unat (multibyte_get_length (m0 # xs)) = length vs"
    using multibyte_shape [OF ok] by metis
  have lens: "\<And>xs k. k < 256 \<Longrightarrow> of_nat k < multibyte_get_length (m0 # xs) \<longleftrightarrow> k < length vs"
    by (simp add: word_less_nat_alt len unat_of_nat_u8)
  note gt = lens [of 1, simplified] lens [of 3, simplified]
  have fit: "unat (a + ucast (multibyte_get_length (m0 # xs)) :: u32) = unat a + length vs" for xs
    using ok sizes by (simp add: unat_word_ariths len)
  have B: "backing_size env < 2 ^ 31" by (rule sizes)
  have step: "unat (addr + 2) = unat addr + 2" if "unat addr + 2 < 2 ^ 31"
    using u32_step [of addr 2] that by simp
  have step2: "unat (addr + 2 + 2) = Suc (Suc (Suc (Suc (unat addr))))" if "unat addr + 4 < 2 ^ 31"
    using u32_step [of addr 4] that by (simp add: add.assoc)
  have rep8: "replicate 8 (0 :: u8) = [0, 0, 0, 0, 0, 0, 0, 0]"
    by (simp add: eval_nat_numeral)
  have n: "vs \<noteq> []" "length vs \<le> 5"
    using ok by auto
  consider x1 where "vs = [x1]" | x1 x2 where "vs = [x1, x2]" | x1 x2 x3 where "vs = [x1, x2, x3]"
    | x1 x2 x3 x4 where "vs = [x1, x2, x3, x4]" | x1 x2 x3 x4 x5 where "vs = [x1, x2, x3, x4, x5]"
    using n by (auto simp: neq_Nil_conv le_Suc_eq length_Suc_conv numeral_eq_Suc)
  note vs = this
  note facts = ok us cells addr B c gt len adr fit step step2 m
  note defs = playback_multibyte_def multibyte_units_def Let_def cells_at_Cons read_at memcpy_patch rep8
  from vs show ?thesis
  proof cases
    case 1
    show ?thesis using facts unfolding 1 by (auto simp: defs)
  next
    case 2
    show ?thesis using facts unfolding 2 by (auto simp: defs)
  next
    case 3
    show ?thesis using facts unfolding 3 by (auto simp: defs)
  next
    case 4
    show ?thesis using facts unfolding 4 by (auto simp: defs)
  next
    case 5
    show ?thesis using facts unfolding 5 by (auto simp: defs)
  qed
qed


lemma unit_of_one:
  assumes "entry_units e = u # us" "entry_ok (logical_size env) e" "cells_at cell b (unat addr) us"
    "even (unat addr)" "unat addr + 2 * length us \<le> backing_size env" "length c = logical_size env"
  shows "playback_entry env addr (set_raw16 (replicate 8 0) 0 u) c b
    = Some (True, addr + of_nat (2 * length us), entry_effect e c)"
proof (cases e)
  case (Multi a vs)
  have "log_entry_get_type (set_raw16 (replicate 8 0) 0 u) = LOG_ENTRY_TYPE_MULTIBYTE"
  proof -
    obtain m0 m1 m2 where "make_multibyte a (length vs) = [m0, m1, m2, 0, 0, 0, 0, 0]"
      and "log_entry_get_type [m0] = LOG_ENTRY_TYPE_MULTIBYTE"
      using multibyte_shape [of "logical_size env" a vs] assms(2) Multi by metis
    then show ?thesis
      using assms(1) by (auto simp: Multi multibyte_units_def Let_def log_entry_get_type_def nth_append)
  qed
  then show ?thesis
    using playback_multibyte_entry [of a vs u us b addr c] assms Multi
    by (simp add: playback_entry_def)
next
  case (Byte a v)
  let ?e = "make_optimized_64 a v"
  have u: "u = raw16 ?e 0" "us = []"
    using assms(1) Byte by auto
  have "log_entry_get_type (set_raw16 (replicate 8 0) 0 u) = log_entry_get_type ?e"
    "optimized_64_get_address (set_raw16 (replicate 8 0) 0 u) = optimized_64_get_address ?e"
    "optimized_64_get_value (set_raw16 (replicate 8 0) 0 u) = optimized_64_get_value ?e"
    by (simp_all add: u log_entry_get_type_def optimized_64_get_address_def optimized_64_get_value_def)
  then show ?thesis
    using assms(2) by (simp add: u Byte playback_entry_def playback_optimized_64_def codec_simps log_types)
next
  case (Word01 a v)
  let ?e = "make_word_01 a v"
  have u: "u = raw16 ?e 0" "us = []"
    using assms(1) Word01 by auto
  have "log_entry_get_type (set_raw16 (replicate 8 0) 0 u) = log_entry_get_type ?e"
    "word_01_get_address (set_raw16 (replicate 8 0) 0 u) = word_01_get_address ?e"
    "word_01_get_value (set_raw16 (replicate 8 0) 0 u) = word_01_get_value ?e"
    by (simp_all add: u log_entry_get_type_def word_01_get_address_def word_01_get_value_def)
  moreover have "unat (a + 1) = unat a + 1"
    using assms(2) u32_step [of a 1] by (simp add: Word01)
  ultimately show ?thesis
    using assms(2) by (auto simp: u Word01 playback_entry_def playback_word_01_def codec_simps log_types)
qed

lemma playback_loop_entries:
  assumes "\<forall>e \<in> set es. entry_ok (logical_size env) e"
    and "cells_at cell b (unat addr) (concat (map entry_units es))"
    and "unat addr + 2 * length (concat (map entry_units es)) = fin"
    and "fin \<le> backing_size env" and "fin < backing_size env \<longrightarrow> cell b fin = 0"
    and "even (unat addr)" and "length c = logical_size env" and "length es < fuel"
  shows "\<exists>addr'. unat addr' = fin \<and> playback_loop env fuel addr c b = Some (True, addr', fold entry_effect es c)"
  using assms
proof (induction es arbitrary: addr c fuel)
  case Nil
  then obtain k where "fuel = Suc k" by (cases fuel) auto
  then show ?case
    using Nil read_at [of addr fin b] by auto
next
  case (Cons e es)
  obtain k where k: "fuel = Suc k" using Cons.prems(8) by (cases fuel) auto
  obtain u us where us: "entry_units e = u # us" using entry_units_Cons by blast
  let ?rest = "concat (map entry_units es)"
  have B: "backing_size env < 2 ^ 31" by (rule sizes)
  have cells: "cell b (unat addr) = u" "cells_at cell b (unat addr + 2) us"
      "cells_at cell b (unat addr + 2 + 2 * length us) ?rest"
    using Cons.prems(2) us by (simp_all add: cells_at_Cons cells_at_append add.assoc)
  have fin: "unat addr + 2 + 2 * length us + 2 * length ?rest = fin"
    using Cons.prems(3) us by simp
  have a1: "unat (addr + 2) = unat addr + 2"
    using u32_step [of addr 2] fin Cons.prems(4) B by simp
  let ?next = "addr + 2 + of_nat (2 * length us)"
  have a2: "unat ?next = unat addr + 2 + 2 * length us"
    using u32_step [of "addr + 2" "2 * length us"] a1 fin Cons.prems(4) B by simp
  have one: "playback_entry env (addr + 2) (set_raw16 (replicate 8 0) 0 u) c b
      = Some (True, ?next, entry_effect e c)"
    using unit_of_one [OF us, of b "addr + 2" c] Cons.prems a1 cells fin by simp
  have "u \<noteq> 0"
    using entry_units_nonzero [OF _ us] Cons.prems(1) by auto
  then have step: "playback_loop env fuel addr c b = playback_loop env k ?next (entry_effect e c) b"
    using k cells(1) read_at [of addr "unat addr" b] Cons.prems(4,6) fin one by simp
  have "length (entry_effect e c) = logical_size env"
    using Cons.prems(1,7) by auto
  then show ?case
    using Cons.IH [of ?next "entry_effect e c" k] Cons.prems a2 fin cells k step by simp
qed

end

end
