(* ===== verification/Wear_Durable.thy ===== *)
theory Wear_Durable
  imports Wear_Replay
begin

text \<open>
  The wear-levelled EEPROM is durable: the backing store always determines the cache, so a restart
  brings back every acknowledged write.  \<open>durable\<close> is that invariant; the operations keep it, and
  any sequence of writes and restarts behaves like a plain byte array.
\<close>

section \<open>The cache a backing store determines\<close>

definition stored_units :: "('b \<Rightarrow> nat \<Rightarrow> u16) \<Rightarrow> 'b \<Rightarrow> nat \<Rightarrow> nat \<Rightarrow> u16 list" where
  "stored_units cell b x n = map (\<lambda>i. cell b (x + 2 * i)) [0..<n]"

definition consolidated :: "'b wl_env \<Rightarrow> ('b \<Rightarrow> nat \<Rightarrow> u16) \<Rightarrow> 'b \<Rightarrow> u8 list" where
  "consolidated env cell b =
    (let bs = bytes_of_units (stored_units cell b 0 (logical_size env div 2))
     in if bytes_of_units (stored_units cell b (logical_size env) 4) = bytes_of_u64 (fnv_64a_buf bs FNV1A_64_INIT)
        then bs else replicate (logical_size env) 0)"

text \<open>The log holds the units us, the write address is behind them and the rest of the store is blank.\<close>

definition log_holds :: "'b wl_env \<Rightarrow> ('b \<Rightarrow> nat \<Rightarrow> u16) \<Rightarrow> 'b wl \<Rightarrow> u16 list \<Rightarrow> bool" where
  "log_holds env cell s us \<longleftrightarrow>
    unat (write_address s) = logical_size env + 8 + 2 * length us \<and>
    unat (write_address s) < backing_size env \<and>
    cells_at cell (store s) (logical_size env + 8) us \<and>
    (\<forall>x. even x \<longrightarrow> unat (write_address s) \<le> x \<longrightarrow> x < backing_size env \<longrightarrow> cell (store s) x = 0)"

definition durable :: "'b wl_env \<Rightarrow> ('b \<Rightarrow> nat \<Rightarrow> u16) \<Rightarrow> 'b wl \<Rightarrow> bool" where
  "durable env cell s \<longleftrightarrow>
    (\<exists>es. (\<forall>e \<in> set es. entry_ok (logical_size env) e) \<and>
      log_holds env cell s (concat (map entry_units es)) \<and>
      fold entry_effect es (consolidated env cell (store s)) = cache s)"

lemma length_bytes_of_units [simp]: "length (bytes_of_units us) = 2 * length us"
  by (induction us) auto

lemma length_units_of_bytes [simp]: "length (units_of_bytes bs) = length bs div 2"
  by (induction bs rule: units_of_bytes.induct) auto

lemma low_high_bytes:
  fixes x y :: u8
  shows "ucast (ucast x OR push_bit 8 (ucast y) :: u16) = x"
    and "ucast (drop_bit 8 (ucast x OR push_bit 8 (ucast y) :: u16)) = y"
  using raw16_low [of "[x, y]" 0] raw16_high [of "[x, y]" 0] by (simp_all add: raw16_def)

lemma bytes_of_units_of_bytes: "even (length bs) \<Longrightarrow> bytes_of_units (units_of_bytes bs) = bs"
  by (induction bs rule: units_of_bytes.induct) (auto simp: low_high_bytes simp del: drop_bit_or)

lemma length_bytes_of_u64 [simp]: "length (bytes_of_u64 x) = 8"
  by (simp add: bytes_of_u64_def)

lemma length_consolidated: "even (logical_size env) \<Longrightarrow> length (consolidated env cell b) = logical_size env"
  by (auto simp: consolidated_def Let_def stored_units_def)

lemma stored_units_cells: "cells_at cell b x us \<Longrightarrow> stored_units cell b x (length us) = us"
  by (auto simp: stored_units_def cells_at_def intro: nth_equalityI)

lemma stored_units_cong:
  "(\<And>i. i < n \<Longrightarrow> cell b' (x + 2 * i) = cell b (x + 2 * i)) \<Longrightarrow> stored_units cell b' x n = stored_units cell b x n"
  by (simp add: stored_units_def)

lemma cells_at_cong:
  "(\<And>i. i < length us \<Longrightarrow> cell b' (x + 2 * i) = cell b (x + 2 * i)) \<Longrightarrow> cells_at cell b' x us = cells_at cell b x us"
  by (simp add: cells_at_def)

context backing_store
begin

abbreviation L :: nat where "L \<equiv> logical_size env"
abbreviation B :: nat where "B \<equiv> backing_size env"

lemma fits: "L + 8 < B" "L < 2 ^ 31" "L + 8 < 2 ^ 31"
  using sizes by auto

lemma log_start_unat: "unat (log_start env) = L + 8"
  using u32_step [of "of_nat L" 8] fits by (simp add: log_start_def unat_of_nat_u32)

lemma consolidated_cong:
  assumes "\<And>x. even x \<Longrightarrow> x < L + 8 \<Longrightarrow> cell b' x = cell b x"
  shows "consolidated env cell b' = consolidated env cell b"
proof -
  have "stored_units cell b' 0 (L div 2) = stored_units cell b 0 (L div 2)"
    by (rule stored_units_cong) (use assms in auto)
  moreover have "stored_units cell b' L 4 = stored_units cell b L 4"
    by (rule stored_units_cong) (use assms sizes in auto)
  ultimately show ?thesis
    by (simp add: consolidated_def)
qed

lemma same_cells_durable:
  assumes "durable env cell s" and "same_cells cell B (store s) b" and "s' = s\<lparr>store := b, unlocked := u\<rparr>"
  shows "durable env cell s'"
proof -
  from assms(1) obtain es where es: "\<forall>e \<in> set es. entry_ok L e"
      "log_holds env cell s (concat (map entry_units es))"
      "fold entry_effect es (consolidated env cell (store s)) = cache s"
    by (auto simp: durable_def)
  have same: "even x \<Longrightarrow> x < B \<Longrightarrow> cell b x = cell (store s) x" for x
    using assms(2) by (simp add: same_cells_def)
  have "consolidated env cell b = consolidated env cell (store s)"
    by (rule consolidated_cong) (use same fits in auto)
  moreover have "log_holds env cell s' (concat (map entry_units es))"
    using es(2) same sizes(2)
    by (auto simp: log_holds_def assms(3) cells_at_def)
  ultimately show ?thesis
    unfolding durable_def using es by (auto simp: assms(3))
qed

lemma read_bulk_stored:
  "even (unat a) \<Longrightarrow> unat a + 2 * n \<le> B \<Longrightarrow> read_bulk env a n b = Some (stored_units cell b (unat a) n)"
proof (induction n arbitrary: a)
  case (Suc n)
  have "unat (a + 2) = unat a + 2"
    using Suc.prems(2) sizes u32_step [of a 2] by simp
  moreover have "[0..<Suc n] = 0 # map Suc [0..<n]"
    by (simp add: map_Suc_upt upt_conv_Cons)
  ultimately show ?case
    using Suc read_cell [of a b] by (simp add: stored_units_def del: upt_Suc)
qed (simp add: stored_units_def)

lemma write_bulk_cells:
  "write_bulk env a us b = (True, b') \<Longrightarrow> even (unat a) \<Longrightarrow> unat a + 2 * length us \<le> B \<Longrightarrow>
   (\<forall>x. even x \<longrightarrow> unat a \<le> x \<longrightarrow> x < unat a + 2 * length us \<longrightarrow> cell b x = 0) \<Longrightarrow>
   cells_at cell b' (unat a) us \<and>
   (\<forall>x. even x \<longrightarrow> x < B \<longrightarrow> (x < unat a \<or> unat a + 2 * length us \<le> x) \<longrightarrow> cell b' x = cell b x)"
proof (induction us arbitrary: a b)
  case (Cons u us)
  obtain b1 where w: "bs_write env a u b = (True, b1)" and rest: "write_bulk env (a + 2) us b1 = (True, b')"
    using Cons.prems(1) by (auto split: prod.splits if_splits)
  have a2: "unat (a + 2) = unat a + 2"
    using Cons.prems(3) sizes u32_step [of a 2] by simp
  have c1: "cell b1 x = (if x = unat a then u else cell b x)" if "even x" "x < B" for x
    by (rule write_cell [OF w]) (use Cons.prems that in auto)
  have "cells_at cell b' (unat (a + 2)) us \<and> (\<forall>x. even x \<longrightarrow> x < B \<longrightarrow>
      (x < unat (a + 2) \<or> unat (a + 2) + 2 * length us \<le> x) \<longrightarrow> cell b' x = cell b1 x)"
    by (rule Cons.IH [OF rest]) (use Cons.prems c1 a2 in auto)
  then show ?case
    using a2 c1 Cons.prems(2,3) by (auto simp: cells_at_Cons)
qed simp

lemma lock_frame:
  "wear_leveling_unlock env s = (l, s') \<Longrightarrow>
   cache s' = cache s \<and> write_address s' = write_address s \<and> same_cells cell B (store s) (store s')"
  "wear_leveling_lock env s = (l, s') \<Longrightarrow>
   cache s' = cache s \<and> write_address s' = write_address s \<and> same_cells cell B (store s) (store s')"
  by (auto simp: wear_leveling_unlock_def wear_leveling_lock_def same_cells_def
      split: prod.splits if_splits dest!: unlock_cells lock_cells)

lemma lock_durable:
  assumes "durable env cell s"
  shows "wear_leveling_unlock env s = (l, s') \<Longrightarrow> durable env cell s'"
    and "wear_leveling_lock env s = (l, s') \<Longrightarrow> durable env cell s'"
proof -
  have "s' = s\<lparr>store := store s', unlocked := unlocked s'\<rparr>"
    if "cache s' = cache s \<and> write_address s' = write_address s"
    using that by (cases s; cases s') simp
  then show "wear_leveling_unlock env s = (l, s') \<Longrightarrow> durable env cell s'"
    "wear_leveling_lock env s = (l, s') \<Longrightarrow> durable env cell s'"
    using same_cells_durable [OF assms] lock_frame by metis+
qed

lemma write_consolidated_ok:
  assumes w: "write_consolidated env s = (st, s')" and "st \<noteq> WL_FAILED" and c: "length (cache s) = L"
    and blank: "\<forall>x. even x \<longrightarrow> x < B \<longrightarrow> cell (store s) x = 0"
  shows "st = WL_CONSOLIDATED \<and> cache s' = cache s \<and> consolidated env cell (store s') = cache s \<and>
    (\<forall>x. even x \<longrightarrow> L + 8 \<le> x \<longrightarrow> x < B \<longrightarrow> cell (store s') x = 0)"
proof -
  obtain l s0 where u: "wear_leveling_unlock env s = (l, s0)"
    by (cases "wear_leveling_unlock env s")
  have s0: "cache s0 = cache s" "\<forall>x. even x \<longrightarrow> x < B \<longrightarrow> cell (store s0) x = 0"
    using lock_frame(1) [OF u] blank by (auto simp: same_cells_def)
  let ?us = "units_of_bytes (cache s)"
  let ?hs = "units_of_bytes (bytes_of_u64 (fnv_64a_buf (cache s) FNV1A_64_INIT))"
  obtain b1 b2 where w1: "write_bulk env 0 ?us (store s0) = (True, b1)"
    and w2: "write_bulk env (of_nat L) ?hs b1 = (True, b2)"
    and st: "st = WL_CONSOLIDATED"
    and s': "s' = (if l = STATUS_SUCCESS then snd (wear_leveling_lock env (s0\<lparr>store := b2\<rparr>)) else s0\<lparr>store := b2\<rparr>)"
    using w assms(2) u s0 by (auto simp: write_consolidated_def Let_def split: prod.splits if_splits)
  have Lw: "unat (of_nat L :: u32) = L"
    using fits by (simp add: unat_of_nat_u32)
  have len: "length ?us = L div 2" "length ?hs = 4" "2 * (L div 2) = L"
    using c sizes(2) by simp_all
  have 1: "cells_at cell b1 0 ?us" "\<And>x. even x \<Longrightarrow> x < B \<Longrightarrow> L \<le> x \<Longrightarrow> cell b1 x = 0"
    using write_bulk_cells [OF w1] s0(2) fits len by auto
  have 2: "cells_at cell b2 L ?hs"
      "\<And>x. even x \<Longrightarrow> x < B \<Longrightarrow> x < L \<or> L + 8 \<le> x \<Longrightarrow> cell b2 x = cell b1 x"
  proof -
    have "\<forall>x. even x \<longrightarrow> L \<le> x \<longrightarrow> x < L + 8 \<longrightarrow> cell b1 x = 0"
      using 1(2) fits by simp
    then show "cells_at cell b2 L ?hs"
      "\<And>x. even x \<Longrightarrow> x < B \<Longrightarrow> x < L \<or> L + 8 \<le> x \<Longrightarrow> cell b2 x = cell b1 x"
      using write_bulk_cells [OF w2, unfolded Lw len(2)] fits(1) sizes(2) by (simp, auto)
  qed
  have "cells_at cell b2 0 ?us"
    using 1(1) 2(2) len fits sizes(2) by (auto simp: cells_at_def)
  then have "stored_units cell b2 0 (L div 2) = ?us" "stored_units cell b2 L 4 = ?hs"
    using stored_units_cells 2(1) len by metis+
  then have cons: "consolidated env cell b2 = cache s"
    using c sizes(2) by (simp add: consolidated_def Let_def bytes_of_units_of_bytes)
  have b': "cache s' = cache s \<and> same_cells cell B b2 (store s')"
  proof -
    obtain l3 s3 where k: "wear_leveling_lock env (s0\<lparr>store := b2\<rparr>) = (l3, s3)"
      by (cases "wear_leveling_lock env (s0\<lparr>store := b2\<rparr>)")
    then have "cache s3 = cache s0 \<and> same_cells cell B b2 (store s3)"
      using lock_frame(2) [OF k] by simp
    then show ?thesis
      using s' s0(1) k by (simp add: same_cells_def)
  qed
  have "consolidated env cell (store s') = cache s"
    using consolidated_cong [of "store s'" b2] b' fits cons by (auto simp: same_cells_def)
  then show ?thesis
    using st b' 1(2) 2(2) by (auto simp: same_cells_def)
qed

lemma consolidate_force_ok:
  assumes "consolidate_force env s = (st, s')" and "st \<noteq> WL_FAILED" and "length (cache s) = L"
  shows "st = WL_CONSOLIDATED \<and> cache s' = cache s \<and> durable env cell s'"
proof -
  obtain b s2 where e: "bs_erase env (store s) = (True, b)"
    and w: "write_consolidated env (s\<lparr>store := b\<rparr>) = (st, s2)"
    and s': "s' = s2\<lparr>write_address := log_start env\<rparr>"
    using assms(1,2) by (auto simp: consolidate_force_def Let_def split: prod.splits if_splits)
  have "st = WL_CONSOLIDATED \<and> cache s2 = cache s \<and> consolidated env cell (store s2) = cache s \<and>
    (\<forall>x. even x \<longrightarrow> L + 8 \<le> x \<longrightarrow> x < B \<longrightarrow> cell (store s2) x = 0)"
    using write_consolidated_ok [OF w assms(2)] erase_cells [OF e] assms(3) by simp
  moreover from this have "durable env cell s'"
    unfolding durable_def log_holds_def
    by (intro exI [of _ "[]"]) (simp add: s' log_start_unat fits)
  ultimately show ?thesis
    by (simp add: s')
qed

text \<open>
  Appending, from a log that holds us: success extends the log and leaves the consolidated bytes alone; a consolidation
  stores the cache.
\<close>

lemma append_raw_ok:
  assumes "append_raw env v s = (st, s')" and "st \<noteq> WL_FAILED" and "log_holds env cell s us"
    and "length (cache s) = L"
  shows "cache s' = cache s \<and>
    (if st = WL_SUCCESS
     then log_holds env cell s' (us @ [v]) \<and> consolidated env cell (store s') = consolidated env cell (store s)
     else durable env cell s')"
proof -
  let ?wa = "unat (write_address s)"
  have wa: "?wa = L + 8 + 2 * length us" "?wa < B" "even ?wa" "cell (store s) ?wa = 0"
    using assms(3) sizes(2) by (auto simp: log_holds_def)
  obtain b where w: "bs_write env (write_address s) v (store s) = (True, b)"
    and f: "consolidate_if_needed env (s\<lparr>store := b, write_address := write_address s + 2\<rparr>) = (st, s')"
    using assms(1,2) by (auto simp: append_raw_def Let_def split: prod.splits if_splits)
  have cell: "even x \<Longrightarrow> x < B \<Longrightarrow> cell b x = (if x = ?wa then v else cell (store s) x)" for x
    using write_cell [OF w] wa by blast
  have wa2: "unat (write_address s + 2) = ?wa + 2"
    using u32_step [of "write_address s" 2] wa sizes(5) by simp
  show ?thesis
  proof (cases "B \<le> ?wa + 2")
    case True
    then have "consolidate_force env (s\<lparr>store := b, write_address := write_address s + 2\<rparr>) = (st, s')"
      using f wa2 by (simp add: consolidate_if_needed_def)
    from consolidate_force_ok [OF this assms(2)] show ?thesis
      using assms(4) by simp
  next
    case False
    then have s': "st = WL_SUCCESS" "s' = s\<lparr>store := b, write_address := write_address s + 2\<rparr>"
      using f wa2 by (auto simp: consolidate_if_needed_def)
    have "cells_at cell b (L + 8) us"
      using assms(3) cell wa sizes(2) by (auto simp: log_holds_def cells_at_def)
    then have "log_holds env cell s' (us @ [v])"
      using assms(3) cell wa wa2 False sizes(2) by (auto simp: log_holds_def s' cells_at_append cells_at_Cons)
    moreover have "consolidated env cell b = consolidated env cell (store s)"
      by (rule consolidated_cong) (use cell wa fits in auto)
    ultimately show ?thesis by (simp add: s')
  qed
qed

lemma append_seq_ok:
  assumes "append_seq env vs s = (st, s')" and "st \<noteq> WL_FAILED" and "log_holds env cell s us"
    and "length (cache s) = L"
  shows "cache s' = cache s \<and>
    (if st = WL_SUCCESS
     then log_holds env cell s' (us @ vs) \<and> consolidated env cell (store s') = consolidated env cell (store s)
     else durable env cell s')"
  using assms
proof (induction vs arbitrary: s us)
  case (Cons v vs)
  obtain st1 s1 where a: "append_raw env v s = (st1, s1)" by (cases "append_raw env v s")
  show ?case
  proof (cases "st1 = WL_SUCCESS")
    case True
    with a Cons.prems(1) have r: "append_seq env vs s1 = (st, s')" by simp
    have "cache s1 = cache s \<and> log_holds env cell s1 (us @ [v]) \<and>
        consolidated env cell (store s1) = consolidated env cell (store s)"
      using append_raw_ok [OF a _ Cons.prems(3,4)] True by simp
    then show ?thesis
      using Cons.IH [OF r Cons.prems(2), of "us @ [v]"] Cons.prems(4) by (auto split: if_splits)
  next
    case False
    then show ?thesis
      using append_raw_ok [OF a _ Cons.prems(3,4)] a Cons.prems(1,2) by auto
  qed
qed auto

lemma write_raw_ok:
  assumes "write_raw env a p s = (st, s')" and "st \<noteq> WL_FAILED" and "log_holds env cell s us"
    and "length (cache s) = L"
  shows "cache s' = cache s \<and>
    (if st = WL_SUCCESS
     then log_holds env cell s' (us @ concat (map entry_units (split_write a p))) \<and>
          consolidated env cell (store s') = consolidated env cell (store s)
     else durable env cell s')"
  by (rule append_seq_ok [OF assms(1) [unfolded write_raw_appends] assms(2-4)])

lemma durable_length: "durable env cell s \<Longrightarrow> length (cache s) = L"
  using fold_effect_length [of _ L] length_consolidated [of env cell "store s"] sizes(2)
  by (metis durable_def)

text \<open>A write within the EEPROM never leaves its buffers, and one that is acknowledged is durable.\<close>

lemma write_step:
  assumes d: "durable env cell s" and nowrap: "unat a + length v < 2 ^ 32"
  shows "\<exists>st s'. wear_leveling_write env a v s = Some (st, s') \<and>
    (st \<noteq> WL_FAILED \<longrightarrow> unat a + length v \<le> L \<and> durable env cell s' \<and> cache s' = patch (cache s) (unat a) v)"
proof -
  have len: "length (cache s) = L" by (rule durable_length [OF d])
  have sum: "unat (a + of_nat (length v)) = unat a + length v"
    using u32_step [OF nowrap] .
  show ?thesis
  proof (cases "unat a + length v \<le> L")
    case False
    then show ?thesis by (simp add: wear_leveling_write_def sum)
  next
    case fit: True
    let ?c = "patch (cache s) (unat a) v"
    have mc: "memcpy_at (cache s) (unat a) v = Some ?c"
      using fit len by (simp add: memcpy_patch)
    show ?thesis
    proof (cases "take (length v) (drop (unat a) (cache s)) = v")
      case True
      then show ?thesis
        using d fit mc sum by (simp add: wear_leveling_write_def patch_same)
    next
      case False
      obtain l s1 where u: "wear_leveling_unlock env (s\<lparr>cache := ?c\<rparr>) = (l, s1)" by fastforce
      obtain st s2 where w: "write_raw env a v s1 = (st, s2)" by fastforce
      obtain st3 s3 where r: "(case st of WL_SUCCESS \<Rightarrow> consolidate_if_needed env s2 | _ \<Rightarrow> (st, s2)) = (st3, s3)"
        by fastforce
      obtain l4 s4 where k: "wear_leveling_lock env s3 = (l4, s4)" by fastforce
      have code: "wear_leveling_write env a v s = Some
        (if l = STATUS_FAILURE then (WL_FAILED, snd (wear_leveling_lock env s1))
         else if l = STATUS_SUCCESS then (if l4 = STATUS_FAILURE then WL_FAILED else st3, s4) else (st3, s3))"
        using fit mc sum False u w r k by (simp add: wear_leveling_write_def)
      have "durable env cell s3 \<and> cache s3 = ?c" if "st3 \<noteq> WL_FAILED"
      proof -
        obtain es where es: "\<forall>e \<in> set es. entry_ok L e" "log_holds env cell s (concat (map entry_units es))"
            "fold entry_effect es (consolidated env cell (store s)) = cache s"
          using d by (auto simp: durable_def)
        have f1: "cache s1 = ?c" "write_address s1 = write_address s" "same_cells cell B (store s) (store s1)"
          using lock_frame(1) [OF u] by auto
        have h1: "log_holds env cell s1 (concat (map entry_units es))"
          using es(2) f1 sizes(2) by (auto simp: log_holds_def same_cells_def cells_at_def)
        have c1: "consolidated env cell (store s1) = consolidated env cell (store s)"
          by (rule consolidated_cong) (use f1(3) fits in \<open>auto simp: same_cells_def\<close>)
        have st: "st \<noteq> WL_FAILED"
          using that r by auto
        have len1: "length (cache s1) = L"
          using f1 len fit by simp
        note W = write_raw_ok [OF w st h1 len1]
        have W2: "durable env cell s2" "cache s2 = ?c"
        proof -
          show "cache s2 = ?c" using W f1 by simp
          have m: "(\<forall>e \<in> set (split_write a v). entry_ok L e) \<and>
              fold entry_effect (split_write a v) (cache s) = ?c"
            using split_write_meaning [of a v L "cache s"] fit sizes(3) len by simp
          show "durable env cell s2"
          proof (cases "st = WL_SUCCESS")
            case True
            then have "log_holds env cell s2 (concat (map entry_units (es @ split_write a v)))"
              "fold entry_effect (es @ split_write a v) (consolidated env cell (store s2)) = cache s2"
              using W c1 es(3) m f1 by simp_all
            then show ?thesis
              unfolding durable_def using es(1) m by (intro exI [of _ "es @ split_write a v"]) auto
          qed (use W in simp)
        qed
        show ?thesis
        proof (cases "st = WL_SUCCESS")
          case True
          have "unat (write_address s2) < B"
            using W True by (simp add: log_holds_def)
          then show ?thesis
            using r True W2 by (simp add: consolidate_if_needed_def)
        next
          case False
          then show ?thesis using r W2 by (cases st) auto
        qed
      qed
      then show ?thesis
        using code fit lock_durable(2) [OF _ k] lock_frame(2) [OF k] by auto
    qed
  qed
qed

text \<open>A restart: the RAM is arbitrary, the store is the one of a durable state.\<close>

lemma init_step:
  assumes d: "durable env cell s" and store: "store s0 = store s"
  shows "\<exists>st s'. wear_leveling_init env s0 = Some (st, s') \<and>
    st = (if fst (bs_init env (store s0)) then WL_SUCCESS else WL_FAILED) \<and>
    (st \<noteq> WL_FAILED \<longrightarrow> durable env cell s' \<and> cache s' = cache s \<and> unlocked s' = unlocked s0)"
proof -
  obtain es where es: "\<forall>e \<in> set es. entry_ok L e" "log_holds env cell s (concat (map entry_units es))"
      "fold entry_effect es (consolidated env cell (store s)) = cache s"
    using d by (auto simp: durable_def)
  let ?us = "concat (map entry_units es)"
  obtain ok b where i: "bs_init env (store s) = (ok, b)" by fastforce
  have same: "even x \<Longrightarrow> x < B \<Longrightarrow> cell b x = cell (store s) x" for x
    using init_cells [OF i] by (simp add: same_cells_def)
  have cons: "consolidated env cell b = consolidated env cell (store s)"
    by (rule consolidated_cong) (use same fits in auto)
  define s1 where "s1 = (clear_cache env s0)\<lparr>store := b\<rparr>"
  have "read_bulk env 0 (L div 2) b = Some (stored_units cell b 0 (L div 2))"
    "read_bulk env (of_nat L) 4 b = Some (stored_units cell b L 4)"
    using read_bulk_stored [of 0 "L div 2" b] read_bulk_stored [of "of_nat L" 4 b] fits sizes(2)
    by (simp_all add: unat_of_nat_u32)
  then have "\<exists>s2. read_consolidated env s1 = Some (WL_SUCCESS, s2) \<and> cache s2 = consolidated env cell b \<and> store s2 = b \<and>
      unlocked s2 = unlocked s0"
    by (cases "bytes_of_units (stored_units cell b L 4) =
          bytes_of_u64 (fnv_64a_buf (bytes_of_units (stored_units cell b 0 (L div 2))) FNV1A_64_INIT)")
      (simp_all add: read_consolidated_def s1_def consolidated_def Let_def clear_cache_def)
  then obtain s2 where s2: "read_consolidated env s1 = Some (WL_SUCCESS, s2)"
      "cache s2 = consolidated env cell b" "store s2 = b" "unlocked s2 = unlocked s0"
    by blast
  have h: "unat (write_address s) = L + 8 + 2 * length ?us" "unat (write_address s) < B"
    "cells_at cell b (L + 8) ?us" "cell b (unat (write_address s)) = 0"
    using es(2) same sizes(2) by (auto simp: log_holds_def cells_at_def)
  have count: "length es \<le> length ?us"
    using entry_units_Cons by (induction es) (auto, metis Suc_le_mono add_Suc length_Cons trans_le_add2)
  obtain wa where wa: "unat wa = unat (write_address s)"
    "playback_loop env B (log_start env) (cache s2) b = Some (True, wa, cache s)"
    using playback_loop_entries [of es b "log_start env" "unat (write_address s)" "cache s2" B]
      es(1,3) h count s2 cons sizes(2) length_consolidated [of env cell b] log_start_unat by auto
  let ?s3 = "s2\<lparr>cache := cache s, write_address := wa\<rparr>"
  have "playback_log env s2 = Some (WL_SUCCESS, ?s3)"
    using wa h(2) s2 by (simp add: playback_log_def consolidate_if_needed_def)
  then have code: "wear_leveling_init env s0 =
      Some (if ok then (WL_SUCCESS, ?s3) else (WL_FAILED, clear_cache env s1))"
    using i s2 store by (simp add: wear_leveling_init_def s1_def [symmetric] Let_def)
      (simp add: clear_cache_def s1_def)
  have "log_holds env cell ?s3 ?us"
    using es(2) same s2 wa sizes(2) by (auto simp: log_holds_def cells_at_def)
  then have "durable env cell ?s3"
    using es cons s2 by (auto simp: durable_def)
  then show ?thesis
    using code i store s2(4) by auto
qed

lemma blank_durable:
  assumes "\<forall>x. even x \<longrightarrow> x < B \<longrightarrow> cell b x = 0"
  shows "durable env cell \<lparr>cache = replicate L 0, write_address = log_start env, unlocked = u, store = b\<rparr>"
proof -
  have "stored_units cell b 0 (L div 2) = replicate (L div 2) 0"
  proof (rule nth_equalityI)
    fix i assume "i < length (stored_units cell b 0 (L div 2))"
    then have "2 * i < B"
      using fits by (simp add: stored_units_def)
    then show "stored_units cell b 0 (L div 2) ! i = replicate (L div 2) 0 ! i"
      using \<open>i < _\<close> assms [rule_format, of "2 * i"] by (simp add: stored_units_def)
  qed (simp add: stored_units_def)
  moreover have "bytes_of_units (replicate n 0) = replicate (2 * n) 0" for n
    by (induction n) auto
  ultimately have "consolidated env cell b = replicate L 0"
    using sizes(2) by (simp add: consolidated_def)
  then show ?thesis
    using assms log_start_unat fits unfolding durable_def log_holds_def
    by (intro exI [of _ "[]"]) simp
qed

end

end
