(* ===== verification/Wear_Live.thy ===== *)
theory Wear_Live
  imports Wear_Durable
begin

text \<open>
  Sequences of writes and restarts.  On every store that keeps the contract a run either reports a
  failure or leaves the EEPROM with exactly the bytes written; on a store whose operations complete while it is unlocked
  (locale \<open>reliable_store\<close>) no write within the EEPROM fails.
\<close>

section \<open>Runs\<close>

datatype wl_call = Wl_Write u32 "u8 list" | Wl_Restart

text \<open>The state at power-on: the store survives, the RAM is cleared by the start-up code.\<close>

definition power_on :: "'b wl_env \<Rightarrow> 'b \<Rightarrow> 'b wl" where
  "power_on env b = \<lparr>cache = replicate (logical_size env) 0, write_address = 0, unlocked = False, store = b\<rparr>"

fun wl_step :: "'b wl_env \<Rightarrow> wl_call \<Rightarrow> 'b wl \<Rightarrow> (wl_status \<times> 'b wl) option" where
  "wl_step env (Wl_Write a v) s = wear_leveling_write env a v s"
| "wl_step env Wl_Restart s = wear_leveling_init env (power_on env (store s))"

text \<open>A run stops at the first call that reports a failure; None is undefined behaviour in a call.\<close>

fun wl_run :: "'b wl_env \<Rightarrow> wl_call list \<Rightarrow> 'b wl \<Rightarrow> (bool \<times> 'b wl) option" where
  "wl_run env [] s = Some (True, s)"
| "wl_run env (c # cs) s =
    (case wl_step env c s of
       None \<Rightarrow> None
     | Some (st, s1) \<Rightarrow> if st = WL_FAILED then Some (False, s1) else wl_run env cs s1)"

text \<open>The specification: an array of bytes that restarts do not change.\<close>

fun eeprom_call :: "wl_call \<Rightarrow> u8 list \<Rightarrow> u8 list" where
  "eeprom_call (Wl_Write a v) c = patch c (unat a) v"
| "eeprom_call Wl_Restart c = c"

text \<open>The end of the write, as a 32-bit sum, does not wrap.\<close>

fun call_ok :: "wl_call \<Rightarrow> bool" where
  "call_ok (Wl_Write a v) \<longleftrightarrow> unat a + length v < 2 ^ 32"
| "call_ok Wl_Restart \<longleftrightarrow> True"

context backing_store
begin

lemma call_step:
  assumes "durable env cell s" and "call_ok c"
  shows "\<exists>st s'. wl_step env c s = Some (st, s') \<and>
    (st \<noteq> WL_FAILED \<longrightarrow> durable env cell s' \<and> cache s' = eeprom_call c (cache s))"
proof (cases c)
  case (Wl_Write a v)
  then show ?thesis using write_step [OF assms(1), of a v] assms(2) by auto
next
  case Wl_Restart
  then show ?thesis using init_step [OF assms(1), of "power_on env (store s)"] by (auto simp: power_on_def)
qed

lemma run_refines:
  assumes "durable env cell s" and "\<forall>c \<in> set cs. call_ok c"
  shows "\<exists>ok s'. wl_run env cs s = Some (ok, s') \<and>
    (ok \<longrightarrow> durable env cell s' \<and> cache s' = fold eeprom_call cs (cache s))"
  using assms
proof (induction cs arbitrary: s)
  case (Cons c cs)
  obtain st s1 where c: "wl_step env c s = Some (st, s1)"
    "st \<noteq> WL_FAILED \<longrightarrow> durable env cell s1 \<and> cache s1 = eeprom_call c (cache s)"
    using call_step [OF Cons.prems(1), of c] Cons.prems(2) by auto
  then show ?case
    using Cons.IH [of s1] Cons.prems(2) by (cases "st = WL_FAILED") auto
qed auto

lemma run_from_blank:
  assumes "\<forall>x. even x \<longrightarrow> x < backing_size env \<longrightarrow> cell b x = 0" and "\<forall>c \<in> set cs. call_ok c"
  shows "\<exists>ok s'. wl_run env (Wl_Restart # cs) (power_on env b) = Some (ok, s') \<and>
    (ok \<longrightarrow> cache s' = fold eeprom_call cs (replicate (logical_size env) 0))"
proof -
  obtain st s1 where i: "wear_leveling_init env (power_on env b) = Some (st, s1)"
    "st \<noteq> WL_FAILED \<longrightarrow> durable env cell s1 \<and> cache s1 = replicate (logical_size env) 0"
    using init_step [OF blank_durable [OF assms(1)], of "power_on env b"] by (auto simp: power_on_def)
  show ?thesis
  proof (cases "st = WL_FAILED")
    case False
    then show ?thesis
      using run_refines [of s1 cs] i assms(2) by (auto simp: power_on_def)
  qed (use i in \<open>auto simp: power_on_def\<close>)
qed

end

section \<open>Stores that do not fail\<close>

locale reliable_store = backing_store env cell
  for env :: "'b wl_env" and cell :: "'b \<Rightarrow> nat \<Rightarrow> u16" +
  fixes writable :: "'b \<Rightarrow> bool"
  assumes init_ok: "fst (bs_init env b)"
    and lock_ok: "fst (bs_lock env b)"
    and unlock_ok: "fst (bs_unlock env b)" "writable (snd (bs_unlock env b))"
    and write_ok: "writable b \<Longrightarrow> even (unat a) \<Longrightarrow> unat a < backing_size env \<Longrightarrow> cell b (unat a) = 0 \<Longrightarrow>
      fst (bs_write env a v b) \<and> writable (snd (bs_write env a v b))"
    and erase_ok: "writable b \<Longrightarrow> fst (bs_erase env b) \<and> writable (snd (bs_erase env b))"
begin

text \<open>The RAM flag is honest: when it says unlocked, the store accepts writes.\<close>

definition honest :: "'b wl \<Rightarrow> bool" where
  "honest s \<longleftrightarrow> (unlocked s \<longrightarrow> writable (store s))"

lemma unlock_live: "honest s \<Longrightarrow> wear_leveling_unlock env s = (l, s') \<Longrightarrow>
    l \<noteq> STATUS_FAILURE \<and> unlocked s' \<and> writable (store s')"
  using unlock_ok [of "store s"]
  by (auto simp: wear_leveling_unlock_def honest_def split: prod.splits if_splits)

lemma lock_live: "wear_leveling_lock env s = (l, s') \<Longrightarrow> l \<noteq> STATUS_FAILURE \<and> \<not> unlocked s'"
  using lock_ok [of "store s"]
  by (auto simp: wear_leveling_lock_def split: prod.splits if_splits)

lemma write_bulk_live:
  "writable b \<Longrightarrow> even (unat a) \<Longrightarrow> unat a + 2 * length us \<le> B \<Longrightarrow>
   (\<forall>x. even x \<longrightarrow> unat a \<le> x \<longrightarrow> x < unat a + 2 * length us \<longrightarrow> cell b x = 0) \<Longrightarrow>
   \<exists>b'. write_bulk env a us b = (True, b') \<and> writable b'"
proof (induction us arbitrary: a b)
  case (Cons u us)
  have "unat a < B" "cell b (unat a) = 0"
    using Cons.prems by auto
  then obtain b1 where w: "bs_write env a u b = (True, b1)" "writable b1"
    using write_ok [of b a u] Cons.prems(1,2) by (cases "bs_write env a u b") auto
  have a2: "unat (a + 2) = unat a + 2"
    using Cons.prems(3) sizes u32_step [of a 2] by simp
  have "cell b1 x = 0" if "even x" "unat a + 2 \<le> x" "x < unat a + 2 * length (u # us)" for x
    using write_cell [OF w(1) Cons.prems(2) \<open>unat a < B\<close> \<open>cell b (unat a) = 0\<close>, of x] Cons.prems(3,4) that
    by simp
  then show ?case
    using Cons.IH [of b1 "a + 2"] w a2 Cons.prems(2,3) by simp
qed simp

lemma consolidate_live:
  assumes "writable (store s)" "unlocked s" "length (cache s) = L" "consolidate_force env s = (st, s')"
  shows "st = WL_CONSOLIDATED \<and> unlocked s' \<and> writable (store s')"
proof -
  obtain b where e: "bs_erase env (store s) = (True, b)" "writable b"
    using erase_ok [OF assms(1)] by (cases "bs_erase env (store s)") auto
  have blank: "even x \<Longrightarrow> x < B \<Longrightarrow> cell b x = 0" for x
    using erase_cells [OF e(1)] by blast
  let ?us = "units_of_bytes (cache s)"
  let ?hs = "units_of_bytes (bytes_of_u64 (fnv_64a_buf (cache s) FNV1A_64_INIT))"
  have len: "2 * length ?us = L" "length ?hs = 4"
    using assms(3) sizes(2) by simp_all
  have Lw: "unat (of_nat L :: u32) = L"
    using fits by (simp add: unat_of_nat_u32)
  have z: "\<forall>x. even x \<longrightarrow> unat (0 :: u32) \<le> x \<longrightarrow> x < unat (0 :: u32) + 2 * length ?us \<longrightarrow> cell b x = 0"
    "unat (0 :: u32) + 2 * length ?us \<le> B"
    using blank len fits by auto
  obtain b1 where w1: "write_bulk env 0 ?us b = (True, b1)" "writable b1"
    using write_bulk_live [OF e(2) _ z(2,1)] by auto
  have "even x \<Longrightarrow> L \<le> x \<Longrightarrow> x < B \<Longrightarrow> cell b1 x = 0" for x
    using write_bulk_cells [OF w1(1) _ z(2,1)] blank len by auto
  then have z2: "\<forall>x. even x \<longrightarrow> unat (of_nat L :: u32) \<le> x \<longrightarrow> x < unat (of_nat L :: u32) + 2 * length ?hs \<longrightarrow>
      cell b1 x = 0" "unat (of_nat L :: u32) + 2 * length ?hs \<le> B" "even (unat (of_nat L :: u32))"
    using fits Lw len sizes(2) by simp_all
  obtain b2 where w2: "write_bulk env (of_nat L) ?hs b1 = (True, b2)" "writable b2"
    using write_bulk_live [OF w1(2) z2(3,2,1)] by auto
  show ?thesis
    using assms(2,4) e w1 w2
    by (auto simp: consolidate_force_def write_consolidated_def wear_leveling_unlock_def Let_def)
qed

lemma append_live:
  assumes "writable (store s)" "unlocked s" "length (cache s) = L" "log_holds env cell s us"
    and "append_raw env v s = (st, s')"
  shows "st \<noteq> WL_FAILED \<and> unlocked s' \<and> writable (store s')"
proof -
  have wa: "even (unat (write_address s))" "unat (write_address s) < B" "cell (store s) (unat (write_address s)) = 0"
    using assms(4) sizes(2) by (auto simp: log_holds_def)
  obtain b where "bs_write env (write_address s) v (store s) = (True, b)" "writable b"
    using write_ok [OF assms(1) wa, of v] by (cases "bs_write env (write_address s) v (store s)") auto
  then show ?thesis
    using consolidate_live [of "s\<lparr>store := b, write_address := write_address s + 2\<rparr>" st s'] assms(2,3,5)
    by (auto simp: append_raw_def consolidate_if_needed_def Let_def split: if_splits)
qed

lemma append_seq_live:
  assumes "writable (store s)" "unlocked s" "length (cache s) = L" "log_holds env cell s us"
    and "append_seq env vs s = (st, s')"
  shows "st \<noteq> WL_FAILED \<and> unlocked s' \<and> writable (store s')"
  using assms
proof (induction vs arbitrary: s us)
  case (Cons v vs)
  obtain st1 s1 where a: "append_raw env v s = (st1, s1)" by fastforce
  have live: "st1 \<noteq> WL_FAILED \<and> unlocked s1 \<and> writable (store s1)"
    using append_live [OF Cons.prems(1-4) a] .
  show ?case
  proof (cases "st1 = WL_SUCCESS")
    case True
    then have "log_holds env cell s1 (us @ [v])" "length (cache s1) = L"
      using append_raw_ok [OF a _ Cons.prems(4,3)] Cons.prems(3) by auto
    then show ?thesis
      using Cons.IH [of s1 "us @ [v]"] live Cons.prems(5) a True by auto
  qed (use live Cons.prems(5) a in auto)
qed auto

lemma write_live:
  assumes d: "durable env cell s" and h: "honest s" and fit: "unat a + length v \<le> L"
  shows "\<exists>st s'. wear_leveling_write env a v s = Some (st, s') \<and> st \<noteq> WL_FAILED \<and> honest s'"
proof -
  have sum: "unat (a + of_nat (length v)) = unat a + length v"
    using u32_step [of a "length v"] fit fits by simp
  have len: "length (cache s) = L" by (rule durable_length [OF d])
  let ?c = "patch (cache s) (unat a) v"
  obtain l s1 where u: "wear_leveling_unlock env (s\<lparr>cache := ?c\<rparr>) = (l, s1)" by fastforce
  obtain st s2 where w: "write_raw env a v s1 = (st, s2)" by fastforce
  obtain st3 s3 where r: "(case st of WL_SUCCESS \<Rightarrow> consolidate_if_needed env s2 | _ \<Rightarrow> (st, s2)) = (st3, s3)"
    by fastforce
  obtain l4 s4 where k: "wear_leveling_lock env s3 = (l4, s4)" by fastforce
  have live1: "l \<noteq> STATUS_FAILURE \<and> unlocked s1 \<and> writable (store s1)"
    by (rule unlock_live [OF _ u]) (use h in \<open>simp add: honest_def\<close>)
  obtain es where es: "log_holds env cell s (concat (map entry_units es))"
    using d by (auto simp: durable_def)
  have f1: "cache s1 = ?c" "write_address s1 = write_address s" "same_cells cell B (store s) (store s1)"
    using lock_frame(1) [OF u] by auto
  have h1: "log_holds env cell s1 (concat (map entry_units es))"
    using es f1 sizes(2) by (auto simp: log_holds_def same_cells_def cells_at_def)
  have len1: "length (cache s1) = L"
    using f1 fit len by simp
  have live2: "st \<noteq> WL_FAILED \<and> unlocked s2 \<and> writable (store s2)"
    using append_seq_live [OF _ _ len1 h1] live1 w by (simp add: write_raw_appends)
  have "st3 \<noteq> WL_FAILED \<and> unlocked s3 \<and> writable (store s3)"
  proof (cases "st = WL_SUCCESS")
    case True
    then show ?thesis
      using write_raw_ok [OF w _ h1 len1] r live2
      by (simp add: consolidate_if_needed_def log_holds_def)
  qed (use r live2 in \<open>cases st; simp\<close>)
  then show ?thesis
    using d h fit len sum u w r k live1 lock_live [OF k]
    by (auto simp: wear_leveling_write_def memcpy_patch honest_def)
qed

lemma init_live:
  assumes "durable env cell s" and "store s0 = store s" and "\<not> unlocked s0"
  shows "\<exists>st s'. wear_leveling_init env s0 = Some (st, s') \<and> st \<noteq> WL_FAILED \<and> honest s'"
  using init_step [OF assms(1,2)] init_ok [of "store s0"] assms(3) by (auto simp: honest_def)

lemma call_live:
  assumes "durable env cell s" and "honest s" and "call_ok c"
    and "\<And>a v. c = Wl_Write a v \<Longrightarrow> unat a + length v \<le> L"
  shows "\<exists>st s'. wl_step env c s = Some (st, s') \<and> st \<noteq> WL_FAILED \<and> honest s' \<and>
    durable env cell s' \<and> cache s' = eeprom_call c (cache s)"
proof -
  obtain st s' where c: "wl_step env c s = Some (st, s')"
    "st \<noteq> WL_FAILED \<longrightarrow> durable env cell s' \<and> cache s' = eeprom_call c (cache s)"
    using call_step [OF assms(1,3)] by blast
  have "st \<noteq> WL_FAILED \<and> honest s'"
  proof (cases c)
    case (Wl_Write a v)
    then show ?thesis
      using write_live [OF assms(1,2), of a v] assms(4) c(1) by auto
  next
    case Wl_Restart
    then show ?thesis
      using init_live [OF assms(1), of "power_on env (store s)"] c(1) by (auto simp: power_on_def)
  qed
  with c show ?thesis by blast
qed

text \<open>On a reliable store every sequence of writes within the EEPROM and restarts succeeds.\<close>

lemma run_live:
  assumes "durable env cell s" and "honest s"
    and "\<forall>a v. Wl_Write a v \<in> set cs \<longrightarrow> unat a + length v \<le> L"
  shows "\<exists>s'. wl_run env cs s = Some (True, s') \<and> durable env cell s' \<and>
    cache s' = fold eeprom_call cs (cache s)"
  using assms
proof (induction cs arbitrary: s)
  case (Cons c cs)
  have ok: "call_ok c"
  proof (cases c)
    case (Wl_Write a v)
    then have "unat a + length v \<le> L" using Cons.prems(3) by auto
    then show ?thesis using Wl_Write fits by simp
  qed simp
  obtain st s1 where c: "wl_step env c s = Some (st, s1)" "st \<noteq> WL_FAILED" "honest s1" "durable env cell s1"
      "cache s1 = eeprom_call c (cache s)"
    using call_live [OF Cons.prems(1,2) ok] Cons.prems(3) by auto
  then show ?case
    using Cons.IH [of s1] Cons.prems(3) by auto
qed simp

end

end
