(* ===== verification/Flash_Driver.thy ===== *)
theory Flash_Driver
  imports Wear_Live
begin

text \<open>
  platforms/chibios/drivers/wear_leveling/wear_leveling_legacy.c, the driver that stores the wear-levelling data in the
  program flash of an STM32, and the runs of the whole stack.  The flash controller is hardware: the driver takes its operations as
  a record, and the locale \<open>flash_chip\<close> states the documented behaviour it relies on.
\<close>

section \<open>The flash controller\<close>

datatype FLASH_Status =
  FLASH_BUSY | FLASH_ERROR_PG | FLASH_ERROR_WRP | FLASH_ERROR_OPT | FLASH_COMPLETE | FLASH_TIMEOUT | FLASH_BAD_ADDRESS

record 'f flash_ops =
  FLASH_Unlock :: "'f \<Rightarrow> 'f"
  FLASH_Lock :: "'f \<Rightarrow> 'f"
  FLASH_ErasePage :: "u32 \<Rightarrow> 'f \<Rightarrow> FLASH_Status \<times> 'f"
  FLASH_ProgramHalfWord :: "u32 \<Rightarrow> u16 \<Rightarrow> 'f \<Rightarrow> FLASH_Status \<times> 'f"
  flash_load :: "u32 \<Rightarrow> 'f \<Rightarrow> u16"

text \<open>The build configuration: where the emulation area is and how large its pages are.\<close>

record legacy_config =
  base_page_address :: u32
  page_size :: nat
  page_count :: nat
  lc_logical_size :: nat
  lc_backing_size :: nat

section \<open>The driver\<close>

definition legacy_init :: "'f \<Rightarrow> bool \<times> 'f" where
  "legacy_init f = (True, f)"

definition legacy_unlock :: "'f flash_ops \<Rightarrow> 'f \<Rightarrow> bool \<times> 'f" where
  "legacy_unlock ops f = (True, FLASH_Unlock ops f)"

definition legacy_lock :: "'f flash_ops \<Rightarrow> 'f \<Rightarrow> bool \<times> 'f" where
  "legacy_lock ops f = (True, FLASH_Lock ops f)"

text \<open>The loop over the pages, from page i on; the flag is \<open>ret\<close>.\<close>

fun legacy_erase_pages :: "'f flash_ops \<Rightarrow> legacy_config \<Rightarrow> nat list \<Rightarrow> bool \<Rightarrow> 'f \<Rightarrow> bool \<times> 'f" where
  "legacy_erase_pages ops cfg [] ret f = (ret, f)"
| "legacy_erase_pages ops cfg (i # is) ret f =
    (let (status, f1) = FLASH_ErasePage ops (base_page_address cfg + of_nat (i * page_size cfg)) f
     in legacy_erase_pages ops cfg is (if status \<noteq> FLASH_COMPLETE then False else ret) f1)"

definition legacy_erase :: "'f flash_ops \<Rightarrow> legacy_config \<Rightarrow> 'f \<Rightarrow> bool \<times> 'f" where
  "legacy_erase ops cfg f = legacy_erase_pages ops cfg [0..<page_count cfg] True f"

definition legacy_write :: "'f flash_ops \<Rightarrow> legacy_config \<Rightarrow> u32 \<Rightarrow> u16 \<Rightarrow> 'f \<Rightarrow> bool \<times> 'f" where
  "legacy_write ops cfg address v f =
    (let offset = base_page_address cfg + address;
         (status, f1) = FLASH_ProgramHalfWord ops offset (NOT v) f
     in (status = FLASH_COMPLETE, f1))"

definition legacy_read :: "'f flash_ops \<Rightarrow> legacy_config \<Rightarrow> u32 \<Rightarrow> 'f \<Rightarrow> u16 option" where
  "legacy_read ops cfg address f =
    (let offset = base_page_address cfg + address in Some (NOT (flash_load ops offset f)))"

definition legacy_env :: "'f flash_ops \<Rightarrow> legacy_config \<Rightarrow> 'f wl_env" where
  "legacy_env ops cfg =
    \<lparr>logical_size = lc_logical_size cfg, backing_size = lc_backing_size cfg,
     bs_init = legacy_init, bs_unlock = legacy_unlock ops, bs_erase = legacy_erase ops cfg,
     bs_write = legacy_write ops cfg, bs_lock = legacy_lock ops, bs_read = legacy_read ops cfg\<rparr>"

text \<open>The unit the code sees at a byte address of the store.\<close>

definition legacy_cell :: "'f flash_ops \<Rightarrow> legacy_config \<Rightarrow> 'f \<Rightarrow> nat \<Rightarrow> u16" where
  "legacy_cell ops cfg f x = NOT (flash_load ops (base_page_address cfg + of_nat x) f)"

section \<open>The chip behaves as documented\<close>

text \<open>
  A completed half-word program of a blank half-word stores the data and nothing else changes; a completed page
  erase blanks the page and leaves the other pages; locking does not change the memory.  An operation that does not
  complete may leave any memory.
\<close>

locale flash_chip =
  fixes ops :: "'f flash_ops" and cfg :: legacy_config
  assumes layout: "lc_logical_size cfg + 8 < lc_backing_size cfg" "even (lc_logical_size cfg)"
      "lc_logical_size cfg \<le> 2 ^ 19" "even (lc_backing_size cfg)" "lc_backing_size cfg < 2 ^ 31"
      "lc_backing_size cfg \<le> page_count cfg * page_size cfg" "page_count cfg * page_size cfg < 2 ^ 31"
    and unlock_mem: "flash_load ops a (FLASH_Unlock ops f) = flash_load ops a f"
    and lock_mem: "flash_load ops a (FLASH_Lock ops f) = flash_load ops a f"
    and program_mem: "FLASH_ProgramHalfWord ops a v f = (FLASH_COMPLETE, f') \<Longrightarrow> flash_load ops a f = 0xFFFF \<Longrightarrow>
      flash_load ops y f' = (if y = a then v else flash_load ops y f)"
    and erase_mem: "FLASH_ErasePage ops (base_page_address cfg + of_nat (i * page_size cfg)) f = (FLASH_COMPLETE, f') \<Longrightarrow>
      i < page_count cfg \<Longrightarrow> x < page_count cfg * page_size cfg \<Longrightarrow>
      flash_load ops (base_page_address cfg + of_nat x) f' =
      (if i * page_size cfg \<le> x \<and> x < (i + 1) * page_size cfg then 0xFFFF
       else flash_load ops (base_page_address cfg + of_nat x) f)"
begin

lemma erase_pages_false: "legacy_erase_pages ops cfg is False f = (r, f') \<Longrightarrow> \<not> r"
  by (induction "is" arbitrary: f) (auto split: prod.splits if_splits)

lemma erase_pages_blank:
  assumes "legacy_erase_pages ops cfg is True f = (True, f')" and "\<forall>i \<in> set is. i < page_count cfg"
    and "x < page_count cfg * page_size cfg"
    and "x div page_size cfg \<in> set is \<or> flash_load ops (base_page_address cfg + of_nat x) f = 0xFFFF"
  shows "flash_load ops (base_page_address cfg + of_nat x) f' = 0xFFFF"
  using assms
proof (induction "is" arbitrary: f)
  case (Cons i "is")
  obtain f1 where e: "FLASH_ErasePage ops (base_page_address cfg + of_nat (i * page_size cfg)) f = (FLASH_COMPLETE, f1)"
    and r: "legacy_erase_pages ops cfg is True f1 = (True, f')"
    using Cons.prems(1) erase_pages_false by (fastforce split: prod.splits if_splits)
  have pos: "0 < page_size cfg"
    using Cons.prems(3) by (cases "page_size cfg") auto
  have "i * page_size cfg \<le> x \<and> x < (i + 1) * page_size cfg \<longleftrightarrow> x div page_size cfg = i"
    using pos by (metis add.commute div_le_mono div_less_iff_less_mult div_mult_self_is_m le_antisym
        less_Suc_eq_le less_eq_div_iff_mult_less_eq linorder_not_less plus_1_eq_Suc order_refl)
  then show ?case
    using Cons.IH [OF r] Cons.prems(2-4) erase_mem [OF e] by auto
qed simp

lemma not_blank: "NOT v = (0 :: u16) \<longleftrightarrow> v = 0xFFFF"
proof
  assume "NOT v = 0"
  then have "NOT (NOT v) = NOT 0" by simp
  then show "v = 0xFFFF" by simp
qed simp

lemma offset_inj: "x < lc_backing_size cfg \<Longrightarrow> y < lc_backing_size cfg \<Longrightarrow>
    base_page_address cfg + of_nat x = base_page_address cfg + of_nat y \<longleftrightarrow> x = y"
proof -
  assume "x < lc_backing_size cfg" "y < lc_backing_size cfg"
  then have "of_nat x = (of_nat y :: u32) \<longleftrightarrow> x = y"
    using layout(5) by (simp add: word_unat_eq_iff unat_of_nat_u32)
  then show ?thesis by (simp only: add_left_cancel)
qed

end

sublocale flash_chip \<subseteq> legacy: backing_store "legacy_env ops cfg" "legacy_cell ops cfg"
proof
  show "bs_init (legacy_env ops cfg) b = (ok, b') \<Longrightarrow>
      same_cells (legacy_cell ops cfg) (backing_size (legacy_env ops cfg)) b b'" for b ok b'
    by (auto simp: legacy_env_def legacy_init_def same_cells_def)
  show "bs_unlock (legacy_env ops cfg) b = (ok, b') \<Longrightarrow>
      same_cells (legacy_cell ops cfg) (backing_size (legacy_env ops cfg)) b b'" for b ok b'
    by (auto simp: legacy_env_def legacy_unlock_def same_cells_def legacy_cell_def unlock_mem)
  show "bs_lock (legacy_env ops cfg) b = (ok, b') \<Longrightarrow>
      same_cells (legacy_cell ops cfg) (backing_size (legacy_env ops cfg)) b b'" for b ok b'
    by (auto simp: legacy_env_def legacy_lock_def same_cells_def legacy_cell_def lock_mem)
  show "bs_read (legacy_env ops cfg) a b = Some (legacy_cell ops cfg b (unat a))" for a b
    by (simp add: legacy_env_def legacy_read_def legacy_cell_def)
next
  fix a v b b' x
  assume w: "bs_write (legacy_env ops cfg) a v b = (True, b')"
    and a: "even (unat a)" "unat a < backing_size (legacy_env ops cfg)" "legacy_cell ops cfg b (unat a) = 0"
    and x: "even x" "x < backing_size (legacy_env ops cfg)"
  have p: "FLASH_ProgramHalfWord ops (base_page_address cfg + a) (NOT v) b = (FLASH_COMPLETE, b')"
    using w by (auto simp: legacy_env_def legacy_write_def Let_def split: prod.splits)
  have "flash_load ops (base_page_address cfg + a) b = 0xFFFF"
    using a(3) by (simp add: legacy_cell_def not_blank)
  from program_mem [OF p this] show "legacy_cell ops cfg b' x = (if x = unat a then v else legacy_cell ops cfg b x)"
    using offset_inj [of x "unat a"] a(2) x by (auto simp: legacy_cell_def legacy_env_def)
next
  fix b b' x
  assume e: "bs_erase (legacy_env ops cfg) b = (True, b')" and x: "x < backing_size (legacy_env ops cfg)"
  have "x < page_count cfg * page_size cfg"
    using x layout(6) by (simp add: legacy_env_def)
  moreover from this have "x div page_size cfg < page_count cfg"
    by (metis less_mult_imp_div_less)
  ultimately show "legacy_cell ops cfg b' x = 0"
    using erase_pages_blank [of "[0..<page_count cfg]" b b' x] e
    by (simp add: legacy_cell_def not_blank legacy_env_def legacy_erase_def)
qed (use layout in \<open>simp_all add: legacy_env_def\<close>)

section \<open>A chip that completes its operations\<close>

text \<open>
  While the controller is unlocked, programming a blank half-word and erasing a page complete; the page addresses the
  driver passes are those of its emulation area.
\<close>

locale healthy_chip = flash_chip ops cfg for ops :: "'f flash_ops" and cfg :: legacy_config +
  fixes is_open :: "'f \<Rightarrow> bool"
  assumes unlock_opens: "is_open (FLASH_Unlock ops f)"
    and program_ok: "is_open f \<Longrightarrow> flash_load ops (base_page_address cfg + of_nat x) f = 0xFFFF \<Longrightarrow>
      x < page_count cfg * page_size cfg \<Longrightarrow>
      fst (FLASH_ProgramHalfWord ops (base_page_address cfg + of_nat x) v f) = FLASH_COMPLETE \<and>
      is_open (snd (FLASH_ProgramHalfWord ops (base_page_address cfg + of_nat x) v f))"
    and erase_ok: "is_open f \<Longrightarrow> i < page_count cfg \<Longrightarrow>
      fst (FLASH_ErasePage ops (base_page_address cfg + of_nat (i * page_size cfg)) f) = FLASH_COMPLETE \<and>
      is_open (snd (FLASH_ErasePage ops (base_page_address cfg + of_nat (i * page_size cfg)) f))"
begin

lemma erase_pages_ok:
  "is_open f \<Longrightarrow> \<forall>i \<in> set is. i < page_count cfg \<Longrightarrow>
   fst (legacy_erase_pages ops cfg is True f) \<and> is_open (snd (legacy_erase_pages ops cfg is True f))"
proof (induction "is" arbitrary: f)
  case (Cons i "is")
  then obtain f1 where "FLASH_ErasePage ops (base_page_address cfg + of_nat (i * page_size cfg)) f = (FLASH_COMPLETE, f1)"
    "is_open f1"
    using erase_ok [of f i] by (cases "FLASH_ErasePage ops (base_page_address cfg + of_nat (i * page_size cfg)) f") auto
  then show ?case using Cons by simp
qed simp

end

sublocale healthy_chip \<subseteq> live: reliable_store "legacy_env ops cfg" "legacy_cell ops cfg" is_open
proof
  fix b v and a :: u32
  assume a: "is_open b" "unat a < backing_size (legacy_env ops cfg)" "legacy_cell ops cfg b (unat a) = 0"
  have "flash_load ops (base_page_address cfg + of_nat (unat a)) b = 0xFFFF" "unat a < page_count cfg * page_size cfg"
    using a layout(6) by (simp_all add: legacy_cell_def not_blank legacy_env_def)
  then show "fst (bs_write (legacy_env ops cfg) a v b) \<and> is_open (snd (bs_write (legacy_env ops cfg) a v b))"
    using program_ok [OF a(1), of "unat a" "NOT v"]
    by (auto simp: legacy_env_def legacy_write_def Let_def split: prod.split)
next
  fix b assume "is_open b"
  then show "fst (bs_erase (legacy_env ops cfg) b) \<and> is_open (snd (bs_erase (legacy_env ops cfg) b))"
    using erase_pages_ok [of b "[0..<page_count cfg]"] by (simp add: legacy_env_def legacy_erase_def)
qed (simp_all add: legacy_env_def legacy_init_def legacy_lock_def legacy_unlock_def unlock_opens)

section \<open>A flash controller\<close>

text \<open>
  A memory of half-words behind a lock bit.  Programming needs the lock open and a blank half-word; an attempt with
  the lock closed ends with a protection error, one on a programmed half-word with a programming error.
\<close>

record nor_flash =
  nor_mem :: "u32 \<Rightarrow> u16"
  nor_locked :: bool

definition nor_program :: "u32 \<Rightarrow> u16 \<Rightarrow> nor_flash \<Rightarrow> FLASH_Status \<times> nor_flash" where
  "nor_program a v f =
    (if nor_locked f then (FLASH_ERROR_WRP, f)
     else if nor_mem f a \<noteq> 0xFFFF then (FLASH_ERROR_PG, f)
     else (FLASH_COMPLETE, f\<lparr>nor_mem := (nor_mem f)(a := v)\<rparr>))"

definition nor_erase :: "nat \<Rightarrow> u32 \<Rightarrow> nor_flash \<Rightarrow> FLASH_Status \<times> nor_flash" where
  "nor_erase sz a f =
    (if nor_locked f then (FLASH_ERROR_WRP, f)
     else (FLASH_COMPLETE, f\<lparr>nor_mem := (\<lambda>x. if unat (x - a) < sz then 0xFFFF else nor_mem f x)\<rparr>))"

definition nor_ops :: "nat \<Rightarrow> nor_flash flash_ops" where
  "nor_ops sz =
    \<lparr>FLASH_Unlock = (\<lambda>f. f\<lparr>nor_locked := False\<rparr>), FLASH_Lock = (\<lambda>f. f\<lparr>nor_locked := True\<rparr>),
     FLASH_ErasePage = nor_erase sz, FLASH_ProgramHalfWord = nor_program,
     flash_load = (\<lambda>a f. nor_mem f a)\<rparr>"

text \<open>The configuration of an STM32F042: two pages of 1 KiB, an EEPROM of 1 KiB.\<close>

definition f042_config :: legacy_config where
  "f042_config = \<lparr>base_page_address = 0x08007800, page_size = 1024, page_count = 2,
     lc_logical_size = 1024, lc_backing_size = 2048\<rparr>"

text \<open>An STM32F303 with an EEPROM large enough for the dynamic keymap: two pages of 2 KiB, an EEPROM of 2 KiB.\<close>

definition f303_config :: legacy_config where
  "f303_config = \<lparr>base_page_address = 0x0803F000, page_size = 2048, page_count = 2,
     lc_logical_size = 2048, lc_backing_size = 4096\<rparr>"

lemma page_distance:
  assumes "x < 2 * n" and "i < 2" and "n < 65536"
  shows "unat ((b + of_nat x) - (b + of_nat (i * n)) :: u32) < n \<longleftrightarrow> i * n \<le> x \<and> x < (i + 1) * n"
proof -
  have "(b + of_nat x) - (b + of_nat (i * n)) = (of_nat x - of_nat (i * n) :: u32)"
    by simp
  moreover have "i = 0 \<or> i = 1" using assms(2) by linarith
  then have "unat (of_nat x :: u32) = x" "unat (of_nat (i * n) :: u32) = i * n"
    using assms(1,3) by (auto simp: unat_of_nat_u32 simp del: of_nat_mult)
  ultimately show ?thesis
    using assms \<open>i = 0 \<or> i = 1\<close> by (auto simp: unat_sub_if' simp del: of_nat_mult)
qed

interpretation f042: healthy_chip "nor_ops 1024" f042_config "\<lambda>f. \<not> nor_locked f"
proof
  fix i f f' x
  assume "FLASH_ErasePage (nor_ops 1024) (base_page_address f042_config + of_nat (i * page_size f042_config)) f =
      (FLASH_COMPLETE, f')"
    and "i < page_count f042_config" and "x < page_count f042_config * page_size f042_config"
  then show "flash_load (nor_ops 1024) (base_page_address f042_config + of_nat x) f' =
      (if i * page_size f042_config \<le> x \<and> x < (i + 1) * page_size f042_config then 0xFFFF
       else flash_load (nor_ops 1024) (base_page_address f042_config + of_nat x) f)"
    using page_distance [of x 1024 i "0x08007800"]
    by (auto simp: nor_ops_def nor_erase_def f042_config_def simp del: of_nat_mult split: if_splits)
qed (auto simp: nor_ops_def nor_program_def nor_erase_def f042_config_def split: if_splits)

interpretation f303: healthy_chip "nor_ops 2048" f303_config "\<lambda>f. \<not> nor_locked f"
proof
  fix i f f' x
  assume "FLASH_ErasePage (nor_ops 2048) (base_page_address f303_config + of_nat (i * page_size f303_config)) f =
      (FLASH_COMPLETE, f')"
    and "i < page_count f303_config" and "x < page_count f303_config * page_size f303_config"
  then show "flash_load (nor_ops 2048) (base_page_address f303_config + of_nat x) f' =
      (if i * page_size f303_config \<le> x \<and> x < (i + 1) * page_size f303_config then 0xFFFF
       else flash_load (nor_ops 2048) (base_page_address f303_config + of_nat x) f)"
    using page_distance [of x 2048 i "0x0803F000"]
    by (auto simp: nor_ops_def nor_erase_def f303_config_def simp del: of_nat_mult split: if_splits)
qed (auto simp: nor_ops_def nor_program_def nor_erase_def f303_config_def split: if_splits)

section \<open>Runs on a flash controller\<close>

context flash_chip
begin

lemma blank_run:
  assumes "\<forall>x < lc_backing_size cfg. flash_load ops (base_page_address cfg + of_nat x) f = 0xFFFF"
    and "\<forall>c \<in> set cs. call_ok c"
  shows "\<exists>ok s'. wl_run (legacy_env ops cfg) (Wl_Restart # cs) (power_on (legacy_env ops cfg) f) = Some (ok, s') \<and>
    (ok \<longrightarrow> cache s' = fold eeprom_call cs (replicate (lc_logical_size cfg) 0))"
proof -
  have "\<forall>x. even x \<longrightarrow> x < backing_size (legacy_env ops cfg) \<longrightarrow> legacy_cell ops cfg f x = 0"
    using assms(1) by (simp add: legacy_cell_def legacy_env_def)
  from legacy.run_from_blank [OF this assms(2)] show ?thesis
    by (simp add: legacy_env_def)
qed

end

context healthy_chip
begin

lemma blank_run_live:
  assumes "\<forall>x < lc_backing_size cfg. flash_load ops (base_page_address cfg + of_nat x) f = 0xFFFF"
    and fit: "\<forall>a v. Wl_Write a v \<in> set cs \<longrightarrow> unat a + length v \<le> lc_logical_size cfg"
  shows "\<exists>s'. wl_run (legacy_env ops cfg) (Wl_Restart # cs) (power_on (legacy_env ops cfg) f) = Some (True, s') \<and>
    cache s' = fold eeprom_call cs (replicate (lc_logical_size cfg) 0)"
proof -
  have blank: "\<forall>x. even x \<longrightarrow> x < backing_size (legacy_env ops cfg) \<longrightarrow> legacy_cell ops cfg f x = 0"
    using assms(1) by (simp add: legacy_cell_def legacy_env_def)
  let ?s0 = "\<lparr>cache = replicate (lc_logical_size cfg) 0, write_address = log_start (legacy_env ops cfg),
      unlocked = False, store = f\<rparr>"
  have "durable (legacy_env ops cfg) (legacy_cell ops cfg) ?s0"
    using legacy.blank_durable [OF blank, of False] by (simp add: legacy_env_def)
  moreover have "live.honest ?s0"
    by (simp add: live.honest_def)
  moreover have "\<forall>a v. Wl_Write a v \<in> set (Wl_Restart # cs) \<longrightarrow> unat a + length v \<le> logical_size (legacy_env ops cfg)"
    using fit by (simp add: legacy_env_def)
  ultimately obtain s' where "wl_run (legacy_env ops cfg) (Wl_Restart # cs) ?s0 = Some (True, s')"
    "cache s' = fold eeprom_call (Wl_Restart # cs) (cache ?s0)"
    using live.run_live by blast
  then show ?thesis
    by (simp add: power_on_def)
qed

end

section \<open>Properties\<close>

text \<open>
  C4.  Durability.  On any flash controller that keeps its documented contract, also one whose operations may fail,
  a run of writes and restarts from an erased area is never undefined, and unless a call reports a failure the EEPROM
  holds exactly the bytes written, restarts included.
\<close>

theorem legacy_run_durable:
  assumes "flash_chip ops cfg"
    and "\<forall>x < lc_backing_size cfg. flash_load ops (base_page_address cfg + of_nat x) f = 0xFFFF"
    and "\<forall>c \<in> set cs. call_ok c"
  shows "\<exists>ok s'. wl_run (legacy_env ops cfg) (Wl_Restart # cs) (power_on (legacy_env ops cfg) f) = Some (ok, s') \<and>
    (ok \<longrightarrow> cache s' = fold eeprom_call cs (replicate (lc_logical_size cfg) 0))"
  using assms(2,3) by (rule flash_chip.blank_run [OF assms(1)])

theorem legacy_run_durable_witness:
  "\<exists>ok s'. wl_run (legacy_env (nor_ops 1024) f042_config)
      [Wl_Restart, Wl_Write 100 [1, 2, 3], Wl_Restart, Wl_Write 64 [1, 0]]
      (power_on (legacy_env (nor_ops 1024) f042_config) \<lparr>nor_mem = (\<lambda>x. 0xFFFF), nor_locked = True\<rparr>) = Some (ok, s') \<and>
    (ok \<longrightarrow> cache s' = fold eeprom_call [Wl_Write 100 [1, 2, 3], Wl_Restart, Wl_Write 64 [1, 0]]
      (replicate (lc_logical_size f042_config) 0))"
  by (rule legacy_run_durable [OF f042.flash_chip_axioms]) (simp_all add: nor_ops_def)

text \<open>
  C5.  Availability.  On a controller that completes its operations while it is unlocked, every run of writes within the
  EEPROM and restarts succeeds, whatever consolidations it forces, and leaves exactly the bytes written.
\<close>

theorem legacy_run_live:
  assumes "healthy_chip ops cfg is_open"
    and "\<forall>x < lc_backing_size cfg. flash_load ops (base_page_address cfg + of_nat x) f = 0xFFFF"
    and "\<forall>a v. Wl_Write a v \<in> set cs \<longrightarrow> unat a + length v \<le> lc_logical_size cfg"
  shows "\<exists>s'. wl_run (legacy_env ops cfg) (Wl_Restart # cs) (power_on (legacy_env ops cfg) f) = Some (True, s') \<and>
    cache s' = fold eeprom_call cs (replicate (lc_logical_size cfg) 0)"
  using assms(2,3) by (rule healthy_chip.blank_run_live [OF assms(1)])

theorem legacy_run_live_witness:
  "\<exists>s'. wl_run (legacy_env (nor_ops 1024) f042_config)
      [Wl_Restart, Wl_Write 1000 [9, 8, 7, 6, 5, 4], Wl_Write 2 [1], Wl_Restart]
      (power_on (legacy_env (nor_ops 1024) f042_config) \<lparr>nor_mem = (\<lambda>x. 0xFFFF), nor_locked = True\<rparr>) = Some (True, s') \<and>
    cache s' = fold eeprom_call [Wl_Write 1000 [9, 8, 7, 6, 5, 4], Wl_Write 2 [1], Wl_Restart]
      (replicate (lc_logical_size f042_config) 0)"
  by (rule legacy_run_live [OF f042.healthy_chip_axioms]) (auto simp: nor_ops_def f042_config_def)

text \<open>
  Round trip of the write log.  Every entry the code builds is recognised by the type discriminator, and the accessors
  give back the address, length and value it was built from.
\<close>

theorem log_entry_roundtrip:
  assumes "unat a < 2 ^ 19" and "n < 8" and "unat b < 64" and "even (unat w)" and "unat w < 16384"
  shows "log_entry_get_type (make_multibyte a n) = LOG_ENTRY_TYPE_MULTIBYTE \<and>
    multibyte_get_address (make_multibyte a n) = a \<and> unat (multibyte_get_length (make_multibyte a n)) = n \<and>
    log_entry_get_type (make_optimized_64 b v) = LOG_ENTRY_TYPE_OPTIMIZED_64 \<and>
    optimized_64_get_address (make_optimized_64 b v) = b \<and> optimized_64_get_value (make_optimized_64 b v) = v \<and>
    log_entry_get_type (make_word_01 w u) = LOG_ENTRY_TYPE_WORD_01 \<and>
    word_01_get_address (make_word_01 w u) = w \<and>
    word_01_get_value (make_word_01 w u) = (if u = 0 then 0 else 1)"
  using assms by (simp add: codec_simps)

theorem log_entry_roundtrip_witness:
  "log_entry_get_type (make_multibyte 0x7FFFF 5) = LOG_ENTRY_TYPE_MULTIBYTE \<and>
   multibyte_get_address (make_multibyte 0x7FFFF 5) = 0x7FFFF \<and>
   word_01_get_address (make_word_01 0x3FFE 1) = 0x3FFE"
  using log_entry_roundtrip [of "0x7FFFF" 5 63 "0x3FFE" 200 1] by simp

text \<open>
  C40.  A write whose end wraps around 32 bits passes the bounds check of \<open>wear_leveling_write\<close> although it starts
  outside the EEPROM, and goes on to compare memory outside the cache.
\<close>

theorem wear_leveling_write_wrap:
  assumes "length (cache s) \<le> unat a" and "2 ^ 32 \<le> unat a + length v" and "length v < 2 ^ 32"
    and "unat a + length v \<le> 2 ^ 32 + logical_size env"
  shows "unat (a + of_nat (length v)) \<le> logical_size env \<and> wear_leveling_write env a v s = None"
proof -
  have "unat a < 2 ^ 32" by simp
  then have "unat a + length v - 2 ^ 32 < 2 ^ 32"
    using assms(3) by linarith
  then have "unat (a + of_nat (length v)) = unat a + length v - 2 ^ 32"
    using assms(2,3) by (simp add: unat_word_ariths unat_of_nat_u32 le_mod_geq)
  then show ?thesis
    using assms by (cases v) (auto simp: wear_leveling_write_def memcpy_at_def)
qed

theorem wear_leveling_write_wrap_witness:
  "wear_leveling_write (legacy_env (nor_ops 1024) f042_config) 0xFFFFFFFF [1, 2]
     (power_on (legacy_env (nor_ops 1024) f042_config) \<lparr>nor_mem = (\<lambda>x. 0xFFFF), nor_locked = True\<rparr>) = None"
  using wear_leveling_write_wrap [of
      "power_on (legacy_env (nor_ops 1024) f042_config) \<lparr>nor_mem = (\<lambda>x. 0xFFFF), nor_locked = True\<rparr>"
      "0xFFFFFFFF" "[1, 2]" "legacy_env (nor_ops 1024) f042_config"]
  by (simp add: power_on_def legacy_env_def f042_config_def)

end
