(* ===== verification/Eeprom.thy ===== *)
theory Eeprom
  imports Flash_Driver
begin

text \<open>
  The EEPROM the rest of the firmware sees: drivers/eeprom/eeprom_driver.c turns block reads and writes into byte, word
  and double-word access.  The interface \<open>eeprom\<close> says that an EEPROM is an array of bytes; its
  providers are the RAM-only driver of eeprom_transient.c and the wear-levelled one of eeprom_wear_leveling.c over the flash
  driver.  Addresses are pointers, used as numbers.
\<close>

section \<open>Block access\<close>

text \<open>
  A read fills the caller's buffer; a driver that fails leaves its contents, so the buffer is an argument.
\<close>

record 'e eeprom_ops =
  eeprom_driver_erase :: "'e \<Rightarrow> 'e"
  eeprom_read_block :: "u8 list \<Rightarrow> nat \<Rightarrow> 'e \<Rightarrow> u8 list"
  eeprom_write_block :: "u8 list \<Rightarrow> nat \<Rightarrow> 'e \<Rightarrow> 'e"

section \<open>Typed access\<close>

definition bytes_of_u16 :: "u16 \<Rightarrow> u8 list" where
  "bytes_of_u16 v = [ucast v, ucast (drop_bit 8 v)]"

definition bytes_of_u32 :: "u32 \<Rightarrow> u8 list" where
  "bytes_of_u32 v = [ucast v, ucast (drop_bit 8 v), ucast (drop_bit 16 v), ucast (drop_bit 24 v)]"

definition u16_of_bytes :: "u8 list \<Rightarrow> u16" where
  "u16_of_bytes bs = ucast (bs ! 0) OR push_bit 8 (ucast (bs ! 1))"

definition u32_of_bytes :: "u8 list \<Rightarrow> u32" where
  "u32_of_bytes bs = ucast (bs ! 0) OR push_bit 8 (ucast (bs ! 1)) OR
     push_bit 16 (ucast (bs ! 2)) OR push_bit 24 (ucast (bs ! 3))"

definition eeprom_read_byte :: "'e eeprom_ops \<Rightarrow> nat \<Rightarrow> 'e \<Rightarrow> u8" where
  "eeprom_read_byte ops addr e = hd (eeprom_read_block ops [0] addr e)"

definition eeprom_read_word :: "'e eeprom_ops \<Rightarrow> nat \<Rightarrow> 'e \<Rightarrow> u16" where
  "eeprom_read_word ops addr e = u16_of_bytes (eeprom_read_block ops (bytes_of_u16 0) addr e)"

definition eeprom_read_dword :: "'e eeprom_ops \<Rightarrow> nat \<Rightarrow> 'e \<Rightarrow> u32" where
  "eeprom_read_dword ops addr e = u32_of_bytes (eeprom_read_block ops (bytes_of_u32 0) addr e)"

definition eeprom_write_byte :: "'e eeprom_ops \<Rightarrow> nat \<Rightarrow> u8 \<Rightarrow> 'e \<Rightarrow> 'e" where
  "eeprom_write_byte ops addr v e = eeprom_write_block ops [v] addr e"

definition eeprom_write_word :: "'e eeprom_ops \<Rightarrow> nat \<Rightarrow> u16 \<Rightarrow> 'e \<Rightarrow> 'e" where
  "eeprom_write_word ops addr v e = eeprom_write_block ops (bytes_of_u16 v) addr e"

definition eeprom_write_dword :: "'e eeprom_ops \<Rightarrow> nat \<Rightarrow> u32 \<Rightarrow> 'e \<Rightarrow> 'e" where
  "eeprom_write_dword ops addr v e = eeprom_write_block ops (bytes_of_u32 v) addr e"

text \<open>
  The stack buffer of \<open>eeprom_update_block\<close> has no initial value in C and is filled by the read before it is compared; the
  zeros stand for that value, which is seen only when the driver's read fails and leaves the buffer alone.  No law below depends on them:
  the contract of a driver's read says that it fills the whole buffer.
\<close>

definition eeprom_update_block :: "'e eeprom_ops \<Rightarrow> u8 list \<Rightarrow> nat \<Rightarrow> 'e \<Rightarrow> 'e" where
  "eeprom_update_block ops buf addr e =
    (let read_buf = eeprom_read_block ops (replicate (length buf) 0) addr e
     in if read_buf \<noteq> buf then eeprom_write_block ops buf addr e else e)"

definition eeprom_update_byte :: "'e eeprom_ops \<Rightarrow> nat \<Rightarrow> u8 \<Rightarrow> 'e \<Rightarrow> 'e" where
  "eeprom_update_byte ops addr v e =
    (let orig = eeprom_read_byte ops addr e in if orig \<noteq> v then eeprom_write_byte ops addr v e else e)"

definition eeprom_update_word :: "'e eeprom_ops \<Rightarrow> nat \<Rightarrow> u16 \<Rightarrow> 'e \<Rightarrow> 'e" where
  "eeprom_update_word ops addr v e =
    (let orig = eeprom_read_word ops addr e in if orig \<noteq> v then eeprom_write_word ops addr v e else e)"

definition eeprom_update_dword :: "'e eeprom_ops \<Rightarrow> nat \<Rightarrow> u32 \<Rightarrow> 'e \<Rightarrow> 'e" where
  "eeprom_update_dword ops addr v e =
    (let orig = eeprom_read_dword ops addr e in if orig \<noteq> v then eeprom_write_dword ops addr v e else e)"

lemma length_bytes_of [simp]: "length (bytes_of_u16 v) = 2" "length (bytes_of_u32 w) = 4"
  by (simp_all add: bytes_of_u16_def bytes_of_u32_def)

lemma u16_of_bytes_of [codec_simps]: "u16_of_bytes (bytes_of_u16 v) = v"
proof (rule bit_word_eqI)
  fix i assume "i < LENGTH(16)"
  moreover have "8 + (i - 8) = i" if "\<not> i < 8" using that by simp
  ultimately show "bit (u16_of_bytes (bytes_of_u16 v)) i = bit v i"
    by (cases "i < 8") (auto simp: u16_of_bytes_def bytes_of_u16_def bit_simps)
qed

lemma u32_of_bytes_of [codec_simps]: "u32_of_bytes (bytes_of_u32 v) = v"
proof (rule bit_word_eqI)
  fix i assume i: "i < LENGTH(32)"
  have shifts: "\<not> i < 8 \<Longrightarrow> 8 + (i - 8) = i" "\<not> i < 16 \<Longrightarrow> 16 + (i - 16) = i" "\<not> i < 24 \<Longrightarrow> 24 + (i - 24) = i"
    by simp_all
  consider "i < 8" | "\<not> i < 8" "i < 16" | "\<not> i < 16" "i < 24" | "\<not> i < 24" by linarith
  then show "bit (u32_of_bytes (bytes_of_u32 v)) i = bit v i"
    by cases (use i shifts in \<open>auto simp: u32_of_bytes_def bytes_of_u32_def bit_simps numeral_nat(7)\<close>)
qed

lemma bytes_of_u16_of: "bytes_of_u16 (u16_of_bytes [x, y]) = [x, y]"
  using low_high_bytes [of x y] by (simp add: bytes_of_u16_def u16_of_bytes_def)

lemma bytes_of_u32_of: "bytes_of_u32 (u32_of_bytes [x, y, z, w]) = [x, y, z, w]"
proof -
  have high: "\<not> bit v (i + 8)" "\<not> bit v (i + 16)" "\<not> bit v (i + 24)" for v :: u8 and i
    by (auto dest: bit_imp_le_length)
  show ?thesis
    unfolding bytes_of_u32_def u32_of_bytes_def list.inject
    by (intro conjI bit_word_eqI) (use high in \<open>auto simp: bit_simps add.commute\<close>)
qed

section \<open>What an EEPROM promises\<close>

locale eeprom =
  fixes ops :: "'e eeprom_ops" and contents :: "'e \<Rightarrow> u8 list" and good :: "'e \<Rightarrow> bool" and N :: nat
  assumes length_contents: "good e \<Longrightarrow> length (contents e) = N"
    and read_block: "good e \<Longrightarrow> a + length buf \<le> N \<Longrightarrow>
      eeprom_read_block ops buf a e = take (length buf) (drop a (contents e))"
    and write_block: "good e \<Longrightarrow> a + length buf \<le> N \<Longrightarrow>
      good (eeprom_write_block ops buf a e) \<and>
      contents (eeprom_write_block ops buf a e) = patch (contents e) a buf"
    and erase: "good e \<Longrightarrow>
      good (eeprom_driver_erase ops e) \<and> contents (eeprom_driver_erase ops e) = replicate N 0"
begin

lemma read_byte: "good e \<Longrightarrow> a < N \<Longrightarrow> eeprom_read_byte ops a e = contents e ! a"
  using read_block [of e a "[0]"] length_contents [of e]
  by (simp add: eeprom_read_byte_def take_Suc hd_drop_conv_nth)

lemma read_word: "good e \<Longrightarrow> a + 1 < N \<Longrightarrow>
    eeprom_read_word ops a e = u16_of_bytes [contents e ! a, contents e ! (a + 1)]"
  using read_block [of e a "bytes_of_u16 0"] length_contents [of e]
  by (simp add: eeprom_read_word_def u16_of_bytes_def)

lemma update_block: "good e \<Longrightarrow> a + length buf \<le> N \<Longrightarrow>
    good (eeprom_update_block ops buf a e) \<and> contents (eeprom_update_block ops buf a e) = patch (contents e) a buf"
  using read_block [of e a "replicate (length buf) 0"] write_block [of e a buf] patch_same [of buf a "contents e"]
  by (auto simp: eeprom_update_block_def)

lemma update_byte: "good e \<Longrightarrow> a < N \<Longrightarrow>
    good (eeprom_update_byte ops a v e) \<and> contents (eeprom_update_byte ops a v e) = (contents e)[a := v]"
  using read_byte [of e a] write_block [of e a "[v]"] length_contents [of e]
  by (auto simp: eeprom_update_byte_def eeprom_write_byte_def patch_one)

lemma patch_slice: "a + n \<le> length c \<Longrightarrow> patch c a (take n (drop a c)) = c"
  using patch_same [of "take n (drop a c)" a c] by simp

lemma slice_two: "a + 1 < length c \<Longrightarrow> take 2 (drop a c) = [c ! a, c ! (a + 1)]"
  by (simp add: numeral_2_eq_2 take_Suc_conv_app_nth)

lemma slice_four: "a + 3 < length c \<Longrightarrow> take 4 (drop a c) = [c ! a, c ! (a + 1), c ! (a + 2), c ! (a + 3)]"
  by (simp add: numeral_eq_Suc take_Suc_conv_app_nth)

lemma update_word:
  assumes "good e" and "a + 1 < N"
  shows "good (eeprom_update_word ops a v e) \<and>
    contents (eeprom_update_word ops a v e) = patch (contents e) a (bytes_of_u16 v)"
proof (cases "eeprom_read_word ops a e = v")
  case True
  then have "bytes_of_u16 v = take 2 (drop a (contents e))"
    using assms read_word [OF assms] length_contents slice_two by (metis bytes_of_u16_of)
  then show ?thesis
    using True assms length_contents [of e] patch_slice [of a 2 "contents e"]
    by (simp add: eeprom_update_word_def)
next
  case False
  then show ?thesis
    using assms write_block [of e a "bytes_of_u16 v"] by (simp add: eeprom_update_word_def eeprom_write_word_def)
qed

lemma read_dword: "good e \<Longrightarrow> a + 3 < N \<Longrightarrow>
    eeprom_read_dword ops a e = u32_of_bytes (take 4 (drop a (contents e)))"
  using read_block [of e a "bytes_of_u32 0"] by (simp add: eeprom_read_dword_def)

lemma update_dword:
  assumes "good e" and "a + 3 < N"
  shows "good (eeprom_update_dword ops a v e) \<and>
    contents (eeprom_update_dword ops a v e) = patch (contents e) a (bytes_of_u32 v)"
proof (cases "eeprom_read_dword ops a e = v")
  case True
  then have "bytes_of_u32 v = take 4 (drop a (contents e))"
    using assms read_dword [OF assms] length_contents slice_four by (metis bytes_of_u32_of)
  then show ?thesis
    using True assms length_contents [of e] patch_slice [of a 4 "contents e"]
    by (simp add: eeprom_update_dword_def)
next
  case False
  then show ?thesis
    using assms write_block [of e a "bytes_of_u32 v"] by (simp add: eeprom_update_dword_def eeprom_write_dword_def)
qed

end

section \<open>The RAM-only driver\<close>

text \<open>
  drivers/eeprom/eeprom_transient.c for a buffer of n bytes.  The driver shortens an access at the end of its buffer; the
  length it computes for an access that starts behind the buffer wraps, so such a copy is out of bounds.  For a write that is
  the state None; what such a read leaves in the caller's buffer is the parameter oob.
\<close>

definition clamp_length :: "nat \<Rightarrow> nat \<Rightarrow> nat \<Rightarrow> nat" where
  "clamp_length n offset len = (if n < offset + len then n - offset else len)"

definition transient_read :: "nat \<Rightarrow> (u8 list \<Rightarrow> nat \<Rightarrow> u8 list) \<Rightarrow> u8 list \<Rightarrow> nat \<Rightarrow> u8 list option \<Rightarrow> u8 list" where
  "transient_read n oob buf offset e =
    (case e of
       None \<Rightarrow> oob buf offset
     | Some m \<Rightarrow>
        (if n < offset then oob buf offset
         else let len = clamp_length n offset (length buf)
              in take len (drop offset m) @ replicate (length buf - len) 0))"

definition transient_write :: "nat \<Rightarrow> u8 list \<Rightarrow> nat \<Rightarrow> u8 list option \<Rightarrow> u8 list option" where
  "transient_write n buf offset e =
    (case e of
       None \<Rightarrow> None
     | Some m \<Rightarrow>
        (if n < offset then None
         else let len = clamp_length n offset (length buf) in memcpy_at m offset (take len buf)))"

definition transient_erase :: "nat \<Rightarrow> u8 list option \<Rightarrow> u8 list option" where
  "transient_erase n e = map_option (\<lambda>_. replicate n 0) e"

definition transient_ops :: "nat \<Rightarrow> (u8 list \<Rightarrow> nat \<Rightarrow> u8 list) \<Rightarrow> u8 list option eeprom_ops" where
  "transient_ops n oob = \<lparr>eeprom_driver_erase = transient_erase n,
     eeprom_read_block = transient_read n oob, eeprom_write_block = transient_write n\<rparr>"

interpretation transient: eeprom "transient_ops n oob" the "\<lambda>e. \<exists>m. e = Some m \<and> length m = n" n for n oob
  by unfold_locales
     (auto simp: transient_ops_def transient_read_def transient_write_def transient_erase_def clamp_length_def
       memcpy_patch)

section \<open>The wear-levelled EEPROM\<close>

text \<open>
  drivers/eeprom/eeprom_wear_leveling.c ignores the status of the calls below.  The state None is reached by a write that
  leaves the cache.
\<close>

definition wl_eeprom_erase :: "'b wl_env \<Rightarrow> 'b wl option \<Rightarrow> 'b wl option" where
  "wl_eeprom_erase env e = map_option (\<lambda>s. snd (wear_leveling_erase env s)) e"

definition wl_eeprom_read :: "'b wl_env \<Rightarrow> u8 list \<Rightarrow> nat \<Rightarrow> 'b wl option \<Rightarrow> u8 list" where
  "wl_eeprom_read env buf addr e =
    (case e of
       None \<Rightarrow> buf
     | Some s \<Rightarrow>
        (case wear_leveling_read env (of_nat addr) (length buf) s of
           Some (WL_SUCCESS, bs) \<Rightarrow> bs
         | _ \<Rightarrow> buf))"

definition wl_eeprom_write :: "'b wl_env \<Rightarrow> u8 list \<Rightarrow> nat \<Rightarrow> 'b wl option \<Rightarrow> 'b wl option" where
  "wl_eeprom_write env buf addr e =
    (case e of
       None \<Rightarrow> None
     | Some s \<Rightarrow> map_option snd (wear_leveling_write env (of_nat addr) buf s))"

definition wl_eeprom_ops :: "'b wl_env \<Rightarrow> 'b wl option eeprom_ops" where
  "wl_eeprom_ops env = \<lparr>eeprom_driver_erase = wl_eeprom_erase env,
     eeprom_read_block = wl_eeprom_read env, eeprom_write_block = wl_eeprom_write env\<rparr>"

text \<open>Nothing behind the cache update of a write touches the cache.\<close>

lemma cache_locking [frame_simps]:
  "cache (snd (wear_leveling_unlock env s)) = cache s" "cache (snd (wear_leveling_lock env s)) = cache s"
  by (simp_all add: wear_leveling_unlock_def wear_leveling_lock_def split: prod.split)

lemma cache_locking_eq:
  "wear_leveling_unlock env s = (l, s') \<Longrightarrow> cache s' = cache s"
  "wear_leveling_lock env s = (l, s') \<Longrightarrow> cache s' = cache s"
  using cache_locking [of env s] by auto

lemma cache_write_consolidated: "cache (snd (write_consolidated env s)) = cache s"
  by (auto simp: write_consolidated_def Let_def frame_simps split: prod.split dest: cache_locking_eq)

lemma cache_force: "cache (snd (consolidate_force env s)) = cache s"
  using cache_write_consolidated [of env "s\<lparr>store := snd (bs_erase env (store s))\<rparr>"]
  by (auto simp: consolidate_force_def Let_def split: prod.split)

lemma cache_if_needed [frame_simps]: "cache (snd (consolidate_if_needed env s)) = cache s"
  by (simp add: consolidate_if_needed_def cache_force)

lemma cache_append_raw: "append_raw env v s = (st, s') \<Longrightarrow> cache s' = cache s"
  using cache_if_needed [of env] by (auto simp: append_raw_def Let_def split: prod.splits if_splits)
    (metis cache_if_needed snd_conv wl.select_convs(1) wl.surjective wl.update_convs(2,4))

lemma cache_append_seq: "append_seq env us s = (st, s') \<Longrightarrow> cache s' = cache s"
proof (induction us arbitrary: s)
  case (Cons u us)
  obtain st1 s1 where a: "append_raw env u s = (st1, s1)" by fastforce
  then show ?case
    using Cons cache_append_raw [OF a] by (auto split: if_splits)
qed simp

lemma cache_write:
  assumes "wear_leveling_write env a v s = Some (st, s')" and "unat a + length v \<le> length (cache s)"
    and "length (cache s) = logical_size env" and "length (cache s) < 2 ^ 31"
  shows "cache s' = patch (cache s) (unat a) v"
proof -
  have sum: "unat (a + of_nat (length v)) = unat a + length v"
    using u32_step [of a "length v"] assms(2,4) by simp
  let ?c = "patch (cache s) (unat a) v"
  have mc: "memcpy_at (cache s) (unat a) v = Some ?c"
    using assms(2) by (simp add: memcpy_patch)
  obtain l s1 where u: "wear_leveling_unlock env (s\<lparr>cache := ?c\<rparr>) = (l, s1)" by fastforce
  obtain st2 s2 where w: "write_raw env a v s1 = (st2, s2)" by fastforce
  have s12: "cache s1 = ?c" "cache s2 = ?c"
    using cache_locking_eq(1) [OF u] cache_append_seq [of env _ s1 st2 s2] w by (simp_all add: write_raw_appends)
  have "cache (snd (case st2 of WL_SUCCESS \<Rightarrow> consolidate_if_needed env s2 | _ \<Rightarrow> (st2, s2))) = ?c"
    by (cases st2) (simp_all add: s12 frame_simps)
  then show ?thesis
    using assms sum mc u w s12 patch_same [of v "unat a" "cache s"]
    by (auto simp: wear_leveling_write_def Let_def frame_simps split: prod.splits if_splits dest: cache_locking_eq)
qed

sublocale flash_chip \<subseteq> eep: eeprom "wl_eeprom_ops (legacy_env ops cfg)" "\<lambda>e. cache (the e)"
  "\<lambda>e. \<exists>s. e = Some s \<and> length (cache s) = lc_logical_size cfg" "lc_logical_size cfg"
proof
  let ?env = "legacy_env ops cfg"
  fix e :: "'f wl option" and a :: nat and buf :: "u8 list"
  assume good: "\<exists>s. e = Some s \<and> length (cache s) = lc_logical_size cfg"
  then obtain s where s: "e = Some s" "length (cache s) = lc_logical_size cfg" by blast
  have L: "logical_size ?env = lc_logical_size cfg" "lc_logical_size cfg < 2 ^ 31"
    using layout by (simp_all add: legacy_env_def)
  show "length (cache (the e)) = lc_logical_size cfg"
    using s by simp
  show "(\<exists>s. eeprom_driver_erase (wl_eeprom_ops ?env) e = Some s \<and> length (cache s) = lc_logical_size cfg) \<and>
      cache (the (eeprom_driver_erase (wl_eeprom_ops ?env) e)) = replicate (lc_logical_size cfg) 0"
  proof -
    obtain l s1 where u: "wear_leveling_unlock ?env s = (l, s1)" by fastforce
    have "l \<noteq> STATUS_FAILURE"
      using u by (auto simp: wear_leveling_unlock_def legacy_env_def legacy_unlock_def split: if_splits)
    then have "cache (snd (wear_leveling_erase ?env s)) = replicate (lc_logical_size cfg) 0"
      by (auto simp: wear_leveling_erase_def u clear_cache_def L Let_def split: prod.split dest: cache_locking_eq)
    then show ?thesis
      by (simp add: wl_eeprom_ops_def wl_eeprom_erase_def s)
  qed
  assume fit: "a + length buf \<le> lc_logical_size cfg"
  have a: "unat (of_nat a :: u32) = a" "unat (of_nat a + of_nat (length buf) :: u32) = a + length buf"
    using fit L u32_step [of "of_nat a" "length buf"] by (simp_all add: unat_of_nat_u32)
  show "eeprom_read_block (wl_eeprom_ops ?env) buf a e = take (length buf) (drop a (cache (the e)))"
    using fit L a s by (simp add: wl_eeprom_ops_def wl_eeprom_read_def wear_leveling_read_def)
  have m: "memcpy_at (cache s) a buf = Some (patch (cache s) a buf)"
    using fit s by (simp add: memcpy_patch)
  then have "wear_leveling_write ?env (of_nat a) buf s \<noteq> None"
    using fit L a by (simp add: wear_leveling_write_def Let_def split: prod.split)
  then obtain st s' where w: "wear_leveling_write ?env (of_nat a) buf s = Some (st, s')"
    by auto
  then have "cache s' = patch (cache s) a buf"
    using cache_write [OF w] fit L a s by simp
  then show "(\<exists>s. eeprom_write_block (wl_eeprom_ops ?env) buf a e = Some s \<and> length (cache s) = lc_logical_size cfg) \<and>
      cache (the (eeprom_write_block (wl_eeprom_ops ?env) buf a e)) = patch (cache (the e)) a buf"
    using w s fit by (simp add: wl_eeprom_ops_def wl_eeprom_write_def)
qed

section \<open>On a reliable store the EEPROM is also durable\<close>

context reliable_store
begin

definition eeprom_good :: "'b wl option \<Rightarrow> bool" where
  "eeprom_good e \<longleftrightarrow> (\<exists>s. e = Some s \<and> durable env cell s \<and> honest s)"

lemma erase_live:
  assumes "honest s"
  shows "durable env cell (snd (wear_leveling_erase env s)) \<and> honest (snd (wear_leveling_erase env s)) \<and>
    cache (snd (wear_leveling_erase env s)) = replicate L 0"
proof -
  obtain l s1 where u: "wear_leveling_unlock env s = (l, s1)" by fastforce
  have live: "l \<noteq> STATUS_FAILURE \<and> unlocked s1 \<and> writable (store s1)"
    by (rule unlock_live [OF assms u])
  obtain b where e: "bs_erase env (store s1) = (True, b)" "writable b"
    using erase_ok [of "store s1"] live by (cases "bs_erase env (store s1)") auto
  let ?s2 = "clear_cache env (s1\<lparr>store := b\<rparr>)"
  have d2: "durable env cell ?s2"
  proof -
    have "?s2 = \<lparr>cache = replicate L 0, write_address = log_start env, unlocked = unlocked s1, store = b\<rparr>"
      by (cases s1) (simp add: clear_cache_def)
    then show ?thesis
      using blank_durable [of b "unlocked s1"] erase_cells [OF e(1)] by simp
  qed
  obtain l3 s3 where k: "wear_leveling_lock env ?s2 = (l3, s3)" by fastforce
  have "wear_leveling_erase env s = (WL_SUCCESS, if l = STATUS_SUCCESS then s3 else ?s2)"
    using u live e lock_live [OF k] k by (auto simp: wear_leveling_erase_def Let_def)
  moreover have "honest ?s2"
    using e(2) by (simp add: honest_def clear_cache_def)
  moreover have "honest s3" "durable env cell s3" "cache s3 = replicate L 0"
    using lock_live [OF k] lock_durable(2) [OF d2 k] cache_locking_eq(2) [OF k]
    by (auto simp: honest_def clear_cache_def)
  ultimately show ?thesis
    using d2 by (simp add: clear_cache_def)
qed

end

sublocale reliable_store \<subseteq> dur: eeprom "wl_eeprom_ops env" "\<lambda>e. cache (the e)" eeprom_good "logical_size env"
proof
  fix e :: "'b wl option" and a :: nat and buf :: "u8 list"
  assume "eeprom_good e"
  then obtain s where s: "e = Some s" "durable env cell s" "honest s"
    by (auto simp: eeprom_good_def)
  have len: "length (cache s) = L" by (rule durable_length [OF s(2)])
  then show "length (cache (the e)) = L" by (simp add: s)
  show "eeprom_good (eeprom_driver_erase (wl_eeprom_ops env) e) \<and>
      cache (the (eeprom_driver_erase (wl_eeprom_ops env) e)) = replicate L 0"
    using erase_live [OF s(3)] by (simp add: wl_eeprom_ops_def wl_eeprom_erase_def s eeprom_good_def)
  assume fit: "a + length buf \<le> L"
  have a: "unat (of_nat a :: u32) = a" "unat (of_nat a + of_nat (length buf) :: u32) = a + length buf"
    using fit fits u32_step [of "of_nat a" "length buf"] by (simp_all add: unat_of_nat_u32)
  show "eeprom_read_block (wl_eeprom_ops env) buf a e = take (length buf) (drop a (cache (the e)))"
    using fit a s len by (simp add: wl_eeprom_ops_def wl_eeprom_read_def wear_leveling_read_def)
  obtain st s' where "wear_leveling_write env (of_nat a) buf s = Some (st, s')" "st \<noteq> WL_FAILED" "honest s'"
    using write_live [OF s(2,3), of "of_nat a" buf] fit a by auto
  moreover from this have "durable env cell s'" "cache s' = patch (cache s) a buf"
    using write_step [OF s(2), of "of_nat a" buf] fit fits a by auto
  ultimately show "eeprom_good (eeprom_write_block (wl_eeprom_ops env) buf a e) \<and>
      cache (the (eeprom_write_block (wl_eeprom_ops env) buf a e)) = patch (cache (the e)) a buf"
    by (simp add: wl_eeprom_ops_def wl_eeprom_write_def s eeprom_good_def)
qed

text \<open>Power off and on: the EEPROM after the start-up code has run on the surviving store.\<close>

definition wl_eeprom_restart :: "'b wl_env \<Rightarrow> 'b wl option \<Rightarrow> 'b wl option" where
  "wl_eeprom_restart env e =
    (case e of None \<Rightarrow> None | Some s \<Rightarrow> map_option snd (wear_leveling_init env (power_on env (store s))))"

context reliable_store
begin

lemma restart_keeps:
  assumes "eeprom_good e"
  shows "eeprom_good (wl_eeprom_restart env e) \<and> cache (the (wl_eeprom_restart env e)) = cache (the e)"
proof -
  obtain s where s: "e = Some s" "durable env cell s" "honest s"
    using assms by (auto simp: eeprom_good_def)
  have "store (power_on env (store s)) = store s" "\<not> unlocked (power_on env (store s))"
    by (simp_all add: power_on_def)
  then show ?thesis
    using init_step [OF s(2), of "power_on env (store s)"] init_live [OF s(2), of "power_on env (store s)"] s(1)
    by (auto simp: wl_eeprom_restart_def eeprom_good_def)
qed

end

end
