(* ===== verification/Dynamic_Keymap.thy ===== *)
theory Dynamic_Keymap
  imports Eeprom
begin

text \<open>
  quantum/keymap_introspection.c and quantum/dynamic_keymap.c: the keymap compiled into the firmware and the one kept in
  EEPROM, which VIA edits.  The sizes and addresses are those of the Keychron P1 build (6 rows, 15 columns, 4
  layers, one encoder, 2048 bytes of EEPROM).  An EEPROM is any provider of the interface \<open>eeprom\<close>.
\<close>

section \<open>Configuration\<close>

definition MATRIX_ROWS :: nat where "MATRIX_ROWS = 6"
definition MATRIX_COLS :: nat where "MATRIX_COLS = 15"
definition NUM_ENCODERS :: nat where "NUM_ENCODERS = 1"
definition DYNAMIC_KEYMAP_LAYER_COUNT :: nat where "DYNAMIC_KEYMAP_LAYER_COUNT = 4"
definition DYNAMIC_KEYMAP_MACRO_COUNT :: nat where "DYNAMIC_KEYMAP_MACRO_COUNT = 16"
definition TOTAL_EEPROM_BYTE_COUNT :: nat where "TOTAL_EEPROM_BYTE_COUNT = 2048"
definition EECONFIG_BASE_SIZE :: nat where "EECONFIG_BASE_SIZE = 38"
definition EECONFIG_USER_DATA_SIZE :: nat where "EECONFIG_USER_DATA_SIZE = 1"
definition EECONFIG_SIZE :: nat where "EECONFIG_SIZE = EECONFIG_BASE_SIZE + EECONFIG_USER_DATA_SIZE"
definition VIA_EEPROM_MAGIC_ADDR :: nat where "VIA_EEPROM_MAGIC_ADDR = EECONFIG_SIZE"
definition VIA_EEPROM_LAYOUT_OPTIONS_ADDR :: nat where
  "VIA_EEPROM_LAYOUT_OPTIONS_ADDR = VIA_EEPROM_MAGIC_ADDR + 3"
definition VIA_EEPROM_LAYOUT_OPTIONS_SIZE :: nat where "VIA_EEPROM_LAYOUT_OPTIONS_SIZE = 1"
definition VIA_EEPROM_CONFIG_END :: nat where
  "VIA_EEPROM_CONFIG_END = VIA_EEPROM_LAYOUT_OPTIONS_ADDR + VIA_EEPROM_LAYOUT_OPTIONS_SIZE"
definition DYNAMIC_KEYMAP_EEPROM_MAX_ADDR :: nat where
  "DYNAMIC_KEYMAP_EEPROM_MAX_ADDR = TOTAL_EEPROM_BYTE_COUNT - 1"
definition DYNAMIC_KEYMAP_EEPROM_ADDR :: nat where "DYNAMIC_KEYMAP_EEPROM_ADDR = VIA_EEPROM_CONFIG_END"
definition DYNAMIC_KEYMAP_ENCODER_EEPROM_ADDR :: nat where
  "DYNAMIC_KEYMAP_ENCODER_EEPROM_ADDR =
     DYNAMIC_KEYMAP_EEPROM_ADDR + DYNAMIC_KEYMAP_LAYER_COUNT * MATRIX_ROWS * MATRIX_COLS * 2"
definition DYNAMIC_KEYMAP_MACRO_EEPROM_ADDR :: nat where
  "DYNAMIC_KEYMAP_MACRO_EEPROM_ADDR =
     DYNAMIC_KEYMAP_ENCODER_EEPROM_ADDR + DYNAMIC_KEYMAP_LAYER_COUNT * NUM_ENCODERS * 2 * 2"
definition DYNAMIC_KEYMAP_MACRO_EEPROM_SIZE :: nat where
  "DYNAMIC_KEYMAP_MACRO_EEPROM_SIZE = DYNAMIC_KEYMAP_EEPROM_MAX_ADDR - DYNAMIC_KEYMAP_MACRO_EEPROM_ADDR + 1"

lemmas keymap_sizes = MATRIX_ROWS_def MATRIX_COLS_def NUM_ENCODERS_def DYNAMIC_KEYMAP_LAYER_COUNT_def
lemmas keymap_layout = keymap_sizes TOTAL_EEPROM_BYTE_COUNT_def EECONFIG_BASE_SIZE_def EECONFIG_USER_DATA_SIZE_def
  EECONFIG_SIZE_def VIA_EEPROM_MAGIC_ADDR_def VIA_EEPROM_LAYOUT_OPTIONS_ADDR_def
  VIA_EEPROM_LAYOUT_OPTIONS_SIZE_def VIA_EEPROM_CONFIG_END_def DYNAMIC_KEYMAP_EEPROM_MAX_ADDR_def
  DYNAMIC_KEYMAP_EEPROM_ADDR_def DYNAMIC_KEYMAP_ENCODER_EEPROM_ADDR_def DYNAMIC_KEYMAP_MACRO_EEPROM_ADDR_def
  DYNAMIC_KEYMAP_MACRO_EEPROM_SIZE_def

definition KC_NO :: u16 where "KC_NO = 0"
definition KC_TRNS :: u16 where "KC_TRNS = 1"

section \<open>The keymap in the firmware image\<close>

record firmware_keymap =
  keymaps :: "u16 list list list"
  encoder_map :: "u16 list list list"

definition keymap_layer_count_raw :: "firmware_keymap \<Rightarrow> nat" where
  "keymap_layer_count_raw fw = length (keymaps fw)"

definition keycode_at_keymap_location_raw :: "firmware_keymap \<Rightarrow> nat \<Rightarrow> nat \<Rightarrow> nat \<Rightarrow> u16" where
  "keycode_at_keymap_location_raw fw layer_num row column =
    (if layer_num < keymap_layer_count_raw fw \<and> row < MATRIX_ROWS \<and> column < MATRIX_COLS
     then keymaps fw ! layer_num ! row ! column else KC_TRNS)"

definition encodermap_layer_count_raw :: "firmware_keymap \<Rightarrow> nat" where
  "encodermap_layer_count_raw fw = length (encoder_map fw)"

definition keycode_at_encodermap_location_raw :: "firmware_keymap \<Rightarrow> nat \<Rightarrow> nat \<Rightarrow> bool \<Rightarrow> u16" where
  "keycode_at_encodermap_location_raw fw layer_num encoder_idx clockwise =
    (if layer_num < encodermap_layer_count_raw fw \<and> encoder_idx < NUM_ENCODERS
     then encoder_map fw ! layer_num ! encoder_idx ! (if clockwise then 0 else 1) else KC_TRNS)"

section \<open>Keys in EEPROM\<close>

definition dynamic_keymap_get_layer_count :: nat where
  "dynamic_keymap_get_layer_count = DYNAMIC_KEYMAP_LAYER_COUNT"

definition dynamic_keymap_key_to_eeprom_address :: "nat \<Rightarrow> nat \<Rightarrow> nat \<Rightarrow> nat" where
  "dynamic_keymap_key_to_eeprom_address layer row column =
     DYNAMIC_KEYMAP_EEPROM_ADDR + layer * MATRIX_ROWS * MATRIX_COLS * 2 + row * MATRIX_COLS * 2 + column * 2"

definition swap_bytes :: "u16 \<Rightarrow> u16" where
  "swap_bytes k = push_bit 8 (k AND 0xFF) OR (drop_bit 8 k AND 0xFF)"

definition dynamic_keymap_get_keycode :: "'e eeprom_ops \<Rightarrow> nat \<Rightarrow> nat \<Rightarrow> nat \<Rightarrow> 'e \<Rightarrow> u16" where
  "dynamic_keymap_get_keycode ops layer row column e =
    (if DYNAMIC_KEYMAP_LAYER_COUNT \<le> layer \<or> MATRIX_ROWS \<le> row \<or> MATRIX_COLS \<le> column then KC_NO
     else swap_bytes (eeprom_read_word ops (dynamic_keymap_key_to_eeprom_address layer row column) e))"

definition dynamic_keymap_set_keycode ::
  "'e eeprom_ops \<Rightarrow> nat \<Rightarrow> nat \<Rightarrow> nat \<Rightarrow> u16 \<Rightarrow> 'e \<Rightarrow> 'e" where
  "dynamic_keymap_set_keycode ops layer row column keycode e =
    (if DYNAMIC_KEYMAP_LAYER_COUNT \<le> layer \<or> MATRIX_ROWS \<le> row \<or> MATRIX_COLS \<le> column then e
     else let address = dynamic_keymap_key_to_eeprom_address layer row column;
              e1 = eeprom_update_byte ops address (ucast (drop_bit 8 keycode)) e
          in eeprom_update_byte ops (address + 1) (ucast (keycode AND 0xFF)) e1)"

definition dynamic_keymap_encoder_to_eeprom_address :: "nat \<Rightarrow> nat \<Rightarrow> nat" where
  "dynamic_keymap_encoder_to_eeprom_address layer encoder_id =
     DYNAMIC_KEYMAP_ENCODER_EEPROM_ADDR + layer * NUM_ENCODERS * 2 * 2 + encoder_id * 2 * 2"

definition dynamic_keymap_get_encoder :: "'e eeprom_ops \<Rightarrow> nat \<Rightarrow> nat \<Rightarrow> bool \<Rightarrow> 'e \<Rightarrow> u16" where
  "dynamic_keymap_get_encoder ops layer encoder_id clockwise e =
    (if DYNAMIC_KEYMAP_LAYER_COUNT \<le> layer \<or> NUM_ENCODERS \<le> encoder_id then KC_NO
     else let address = dynamic_keymap_encoder_to_eeprom_address layer encoder_id
          in push_bit 8 (ucast (eeprom_read_byte ops (address + (if clockwise then 0 else 2)) e)) OR
             ucast (eeprom_read_byte ops (address + (if clockwise then 0 else 2) + 1) e))"

definition dynamic_keymap_set_encoder ::
  "'e eeprom_ops \<Rightarrow> nat \<Rightarrow> nat \<Rightarrow> bool \<Rightarrow> u16 \<Rightarrow> 'e \<Rightarrow> 'e" where
  "dynamic_keymap_set_encoder ops layer encoder_id clockwise keycode e =
    (if DYNAMIC_KEYMAP_LAYER_COUNT \<le> layer \<or> NUM_ENCODERS \<le> encoder_id then e
     else let address = dynamic_keymap_encoder_to_eeprom_address layer encoder_id;
              e1 = eeprom_update_byte ops (address + (if clockwise then 0 else 2)) (ucast (drop_bit 8 keycode)) e
          in eeprom_update_byte ops (address + (if clockwise then 0 else 2) + 1) (ucast (keycode AND 0xFF)) e1)"

section \<open>Reset to the firmware's keymap\<close>

text \<open>The bytes of the local array \<open>MATRIX_ROWS_temp\<close> after the two inner loops.\<close>

definition layer_image :: "firmware_keymap \<Rightarrow> nat \<Rightarrow> u8 list" where
  "layer_image fw layer =
     concat (map (\<lambda>row. concat (map (\<lambda>column.
       bytes_of_u16 (swap_bytes (keycode_at_keymap_location_raw fw layer row column))) [0..<MATRIX_COLS])) [0..<MATRIX_ROWS])"

definition reset_encoder :: "'e eeprom_ops \<Rightarrow> firmware_keymap \<Rightarrow> nat \<Rightarrow> nat \<Rightarrow> 'e \<Rightarrow> 'e" where
  "reset_encoder ops fw layer encoder e =
    (if layer < encodermap_layer_count_raw fw
     then dynamic_keymap_set_encoder ops layer encoder False (keycode_at_encodermap_location_raw fw layer encoder False)
           (dynamic_keymap_set_encoder ops layer encoder True (keycode_at_encodermap_location_raw fw layer encoder True) e)
     else dynamic_keymap_set_encoder ops layer encoder False KC_TRNS
           (dynamic_keymap_set_encoder ops layer encoder True KC_TRNS e))"

definition reset_layer :: "'e eeprom_ops \<Rightarrow> firmware_keymap \<Rightarrow> nat \<Rightarrow> 'e \<Rightarrow> 'e" where
  "reset_layer ops fw layer e =
     fold (reset_encoder ops fw layer) [0..<NUM_ENCODERS]
       (eeprom_update_block ops (layer_image fw layer) (dynamic_keymap_key_to_eeprom_address layer 0 0) e)"

definition dynamic_keymap_reset :: "'e eeprom_ops \<Rightarrow> firmware_keymap \<Rightarrow> 'e \<Rightarrow> 'e" where
  "dynamic_keymap_reset ops fw e = fold (reset_layer ops fw) [0..<DYNAMIC_KEYMAP_LAYER_COUNT] e"

section \<open>Raw access for the host\<close>

text \<open>
  The loops over a buffer, for the area of the given size at the given address: \<open>dynamic_keymap_get_buffer\<close>
  and \<open>dynamic_keymap_macro_get_buffer\<close> yield the bytes they store at the target, the set functions store the bytes of the
  source that lie in the area.
\<close>

definition area_get :: "'e eeprom_ops \<Rightarrow> nat \<Rightarrow> nat \<Rightarrow> nat \<Rightarrow> nat \<Rightarrow> 'e \<Rightarrow> u8 list" where
  "area_get ops addr area offset n e =
     map (\<lambda>i. if offset + i < area then eeprom_read_byte ops (addr + offset + i) e else 0) [0..<n]"

fun area_set :: "'e eeprom_ops \<Rightarrow> nat \<Rightarrow> nat \<Rightarrow> nat \<Rightarrow> u8 list \<Rightarrow> 'e \<Rightarrow> 'e" where
  "area_set ops addr area offset [] e = e"
| "area_set ops addr area offset (b # bs) e =
     area_set ops addr area (offset + 1) bs
       (if offset < area then eeprom_update_byte ops (addr + offset) b e else e)"

definition keymap_area :: nat where
  "keymap_area = DYNAMIC_KEYMAP_LAYER_COUNT * MATRIX_ROWS * MATRIX_COLS * 2"

definition dynamic_keymap_get_buffer :: "'e eeprom_ops \<Rightarrow> nat \<Rightarrow> nat \<Rightarrow> 'e \<Rightarrow> u8 list" where
  "dynamic_keymap_get_buffer ops offset n e = area_get ops DYNAMIC_KEYMAP_EEPROM_ADDR keymap_area offset n e"

definition dynamic_keymap_set_buffer :: "'e eeprom_ops \<Rightarrow> nat \<Rightarrow> u8 list \<Rightarrow> 'e \<Rightarrow> 'e" where
  "dynamic_keymap_set_buffer ops offset bs e = area_set ops DYNAMIC_KEYMAP_EEPROM_ADDR keymap_area offset bs e"

definition keycode_at_keymap_location :: "'e eeprom_ops \<Rightarrow> nat \<Rightarrow> nat \<Rightarrow> nat \<Rightarrow> 'e \<Rightarrow> u16" where
  "keycode_at_keymap_location ops layer_num row column e =
    (if layer_num < DYNAMIC_KEYMAP_LAYER_COUNT \<and> row < MATRIX_ROWS \<and> column < MATRIX_COLS
     then dynamic_keymap_get_keycode ops layer_num row column e else KC_NO)"

definition keycode_at_encodermap_location :: "'e eeprom_ops \<Rightarrow> nat \<Rightarrow> nat \<Rightarrow> bool \<Rightarrow> 'e \<Rightarrow> u16" where
  "keycode_at_encodermap_location ops layer_num encoder_idx clockwise e =
    (if layer_num < DYNAMIC_KEYMAP_LAYER_COUNT \<and> encoder_idx < NUM_ENCODERS
     then dynamic_keymap_get_encoder ops layer_num encoder_idx clockwise e else KC_NO)"

definition dynamic_keymap_macro_get_count :: nat where
  "dynamic_keymap_macro_get_count = DYNAMIC_KEYMAP_MACRO_COUNT"

definition dynamic_keymap_macro_get_buffer_size :: nat where
  "dynamic_keymap_macro_get_buffer_size = DYNAMIC_KEYMAP_MACRO_EEPROM_SIZE"

definition dynamic_keymap_macro_get_buffer :: "'e eeprom_ops \<Rightarrow> nat \<Rightarrow> nat \<Rightarrow> 'e \<Rightarrow> u8 list" where
  "dynamic_keymap_macro_get_buffer ops offset n e =
     area_get ops DYNAMIC_KEYMAP_MACRO_EEPROM_ADDR DYNAMIC_KEYMAP_MACRO_EEPROM_SIZE offset n e"

definition dynamic_keymap_macro_set_buffer :: "'e eeprom_ops \<Rightarrow> nat \<Rightarrow> u8 list \<Rightarrow> 'e \<Rightarrow> 'e" where
  "dynamic_keymap_macro_set_buffer ops offset bs e =
     area_set ops DYNAMIC_KEYMAP_MACRO_EEPROM_ADDR DYNAMIC_KEYMAP_MACRO_EEPROM_SIZE offset bs e"

definition dynamic_keymap_macro_reset :: "'e eeprom_ops \<Rightarrow> 'e \<Rightarrow> 'e" where
  "dynamic_keymap_macro_reset ops e =
     fold (\<lambda>p. eeprom_update_byte ops p 0)
       [DYNAMIC_KEYMAP_MACRO_EEPROM_ADDR..<DYNAMIC_KEYMAP_MACRO_EEPROM_ADDR + DYNAMIC_KEYMAP_MACRO_EEPROM_SIZE] e"

section \<open>Sending a macro\<close>

definition SS_QMK_PREFIX :: u8 where "SS_QMK_PREFIX = 1"
definition SS_TAP_CODE :: u8 where "SS_TAP_CODE = 1"
definition SS_DOWN_CODE :: u8 where "SS_DOWN_CODE = 2"
definition SS_UP_CODE :: u8 where "SS_UP_CODE = 3"
definition SS_DELAY_CODE :: u8 where "SS_DELAY_CODE = 4"

text \<open>The loop that skips id null characters; the list holds the addresses from p to the end of the area.\<close>

fun macro_skip :: "'e eeprom_ops \<Rightarrow> nat list \<Rightarrow> nat \<Rightarrow> nat \<Rightarrow> 'e \<Rightarrow> nat option" where
  "macro_skip ops ps the_end 0 e = Some (case ps of [] \<Rightarrow> the_end | p # _ \<Rightarrow> p)"
| "macro_skip ops [] the_end (Suc n) e = None"
| "macro_skip ops (p # ps) the_end (Suc n) e =
    macro_skip ops ps the_end (if eeprom_read_byte ops p e = 0 then n else Suc n) e"

text \<open>The digits of a delay: bytes 2 and following of the string, at most up to byte 6.  None is an abort.\<close>

fun macro_delay :: "'e eeprom_ops \<Rightarrow> nat \<Rightarrow> nat \<Rightarrow> nat \<Rightarrow> u8 list \<Rightarrow> 'e \<Rightarrow> (nat \<times> u8 list) option" where
  "macro_delay ops 0 i p data e = None"
| "macro_delay ops (Suc fuel) i p data e =
    (let b = eeprom_read_byte ops p e; data1 = data[i := b] in
     if b = 0 then None
     else if b = 124 then Some (p + 1, data1[i + 1 := 0])
     else if i = 6 then None
     else macro_delay ops fuel (i + 1) (p + 1) data1 e)"

text \<open>
  One round of the sending loop: the address behind the element and the eight-byte buffer whose string is sent, or None
  where the function returns or the macro ends.  The delay loop reads at most five bytes.
\<close>

definition macro_element :: "'e eeprom_ops \<Rightarrow> nat \<Rightarrow> u8 list \<Rightarrow> 'e \<Rightarrow> (nat \<times> u8 list) option" where
  "macro_element ops p data e =
    (let b0 = eeprom_read_byte ops p e; d0 = data[0 := b0, 1 := 0] in
     if b0 = 0 then None
     else if b0 = SS_QMK_PREFIX then
       (let b1 = eeprom_read_byte ops (p + 1) e; d1 = d0[1 := b1] in
        if b1 = 0 then None
        else if b1 = SS_TAP_CODE \<or> b1 = SS_DOWN_CODE \<or> b1 = SS_UP_CODE then
          (let b2 = eeprom_read_byte ops (p + 2) e; d2 = d1[2 := b2] in
           if b2 = 0 then None else Some (p + 3, d2[3 := 0]))
        else if b1 = SS_DELAY_CODE then macro_delay ops 5 2 (p + 2) d1 e
        else Some (p + 2, d1))
     else Some (p + 1, d0))"

text \<open>
  The sending loop, which need not end if no null follows; the fuel is the number of rounds.  The result is the buffers
  handed to \<open>send_string_with_delay\<close>, with the flag that the loop ended.
\<close>

fun macro_send_loop :: "'e eeprom_ops \<Rightarrow> nat \<Rightarrow> nat \<Rightarrow> u8 list \<Rightarrow> 'e \<Rightarrow> u8 list list \<times> bool" where
  "macro_send_loop ops 0 p data e = ([], False)"
| "macro_send_loop ops (Suc fuel) p data e =
    (case macro_element ops p data e of
       None \<Rightarrow> ([], True)
     | Some (p1, data1) \<Rightarrow>
        (let (out, ended) = macro_send_loop ops fuel p1 data1 e in (data1 # out, ended)))"

definition dynamic_keymap_macro_send :: "'e eeprom_ops \<Rightarrow> nat \<Rightarrow> nat \<Rightarrow> 'e \<Rightarrow> u8 list list \<times> bool" where
  "dynamic_keymap_macro_send ops fuel macro_id e =
    (let base = DYNAMIC_KEYMAP_MACRO_EEPROM_ADDR; the_end = base + DYNAMIC_KEYMAP_MACRO_EEPROM_SIZE in
     if DYNAMIC_KEYMAP_MACRO_COUNT \<le> macro_id then ([], True)
     else if eeprom_read_byte ops (the_end - 1) e \<noteq> 0 then ([], True)
     else case macro_skip ops [base..<the_end] the_end macro_id e of
       None \<Rightarrow> ([], True)
     | Some p \<Rightarrow> macro_send_loop ops fuel p (replicate 8 0) e)"

end
