(* ===== verification/Keymap_Store.thy ===== *)
theory Keymap_Store
  imports Dynamic_Keymap
begin

text \<open>
  The keymap in EEPROM is a table of keycodes: what is written at a key is what is read there, the areas of the keys,
  the encoders and the macros do not overlap, and a reset installs the firmware's keymap.
\<close>

section \<open>Big-endian keycodes in a byte array\<close>

definition be16 :: "u8 list \<Rightarrow> nat \<Rightarrow> u16" where
  "be16 c a = push_bit 8 (ucast (c ! a)) OR ucast (c ! (a + 1))"

definition put16 :: "u8 list \<Rightarrow> nat \<Rightarrow> u16 \<Rightarrow> u8 list" where
  "put16 c a k = c[a := ucast (drop_bit 8 k), a + 1 := ucast (k AND 0xFF)]"

lemma length_put16 [simp]: "length (put16 c a k) = length c"
  by (simp add: put16_def)

lemma byte_mask: "(0xFF :: u16) = mask 8"
  by (simp add: mask_eq_exp_minus_1)

lemma join_bytes:
  "push_bit 8 (ucast (ucast (drop_bit 8 k) :: u8)) OR ucast (ucast (k AND 0xFF) :: u8) = (k :: u16)"
proof (rule bit_word_eqI)
  fix i assume "i < LENGTH(16)"
  moreover have "8 + (i - 8) = i" if "\<not> i < 8" using that by simp
  ultimately show "bit (push_bit 8 (ucast (ucast (drop_bit 8 k) :: u8)) OR ucast (ucast (k AND 0xFF) :: u8) :: u16) i = bit k i"
    by (cases "i < 8") (auto simp: bit_simps byte_mask)
qed

lemma swap_bytes_word: "swap_bytes (u16_of_bytes [x, y]) = push_bit 8 (ucast x) OR ucast y"
proof (rule bit_word_eqI)
  fix i assume "i < LENGTH(16)"
  then show "bit (swap_bytes (u16_of_bytes [x, y])) i = bit (push_bit 8 (ucast x) OR ucast y :: u16) i"
    using bit_u8_high [of x i] bit_u8_high [of y i] bit_u8_high [of x "8 + i"]
    by (auto simp: swap_bytes_def u16_of_bytes_def byte_mask bit_simps)
qed

lemma bytes_swapped: "bytes_of_u16 (swap_bytes k) = [ucast (drop_bit 8 k), ucast (k AND 0xFF)]"
  by (auto simp: bytes_of_u16_def swap_bytes_def byte_mask bit_simps intro!: bit_word_eqI)

lemma be16_put16 [simp]: "a + 1 < length c \<Longrightarrow> be16 (put16 c a k) a = k"
  by (simp add: be16_def put16_def join_bytes)

lemma nth_put16: "i \<noteq> a \<Longrightarrow> i \<noteq> a + 1 \<Longrightarrow> put16 c a k ! i = c ! i"
  by (simp add: put16_def)

lemma be16_put16_other: "b + 1 < a \<or> a + 1 < b \<Longrightarrow> be16 (put16 c a k) b = be16 c b"
  by (auto simp: be16_def nth_put16)

lemma nth_patch:
  "a + length vs \<le> length c \<Longrightarrow> i < length c \<Longrightarrow>
   patch c a vs ! i = (if a \<le> i \<and> i < a + length vs then vs ! (i - a) else c ! i)"
  by (auto simp: patch_def nth_append min_def)

section \<open>The EEPROM map\<close>

definition key_index :: "nat \<Rightarrow> nat \<Rightarrow> nat \<Rightarrow> nat" where
  "key_index l r k = (l * MATRIX_ROWS + r) * MATRIX_COLS + k"

lemma key_address: "dynamic_keymap_key_to_eeprom_address l r k = DYNAMIC_KEYMAP_EEPROM_ADDR + 2 * key_index l r k"
  by (simp add: dynamic_keymap_key_to_eeprom_address_def key_index_def algebra_simps)

lemma key_index_inj:
  assumes "r < MATRIX_ROWS" "k < MATRIX_COLS" "r' < MATRIX_ROWS" "k' < MATRIX_COLS"
  shows "key_index l r k = key_index l' r' k' \<longleftrightarrow> l = l' \<and> r = r' \<and> k = k'"
proof -
  have split: "key_index l r k div MATRIX_COLS = l * MATRIX_ROWS + r \<and> key_index l r k mod MATRIX_COLS = k \<and>
      (l * MATRIX_ROWS + r) div MATRIX_ROWS = l \<and> (l * MATRIX_ROWS + r) mod MATRIX_ROWS = r"
    if "r < MATRIX_ROWS" "k < MATRIX_COLS" for l r k
    using that by (simp add: key_index_def)
  show ?thesis
    using split [OF assms(1,2), of l] split [OF assms(3,4), of l'] by metis
qed

lemma key_index_bound:
  "l < DYNAMIC_KEYMAP_LAYER_COUNT \<Longrightarrow> r < MATRIX_ROWS \<Longrightarrow> k < MATRIX_COLS \<Longrightarrow> 2 * key_index l r k + 2 \<le> keymap_area"
  by (simp add: key_index_def keymap_area_def keymap_sizes)

lemma areas:
  "DYNAMIC_KEYMAP_ENCODER_EEPROM_ADDR = DYNAMIC_KEYMAP_EEPROM_ADDR + keymap_area"
  "DYNAMIC_KEYMAP_MACRO_EEPROM_ADDR = DYNAMIC_KEYMAP_ENCODER_EEPROM_ADDR + 16"
  "DYNAMIC_KEYMAP_MACRO_EEPROM_ADDR + DYNAMIC_KEYMAP_MACRO_EEPROM_SIZE = TOTAL_EEPROM_BYTE_COUNT"
  by (simp_all add: keymap_layout keymap_area_def)

lemma encoder_address:
  "dynamic_keymap_encoder_to_eeprom_address l n = DYNAMIC_KEYMAP_ENCODER_EEPROM_ADDR + 4 * (l + n)"
  by (simp add: dynamic_keymap_encoder_to_eeprom_address_def keymap_sizes)

section \<open>The image of a layer\<close>

lemma length_concat_blocks: "(\<And>i. i < n \<Longrightarrow> length (f i) = w) \<Longrightarrow> length (concat (map f [0..<n])) = n * w"
  by (induction n) auto

lemma nth_concat_blocks:
  "(\<And>i. i < n \<Longrightarrow> length (f i) = w) \<Longrightarrow> i < n \<Longrightarrow> j < w \<Longrightarrow> concat (map f [0..<n]) ! (i * w + j) = f i ! j"
proof (induction n)
  case (Suc n)
  have len: "length (concat (map f [0..<n])) = n * w"
    using Suc.prems(1) by (intro length_concat_blocks) simp
  show ?case
  proof (cases "i = n")
    case False
    then have "i * w + j < n * w"
      using Suc.prems(2,3) by (metis add.commute add_less_mono1 less_SucE less_le_trans mult.commute mult_Suc_right
          mult_le_mono2 Suc_leI)
    then show ?thesis
      using Suc False len by (simp add: nth_append)
  qed (use len in \<open>simp add: nth_append\<close>)
qed simp

definition row_image :: "firmware_keymap \<Rightarrow> nat \<Rightarrow> nat \<Rightarrow> u8 list" where
  "row_image fw l r = concat (map (\<lambda>c. bytes_of_u16 (swap_bytes (keycode_at_keymap_location_raw fw l r c))) [0..<MATRIX_COLS])"

lemma length_row_image [simp]: "length (row_image fw l r) = 2 * MATRIX_COLS"
  unfolding row_image_def by (subst length_concat_blocks [where w = 2]) simp_all

lemma layer_image_rows: "layer_image fw l = concat (map (row_image fw l) [0..<MATRIX_ROWS])"
  unfolding layer_image_def row_image_def ..

lemma length_layer_image [simp]: "length (layer_image fw l) = 2 * (MATRIX_ROWS * MATRIX_COLS)"
  unfolding layer_image_rows by (subst length_concat_blocks [where w = "2 * MATRIX_COLS"]) simp_all

lemma nth_layer_image:
  assumes "r < MATRIX_ROWS" "c < MATRIX_COLS" "j < 2"
  shows "layer_image fw l ! (2 * (r * MATRIX_COLS + c) + j) =
    bytes_of_u16 (swap_bytes (keycode_at_keymap_location_raw fw l r c)) ! j"
proof -
  have "layer_image fw l ! (r * (2 * MATRIX_COLS) + (c * 2 + j)) = row_image fw l r ! (c * 2 + j)"
    unfolding layer_image_rows by (rule nth_concat_blocks) (use assms in auto)
  also have "\<dots> = bytes_of_u16 (swap_bytes (keycode_at_keymap_location_raw fw l r c)) ! j"
    unfolding row_image_def by (rule nth_concat_blocks) (use assms in auto)
  finally show ?thesis
    by (simp add: algebra_simps)
qed

lemma be16_layer_image:
  assumes "r < MATRIX_ROWS" "c < MATRIX_COLS"
  shows "be16 (layer_image fw l) (2 * (r * MATRIX_COLS + c)) = keycode_at_keymap_location_raw fw l r c"
  using nth_layer_image [OF assms, of 0] nth_layer_image [OF assms, of 1]
  by (simp add: be16_def bytes_swapped join_bytes)

lemma be16_patch_inside:
  assumes "a + length vs \<le> length c" "j + 1 < length vs"
  shows "be16 (patch c a vs) (a + j) = be16 vs j"
  using assms by (simp add: be16_def nth_patch)

lemma be16_patch_outside:
  assumes "a + length vs \<le> length c" "b + 1 < a \<or> a + length vs \<le> b" "b + 1 < length c"
  shows "be16 (patch c a vs) b = be16 c b"
  using assms by (auto simp: be16_def nth_patch)

text \<open>The encoder keycodes of the firmware, transparent where it has no layer.\<close>

definition firmware_encoder :: "firmware_keymap \<Rightarrow> nat \<Rightarrow> bool \<Rightarrow> u16" where
  "firmware_encoder fw l cw =
    (if l < encodermap_layer_count_raw fw then keycode_at_encodermap_location_raw fw l 0 cw else KC_TRNS)"

definition layer_done :: "firmware_keymap \<Rightarrow> nat \<Rightarrow> u8 list \<Rightarrow> bool" where
  "layer_done fw l c \<longleftrightarrow>
    (\<forall>r < MATRIX_ROWS. \<forall>k < MATRIX_COLS. be16 c (dynamic_keymap_key_to_eeprom_address l r k) =
      keycode_at_keymap_location_raw fw l r k) \<and>
    (\<forall>cw. be16 c (dynamic_keymap_encoder_to_eeprom_address l 0 + (if cw then 0 else 2)) = firmware_encoder fw l cw)"

text \<open>What the reset of one layer does to the bytes.\<close>

definition layer_reset_bytes :: "firmware_keymap \<Rightarrow> nat \<Rightarrow> u8 list \<Rightarrow> u8 list" where
  "layer_reset_bytes fw l c =
    put16 (put16 (patch c (dynamic_keymap_key_to_eeprom_address l 0 0) (layer_image fw l))
      (dynamic_keymap_encoder_to_eeprom_address l 0) (firmware_encoder fw l True))
      (dynamic_keymap_encoder_to_eeprom_address l 0 + 2) (firmware_encoder fw l False)"

lemma layer_bounds:
  assumes "TOTAL_EEPROM_BYTE_COUNT \<le> length c" "l < DYNAMIC_KEYMAP_LAYER_COUNT"
  shows "dynamic_keymap_key_to_eeprom_address l 0 0 + length (layer_image fw l) \<le> length c"
    and "dynamic_keymap_key_to_eeprom_address l 0 0 + length (layer_image fw l) \<le> DYNAMIC_KEYMAP_ENCODER_EEPROM_ADDR"
    and "dynamic_keymap_encoder_to_eeprom_address l 0 + 3 < length c"
    and "DYNAMIC_KEYMAP_ENCODER_EEPROM_ADDR \<le> dynamic_keymap_encoder_to_eeprom_address l 0"
  using assms by (simp_all add: key_address key_index_def encoder_address keymap_layout)

lemma layer_reset_patch:
  assumes "b + 1 < dynamic_keymap_encoder_to_eeprom_address l 0 \<or> dynamic_keymap_encoder_to_eeprom_address l 0 + 3 < b"
  shows "be16 (layer_reset_bytes fw l c) b =
    be16 (patch c (dynamic_keymap_key_to_eeprom_address l 0 0) (layer_image fw l)) b"
proof -
  have far: "b + 1 < dynamic_keymap_encoder_to_eeprom_address l 0 \<or> dynamic_keymap_encoder_to_eeprom_address l 0 + 1 < b"
    "b + 1 < dynamic_keymap_encoder_to_eeprom_address l 0 + 2 \<or> dynamic_keymap_encoder_to_eeprom_address l 0 + 2 + 1 < b"
    using assms by linarith+
  show ?thesis
    unfolding layer_reset_bytes_def be16_put16_other [OF far(2)] be16_put16_other [OF far(1)] ..
qed

lemma layer_reset_done:
  assumes "TOTAL_EEPROM_BYTE_COUNT \<le> length c" "l < DYNAMIC_KEYMAP_LAYER_COUNT"
  shows "layer_done fw l (layer_reset_bytes fw l c)"
proof -
  note b = layer_bounds(1,2) [OF assms, of fw] layer_bounds(3,4) [OF assms]
  let ?p = "patch c (dynamic_keymap_key_to_eeprom_address l 0 0) (layer_image fw l)"
  have keys: "be16 (layer_reset_bytes fw l c) (dynamic_keymap_key_to_eeprom_address l r k) =
      keycode_at_keymap_location_raw fw l r k" if "r < MATRIX_ROWS" "k < MATRIX_COLS" for r k
  proof -
    have a: "dynamic_keymap_key_to_eeprom_address l r k =
        dynamic_keymap_key_to_eeprom_address l 0 0 + 2 * (r * MATRIX_COLS + k)"
      by (simp add: key_address key_index_def algebra_simps)
    have i: "2 * (r * MATRIX_COLS + k) + 1 < length (layer_image fw l)"
      using that by (simp add: keymap_sizes)
    have "be16 (layer_reset_bytes fw l c) (dynamic_keymap_key_to_eeprom_address l r k) =
        be16 ?p (dynamic_keymap_key_to_eeprom_address l r k)"
      by (rule layer_reset_patch) (use b i a in linarith)
    then show ?thesis
      using be16_patch_inside [OF b(1) i] be16_layer_image [OF that] a by simp
  qed
  show ?thesis
    unfolding layer_done_def
  proof (intro conjI allI impI keys)
    fix cw
    show "be16 (layer_reset_bytes fw l c) (dynamic_keymap_encoder_to_eeprom_address l 0 + (if cw then 0 else 2)) =
        firmware_encoder fw l cw"
      using b by (cases cw) (simp_all add: layer_reset_bytes_def be16_put16_other)
  qed
qed

lemma layer_reset_other:
  assumes "TOTAL_EEPROM_BYTE_COUNT \<le> length c" "l < DYNAMIC_KEYMAP_LAYER_COUNT" "l' < DYNAMIC_KEYMAP_LAYER_COUNT"
    "l' \<noteq> l" "layer_done fw l' c"
  shows "layer_done fw l' (layer_reset_bytes fw l c)"
proof -
  note b = layer_bounds(1,2) [OF assms(1,2), of fw] layer_bounds(3,4) [OF assms(1,2)]
  have key: "be16 (layer_reset_bytes fw l c) (dynamic_keymap_key_to_eeprom_address l' r k) =
      be16 c (dynamic_keymap_key_to_eeprom_address l' r k)" if "r < MATRIX_ROWS" "k < MATRIX_COLS" for r k
  proof -
    let ?a = "dynamic_keymap_key_to_eeprom_address l' r k"
    have a: "?a + 1 < DYNAMIC_KEYMAP_ENCODER_EEPROM_ADDR" "?a + 1 < length c"
      using key_index_bound [OF assms(3) that] assms(1) by (simp_all add: key_address keymap_layout keymap_area_def)
    have out: "?a + 1 < dynamic_keymap_key_to_eeprom_address l 0 0 \<or>
        dynamic_keymap_key_to_eeprom_address l 0 0 + length (layer_image fw l) \<le> ?a"
      using assms(4) that by (cases "l' < l") (auto simp: key_address key_index_def keymap_sizes)
    show ?thesis
      using layer_reset_patch [of ?a l fw c] be16_patch_outside [OF b(1) out a(2)] a(1) b(4) by simp
  qed
  have enc: "be16 (layer_reset_bytes fw l c) (dynamic_keymap_encoder_to_eeprom_address l' 0 + (if cw then 0 else 2)) =
      be16 c (dynamic_keymap_encoder_to_eeprom_address l' 0 + (if cw then 0 else 2))" for cw
  proof -
    let ?a = "dynamic_keymap_encoder_to_eeprom_address l' 0 + (if cw then 0 else 2)"
    have a: "DYNAMIC_KEYMAP_ENCODER_EEPROM_ADDR \<le> ?a" "?a + 1 < length c"
      using layer_bounds(3,4) [OF assms(1,3)] by auto
    have far: "?a + 1 < dynamic_keymap_encoder_to_eeprom_address l 0 \<or> dynamic_keymap_encoder_to_eeprom_address l 0 + 3 < ?a"
      using assms(4) by (cases "l' < l") (auto simp: encoder_address)
    have out: "dynamic_keymap_key_to_eeprom_address l 0 0 + length (layer_image fw l) \<le> ?a"
      using b(2) a(1) by (rule order_trans)
    show ?thesis
      using layer_reset_patch [OF far, of fw c] be16_patch_outside [OF b(1) disjI2 [OF out] a(2)] by simp
  qed
  show ?thesis
    using assms(5) key enc by (simp add: layer_done_def)
qed

section \<open>Access through any EEPROM\<close>

locale keymap_eeprom = eeprom ops contents good N
  for ops :: "'e eeprom_ops" and contents :: "'e \<Rightarrow> u8 list" and good :: "'e \<Rightarrow> bool" and N :: nat +
  assumes room: "TOTAL_EEPROM_BYTE_COUNT \<le> N"
begin

lemma key_room:
  "l < DYNAMIC_KEYMAP_LAYER_COUNT \<Longrightarrow> r < MATRIX_ROWS \<Longrightarrow> k < MATRIX_COLS \<Longrightarrow>
   dynamic_keymap_key_to_eeprom_address l r k + 1 < DYNAMIC_KEYMAP_ENCODER_EEPROM_ADDR"
  using key_index_bound [of l r k] by (simp add: key_address areas)

lemma addr_room: "a < TOTAL_EEPROM_BYTE_COUNT \<Longrightarrow> a < N" "a < DYNAMIC_KEYMAP_ENCODER_EEPROM_ADDR \<Longrightarrow> a < N"
  using room by (simp_all add: keymap_layout)

lemma get_keycode:
  assumes "good e" "l < DYNAMIC_KEYMAP_LAYER_COUNT" "r < MATRIX_ROWS" "k < MATRIX_COLS"
  shows "dynamic_keymap_get_keycode ops l r k e = be16 (contents e) (dynamic_keymap_key_to_eeprom_address l r k)"
  using assms read_word [OF assms(1), of "dynamic_keymap_key_to_eeprom_address l r k"]
    addr_room(2) [OF key_room [OF assms(2-4)]]
  by (simp add: dynamic_keymap_get_keycode_def be16_def swap_bytes_word)

lemma update_two:
  assumes "good e" "a + 1 < N"
  shows "good (eeprom_update_byte ops (a + 1) (ucast (k AND 0xFF)) (eeprom_update_byte ops a (ucast (drop_bit 8 k)) e)) \<and>
    contents (eeprom_update_byte ops (a + 1) (ucast (k AND 0xFF)) (eeprom_update_byte ops a (ucast (drop_bit 8 k)) e))
      = put16 (contents e) a k"
  using update_byte [OF assms(1), of a "ucast (drop_bit 8 k)"]
    update_byte [of "eeprom_update_byte ops a (ucast (drop_bit 8 k)) e" "a + 1" "ucast (k AND 0xFF)"] assms(2)
  by (simp add: put16_def)

lemma set_keycode:
  assumes "good e" "l < DYNAMIC_KEYMAP_LAYER_COUNT" "r < MATRIX_ROWS" "k < MATRIX_COLS"
  shows "good (dynamic_keymap_set_keycode ops l r k kc e) \<and>
    contents (dynamic_keymap_set_keycode ops l r k kc e) =
      put16 (contents e) (dynamic_keymap_key_to_eeprom_address l r k) kc"
  using update_two [OF assms(1) addr_room(2) [OF key_room [OF assms(2-4)]], of kc] assms(2-4)
  by (simp add: dynamic_keymap_set_keycode_def Let_def)

lemma set_good: "good e \<Longrightarrow> good (dynamic_keymap_set_keycode ops l r k kc e)"
  using set_keycode [of e l r k kc]
  by (cases "l < DYNAMIC_KEYMAP_LAYER_COUNT \<and> r < MATRIX_ROWS \<and> k < MATRIX_COLS")
     (auto simp: dynamic_keymap_set_keycode_def)

lemma encoder_room:
  "l < DYNAMIC_KEYMAP_LAYER_COUNT \<Longrightarrow> n < NUM_ENCODERS \<Longrightarrow>
   dynamic_keymap_encoder_to_eeprom_address l n + (if cw then 0 else 2) + 1 < DYNAMIC_KEYMAP_MACRO_EEPROM_ADDR"
  by (simp add: encoder_address areas keymap_sizes)

lemma encoder_room_N:
  "l < DYNAMIC_KEYMAP_LAYER_COUNT \<Longrightarrow> n < NUM_ENCODERS \<Longrightarrow>
   dynamic_keymap_encoder_to_eeprom_address l n + (if cw then 0 else 2) + 1 < N"
  using encoder_room [of l n cw] addr_room(1) areas(3) by simp

lemma get_encoder:
  assumes "good e" "l < DYNAMIC_KEYMAP_LAYER_COUNT" "n < NUM_ENCODERS"
  shows "dynamic_keymap_get_encoder ops l n cw e =
    be16 (contents e) (dynamic_keymap_encoder_to_eeprom_address l n + (if cw then 0 else 2))"
  using assms encoder_room_N [OF assms(2,3), of cw]
  by (simp add: dynamic_keymap_get_encoder_def Let_def be16_def read_byte)

lemma set_encoder:
  assumes "good e" "l < DYNAMIC_KEYMAP_LAYER_COUNT" "n < NUM_ENCODERS"
  shows "good (dynamic_keymap_set_encoder ops l n cw kc e) \<and>
    contents (dynamic_keymap_set_encoder ops l n cw kc e) =
      put16 (contents e) (dynamic_keymap_encoder_to_eeprom_address l n + (if cw then 0 else 2)) kc"
  using update_two [OF assms(1) encoder_room_N [OF assms(2,3), of cw], of kc] assms(2-3)
  by (simp add: dynamic_keymap_set_encoder_def Let_def)

lemma get_set_keycode:
  assumes "good e" "l < DYNAMIC_KEYMAP_LAYER_COUNT" "r < MATRIX_ROWS" "k < MATRIX_COLS"
    "l' < DYNAMIC_KEYMAP_LAYER_COUNT" "r' < MATRIX_ROWS" "k' < MATRIX_COLS"
  shows "dynamic_keymap_get_keycode ops l' r' k' (dynamic_keymap_set_keycode ops l r k kc e) =
    (if (l', r', k') = (l, r, k) then kc else dynamic_keymap_get_keycode ops l' r' k' e)"
proof -
  note set = set_keycode [OF assms(1-4), of kc]
  have get: "dynamic_keymap_get_keycode ops l' r' k' (dynamic_keymap_set_keycode ops l r k kc e) =
      be16 (put16 (contents e) (dynamic_keymap_key_to_eeprom_address l r k) kc) (dynamic_keymap_key_to_eeprom_address l' r' k')"
    using get_keycode [of "dynamic_keymap_set_keycode ops l r k kc e"] set assms(5-7) by simp
  show ?thesis
  proof (cases "(l', r', k') = (l, r, k)")
    case True
    then show ?thesis
      using get addr_room(2) [OF key_room [OF assms(2-4)]] length_contents [OF assms(1)] by simp
  next
    case False
    then have "key_index l' r' k' \<noteq> key_index l r k"
      using key_index_inj [of r' k' r k l' l] assms by auto
    then show ?thesis
      using get get_keycode [OF assms(1,5-7)] False
      by (subst (asm) be16_put16_other) (auto simp: key_address)
  qed
qed

lemma reset_encoder_bytes:
  assumes "good e" "l < DYNAMIC_KEYMAP_LAYER_COUNT"
  shows "good (reset_encoder ops fw l 0 e) \<and> contents (reset_encoder ops fw l 0 e) =
    put16 (put16 (contents e) (dynamic_keymap_encoder_to_eeprom_address l 0) (firmware_encoder fw l True))
      (dynamic_keymap_encoder_to_eeprom_address l 0 + 2) (firmware_encoder fw l False)"
proof -
  have n: "0 < NUM_ENCODERS" by (simp add: keymap_sizes)
  note s1 = set_encoder [OF assms n, of True "firmware_encoder fw l True"]
  note s2 = set_encoder [OF conjunct1 [OF s1] assms(2) n, of False "firmware_encoder fw l False"]
  show ?thesis
    using s1 s2 by (simp add: reset_encoder_def firmware_encoder_def split: if_splits)
qed

lemma reset_layer_bytes:
  assumes "good e" "l < DYNAMIC_KEYMAP_LAYER_COUNT"
  shows "good (reset_layer ops fw l e) \<and> contents (reset_layer ops fw l e) = layer_reset_bytes fw l (contents e)"
proof -
  have "dynamic_keymap_key_to_eeprom_address l 0 0 + length (layer_image fw l) \<le> N"
    using layer_bounds(1) [OF _ assms(2), of "contents e" fw] room length_contents [OF assms(1)] by simp
  note u = update_block [OF assms(1) this]
  show ?thesis
    using u reset_encoder_bytes [OF conjunct1 [OF u] assms(2), of fw]
    by (simp add: reset_layer_def layer_reset_bytes_def keymap_sizes)
qed

lemma reset_prefix:
  "m \<le> DYNAMIC_KEYMAP_LAYER_COUNT \<Longrightarrow> good e \<Longrightarrow>
   good (fold (reset_layer ops fw) [0..<m] e) \<and>
   (\<forall>l < m. layer_done fw l (contents (fold (reset_layer ops fw) [0..<m] e)))"
proof (induction m)
  case (Suc m)
  let ?e = "fold (reset_layer ops fw) [0..<m] e"
  have IH: "good ?e" "\<forall>l < m. layer_done fw l (contents ?e)"
    using Suc by auto
  have len: "TOTAL_EEPROM_BYTE_COUNT \<le> length (contents ?e)"
    using length_contents [OF IH(1)] room by simp
  have "layer_done fw l (layer_reset_bytes fw m (contents ?e))" if "l < Suc m" for l
    using layer_reset_done [OF len, of m fw] layer_reset_other [OF len, of m l fw] IH(2) Suc.prems(1) that
    by (cases "l = m") auto
  then show ?case
    using reset_layer_bytes [OF IH(1), of m fw] Suc.prems(1) by simp
qed simp

lemma reset_installs:
  assumes "good e" "l < DYNAMIC_KEYMAP_LAYER_COUNT"
  shows "r < MATRIX_ROWS \<Longrightarrow> k < MATRIX_COLS \<Longrightarrow>
      dynamic_keymap_get_keycode ops l r k (dynamic_keymap_reset ops fw e) = keycode_at_keymap_location_raw fw l r k"
    and "dynamic_keymap_get_encoder ops l 0 cw (dynamic_keymap_reset ops fw e) = firmware_encoder fw l cw"
    and "good (dynamic_keymap_reset ops fw e)"
  using reset_prefix [OF order_refl assms(1), of fw] assms(2) get_keycode get_encoder
  by (simp_all add: dynamic_keymap_reset_def layer_done_def keymap_sizes(3))

text \<open>Buffers of an area that lies within the EEPROM.\<close>

lemma area_get_contents:
  assumes "good e" "addr + area \<le> N"
  shows "area_get ops addr area offset n e =
    map (\<lambda>i. if offset + i < area then contents e ! (addr + offset + i) else 0) [0..<n]"
  unfolding area_get_def by (rule map_cong) (use assms read_byte in auto)

lemma area_set_contents:
  "good e \<Longrightarrow> addr + area \<le> N \<Longrightarrow> good (area_set ops addr area offset bs e) \<and>
   contents (area_set ops addr area offset bs e) = patch (contents e) (addr + offset) (take (area - offset) bs)"
proof (induction bs arbitrary: offset e)
  case (Cons b bs)
  show ?case
  proof (cases "offset < area")
    case True
    let ?e1 = "eeprom_update_byte ops (addr + offset) b e"
    have u: "good ?e1" "contents ?e1 = (contents e)[addr + offset := b]"
      using update_byte [OF Cons.prems(1), of "addr + offset" b] True Cons.prems(2) by auto
    have len: "length (contents e) = N" by (rule length_contents [OF Cons.prems(1)])
    have "patch ((contents e)[addr + offset := b]) (addr + (offset + 1)) (take (area - (offset + 1)) bs) =
        patch (contents e) (addr + offset) (b # take (area - (offset + 1)) bs)"
      using patch_append [of "addr + offset" "[b]" "take (area - (offset + 1)) bs" "contents e"]
        patch_one [of "addr + offset" "contents e" b] True Cons.prems(2) len by simp
    moreover have "take (area - offset) (b # bs) = b # take (area - (offset + 1)) bs"
      using True by (simp add: take_Cons' Suc_diff_Suc)
    ultimately show ?thesis
      using Cons.IH [OF u(1) Cons.prems(2), of "offset + 1"] u(2) True by simp
  next
    case False
    then show ?thesis
      using Cons.IH [OF Cons.prems, of "offset + 1"] Cons.prems by simp
  qed
qed simp

lemma area_roundtrip:
  assumes "good e" "addr + area \<le> N"
  shows "area_get ops addr area offset (length bs) (area_set ops addr area offset bs e) =
    map (\<lambda>i. if offset + i < area then bs ! i else 0) [0..<length bs]"
proof -
  note s = area_set_contents [OF assms, of offset bs]
  show ?thesis
    unfolding area_get_contents [OF conjunct1 [OF s] assms(2)]
    using s length_contents [OF assms(1)] assms(2)
    by (intro map_cong) (auto simp: nth_patch)
qed

lemma area_set_frame:
  assumes "good e" "addr + area \<le> N" "i < N" "i < addr + offset \<or> addr + area \<le> i"
  shows "contents (area_set ops addr area offset bs e) ! i = contents e ! i"
  using area_set_contents [OF assms(1,2), of offset bs] length_contents [OF assms(1)] assms(2-4)
  by (cases "offset \<le> area") (auto simp: nth_patch)

lemma keymap_fits: "DYNAMIC_KEYMAP_EEPROM_ADDR + keymap_area \<le> N"
    "DYNAMIC_KEYMAP_MACRO_EEPROM_ADDR + DYNAMIC_KEYMAP_MACRO_EEPROM_SIZE \<le> N"
  using room by (simp_all add: areas(3)) (simp add: keymap_layout keymap_area_def)

lemma macros_leave_keys:
  assumes "good e" "l < DYNAMIC_KEYMAP_LAYER_COUNT" "r < MATRIX_ROWS" "k < MATRIX_COLS"
  shows "dynamic_keymap_get_keycode ops l r k (dynamic_keymap_macro_set_buffer ops offset bs e) =
    dynamic_keymap_get_keycode ops l r k e"
proof -
  note s = area_set_contents [OF assms(1) keymap_fits(2), of offset bs]
  have a: "dynamic_keymap_key_to_eeprom_address l r k + 1 < DYNAMIC_KEYMAP_MACRO_EEPROM_ADDR"
    using key_room [OF assms(2-4)] by (simp add: areas)
  have "contents (area_set ops DYNAMIC_KEYMAP_MACRO_EEPROM_ADDR DYNAMIC_KEYMAP_MACRO_EEPROM_SIZE offset bs e) ! i =
      contents e ! i" if "i < DYNAMIC_KEYMAP_MACRO_EEPROM_ADDR" for i
    by (rule area_set_frame [OF assms(1) keymap_fits(2)]) (use that keymap_fits(2) in auto)
  then show ?thesis
    using get_keycode [OF assms] get_keycode [OF conjunct1 [OF s] assms(2-4)] a
    by (simp add: dynamic_keymap_macro_set_buffer_def be16_def)
qed

lemma buffer_sets_key:
  assumes "good e" "l < DYNAMIC_KEYMAP_LAYER_COUNT" "r < MATRIX_ROWS" "k < MATRIX_COLS"
  shows "dynamic_keymap_get_keycode ops l r k
     (dynamic_keymap_set_buffer ops (2 * key_index l r k) [ucast (drop_bit 8 kc), ucast (kc AND 0xFF)] e) = kc"
proof -
  let ?bs = "[ucast (drop_bit 8 kc), ucast (kc AND 0xFF) :: u8]"
  note s = area_set_contents [OF assms(1) keymap_fits(1), of "2 * key_index l r k" ?bs]
  have t: "take (keymap_area - 2 * key_index l r k) ?bs = ?bs"
    using key_index_bound [OF assms(2-4)] by simp
  have "dynamic_keymap_key_to_eeprom_address l r k + 2 \<le> length (contents e)"
    using addr_room(2) [OF key_room [OF assms(2-4)]] length_contents [OF assms(1)] by simp
  then show ?thesis
    using get_keycode [OF conjunct1 [OF s] assms(2-4)] s t
      be16_patch_inside [of "dynamic_keymap_key_to_eeprom_address l r k" ?bs "contents e" 0]
    by (simp add: dynamic_keymap_set_buffer_def key_address be16_def join_bytes)
qed

end

end
