(* ===== verification/Eeconfig.thy ===== *)
theory Eeconfig
  imports Keymap_Store
begin

text \<open>
  quantum/eeconfig.c, the settings block at the start of the EEPROM, with the part of quantum/via.c that keeps VIA's magic
  number, layout options and defaults.  The build is the one of the Keychron P1: an EEPROM driver, VIA, one
  byte of user data, no keyboard data block.
\<close>

section \<open>Addresses\<close>

definition EECONFIG_MAGIC :: nat where "EECONFIG_MAGIC = 0"
definition EECONFIG_DEBUG :: nat where "EECONFIG_DEBUG = 2"
definition EECONFIG_DEFAULT_LAYER :: nat where "EECONFIG_DEFAULT_LAYER = 3"
definition EECONFIG_KEYMAP :: nat where "EECONFIG_KEYMAP = 4"
definition EECONFIG_BACKLIGHT :: nat where "EECONFIG_BACKLIGHT = 6"
definition EECONFIG_AUDIO :: nat where "EECONFIG_AUDIO = 7"
definition EECONFIG_RGBLIGHT :: nat where "EECONFIG_RGBLIGHT = 8"
definition EECONFIG_UNICODEMODE :: nat where "EECONFIG_UNICODEMODE = 12"
definition EECONFIG_STENOMODE :: nat where "EECONFIG_STENOMODE = 13"
definition EECONFIG_HANDEDNESS :: nat where "EECONFIG_HANDEDNESS = 14"
definition EECONFIG_KEYBOARD :: nat where "EECONFIG_KEYBOARD = 15"
definition EECONFIG_USER :: nat where "EECONFIG_USER = 19"
definition EECONFIG_UNUSED :: nat where "EECONFIG_UNUSED = 23"
definition EECONFIG_RGB_MATRIX :: nat where "EECONFIG_RGB_MATRIX = 24"
definition EECONFIG_HAPTIC :: nat where "EECONFIG_HAPTIC = 32"
definition EECONFIG_RGBLIGHT_EXTENDED :: nat where "EECONFIG_RGBLIGHT_EXTENDED = 36"
definition EECONFIG_DEFAULT_MODE :: nat where "EECONFIG_DEFAULT_MODE = 37"
definition EECONFIG_USER_DATABLOCK :: nat where "EECONFIG_USER_DATABLOCK = EECONFIG_BASE_SIZE"

lemmas eeconfig_layout = keymap_layout EECONFIG_MAGIC_def EECONFIG_DEBUG_def EECONFIG_DEFAULT_LAYER_def
  EECONFIG_KEYMAP_def EECONFIG_BACKLIGHT_def EECONFIG_AUDIO_def EECONFIG_RGBLIGHT_def EECONFIG_UNICODEMODE_def
  EECONFIG_STENOMODE_def EECONFIG_HANDEDNESS_def EECONFIG_KEYBOARD_def EECONFIG_USER_def EECONFIG_UNUSED_def
  EECONFIG_RGB_MATRIX_def EECONFIG_HAPTIC_def EECONFIG_RGBLIGHT_EXTENDED_def EECONFIG_DEFAULT_MODE_def
  EECONFIG_USER_DATABLOCK_def

definition EECONFIG_MAGIC_NUMBER :: u16 where "EECONFIG_MAGIC_NUMBER = 0xFEE6"
definition EECONFIG_MAGIC_NUMBER_OFF :: u16 where "EECONFIG_MAGIC_NUMBER_OFF = 0xFFFF"
definition EECONFIG_USER_DATA_VERSION :: u32 where "EECONFIG_USER_DATA_VERSION = 1"

section \<open>VIA's part of the EEPROM\<close>

text \<open>The three magic bytes are packed from the digits of the build date, e.g. \<open>2019-11-05\<close>.\<close>

definition via_magic :: "u8 list \<Rightarrow> u8 list" where
  "via_magic p =
    [push_bit 4 (p ! 2 AND 0x0F) OR (p ! 3 AND 0x0F),
     push_bit 4 (p ! 5 AND 0x0F) OR (p ! 6 AND 0x0F),
     push_bit 4 (p ! 8 AND 0x0F) OR (p ! 9 AND 0x0F)]"

definition via_eeprom_is_valid :: "'e eeprom_ops \<Rightarrow> u8 list \<Rightarrow> 'e \<Rightarrow> bool" where
  "via_eeprom_is_valid ops builddate e \<longleftrightarrow>
    eeprom_read_byte ops (VIA_EEPROM_MAGIC_ADDR + 0) e = via_magic builddate ! 0 \<and>
    eeprom_read_byte ops (VIA_EEPROM_MAGIC_ADDR + 1) e = via_magic builddate ! 1 \<and>
    eeprom_read_byte ops (VIA_EEPROM_MAGIC_ADDR + 2) e = via_magic builddate ! 2"

definition via_eeprom_set_valid :: "'e eeprom_ops \<Rightarrow> u8 list \<Rightarrow> bool \<Rightarrow> 'e \<Rightarrow> 'e" where
  "via_eeprom_set_valid ops builddate valid e =
    eeprom_update_byte ops (VIA_EEPROM_MAGIC_ADDR + 2) (if valid then via_magic builddate ! 2 else 0xFF)
      (eeprom_update_byte ops (VIA_EEPROM_MAGIC_ADDR + 1) (if valid then via_magic builddate ! 1 else 0xFF)
        (eeprom_update_byte ops (VIA_EEPROM_MAGIC_ADDR + 0) (if valid then via_magic builddate ! 0 else 0xFF) e))"

text \<open>The loops over the bytes of the layout options, most significant byte at the lowest address.\<close>

definition via_get_layout_options :: "'e eeprom_ops \<Rightarrow> 'e \<Rightarrow> u32" where
  "via_get_layout_options ops e =
     fold (\<lambda>i v. push_bit 8 v OR ucast (eeprom_read_byte ops (VIA_EEPROM_LAYOUT_OPTIONS_ADDR + i) e))
       [0..<VIA_EEPROM_LAYOUT_OPTIONS_SIZE] 0"

definition via_set_layout_options :: "'e eeprom_ops \<Rightarrow> u32 \<Rightarrow> 'e \<Rightarrow> 'e" where
  "via_set_layout_options ops v e =
     snd (fold (\<lambda>i (v, e).
         (drop_bit 8 v,
          eeprom_update_byte ops (VIA_EEPROM_LAYOUT_OPTIONS_ADDR + VIA_EEPROM_LAYOUT_OPTIONS_SIZE - 1 - i)
            (ucast (v AND 0xFF)) e))
       [0..<VIA_EEPROM_LAYOUT_OPTIONS_SIZE] (v, e))"

definition eeconfig_init_via :: "'e eeprom_ops \<Rightarrow> u8 list \<Rightarrow> firmware_keymap \<Rightarrow> 'e \<Rightarrow> 'e" where
  "eeconfig_init_via ops builddate fw e =
    (let e1 = via_eeprom_set_valid ops builddate False e;
         e2 = via_set_layout_options ops 0 e1;
         e3 = dynamic_keymap_reset ops fw e2;
         e4 = dynamic_keymap_macro_reset ops e3
     in via_eeprom_set_valid ops builddate True e4)"

definition via_init :: "'e eeprom_ops \<Rightarrow> u8 list \<Rightarrow> firmware_keymap \<Rightarrow> 'e \<Rightarrow> 'e" where
  "via_init ops builddate fw e =
    (if \<not> via_eeprom_is_valid ops builddate e then eeconfig_init_via ops builddate fw e else e)"

section \<open>The settings block\<close>

definition eeconfig_update_user_datablock :: "'e eeprom_ops \<Rightarrow> u8 list \<Rightarrow> 'e \<Rightarrow> 'e" where
  "eeconfig_update_user_datablock ops data e =
     eeprom_update_block ops data EECONFIG_USER_DATABLOCK
       (eeprom_update_dword ops EECONFIG_USER EECONFIG_USER_DATA_VERSION e)"

definition eeconfig_init_user_datablock :: "'e eeprom_ops \<Rightarrow> 'e \<Rightarrow> 'e" where
  "eeconfig_init_user_datablock ops e =
     eeconfig_update_user_datablock ops (replicate EECONFIG_USER_DATA_SIZE 0) e"

definition eeconfig_is_user_datablock_valid :: "'e eeprom_ops \<Rightarrow> 'e \<Rightarrow> bool" where
  "eeconfig_is_user_datablock_valid ops e \<longleftrightarrow> eeprom_read_dword ops EECONFIG_USER e = EECONFIG_USER_DATA_VERSION"

definition eeconfig_read_user_datablock :: "'e eeprom_ops \<Rightarrow> u8 list \<Rightarrow> 'e \<Rightarrow> u8 list" where
  "eeconfig_read_user_datablock ops data e =
    (if eeconfig_is_user_datablock_valid ops e then eeprom_read_block ops data EECONFIG_USER_DATABLOCK e
     else replicate (length data) 0)"

definition eeconfig_update_kb :: "'e eeprom_ops \<Rightarrow> u32 \<Rightarrow> 'e \<Rightarrow> 'e" where
  "eeconfig_update_kb ops v e = eeprom_update_dword ops EECONFIG_KEYBOARD v e"

definition eeconfig_read_kb :: "'e eeprom_ops \<Rightarrow> 'e \<Rightarrow> u32" where
  "eeconfig_read_kb ops e = eeprom_read_dword ops EECONFIG_KEYBOARD e"

text \<open>The weak default of \<open>eeconfig_init_kb\<close>; the user hook is empty when there is user data.\<close>

definition eeconfig_init_kb :: "'e eeprom_ops \<Rightarrow> 'e \<Rightarrow> 'e" where
  "eeconfig_init_kb ops e = eeconfig_update_kb ops 0 e"

text \<open>The settings written before the data blocks, in the order of the code.\<close>

definition eeconfig_init_settings :: "'e eeprom_ops \<Rightarrow> 'e \<Rightarrow> 'e" where
  "eeconfig_init_settings ops e0 =
    (let e = eeprom_update_word ops EECONFIG_MAGIC EECONFIG_MAGIC_NUMBER e0;
         e = eeprom_update_byte ops EECONFIG_DEBUG 0 e;
         e = eeprom_update_byte ops EECONFIG_DEFAULT_LAYER 1 e;
         e = eeprom_update_byte ops EECONFIG_DEFAULT_MODE 0 e;
         e = eeprom_update_word ops EECONFIG_KEYMAP 0x1400 e;
         e = eeprom_update_byte ops EECONFIG_BACKLIGHT 0 e;
         e = eeprom_update_byte ops EECONFIG_AUDIO 0xFF e;
         e = eeprom_update_dword ops EECONFIG_RGBLIGHT 0 e;
         e = eeprom_update_byte ops EECONFIG_RGBLIGHT_EXTENDED 0 e;
         e = eeprom_update_byte ops EECONFIG_UNUSED 0 e;
         e = eeprom_update_byte ops EECONFIG_UNICODEMODE 0 e;
         e = eeprom_update_byte ops EECONFIG_STENOMODE 0 e;
         e = eeprom_update_block ops (replicate 8 0) EECONFIG_RGB_MATRIX e
     in eeprom_update_dword ops EECONFIG_HAPTIC 0 e)"

text \<open>The second result is the value assigned to \<open>default_layer_state\<close>.\<close>

definition eeconfig_init_quantum :: "'e eeprom_ops \<Rightarrow> u8 list \<Rightarrow> firmware_keymap \<Rightarrow> 'e \<Rightarrow> 'e \<times> u8" where
  "eeconfig_init_quantum ops builddate fw e =
    (let e1 = eeprom_driver_erase ops e;
         e2 = eeconfig_init_settings ops e1;
         e3 = eeconfig_init_user_datablock ops e2;
         e4 = via_eeprom_set_valid ops builddate False e3;
         e5 = eeconfig_init_via ops builddate fw e4
     in (eeconfig_init_kb ops e5, 1))"

definition eeconfig_enable :: "'e eeprom_ops \<Rightarrow> 'e \<Rightarrow> 'e" where
  "eeconfig_enable ops e = eeprom_update_word ops EECONFIG_MAGIC EECONFIG_MAGIC_NUMBER e"

definition eeconfig_disable :: "'e eeprom_ops \<Rightarrow> 'e \<Rightarrow> 'e" where
  "eeconfig_disable ops e =
     eeprom_update_word ops EECONFIG_MAGIC EECONFIG_MAGIC_NUMBER_OFF (eeprom_driver_erase ops e)"

definition eeconfig_is_enabled :: "'e eeprom_ops \<Rightarrow> u8 list \<Rightarrow> 'e \<Rightarrow> bool" where
  "eeconfig_is_enabled ops builddate e \<longleftrightarrow>
    (if eeprom_read_word ops EECONFIG_MAGIC e = EECONFIG_MAGIC_NUMBER then via_eeprom_is_valid ops builddate e else False)"

definition eeconfig_is_disabled :: "'e eeprom_ops \<Rightarrow> u8 list \<Rightarrow> 'e \<Rightarrow> bool" where
  "eeconfig_is_disabled ops builddate e \<longleftrightarrow>
    (if eeprom_read_word ops EECONFIG_MAGIC e = EECONFIG_MAGIC_NUMBER_OFF then True
     else \<not> via_eeprom_is_valid ops builddate e)"

definition eeconfig_read_debug :: "'e eeprom_ops \<Rightarrow> 'e \<Rightarrow> u8" where
  "eeconfig_read_debug ops e = eeprom_read_byte ops EECONFIG_DEBUG e"

definition eeconfig_update_debug :: "'e eeprom_ops \<Rightarrow> u8 \<Rightarrow> 'e \<Rightarrow> 'e" where
  "eeconfig_update_debug ops v e = eeprom_update_byte ops EECONFIG_DEBUG v e"

definition eeconfig_read_default_layer :: "'e eeprom_ops \<Rightarrow> 'e \<Rightarrow> u8" where
  "eeconfig_read_default_layer ops e = eeprom_read_byte ops EECONFIG_DEFAULT_LAYER e"

definition eeconfig_update_default_layer :: "'e eeprom_ops \<Rightarrow> u8 \<Rightarrow> 'e \<Rightarrow> 'e" where
  "eeconfig_update_default_layer ops v e = eeprom_update_byte ops EECONFIG_DEFAULT_LAYER v e"

definition eeconfig_read_default_mode :: "'e eeprom_ops \<Rightarrow> 'e \<Rightarrow> u8" where
  "eeconfig_read_default_mode ops e = eeprom_read_byte ops EECONFIG_DEFAULT_MODE e"

definition eeconfig_update_default_mode :: "'e eeprom_ops \<Rightarrow> u8 \<Rightarrow> 'e \<Rightarrow> 'e" where
  "eeconfig_update_default_mode ops v e = eeprom_update_byte ops EECONFIG_DEFAULT_MODE v e"

definition eeconfig_read_keymap :: "'e eeprom_ops \<Rightarrow> 'e \<Rightarrow> u16" where
  "eeconfig_read_keymap ops e = eeprom_read_word ops EECONFIG_KEYMAP e"

definition eeconfig_update_keymap :: "'e eeprom_ops \<Rightarrow> u16 \<Rightarrow> 'e \<Rightarrow> 'e" where
  "eeconfig_update_keymap ops v e = eeprom_update_word ops EECONFIG_KEYMAP v e"

definition eeconfig_read_audio :: "'e eeprom_ops \<Rightarrow> 'e \<Rightarrow> u8" where
  "eeconfig_read_audio ops e = eeprom_read_byte ops EECONFIG_AUDIO e"

definition eeconfig_update_audio :: "'e eeprom_ops \<Rightarrow> u8 \<Rightarrow> 'e \<Rightarrow> 'e" where
  "eeconfig_update_audio ops v e = eeprom_update_byte ops EECONFIG_AUDIO v e"

definition eeconfig_read_haptic :: "'e eeprom_ops \<Rightarrow> 'e \<Rightarrow> u32" where
  "eeconfig_read_haptic ops e = eeprom_read_dword ops EECONFIG_HAPTIC e"

definition eeconfig_update_haptic :: "'e eeprom_ops \<Rightarrow> u32 \<Rightarrow> 'e \<Rightarrow> 'e" where
  "eeconfig_update_haptic ops v e = eeprom_update_dword ops EECONFIG_HAPTIC v e"

definition eeconfig_read_handedness :: "'e eeprom_ops \<Rightarrow> 'e \<Rightarrow> bool" where
  "eeconfig_read_handedness ops e \<longleftrightarrow> eeprom_read_byte ops EECONFIG_HANDEDNESS e \<noteq> 0"

definition eeconfig_update_handedness :: "'e eeprom_ops \<Rightarrow> bool \<Rightarrow> 'e \<Rightarrow> 'e" where
  "eeconfig_update_handedness ops v e = eeprom_update_byte ops EECONFIG_HANDEDNESS (if v then 1 else 0) e"

section \<open>Bytes left alone\<close>

text \<open>\<open>keeps c c' x y\<close>: the bytes from x to before y are the same.\<close>

definition keeps :: "u8 list \<Rightarrow> u8 list \<Rightarrow> nat \<Rightarrow> nat \<Rightarrow> bool" where
  "keeps c c' x y \<longleftrightarrow> (\<forall>i. x \<le> i \<longrightarrow> i < y \<longrightarrow> c' ! i = c ! i)"

definition is_digit :: "u8 \<Rightarrow> bool" where
  "is_digit d \<longleftrightarrow> d \<in> {48, 49, 50, 51, 52, 53, 54, 55, 56, 57}"

definition date_ok :: "u8 list \<Rightarrow> bool" where
  "date_ok p \<longleftrightarrow> 10 \<le> length p \<and> is_digit (p ! 2) \<and> is_digit (p ! 3) \<and> is_digit (p ! 5) \<and> is_digit (p ! 6) \<and>
    is_digit (p ! 8) \<and> is_digit (p ! 9)"

lemma keeps_trans: "keeps a b x y \<Longrightarrow> keeps b c x y \<Longrightarrow> keeps a c x y"
  by (simp add: keeps_def)

lemma keeps_patch:
  "a + length vs \<le> length c \<Longrightarrow> y \<le> length c \<Longrightarrow> y \<le> a \<or> a + length vs \<le> x \<Longrightarrow> keeps c (patch c a vs) x y"
  by (auto simp: keeps_def nth_patch)

lemma keeps_put16: "y \<le> a \<or> a + 2 \<le> x \<Longrightarrow> keeps c (put16 c a k) x y"
  by (auto simp: keeps_def put16_def)

lemma keeps_layer_reset:
  assumes "TOTAL_EEPROM_BYTE_COUNT \<le> length c" "l < DYNAMIC_KEYMAP_LAYER_COUNT"
  shows "keeps c (layer_reset_bytes fw l c) 0 DYNAMIC_KEYMAP_EEPROM_ADDR"
proof -
  note b = layer_bounds(1,2) [OF assms, of fw] layer_bounds(3,4) [OF assms]
  have "keeps c (patch c (dynamic_keymap_key_to_eeprom_address l 0 0) (layer_image fw l)) 0 DYNAMIC_KEYMAP_EEPROM_ADDR"
    by (rule keeps_patch) (use b assms in \<open>simp_all add: key_address keymap_layout\<close>)
  moreover have "DYNAMIC_KEYMAP_EEPROM_ADDR \<le> dynamic_keymap_encoder_to_eeprom_address l 0"
    using b(4) by (simp add: areas)
  then have "keeps c' (put16 (put16 c' (dynamic_keymap_encoder_to_eeprom_address l 0) x)
      (dynamic_keymap_encoder_to_eeprom_address l 0 + 2) y) 0 DYNAMIC_KEYMAP_EEPROM_ADDR" for c' x y
    by (simp add: keeps_def nth_put16)
  ultimately show ?thesis
    unfolding layer_reset_bytes_def by (rule keeps_trans)
qed

lemma magic_digit:
  "is_digit d \<Longrightarrow> push_bit 4 (d AND 0x0F) OR (d' AND 0x0F) \<noteq> (0xFF :: u8)"
proof
  assume d: "is_digit d"
    and eq: "push_bit 4 (d AND 0x0F) OR (d' AND 0x0F) = (0xFF :: u8)"
  have m: "(0x0F :: u8) = mask 4" "(0xFF :: u8) = mask 8"
    by (simp_all add: mask_eq_exp_minus_1)
  have "bit (push_bit 4 (d AND 0x0F) OR (d' AND 0x0F) :: u8) 6 \<and> bit (push_bit 4 (d AND 0x0F) OR (d' AND 0x0F) :: u8) 5"
    unfolding eq by simp
  then have "bit d 2 \<and> bit d 1"
    by (simp add: m bit_simps)
  moreover have "bit (push_bit 4 (d AND 0x0F) OR (d' AND 0x0F) :: u8) 7"
    unfolding eq by simp
  then have "bit d 3"
    by (simp add: m bit_simps)
  ultimately show False
    using d by (auto simp: is_digit_def)
qed

lemma magic_not_blank: "date_ok p \<Longrightarrow> i < 3 \<Longrightarrow> via_magic p ! i \<noteq> 0xFF"
  using magic_digit [of "p ! 2" "p ! 3"] magic_digit [of "p ! 5" "p ! 6"] magic_digit [of "p ! 8" "p ! 9"]
  by (cases "i = 0"; cases "i = 1") (simp_all add: date_ok_def via_magic_def nth_Cons')

text \<open>The byte at i after a list of patches.\<close>

fun byte_at :: "(nat \<times> u8 list) list \<Rightarrow> nat \<Rightarrow> u8 \<Rightarrow> u8" where
  "byte_at [] i d = d"
| "byte_at ((a, bs) # ps) i d = byte_at ps i (if a \<le> i \<and> i < a + length bs then bs ! (i - a) else d)"

lemma nth_fold_patch:
  "\<forall>(a, bs) \<in> set ps. a + length bs \<le> length c \<Longrightarrow> i < length c \<Longrightarrow>
   fold (\<lambda>(a, bs) c. patch c a bs) ps c ! i = byte_at ps i (c ! i)"
  by (induction ps arbitrary: c) (auto simp: nth_patch)

definition init_patches :: "(nat \<times> u8 list) list" where
  "init_patches =
        [(0, bytes_of_u16 EECONFIG_MAGIC_NUMBER), (2, [0]), (3, [1]), (37, [0]), (4, bytes_of_u16 0x1400), (6, [0]),
         (7, [0xFF]), (8, bytes_of_u32 0), (36, [0]), (23, [0]), (12, [0]), (13, [0]), (24, replicate 8 0),
         (32, bytes_of_u32 0)]"

text \<open>The settings block as it is initialised, field by field.\<close>

definition settings_image :: "u8 list" where
  "settings_image = bytes_of_u16 EECONFIG_MAGIC_NUMBER @ [0] \<comment> \<open>debug\<close> @ [1] \<comment> \<open>default layer\<close> @ bytes_of_u16 0x1400 \<comment> \<open>keymap\<close> @
     [0] \<comment> \<open>backlight\<close> @ [0xFF] \<comment> \<open>audio\<close> @ bytes_of_u32 0 \<comment> \<open>rgblight\<close> @ [0] \<comment> \<open>unicode mode\<close> @
     [0] \<comment> \<open>steno mode\<close> @ [0] \<comment> \<open>handedness\<close> @ bytes_of_u32 0 \<comment> \<open>keyboard\<close> @
     bytes_of_u32 EECONFIG_USER_DATA_VERSION @ [0] \<comment> \<open>unused\<close> @ replicate 8 0 \<comment> \<open>RGB matrix\<close> @
     bytes_of_u32 0 \<comment> \<open>haptic\<close> @ [0] \<comment> \<open>rgblight extended\<close> @ [0] \<comment> \<open>default mode\<close> @ [0] \<comment> \<open>user data\<close>"

section \<open>Initialising the EEPROM\<close>

context keymap_eeprom
begin

lemma low_room: "x < TOTAL_EEPROM_BYTE_COUNT \<Longrightarrow> x < N"
  using room by simp

lemma valid_contents:
  assumes "good e"
  shows "via_eeprom_is_valid ops p e \<longleftrightarrow>
    (\<forall>i < 3. contents e ! (VIA_EEPROM_MAGIC_ADDR + i) = via_magic p ! i)"
proof -
  have "VIA_EEPROM_MAGIC_ADDR + 2 < N"
    by (rule low_room) (simp add: eeconfig_layout)
  then show ?thesis
    using assms by (auto simp: via_eeprom_is_valid_def read_byte numeral_3_eq_3 less_Suc_eq numeral_2_eq_2)
qed

lemma set_valid_contents:
  assumes "good e"
  shows "good (via_eeprom_set_valid ops p v e)"
    and "i < 3 \<Longrightarrow> contents (via_eeprom_set_valid ops p v e) ! (VIA_EEPROM_MAGIC_ADDR + i) =
      (if v then via_magic p ! i else 0xFF)"
    and "keeps (contents e) (contents (via_eeprom_set_valid ops p v e)) 0 VIA_EEPROM_MAGIC_ADDR"
    and "keeps (contents e) (contents (via_eeprom_set_valid ops p v e)) (VIA_EEPROM_MAGIC_ADDR + 3) N"
proof -
  have r: "VIA_EEPROM_MAGIC_ADDR + 2 < N"
    by (rule low_room) (simp add: eeconfig_layout)
  let ?b = "\<lambda>i. if v then via_magic p ! i else 0xFF"
  let ?e1 = "eeprom_update_byte ops (VIA_EEPROM_MAGIC_ADDR + 0) (?b 0) e"
  let ?e2 = "eeprom_update_byte ops (VIA_EEPROM_MAGIC_ADDR + 1) (?b 1) ?e1"
  have 1: "good ?e1" "contents ?e1 = (contents e)[VIA_EEPROM_MAGIC_ADDR := ?b 0]"
    using update_byte [OF assms, of "VIA_EEPROM_MAGIC_ADDR + 0" "?b 0"] r by simp_all
  have 2: "good ?e2" "contents ?e2 = (contents e)[VIA_EEPROM_MAGIC_ADDR := ?b 0, VIA_EEPROM_MAGIC_ADDR + 1 := ?b 1]"
    using update_byte [OF 1(1), of "VIA_EEPROM_MAGIC_ADDR + 1" "?b 1"] 1(2) r by simp_all
  have 3: "good (via_eeprom_set_valid ops p v e)"
    "contents (via_eeprom_set_valid ops p v e) =
      (contents e)[VIA_EEPROM_MAGIC_ADDR := ?b 0, VIA_EEPROM_MAGIC_ADDR + 1 := ?b 1, VIA_EEPROM_MAGIC_ADDR + 2 := ?b 2]"
    using update_byte [OF 2(1), of "VIA_EEPROM_MAGIC_ADDR + 2" "?b 2"] 2(2) r
    by (simp_all add: via_eeprom_set_valid_def cong: if_cong)
  show "good (via_eeprom_set_valid ops p v e)" by (rule 3)
  show "i < 3 \<Longrightarrow> contents (via_eeprom_set_valid ops p v e) ! (VIA_EEPROM_MAGIC_ADDR + i) = ?b i"
    using 3(2) r length_contents [OF assms] by (auto simp: numeral_3_eq_3 less_Suc_eq numeral_2_eq_2)
  show "keeps (contents e) (contents (via_eeprom_set_valid ops p v e)) 0 VIA_EEPROM_MAGIC_ADDR"
    "keeps (contents e) (contents (via_eeprom_set_valid ops p v e)) (VIA_EEPROM_MAGIC_ADDR + 3) N"
    by (simp_all add: 3(2) keeps_def)
qed

lemma set_valid_is_valid:
  assumes "good e" "date_ok p"
  shows "via_eeprom_is_valid ops p (via_eeprom_set_valid ops p v e) \<longleftrightarrow> v"
  using valid_contents [OF set_valid_contents(1) [OF assms(1)], of p p v] set_valid_contents(2) [OF assms(1), of _ p v]
    magic_not_blank [OF assms(2), of 0]
  by auto

lemma valid_kept:
  assumes "good e" "good e'" "keeps (contents e) (contents e') VIA_EEPROM_MAGIC_ADDR (VIA_EEPROM_MAGIC_ADDR + 3)"
  shows "via_eeprom_is_valid ops p e' \<longleftrightarrow> via_eeprom_is_valid ops p e"
  using assms by (auto simp: valid_contents keeps_def)

lemma layout_options_contents:
  assumes "good e"
  shows "good (via_set_layout_options ops v e)"
    and "contents (via_set_layout_options ops v e) =
      (contents e)[VIA_EEPROM_LAYOUT_OPTIONS_ADDR := ucast (v AND 0xFF)]"
  using update_byte [OF assms, of VIA_EEPROM_LAYOUT_OPTIONS_ADDR "ucast (v AND 0xFF)"] low_room [of VIA_EEPROM_LAYOUT_OPTIONS_ADDR]
  by (simp_all add: via_set_layout_options_def VIA_EEPROM_LAYOUT_OPTIONS_SIZE_def) (simp_all add: eeconfig_layout)

lemma reset_frame: "good e \<Longrightarrow> m \<le> DYNAMIC_KEYMAP_LAYER_COUNT \<Longrightarrow>
    keeps (contents e) (contents (fold (reset_layer ops fw) [0..<m] e)) 0 DYNAMIC_KEYMAP_EEPROM_ADDR"
proof (induction m)
  case (Suc m)
  have g: "good (fold (reset_layer ops fw) [0..<m] e)"
    using reset_prefix [of m e fw] Suc.prems by simp
  have "keeps (contents (fold (reset_layer ops fw) [0..<m] e))
      (contents (reset_layer ops fw m (fold (reset_layer ops fw) [0..<m] e))) 0 DYNAMIC_KEYMAP_EEPROM_ADDR"
    using reset_layer_bytes [OF g, of m fw] keeps_layer_reset [of "contents (fold (reset_layer ops fw) [0..<m] e)" m fw]
      Suc.prems(2) room length_contents [OF g] by simp
  then show ?case
    using Suc by (auto intro: keeps_trans)
qed (simp add: keeps_def)

lemma update_bytes_frame:
  "good e \<Longrightarrow> \<forall>q \<in> set ps. x \<le> q \<and> q < N \<Longrightarrow>
   good (fold (\<lambda>q. eeprom_update_byte ops q v) ps e) \<and>
   keeps (contents e) (contents (fold (\<lambda>q. eeprom_update_byte ops q v) ps e)) 0 x"
proof (induction ps arbitrary: e)
  case (Cons q ps)
  have "good (eeprom_update_byte ops q v e)" "contents (eeprom_update_byte ops q v e) = (contents e)[q := v]"
    using update_byte [OF Cons.prems(1), of q v] Cons.prems(2) by auto
  moreover have "keeps (contents e) ((contents e)[q := v]) 0 x"
    using Cons.prems(2) by (simp add: keeps_def)
  ultimately show ?case
    using Cons.IH [of "eeprom_update_byte ops q v e"] Cons.prems(2) by (auto intro: keeps_trans)
qed (simp add: keeps_def)

lemma macro_reset_frame:
  assumes "good e"
  shows "good (dynamic_keymap_macro_reset ops e) \<and>
    keeps (contents e) (contents (dynamic_keymap_macro_reset ops e)) 0 DYNAMIC_KEYMAP_MACRO_EEPROM_ADDR"
  unfolding dynamic_keymap_macro_reset_def
  by (rule update_bytes_frame [OF assms]) (use keymap_fits(2) in auto)

lemma clear_bytes:
  "good e \<Longrightarrow> list_all (\<lambda>a. a < N) as \<Longrightarrow> good (fold (\<lambda>p. eeprom_update_byte ops p 0) as e) \<and>
   (\<forall>i < N. contents (fold (\<lambda>p. eeprom_update_byte ops p 0) as e) ! i = (if i \<in> set as then 0 else contents e ! i))"
proof (induction as arbitrary: e)
  case (Cons a as)
  have u: "good (eeprom_update_byte ops a 0 e)" "contents (eeprom_update_byte ops a 0 e) = (contents e)[a := 0]"
    using update_byte [OF Cons.prems(1), of a 0] Cons.prems(2) by auto
  then show ?case using Cons.IH [OF u(1)] Cons.prems(2) length_contents [OF Cons.prems(1)]
    by (auto simp: nth_list_update)
qed simp

lemma macro_reset_clears:
  assumes "good e" and "DYNAMIC_KEYMAP_MACRO_EEPROM_ADDR \<le> i" and "i < DYNAMIC_KEYMAP_MACRO_EEPROM_ADDR + DYNAMIC_KEYMAP_MACRO_EEPROM_SIZE"
  shows "contents (dynamic_keymap_macro_reset ops e) ! i = 0"
proof -
  have "list_all (\<lambda>a. a < N)
      [DYNAMIC_KEYMAP_MACRO_EEPROM_ADDR..<DYNAMIC_KEYMAP_MACRO_EEPROM_ADDR + DYNAMIC_KEYMAP_MACRO_EEPROM_SIZE]"
    using keymap_fits(2) by (auto simp: list_all_iff)
  from clear_bytes [OF assms(1) this] assms(2,3) keymap_fits(2) show ?thesis
    by (simp add: dynamic_keymap_macro_reset_def)
qed

text \<open>VIA's initialisation, interrupted anywhere, leaves the EEPROM marked invalid.\<close>

lemma init_via_stages:
  fixes e :: 'e and fw :: firmware_keymap
  assumes "good e" "date_ok p"
  defines "e1 \<equiv> via_eeprom_set_valid ops p False e"
  defines "e2 \<equiv> via_set_layout_options ops 0 e1"
  defines "e3 \<equiv> dynamic_keymap_reset ops fw e2"
  defines "e4 \<equiv> dynamic_keymap_macro_reset ops e3"
  shows "good e1 \<and> good e2 \<and> good e3 \<and> good e4"
    and "\<not> via_eeprom_is_valid ops p e1" and "\<not> via_eeprom_is_valid ops p e2"
    and "m \<le> DYNAMIC_KEYMAP_LAYER_COUNT \<Longrightarrow> \<not> via_eeprom_is_valid ops p (fold (reset_layer ops fw) [0..<m] e2)"
    and "\<not> via_eeprom_is_valid ops p e4"
    and "keeps (contents e1) (contents e4) 0 VIA_EEPROM_LAYOUT_OPTIONS_ADDR"
    and "keeps (contents e3) (contents e4) 0 DYNAMIC_KEYMAP_MACRO_EEPROM_ADDR"
proof -
  have g1: "good e1" unfolding e1_def by (rule set_valid_contents(1) [OF assms(1)])
  have g2: "good e2" unfolding e2_def by (rule layout_options_contents(1) [OF g1])
  have g3: "good e3" unfolding e3_def by (rule reset_installs(3) [OF g2, of 0]) (simp add: keymap_sizes)
  have g4: "good e4" unfolding e4_def using macro_reset_frame [OF g3] by blast
  show "good e1 \<and> good e2 \<and> good e3 \<and> good e4"
    using g1 g2 g3 g4 by blast
  show v1: "\<not> via_eeprom_is_valid ops p e1"
    unfolding e1_def by (simp add: set_valid_is_valid assms)
  have k2: "keeps (contents e1) (contents e2) 0 VIA_EEPROM_LAYOUT_OPTIONS_ADDR"
    unfolding e2_def by (simp add: layout_options_contents(2) [OF g1] keeps_def)
  have km: "keeps (contents e2) (contents (fold (reset_layer ops fw) [0..<m] e2)) 0 DYNAMIC_KEYMAP_EEPROM_ADDR"
    if "m \<le> DYNAMIC_KEYMAP_LAYER_COUNT" for m
    by (rule reset_frame [OF g2 that])
  show k4: "keeps (contents e3) (contents e4) 0 DYNAMIC_KEYMAP_MACRO_EEPROM_ADDR"
    unfolding e4_def using macro_reset_frame [OF g3] by blast
  have order: "VIA_EEPROM_MAGIC_ADDR + 3 \<le> VIA_EEPROM_LAYOUT_OPTIONS_ADDR"
    "VIA_EEPROM_LAYOUT_OPTIONS_ADDR \<le> DYNAMIC_KEYMAP_EEPROM_ADDR"
    "VIA_EEPROM_LAYOUT_OPTIONS_ADDR \<le> DYNAMIC_KEYMAP_MACRO_EEPROM_ADDR"
    by (simp_all add: eeconfig_layout)
  have k3: "keeps (contents e2) (contents e3) 0 DYNAMIC_KEYMAP_EEPROM_ADDR"
    unfolding e3_def dynamic_keymap_reset_def by (rule km) simp
  show v2: "\<not> via_eeprom_is_valid ops p e2"
    using valid_kept [OF g1 g2, of p] k2 order v1 by (auto simp: keeps_def)
  show "m \<le> DYNAMIC_KEYMAP_LAYER_COUNT \<Longrightarrow> \<not> via_eeprom_is_valid ops p (fold (reset_layer ops fw) [0..<m] e2)"
    using valid_kept [OF g2, of "fold (reset_layer ops fw) [0..<m] e2" p] km [of m] order v2
      reset_prefix [of m e2 fw] g2 by (auto simp: keeps_def)
  show all: "keeps (contents e1) (contents e4) 0 VIA_EEPROM_LAYOUT_OPTIONS_ADDR"
    using k2 k3 k4 order by (auto simp: keeps_def)
  show "\<not> via_eeprom_is_valid ops p e4"
    using valid_kept [OF g1 g4, of p] all order v1 by (auto simp: keeps_def)
qed

lemma key_kept:
  assumes "good e" "good e'" "keeps (contents e) (contents e') DYNAMIC_KEYMAP_EEPROM_ADDR DYNAMIC_KEYMAP_MACRO_EEPROM_ADDR"
    "l < DYNAMIC_KEYMAP_LAYER_COUNT"
  shows "r < MATRIX_ROWS \<Longrightarrow> k < MATRIX_COLS \<Longrightarrow>
      dynamic_keymap_get_keycode ops l r k e' = dynamic_keymap_get_keycode ops l r k e"
    and "dynamic_keymap_get_encoder ops l 0 cw e' = dynamic_keymap_get_encoder ops l 0 cw e"
proof -
  assume "r < MATRIX_ROWS" "k < MATRIX_COLS"
  then show "dynamic_keymap_get_keycode ops l r k e' = dynamic_keymap_get_keycode ops l r k e"
    using key_room [of l r k] assms
    by (simp add: get_keycode be16_def keeps_def key_address areas)
next
  show "dynamic_keymap_get_encoder ops l 0 cw e' = dynamic_keymap_get_encoder ops l 0 cw e"
    using encoder_room [of l 0 cw] assms get_encoder [of e l 0 cw] get_encoder [of e' l 0 cw]
    by (auto simp: be16_def keeps_def encoder_address areas keymap_sizes)
qed

lemma init_via_result:
  fixes e :: 'e and fw :: firmware_keymap
  assumes "good e" "date_ok p"
  defines "e' \<equiv> eeconfig_init_via ops p fw e"
  shows "good e'" and "via_eeprom_is_valid ops p e'"
    and "keeps (contents e) (contents e') 0 VIA_EEPROM_MAGIC_ADDR"
    and "l < DYNAMIC_KEYMAP_LAYER_COUNT \<Longrightarrow> r < MATRIX_ROWS \<Longrightarrow> k < MATRIX_COLS \<Longrightarrow>
      dynamic_keymap_get_keycode ops l r k e' = keycode_at_keymap_location_raw fw l r k"
    and "l < DYNAMIC_KEYMAP_LAYER_COUNT \<Longrightarrow> dynamic_keymap_get_encoder ops l 0 cw e' = firmware_encoder fw l cw"
    and "contents e' ! VIA_EEPROM_LAYOUT_OPTIONS_ADDR = 0"
    and "DYNAMIC_KEYMAP_MACRO_EEPROM_ADDR \<le> i \<Longrightarrow> i < DYNAMIC_KEYMAP_MACRO_EEPROM_ADDR + DYNAMIC_KEYMAP_MACRO_EEPROM_SIZE \<Longrightarrow>
      contents e' ! i = 0"
proof -
  define e1 where "e1 = via_eeprom_set_valid ops p False e"
  define e2 where "e2 = via_set_layout_options ops 0 e1"
  define e3 where "e3 = dynamic_keymap_reset ops fw e2"
  define e4 where "e4 = dynamic_keymap_macro_reset ops e3"
  have e': "e' = via_eeprom_set_valid ops p True e4"
    by (simp add: e'_def eeconfig_init_via_def e1_def e2_def e3_def e4_def Let_def)
  note st = init_via_stages(1,6,7) [OF assms(1,2), of fw, folded e1_def e2_def e3_def e4_def]
  have g: "good e1" "good e2" "good e3" "good e4" using st(1) by blast+
  note s = set_valid_contents(1,3,4) [OF g(4), of p True, folded e']
  show g': "good e'" by (rule s(1))
  show "via_eeprom_is_valid ops p e'"
    by (simp add: e' set_valid_is_valid g(4) assms(2))
  have order: "VIA_EEPROM_MAGIC_ADDR + 3 \<le> DYNAMIC_KEYMAP_EEPROM_ADDR" "DYNAMIC_KEYMAP_MACRO_EEPROM_ADDR \<le> N"
    "VIA_EEPROM_MAGIC_ADDR \<le> VIA_EEPROM_LAYOUT_OPTIONS_ADDR"
    using room by (simp_all add: eeconfig_layout)
  show "keeps (contents e) (contents e') 0 VIA_EEPROM_MAGIC_ADDR"
    using st(2) s(2) set_valid_contents(3) [OF assms(1), of p False, folded e1_def] order
    by (auto simp: keeps_def)
  have k: "keeps (contents e3) (contents e') DYNAMIC_KEYMAP_EEPROM_ADDR DYNAMIC_KEYMAP_MACRO_EEPROM_ADDR"
    using st(3) s(3) order by (auto simp: keeps_def)
  show "l < DYNAMIC_KEYMAP_LAYER_COUNT \<Longrightarrow> r < MATRIX_ROWS \<Longrightarrow> k < MATRIX_COLS \<Longrightarrow>
      dynamic_keymap_get_keycode ops l r k e' = keycode_at_keymap_location_raw fw l r k"
    using key_kept(1) [OF g(3) g' k] reset_installs(1) [OF g(2), of l r k fw] e3_def by simp
  show "l < DYNAMIC_KEYMAP_LAYER_COUNT \<Longrightarrow> dynamic_keymap_get_encoder ops l 0 cw e' = firmware_encoder fw l cw"
    using key_kept(2) [OF g(3) g' k] reset_installs(2) [OF g(2), of l cw fw] e3_def by simp
  have low: "VIA_EEPROM_LAYOUT_OPTIONS_ADDR < DYNAMIC_KEYMAP_EEPROM_ADDR" "VIA_EEPROM_LAYOUT_OPTIONS_ADDR < DYNAMIC_KEYMAP_MACRO_EEPROM_ADDR"
    "VIA_EEPROM_MAGIC_ADDR + 3 \<le> VIA_EEPROM_LAYOUT_OPTIONS_ADDR" "VIA_EEPROM_LAYOUT_OPTIONS_ADDR < N"
    "VIA_EEPROM_MAGIC_ADDR + 3 \<le> DYNAMIC_KEYMAP_MACRO_EEPROM_ADDR"
    using room by (simp_all add: eeconfig_layout)
  have "contents e2 ! VIA_EEPROM_LAYOUT_OPTIONS_ADDR = 0"
    using layout_options_contents(2) [OF g(1), of 0] low(4) length_contents [OF g(1)] by (simp add: e2_def)
  moreover have "keeps (contents e2) (contents e3) 0 DYNAMIC_KEYMAP_EEPROM_ADDR"
    using reset_frame [OF g(2), of DYNAMIC_KEYMAP_LAYER_COUNT fw] by (simp add: e3_def dynamic_keymap_reset_def)
  ultimately show "contents e' ! VIA_EEPROM_LAYOUT_OPTIONS_ADDR = 0"
    using st(3) s(3) low by (simp add: keeps_def)
  show "DYNAMIC_KEYMAP_MACRO_EEPROM_ADDR \<le> i \<Longrightarrow> i < DYNAMIC_KEYMAP_MACRO_EEPROM_ADDR + DYNAMIC_KEYMAP_MACRO_EEPROM_SIZE \<Longrightarrow>
      contents e' ! i = 0"
    using macro_reset_clears [OF g(3), of i, folded e4_def] s(3) low(5) keymap_fits(2) by (simp add: keeps_def)
qed

text \<open>The settings after \<open>eeconfig_init_quantum\<close>.\<close>

lemma image_bytes:
  "i < 39 \<Longrightarrow> byte_at (init_patches @ [(19, bytes_of_u32 1), (38, [0]), (15, bytes_of_u32 0)]) i 0 = settings_image ! i"
proof -
  have "\<forall>i \<in> set [0..<39]. byte_at (init_patches @ [(19, bytes_of_u32 1), (38, [0]), (15, bytes_of_u32 0)]) i 0 = settings_image ! i"
    by code_simp
  then show "i < 39 \<Longrightarrow> byte_at (init_patches @ [(19, bytes_of_u32 1), (38, [0]), (15, bytes_of_u32 0)]) i 0 = settings_image ! i"
    by simp
qed

lemma byte_at_append: "byte_at (ps @ qs) i d = byte_at qs i (byte_at ps i d)"
  by (induction ps arbitrary: d) auto

lemma upd:
  "good e \<Longrightarrow> a < N \<Longrightarrow> good (eeprom_update_byte ops a v e)"
  "good e \<Longrightarrow> a + 1 < N \<Longrightarrow> good (eeprom_update_word ops a w e)"
  "good e \<Longrightarrow> a + 3 < N \<Longrightarrow> good (eeprom_update_dword ops a d e)"
  "good e \<Longrightarrow> a + length bs \<le> N \<Longrightarrow> good (eeprom_update_block ops bs a e)"
  "good e \<Longrightarrow> a < N \<Longrightarrow> contents (eeprom_update_byte ops a v e) = patch (contents e) a [v]"
  "good e \<Longrightarrow> a + 1 < N \<Longrightarrow> contents (eeprom_update_word ops a w e) = patch (contents e) a (bytes_of_u16 w)"
  "good e \<Longrightarrow> a + 3 < N \<Longrightarrow> contents (eeprom_update_dword ops a d e) = patch (contents e) a (bytes_of_u32 d)"
  "good e \<Longrightarrow> a + length bs \<le> N \<Longrightarrow> contents (eeprom_update_block ops bs a e) = patch (contents e) a bs"
  using update_byte update_word update_dword update_block length_contents by (simp_all add: patch_one)

lemma settings_contents:
  assumes "good e"
  shows "good (eeconfig_init_settings ops e)"
    and "contents (eeconfig_init_settings ops e) =
      fold (\<lambda>(a, bs) c. patch c a bs) init_patches (contents e)"
proof -
  have N: "2048 \<le> N" using room by (simp add: TOTAL_EEPROM_BYTE_COUNT_def)
  note addrs = EECONFIG_MAGIC_def EECONFIG_DEBUG_def EECONFIG_DEFAULT_LAYER_def
    EECONFIG_KEYMAP_def EECONFIG_BACKLIGHT_def EECONFIG_AUDIO_def EECONFIG_RGBLIGHT_def EECONFIG_UNICODEMODE_def
    EECONFIG_STENOMODE_def EECONFIG_UNUSED_def EECONFIG_RGB_MATRIX_def EECONFIG_HAPTIC_def
    EECONFIG_RGBLIGHT_EXTENDED_def EECONFIG_DEFAULT_MODE_def
  show "good (eeconfig_init_settings ops e)"
    using N assms by (simp add: eeconfig_init_settings_def Let_def upd addrs)
  show "contents (eeconfig_init_settings ops e) =
      fold (\<lambda>(a, bs) c. patch c a bs) init_patches (contents e)"
    using N assms by (simp add: eeconfig_init_settings_def Let_def upd addrs init_patches_def)
qed

lemma init_quantum_result:
  fixes e :: 'e and fw :: firmware_keymap
  assumes "good e" "date_ok p"
  defines "e' \<equiv> fst (eeconfig_init_quantum ops p fw e)"
  shows "good e'"
    and "eeconfig_is_enabled ops p e' \<and> \<not> eeconfig_is_disabled ops p e'"
    and "eeconfig_read_debug ops e' = 0 \<and> eeconfig_read_default_layer ops e' = 1 \<and>
      eeconfig_read_default_mode ops e' = 0 \<and> eeconfig_read_keymap ops e' = 0x1400 \<and>
      eeconfig_read_audio ops e' = 0xFF \<and> eeconfig_read_kb ops e' = 0"
    and "l < DYNAMIC_KEYMAP_LAYER_COUNT \<Longrightarrow> r < MATRIX_ROWS \<Longrightarrow> k < MATRIX_COLS \<Longrightarrow>
      dynamic_keymap_get_keycode ops l r k e' = keycode_at_keymap_location_raw fw l r k"
    and "l < DYNAMIC_KEYMAP_LAYER_COUNT \<Longrightarrow> dynamic_keymap_get_encoder ops l 0 cw e' = firmware_encoder fw l cw"
    and "i < EECONFIG_SIZE \<Longrightarrow> eeprom_read_byte ops i e' = settings_image ! i"
    and "via_get_layout_options ops e' = 0"
    and "dynamic_keymap_macro_get_buffer ops 0 DYNAMIC_KEYMAP_MACRO_EEPROM_SIZE e' = replicate DYNAMIC_KEYMAP_MACRO_EEPROM_SIZE 0"
proof -
  have N: "2048 \<le> N" using room by (simp add: TOTAL_EEPROM_BYTE_COUNT_def)
  define e1 where "e1 = eeprom_driver_erase ops e"
  define e2 where "e2 = eeconfig_init_settings ops e1"
  define e3 where "e3 = eeconfig_init_user_datablock ops e2"
  define e4 where "e4 = via_eeprom_set_valid ops p False e3"
  define e5 where "e5 = eeconfig_init_via ops p fw e4"
  have e': "e' = eeprom_update_dword ops EECONFIG_KEYBOARD 0 e5"
    by (simp add: e'_def eeconfig_init_quantum_def Let_def e1_def e2_def e3_def e4_def e5_def
        eeconfig_init_kb_def eeconfig_update_kb_def)
  have 1: "good e1" "contents e1 = replicate N 0"
    using erase [OF assms(1)] by (simp_all add: e1_def)
  note 2 = settings_contents [OF 1(1), folded e2_def]
  have 3: "good e3" "contents e3 = patch (patch (contents e2) 19 (bytes_of_u32 1)) 38 [0]"
    using 2(1) N by (simp_all add: e3_def eeconfig_init_user_datablock_def eeconfig_update_user_datablock_def upd
        EECONFIG_USER_def EECONFIG_USER_DATABLOCK_def EECONFIG_BASE_SIZE_def EECONFIG_USER_DATA_SIZE_def
        EECONFIG_USER_DATA_VERSION_def)
  have 4: "good e4" "keeps (contents e3) (contents e4) 0 VIA_EEPROM_MAGIC_ADDR"
    using set_valid_contents(1,3) [OF 3(1)] by (simp_all add: e4_def)
  note 5 = init_via_result [where fw = fw, OF 4(1) assms(2), folded e5_def]
  have k: "EECONFIG_KEYBOARD + 3 < N" "EECONFIG_KEYBOARD = 15" "VIA_EEPROM_MAGIC_ADDR = 39"
    using N by (simp_all add: eeconfig_layout)
  have 6: "good e'" "contents e' = patch (contents e5) 15 (bytes_of_u32 0)"
    using upd(3,7) [OF 5(1) k(1), of 0] by (simp_all add: e' k(2))
  show "good e'" by (rule 6(1))
  have len: "length (contents e2) = N" "length (contents e5) = N"
    using length_contents 2(1) 5(1) by blast+
  have low: "contents e' ! i = contents e2 ! i" if "i < 15" for i
  proof -
    have "contents e' ! i = contents e5 ! i"
      using that len N by (simp add: 6(2) nth_patch)
    also have "\<dots> = contents e3 ! i"
      using that 4(2) 5(3) by (simp add: keeps_def k(3))
    also have "\<dots> = contents e2 ! i"
      using that len N by (simp add: 3(2) nth_patch)
    finally show ?thesis .
  qed
  have mode: "contents e' ! 37 = contents e2 ! 37"
    using 4(2) 5(3) len N by (simp add: 6(2) 3(2) nth_patch keeps_def k(3))
  have kb: "take 4 (drop 15 (contents e')) = bytes_of_u32 0"
    using len N by (simp add: 6(2) patch_def)
  have "\<forall>(a, bs) \<in> set init_patches. a + length bs \<le> length (contents e1)"
    using N by (simp add: 1(2) init_patches_def)
  then have byte: "contents e2 ! i = byte_at init_patches i 0" if "i < N" for i
    using that by (simp add: 2(2) nth_fold_patch 1(2))
  have set: "contents e2 ! 0 = bytes_of_u16 EECONFIG_MAGIC_NUMBER ! 0" "contents e2 ! 1 = bytes_of_u16 EECONFIG_MAGIC_NUMBER ! 1"
    "contents e2 ! 2 = 0" "contents e2 ! 3 = 1" "contents e2 ! 4 = bytes_of_u16 0x1400 ! 0"
    "contents e2 ! 5 = bytes_of_u16 0x1400 ! 1" "contents e2 ! 7 = 0xFF" "contents e2 ! 37 = 0"
    using N by (simp_all add: byte init_patches_def)
  have pair: "[bytes_of_u16 v ! 0, bytes_of_u16 v ! 1] = bytes_of_u16 v" for v
    by (simp add: bytes_of_u16_def)
  have magic: "eeprom_read_word ops EECONFIG_MAGIC e' = EECONFIG_MAGIC_NUMBER"
    using N read_word [OF 6(1), of EECONFIG_MAGIC] low [of 0] low [of 1] set(1,2) pair [of EECONFIG_MAGIC_NUMBER]
    by (simp add: EECONFIG_MAGIC_def codec_simps)
  have via: "via_eeprom_is_valid ops p e'"
  proof -
    have "keeps (contents e5) (contents e') VIA_EEPROM_MAGIC_ADDR (VIA_EEPROM_MAGIC_ADDR + 3)"
      unfolding 6(2) by (rule keeps_patch) (use len N k in simp_all)
    then show ?thesis
      using valid_kept [OF 5(1) 6(1)] 5(2) by blast
  qed
  show "eeconfig_is_enabled ops p e' \<and> \<not> eeconfig_is_disabled ops p e'"
    using magic via by (simp add: eeconfig_is_enabled_def eeconfig_is_disabled_def
        EECONFIG_MAGIC_NUMBER_def EECONFIG_MAGIC_NUMBER_OFF_def)
  have km: "eeconfig_read_keymap ops e' = 0x1400"
    using N read_word [OF 6(1), of EECONFIG_KEYMAP] low [of 4] low [of 5] set(5,6) pair [of "0x1400"]
    by (simp add: eeconfig_read_keymap_def EECONFIG_KEYMAP_def codec_simps)
  have kbv: "eeconfig_read_kb ops e' = 0"
    using read_dword [OF 6(1) k(1)] kb by (simp add: eeconfig_read_kb_def k(2) codec_simps)
  show "eeconfig_read_debug ops e' = 0 \<and> eeconfig_read_default_layer ops e' = 1 \<and>
      eeconfig_read_default_mode ops e' = 0 \<and> eeconfig_read_keymap ops e' = 0x1400 \<and>
      eeconfig_read_audio ops e' = 0xFF \<and> eeconfig_read_kb ops e' = 0"
    using N km kbv low set mode read_byte [OF 6(1)]
    by (simp add: eeconfig_read_debug_def eeconfig_read_default_layer_def eeconfig_read_default_mode_def
        eeconfig_read_audio_def EECONFIG_DEBUG_def EECONFIG_DEFAULT_LAYER_def EECONFIG_DEFAULT_MODE_def EECONFIG_AUDIO_def)
  show "l < DYNAMIC_KEYMAP_LAYER_COUNT \<Longrightarrow> r < MATRIX_ROWS \<Longrightarrow> k < MATRIX_COLS \<Longrightarrow>
      dynamic_keymap_get_keycode ops l r k e' = keycode_at_keymap_location_raw fw l r k" for l r k
  proof -
    have "keeps (contents e5) (contents e') DYNAMIC_KEYMAP_EEPROM_ADDR DYNAMIC_KEYMAP_MACRO_EEPROM_ADDR"
      unfolding 6(2) by (rule keeps_patch) (use len N in \<open>simp_all add: eeconfig_layout\<close>)
    then show "l < DYNAMIC_KEYMAP_LAYER_COUNT \<Longrightarrow> r < MATRIX_ROWS \<Longrightarrow> k < MATRIX_COLS \<Longrightarrow> ?thesis"
      using key_kept(1) [OF 5(1) 6(1)] 5(4) by simp
  qed
  have low39: "contents e' ! i = settings_image ! i" if i: "i < 39" for i
  proof -
    have "contents e' ! i = (if 15 \<le> i \<and> i < 19 then bytes_of_u32 0 ! (i - 15) else contents e5 ! i)"
      using that len N by (auto simp: 6(2) nth_patch)
    moreover have "contents e5 ! i = contents e3 ! i"
      using that 4(2) 5(3) by (simp add: keeps_def k(3))
    moreover have "contents e3 ! i = (if i = 38 then 0 else if 19 \<le> i \<and> i < 23 then bytes_of_u32 1 ! (i - 19) else contents e2 ! i)"
      using that len N by (auto simp: 3(2) nth_patch)
    moreover have "contents e2 ! i = byte_at init_patches i 0" using that N byte by simp
    ultimately show ?thesis
      using image_bytes [OF that] by (auto simp: byte_at_append split: if_splits)
  qed
  show "i < EECONFIG_SIZE \<Longrightarrow> eeprom_read_byte ops i e' = settings_image ! i" for i
    using low39 [of i] read_byte [OF 6(1), of i] N by (simp add: eeconfig_layout)
  have high: "keeps (contents e5) (contents e') VIA_EEPROM_LAYOUT_OPTIONS_ADDR N"
    unfolding 6(2) by (rule keeps_patch) (use len N in \<open>simp_all add: eeconfig_layout\<close>)
  show "l < DYNAMIC_KEYMAP_LAYER_COUNT \<Longrightarrow> dynamic_keymap_get_encoder ops l 0 cw e' = firmware_encoder fw l cw" for l cw
    using key_kept(2) [OF 5(1) 6(1), of l cw] 5(5) [of l cw] high keymap_fits(2)
    by (simp add: keeps_def eeconfig_layout)
  have at: "VIA_EEPROM_LAYOUT_OPTIONS_ADDR < N" "VIA_EEPROM_LAYOUT_OPTIONS_ADDR \<le> DYNAMIC_KEYMAP_MACRO_EEPROM_ADDR"
    using N by (simp_all add: eeconfig_layout)
  show "via_get_layout_options ops e' = 0"
    using read_byte [OF 6(1) at(1)] high at(1) 5(6) by (simp add: via_get_layout_options_def VIA_EEPROM_LAYOUT_OPTIONS_SIZE_def keeps_def)
  have "eeprom_read_byte ops (DYNAMIC_KEYMAP_MACRO_EEPROM_ADDR + j) e' = 0" if "j < DYNAMIC_KEYMAP_MACRO_EEPROM_SIZE" for j
    using read_byte [OF 6(1), of "DYNAMIC_KEYMAP_MACRO_EEPROM_ADDR + j"] high 5(7) [of "DYNAMIC_KEYMAP_MACRO_EEPROM_ADDR + j"] that
      keymap_fits(2) at by (simp add: keeps_def)
  then show "dynamic_keymap_macro_get_buffer ops 0 DYNAMIC_KEYMAP_MACRO_EEPROM_SIZE e' = replicate DYNAMIC_KEYMAP_MACRO_EEPROM_SIZE 0"
    by (simp add: dynamic_keymap_macro_get_buffer_def area_get_def list_eq_iff_nth_eq)
qed

end

end
