(* ===== verification/Via.thy ===== *)
theory Via
  imports Eeconfig
begin

text \<open>
  \<open>raw_hid_receive\<close> of quantum/via.c: the command interpreter that lets the host edit the keymap, the encoders, the
  macros and the settings.  A command arrives in a buffer whose first byte is the command; the answer is the same buffer.  A
  store behind the end of the buffer, which C leaves undefined, is the value None.  The keyboard hook and the handler of
  custom values belong to the keyboard and are arguments.
\<close>

section \<open>Buffers\<close>

definition buf_put :: "nat \<Rightarrow> u8 list \<Rightarrow> u8 list \<Rightarrow> u8 list option" where
  "buf_put at bs data = memcpy_at data at bs"

definition buf_get :: "nat \<Rightarrow> nat \<Rightarrow> u8 list \<Rightarrow> u8 list option" where
  "buf_get at n data = (if at + n \<le> length data then Some (take n (drop at data)) else None)"

definition be_bytes16 :: "u16 \<Rightarrow> u8 list" where
  "be_bytes16 v = [ucast (drop_bit 8 v), ucast (v AND 0xFF)]"

definition be_bytes32 :: "u32 \<Rightarrow> u8 list" where
  "be_bytes32 v = [ucast (drop_bit 24 v AND 0xFF), ucast (drop_bit 16 v AND 0xFF),
     ucast (drop_bit 8 v AND 0xFF), ucast (v AND 0xFF)]"

definition be_join16 :: "u8 \<Rightarrow> u8 \<Rightarrow> u16" where
  "be_join16 hi lo = push_bit 8 (ucast hi) OR ucast lo"

definition be_join32 :: "u8 \<Rightarrow> u8 \<Rightarrow> u8 \<Rightarrow> u8 \<Rightarrow> u32" where
  "be_join32 a b c d = push_bit 24 (ucast a) OR push_bit 16 (ucast b) OR push_bit 8 (ucast c) OR ucast d"

section \<open>Commands\<close>

definition VIA_PROTOCOL_VERSION :: u16 where "VIA_PROTOCOL_VERSION = 0x000C"
definition VIA_FIRMWARE_VERSION :: u32 where "VIA_FIRMWARE_VERSION = 0"
definition id_unhandled :: u8 where "id_unhandled = 0xFF"

text \<open>What the interpreter sees of the rest of the keyboard.\<close>

record 'e via_context =
  via_builddate :: "u8 list"
  via_firmware :: firmware_keymap
  via_timer :: u32
  via_matrix :: "u16 list"
  via_custom_value :: "u8 list \<Rightarrow> 'e \<Rightarrow> u8 list \<times> 'e"
  via_command_kb :: "u8 list \<Rightarrow> 'e \<Rightarrow> bool \<times> u8 list \<times> 'e"

text \<open>
  \<open>command_data\<close> starts at byte 1 of the buffer.  The rows of the matrix are two bytes each with 15
  columns; the 28 data bytes hold 14 of them.
\<close>

definition matrix_bytes :: "u16 list \<Rightarrow> nat \<Rightarrow> u8 list" where
  "matrix_bytes m offset =
     concat (map (\<lambda>row. be_bytes16 (m ! (row + offset))) [0..<min (28 div ((MATRIX_COLS + 7) div 8)) (MATRIX_ROWS - offset)])"

definition via_get_keyboard_value :: "'e eeprom_ops \<Rightarrow> 'e via_context \<Rightarrow> u8 list \<Rightarrow> 'e \<Rightarrow> u8 list option" where
  "via_get_keyboard_value ops ctx data e =
    (let value_id = data ! 1 in
     if value_id = 1 then buf_put 2 (be_bytes32 (via_timer ctx)) data
     else if value_id = 2 then buf_put 2 (be_bytes32 (via_get_layout_options ops e)) data
     else if value_id = 3 then buf_put 3 (matrix_bytes (via_matrix ctx) (unat (data ! 2))) data
     else if value_id = 4 then buf_put 2 (be_bytes32 VIA_FIRMWARE_VERSION) data
     else buf_put 0 [id_unhandled] data)"

definition via_set_keyboard_value :: "'e eeprom_ops \<Rightarrow> u8 list \<Rightarrow> 'e \<Rightarrow> (u8 list \<times> 'e) option" where
  "via_set_keyboard_value ops data e =
    (let value_id = data ! 1 in
     if value_id = 2 then
       Some (data, via_set_layout_options ops (be_join32 (data ! 2) (data ! 3) (data ! 4) (data ! 5)) e)
     else if value_id = 5 then Some (data, e)
     else map_option (\<lambda>d. (d, e)) (buf_put 0 [id_unhandled] data))"

definition via_command :: "'e eeprom_ops \<Rightarrow> 'e via_context \<Rightarrow> u8 list \<Rightarrow> 'e \<Rightarrow> (u8 list \<times> 'e) option" where
  "via_command ops ctx data e =
    (let cmd = data ! 0; d = (\<lambda>i. data ! (i + 1));
         answer = map_option (\<lambda>b. (b, e));
         offset = unat (be_join16 (d 0) (d 1)); size = unat (d 2)
     in if cmd = 0x01 then answer (buf_put 1 (be_bytes16 VIA_PROTOCOL_VERSION) data)
     else if cmd = 0x02 then answer (via_get_keyboard_value ops ctx data e)
     else if cmd = 0x03 then via_set_keyboard_value ops data e
     else if cmd = 0x04 then
       answer (buf_put 4 (be_bytes16 (dynamic_keymap_get_keycode ops (unat (d 0)) (unat (d 1)) (unat (d 2)) e)) data)
     else if cmd = 0x05 then
       Some (data, dynamic_keymap_set_keycode ops (unat (d 0)) (unat (d 1)) (unat (d 2)) (be_join16 (d 3) (d 4)) e)
     else if cmd = 0x06 then Some (data, dynamic_keymap_reset ops (via_firmware ctx) e)
     else if cmd = 0x07 \<or> cmd = 0x08 \<or> cmd = 0x09 then Some (via_custom_value ctx data e)
     else if cmd = 0x0C then answer (buf_put 1 [of_nat dynamic_keymap_macro_get_count] data)
     else if cmd = 0x0D then answer (buf_put 1 (be_bytes16 (of_nat dynamic_keymap_macro_get_buffer_size)) data)
     else if cmd = 0x0E then answer (buf_put 4 (dynamic_keymap_macro_get_buffer ops offset size e) data)
     else if cmd = 0x0F then
       map_option (\<lambda>bs. (data, dynamic_keymap_macro_set_buffer ops offset bs e)) (buf_get 4 size data)
     else if cmd = 0x10 then Some (data, dynamic_keymap_macro_reset ops e)
     else if cmd = 0x11 then answer (buf_put 1 [of_nat dynamic_keymap_get_layer_count] data)
     else if cmd = 0x12 then answer (buf_put 4 (dynamic_keymap_get_buffer ops offset size e) data)
     else if cmd = 0x13 then
       map_option (\<lambda>bs. (data, dynamic_keymap_set_buffer ops offset bs e)) (buf_get 4 size data)
     else if cmd = 0x14 then
       answer (buf_put 4 (be_bytes16 (dynamic_keymap_get_encoder ops (unat (d 0)) (unat (d 1)) (d 2 \<noteq> 0) e)) data)
     else if cmd = 0x15 then
       Some (data, dynamic_keymap_set_encoder ops (unat (d 0)) (unat (d 1)) (d 2 \<noteq> 0) (be_join16 (d 3) (d 4)) e)
     else answer (buf_put 0 [id_unhandled] data))"

text \<open>The first result is the report sent back, None when the keyboard's hook has handled the command.\<close>

definition raw_hid_receive :: "'e eeprom_ops \<Rightarrow> 'e via_context \<Rightarrow> u8 list \<Rightarrow> 'e \<Rightarrow> (u8 list option \<times> 'e) option" where
  "raw_hid_receive ops ctx data e =
    (let (handled, data1, e1) = via_command_kb ctx data e in
     if handled then Some (None, e1)
     else map_option (\<lambda>(b, e2). (Some b, e2)) (via_command ops ctx data1 e1))"

section \<open>Answers stay in the buffer\<close>

lemma length_be [simp]: "length (be_bytes16 v) = 2" "length (be_bytes32 w) = 4"
  by (simp_all add: be_bytes16_def be_bytes32_def)



lemma length_area_get [simp]: "length (area_get ops addr area offset n e) = n"
  by (simp add: area_get_def)


section \<open>Properties\<close>

interpretation p1_ram: keymap_eeprom "transient_ops 2048 oob" the "\<lambda>e. \<exists>m. e = Some m \<and> length m = 2048" 2048 for oob
  by (intro keymap_eeprom.intro keymap_eeprom_axioms.intro transient.eeprom_axioms) (simp add: TOTAL_EEPROM_BYTE_COUNT_def)

text \<open>
  The dynamic keymap is a table: on any EEPROM that keeps its contract and has room for the layout, a key reads back
  the keycode last stored for it, and storing a key changes no other key.
\<close>

theorem dynamic_keymap_table:
  assumes "keymap_eeprom ops contents good N" and "good e"
    and "l < DYNAMIC_KEYMAP_LAYER_COUNT" "r < MATRIX_ROWS" "k < MATRIX_COLS"
    and "l' < DYNAMIC_KEYMAP_LAYER_COUNT" "r' < MATRIX_ROWS" "k' < MATRIX_COLS"
  shows "dynamic_keymap_get_keycode ops l' r' k' (dynamic_keymap_set_keycode ops l r k kc e) =
    (if (l', r', k') = (l, r, k) then kc else dynamic_keymap_get_keycode ops l' r' k' e)"
  using assms(2-8) by (rule keymap_eeprom.get_set_keycode [OF assms(1)])

theorem dynamic_keymap_table_witness:
  "dynamic_keymap_get_keycode (transient_ops 2048 (\<lambda>b _. b)) 3 5 14
     (dynamic_keymap_set_keycode (transient_ops 2048 (\<lambda>b _. b)) 3 5 14 0x5F80 (Some (replicate 2048 0))) = 0x5F80"
  using dynamic_keymap_table [OF p1_ram.keymap_eeprom_axioms, of "Some (replicate 2048 0)" 3 5 14 3 5 14 "\<lambda>b _. b" "0x5F80"]
  by (simp add: keymap_sizes)



text \<open>
  C34.  VIA's initialisation is atomic with respect to its magic number: after the mark is cleared, after the layout options,
  after any number of reset layers and after the macros the EEPROM still counts as invalid, and only the final mark makes it
  valid; so an interrupted initialisation is repeated at the next start.
\<close>

theorem via_init_interrupted:
  assumes "keymap_eeprom ops contents good N" and "good e" and "date_ok p" and "m \<le> DYNAMIC_KEYMAP_LAYER_COUNT"
  shows "let e1 = via_eeprom_set_valid ops p False e; e2 = via_set_layout_options ops 0 e1;
             e3 = fold (reset_layer ops fw) [0..<m] e2;
             e4 = dynamic_keymap_macro_reset ops (dynamic_keymap_reset ops fw e2)
         in \<not> via_eeprom_is_valid ops p e1 \<and> \<not> via_eeprom_is_valid ops p e2 \<and>
            \<not> via_eeprom_is_valid ops p e3 \<and> \<not> via_eeprom_is_valid ops p e4 \<and>
            eeconfig_init_via ops p fw e = via_eeprom_set_valid ops p True e4 \<and>
            via_eeprom_is_valid ops p (eeconfig_init_via ops p fw e)"
  using keymap_eeprom.init_via_stages(2,3) [OF assms(1-3)] keymap_eeprom.init_via_stages(4) [OF assms(1-4), of fw]
    keymap_eeprom.init_via_stages(5) [OF assms(1-3), of fw] keymap_eeprom.init_via_result(2) [OF assms(1-3), of fw]
  by (simp add: Let_def eeconfig_init_via_def)

theorem via_init_interrupted_witness:
  "let ops = transient_ops 2048 (\<lambda>b _. b); p = map of_nat [50, 48, 50, 52, 45, 48, 49, 45, 51, 49];
       fw = \<lparr>keymaps = [], encoder_map = []\<rparr>; e = Some (replicate 2048 0)
   in via_eeprom_is_valid ops p (eeconfig_init_via ops p fw e)"
proof -
  have "date_ok (map of_nat [50, 48, 50, 52, 45, 48, 49, 45, 51, 49])" "\<exists>m. Some (replicate 2048 0 :: u8 list) = Some m \<and> length m = 2048"
    "2 \<le> DYNAMIC_KEYMAP_LAYER_COUNT"
    by (simp_all add: keymap_sizes date_ok_def is_digit_def)
  from via_init_interrupted [OF p1_ram.keymap_eeprom_axioms this(2,1,3), of "\<lambda>b _. b" "\<lparr>keymaps = [], encoder_map = []\<rparr>"]
  show ?thesis
    unfolding Let_def by blast
qed



text \<open>
  The size byte is not checked: a request to read more than 28 bytes of the keymap or of the macros stores behind the end
  of a 32-byte report.
\<close>

theorem via_size_byte_unchecked:
  assumes "length data = 32" and "28 < unat (data ! 3)" and "data ! 0 \<in> {0x0E, 0x0F, 0x12, 0x13}"
    and "via_command_kb ctx data e = (False, data, e)"
  shows "raw_hid_receive ops ctx data e = None"
  using assms by (auto simp: raw_hid_receive_def via_command_def buf_put_def buf_get_def memcpy_at_def Let_def
      dynamic_keymap_get_buffer_def dynamic_keymap_macro_get_buffer_def)

theorem via_size_byte_unchecked_witness:
  "raw_hid_receive (transient_ops 2048 (\<lambda>b _. b))
      \<lparr>via_builddate = [], via_firmware = \<lparr>keymaps = [], encoder_map = []\<rparr>, via_timer = 0, via_matrix = replicate 6 0,
       via_custom_value = Pair, via_command_kb = (\<lambda>b e. (False, b, e))\<rparr>
      ([0x12, 0, 0, 255] @ replicate 28 0) (Some (replicate 2048 0)) = None"
  by (rule via_size_byte_unchecked) simp_all

end
