(* ===== verification/Keyboard.thy ===== *)
theory Keyboard
  imports Report Via
begin

text \<open>
  The global state of the keyboard core and the two modules at its edge: tmk_core/protocol/host.c, which
  hands reports to the host driver, and quantum/action_util.c, which assembles the keyboard report from
  the modifiers and the one-shot state.  The layer variables of quantum/action_layer.c are here too, since
  the one-shot layer switches them.

  Every file-level variable of these modules is a field of the record \<open>kb\<close>.  What leaves the
  firmware (reports to the host driver, calls into the mouse keys, the lock LEDs, waits) is appended to
  the trace \<open>sent\<close>, newest first.  The build is the P1 over USB: NKRO and extra keys on, four
  layers, no one-shot timeout, no key overrides, no swap hands.  The hooks of the keyboard and the user
  that the modules call are the empty weak ones.
\<close>

section \<open>State\<close>

datatype host_event =
    Send_Keyboard "u8 list"
  | Send_Extra u8 u16
  | Mousekey_On u8
  | Mousekey_Off u8
  | Mousekey_Send
  | Mousekey_Clear
  | Led_Set u8
  | Wait_Ms nat
  | Bootloader_Jump
  | Mcu_Reset

text \<open>
  The static variables of the handlers in front of the action code: quantum.c's debug flag, process_space_cadet.c,
  process_grave_esc.c, lemokey_common.c and factory_test.c of the keyboard.
\<close>

record quantum_statics =
  debug_enable :: bool
  sc_last :: u8
  sc_timer :: u16
  grave_esc_was_shifted :: bool
  is_siri_active :: bool
  siri_timer :: u32
  factory_reset_timer :: u32
  factory_reset_state :: u8
  backlight_test_mode :: u8
  factory_reset_ind_timer :: u32
  factory_reset_ind_state :: u8
  report_os_sw_state :: bool
  keys_released :: bool

definition quantum_static :: quantum_statics where
  "quantum_static = \<lparr>debug_enable = False, sc_last = 0, sc_timer = 0, grave_esc_was_shifted = False, is_siri_active = False,
     siri_timer = 0, factory_reset_timer = 0, factory_reset_state = 0, backlight_test_mode = 0, factory_reset_ind_timer = 0,
     factory_reset_ind_state = 0, report_os_sw_state = False, keys_released = True\<rparr>"

record 'e kb =
  eeprom_state :: 'e
  host_driver :: bool
  driver_leds :: u8
  keyboard_protocol :: u8
  last_system_usage :: u16
  last_consumer_usage :: u16
  keymap_config :: u16
  real_mods :: u8
  weak_mods :: u8
  oneshot_mods :: u8
  oneshot_locked_mods :: u8
  oneshot_layer_data :: u8
  keyboard_report :: report_keyboard_t
  last_report :: report_keyboard_t
  layer_state :: u8
  default_layer_state :: u8
  source_layers_cache :: "u8 list list"
  encoder_source_layers_cache :: "u8 list list"
  disable_action_cache :: bool
  layerTemp :: u8
  rowTemp :: u8
  colTemp :: u8
  keycodeTemp :: u16
  statics :: quantum_statics
  sent :: "host_event list"

text \<open>The initial values of the variables, before the firmware has read its settings.\<close>

definition kb_static :: "'e \<Rightarrow> 'e kb" where
  "kb_static e = \<lparr>eeprom_state = e, host_driver = False, driver_leds = 0, keyboard_protocol = 1, last_system_usage = 0,
     last_consumer_usage = 0, keymap_config = 0, real_mods = 0, weak_mods = 0, oneshot_mods = 0, oneshot_locked_mods = 0,
     oneshot_layer_data = 0, keyboard_report = replicate 32 0, last_report = replicate 32 0, layer_state = 0,
     default_layer_state = 0, source_layers_cache = replicate 12 (replicate 3 0),
     encoder_source_layers_cache = replicate 1 (replicate 3 0), disable_action_cache = False,
     layerTemp = 0xFF, rowTemp = 0xFF, colTemp = 0xFF, keycodeTemp = 0, statics = quantum_static, sent = []\<rparr>"

definition emit :: "host_event \<Rightarrow> 'e kb \<Rightarrow> 'e kb" where
  "emit ev s = s\<lparr>sent := ev # sent s\<rparr>"

definition wait_ms :: "nat \<Rightarrow> 'e kb \<Rightarrow> 'e kb" where
  "wait_ms n s = emit (Wait_Ms n) s"

text \<open>The bits of \<open>keymap_config_t\<close>, in the order of the bit field.\<close>

definition swap_control_capslock :: "u16 \<Rightarrow> bool" where "swap_control_capslock c = bit c 0"
definition capslock_to_control :: "u16 \<Rightarrow> bool" where "capslock_to_control c = bit c 1"
definition swap_lalt_lgui :: "u16 \<Rightarrow> bool" where "swap_lalt_lgui c = bit c 2"
definition swap_ralt_rgui :: "u16 \<Rightarrow> bool" where "swap_ralt_rgui c = bit c 3"
definition no_gui :: "u16 \<Rightarrow> bool" where "no_gui c = bit c 4"
definition swap_grave_esc :: "u16 \<Rightarrow> bool" where "swap_grave_esc c = bit c 5"
definition swap_backslash_backspace :: "u16 \<Rightarrow> bool" where "swap_backslash_backspace c = bit c 6"
definition nkro :: "u16 \<Rightarrow> bool" where "nkro c = bit c 7"
definition swap_lctl_lgui :: "u16 \<Rightarrow> bool" where "swap_lctl_lgui c = bit c 8"
definition swap_rctl_rgui :: "u16 \<Rightarrow> bool" where "swap_rctl_rgui c = bit c 9"
definition oneshot_enable_bit :: "u16 \<Rightarrow> bool" where "oneshot_enable_bit c = bit c 10"
definition swap_escape_capslock :: "u16 \<Rightarrow> bool" where "swap_escape_capslock c = bit c 11"

text \<open>The condition that selects the NKRO view of the report.\<close>

definition nkro_active :: "'e kb \<Rightarrow> bool" where
  "nkro_active s \<longleftrightarrow> keyboard_protocol s \<noteq> 0 \<and> nkro (keymap_config s)"

section \<open>host.c\<close>

definition REPORT_ID_SYSTEM :: u8 where "REPORT_ID_SYSTEM = 3"
definition REPORT_ID_CONSUMER :: u8 where "REPORT_ID_CONSUMER = 4"
definition REPORT_ID_NKRO :: u8 where "REPORT_ID_NKRO = 6"

definition host_keyboard_leds :: "'e kb \<Rightarrow> u8" where
  "host_keyboard_leds s = (if \<not> host_driver s then 0 else driver_leds s)"

text \<open>
  The report is passed by reference: in NKRO mode the modifiers move to the second byte and the first
  one becomes the report id, in the caller's report.
\<close>

definition host_keyboard_send :: "report_keyboard_t \<Rightarrow> 'e kb \<Rightarrow> report_keyboard_t \<times> 'e kb" where
  "host_keyboard_send r s =
    (if \<not> host_driver s then (r, s)
     else let r' = (if nkro_active s then (r[1 := r ! 0])[0 := REPORT_ID_NKRO] else r)
          in (r', emit (Send_Keyboard r') s))"

definition host_system_send :: "u16 \<Rightarrow> 'e kb \<Rightarrow> 'e kb" where
  "host_system_send usage s =
    (if usage = last_system_usage s then s
     else let s = s\<lparr>last_system_usage := usage\<rparr>
          in if \<not> host_driver s then s else emit (Send_Extra REPORT_ID_SYSTEM usage) s)"

definition host_consumer_send :: "u16 \<Rightarrow> 'e kb \<Rightarrow> 'e kb" where
  "host_consumer_send usage s =
    (if usage = last_consumer_usage s then s
     else let s = s\<lparr>last_consumer_usage := usage\<rparr>
          in if \<not> host_driver s then s else emit (Send_Extra REPORT_ID_CONSUMER usage) s)"

section \<open>The layer variables\<close>

text \<open>
  With at most eight layers \<open>layer_state_t\<close> is a byte.  A shift by eight or more places leaves
  nothing of the bit in it.
\<close>

definition layer_bit :: "u8 \<Rightarrow> u8" where
  "layer_bit layer = push_bit (unat layer) 1"

definition default_layer_state_set :: "u8 \<Rightarrow> 'e kb \<Rightarrow> 'e kb" where
  "default_layer_state_set state s = s\<lparr>default_layer_state := state\<rparr>"

definition default_layer_set :: "u8 \<Rightarrow> 'e kb \<Rightarrow> 'e kb" where
  "default_layer_set state s = default_layer_state_set state s"

definition default_layer_or :: "u8 \<Rightarrow> 'e kb \<Rightarrow> 'e kb" where
  "default_layer_or state s = default_layer_state_set (default_layer_state s OR state) s"

definition default_layer_and :: "u8 \<Rightarrow> 'e kb \<Rightarrow> 'e kb" where
  "default_layer_and state s = default_layer_state_set (default_layer_state s AND state) s"

definition default_layer_xor :: "u8 \<Rightarrow> 'e kb \<Rightarrow> 'e kb" where
  "default_layer_xor state s = default_layer_state_set (default_layer_state s XOR state) s"

definition layer_state_set :: "u8 \<Rightarrow> 'e kb \<Rightarrow> 'e kb" where
  "layer_state_set state s = s\<lparr>layer_state := state\<rparr>"

definition layer_clear :: "'e kb \<Rightarrow> 'e kb" where
  "layer_clear s = layer_state_set 0 s"

definition layer_state_cmp :: "u8 \<Rightarrow> u8 \<Rightarrow> bool" where
  "layer_state_cmp cmp layer = (if cmp = 0 then layer = 0 else cmp AND layer_bit layer \<noteq> 0)"

definition layer_state_is :: "u8 \<Rightarrow> 'e kb \<Rightarrow> bool" where
  "layer_state_is layer s = layer_state_cmp (layer_state s) layer"

definition layer_move :: "u8 \<Rightarrow> 'e kb \<Rightarrow> 'e kb" where
  "layer_move layer s = layer_state_set (layer_bit layer) s"

definition layer_on :: "u8 \<Rightarrow> 'e kb \<Rightarrow> 'e kb" where
  "layer_on layer s = layer_state_set (layer_state s OR layer_bit layer) s"

definition layer_off :: "u8 \<Rightarrow> 'e kb \<Rightarrow> 'e kb" where
  "layer_off layer s = layer_state_set (layer_state s AND NOT (layer_bit layer)) s"

definition layer_invert :: "u8 \<Rightarrow> 'e kb \<Rightarrow> 'e kb" where
  "layer_invert layer s = layer_state_set (layer_state s XOR layer_bit layer) s"

definition layer_or :: "u8 \<Rightarrow> 'e kb \<Rightarrow> 'e kb" where
  "layer_or state s = layer_state_set (layer_state s OR state) s"

definition layer_and :: "u8 \<Rightarrow> 'e kb \<Rightarrow> 'e kb" where
  "layer_and state s = layer_state_set (layer_state s AND state) s"

definition layer_xor :: "u8 \<Rightarrow> 'e kb \<Rightarrow> 'e kb" where
  "layer_xor state s = layer_state_set (layer_state s XOR state) s"

definition update_tri_layer_state :: "u8 \<Rightarrow> u8 \<Rightarrow> u8 \<Rightarrow> u8 \<Rightarrow> u8" where
  "update_tri_layer_state state layer1 layer2 layer3 =
    (let mask12 = layer_bit layer1 OR layer_bit layer2; mask3 = layer_bit layer3
     in if state AND mask12 = mask12 then state OR mask3 else state AND NOT mask3)"

definition update_tri_layer :: "u8 \<Rightarrow> u8 \<Rightarrow> u8 \<Rightarrow> 'e kb \<Rightarrow> 'e kb" where
  "update_tri_layer layer1 layer2 layer3 s =
     layer_state_set (update_tri_layer_state (layer_state s) layer1 layer2 layer3) s"

section \<open>action_util.c: modifiers\<close>

definition add_mods :: "u8 \<Rightarrow> 'e kb \<Rightarrow> 'e kb" where "add_mods m s = s\<lparr>real_mods := real_mods s OR m\<rparr>"
definition del_mods :: "u8 \<Rightarrow> 'e kb \<Rightarrow> 'e kb" where "del_mods m s = s\<lparr>real_mods := real_mods s AND NOT m\<rparr>"
definition set_mods :: "u8 \<Rightarrow> 'e kb \<Rightarrow> 'e kb" where "set_mods m s = s\<lparr>real_mods := m\<rparr>"
definition clear_mods :: "'e kb \<Rightarrow> 'e kb" where "clear_mods s = s\<lparr>real_mods := 0\<rparr>"
definition add_weak_mods :: "u8 \<Rightarrow> 'e kb \<Rightarrow> 'e kb" where "add_weak_mods m s = s\<lparr>weak_mods := weak_mods s OR m\<rparr>"
definition del_weak_mods :: "u8 \<Rightarrow> 'e kb \<Rightarrow> 'e kb" where "del_weak_mods m s = s\<lparr>weak_mods := weak_mods s AND NOT m\<rparr>"
definition set_weak_mods :: "u8 \<Rightarrow> 'e kb \<Rightarrow> 'e kb" where "set_weak_mods m s = s\<lparr>weak_mods := m\<rparr>"
definition clear_weak_mods :: "'e kb \<Rightarrow> 'e kb" where "clear_weak_mods s = s\<lparr>weak_mods := 0\<rparr>"

definition add_oneshot_mods :: "u8 \<Rightarrow> 'e kb \<Rightarrow> 'e kb" where
  "add_oneshot_mods m s =
    (if oneshot_mods s AND m \<noteq> m then s\<lparr>oneshot_mods := oneshot_mods s OR m\<rparr> else s)"

definition del_oneshot_mods :: "u8 \<Rightarrow> 'e kb \<Rightarrow> 'e kb" where
  "del_oneshot_mods m s =
    (if oneshot_mods s AND m \<noteq> 0 then s\<lparr>oneshot_mods := oneshot_mods s AND NOT m\<rparr> else s)"

definition set_oneshot_mods :: "u8 \<Rightarrow> 'e kb \<Rightarrow> 'e kb" where
  "set_oneshot_mods m s =
    (if oneshot_enable_bit (keymap_config s) then (if oneshot_mods s \<noteq> m then s\<lparr>oneshot_mods := m\<rparr> else s) else s)"

definition clear_oneshot_mods :: "'e kb \<Rightarrow> 'e kb" where
  "clear_oneshot_mods s = (if oneshot_mods s \<noteq> 0 then s\<lparr>oneshot_mods := 0\<rparr> else s)"

definition set_oneshot_locked_mods :: "u8 \<Rightarrow> 'e kb \<Rightarrow> 'e kb" where
  "set_oneshot_locked_mods m s = (if m \<noteq> oneshot_locked_mods s then s\<lparr>oneshot_locked_mods := m\<rparr> else s)"

definition clear_oneshot_locked_mods :: "'e kb \<Rightarrow> 'e kb" where
  "clear_oneshot_locked_mods s = (if oneshot_locked_mods s \<noteq> 0 then s\<lparr>oneshot_locked_mods := 0\<rparr> else s)"

definition has_anymod :: "'e kb \<Rightarrow> u8" where
  "has_anymod s = bitpop (real_mods s)"

section \<open>action_util.c: the one-shot layer\<close>

definition ONESHOT_PRESSED :: u8 where "ONESHOT_PRESSED = 1"
definition ONESHOT_OTHER_KEY_PRESSED :: u8 where "ONESHOT_OTHER_KEY_PRESSED = 2"
definition ONESHOT_START :: u8 where "ONESHOT_START = 3"
definition ONESHOT_TOGGLED :: u8 where "ONESHOT_TOGGLED = 4"

text \<open>
  \<open>oneshot_layer_data\<close> is an \<open>int8_t\<close> and is read with its sign, by the shift and by the
  comparison in \<open>clear_oneshot_layer_state\<close>; the record keeps its eight bits.
\<close>

definition get_oneshot_layer :: "'e kb \<Rightarrow> u8" where
  "get_oneshot_layer s = signed_drop_bit 3 (oneshot_layer_data s)"

definition get_oneshot_layer_state :: "'e kb \<Rightarrow> u8" where
  "get_oneshot_layer_state s = oneshot_layer_data s AND 7"

definition is_oneshot_layer_active :: "'e kb \<Rightarrow> bool" where
  "is_oneshot_layer_active s \<longleftrightarrow> get_oneshot_layer_state s \<noteq> 0"

definition set_oneshot_layer :: "u8 \<Rightarrow> u8 \<Rightarrow> 'e kb \<Rightarrow> 'e kb" where
  "set_oneshot_layer layer state s =
    (if oneshot_enable_bit (keymap_config s)
     then layer_on layer (s\<lparr>oneshot_layer_data := push_bit 3 layer OR state\<rparr>)
     else layer_on layer s)"

definition reset_oneshot_layer :: "'e kb \<Rightarrow> 'e kb" where
  "reset_oneshot_layer s = s\<lparr>oneshot_layer_data := 0\<rparr>"

definition clear_oneshot_layer_state :: "u8 \<Rightarrow> 'e kb \<Rightarrow> 'e kb" where
  "clear_oneshot_layer_state state s =
    (let start_state = oneshot_layer_data s;
         s = s\<lparr>oneshot_layer_data := start_state AND NOT state\<rparr>
     in if (\<not> is_oneshot_layer_active s \<and> uint start_state \<noteq> sint (oneshot_layer_data s)) \<and>
           oneshot_enable_bit (keymap_config s)
        then reset_oneshot_layer (layer_off (get_oneshot_layer s) s) else s)"

definition oneshot_set :: "'e eeprom_ops \<Rightarrow> bool \<Rightarrow> 'e kb \<Rightarrow> 'e kb" where
  "oneshot_set ops active s =
    (if oneshot_enable_bit (keymap_config s) \<noteq> active
     then let s = s\<lparr>keymap_config := (if active then set_bit 10 (keymap_config s) else unset_bit 10 (keymap_config s))\<rparr>;
              s = s\<lparr>eeprom_state := eeconfig_update_keymap ops (keymap_config s) (eeprom_state s)\<rparr>
          in clear_oneshot_layer_state ONESHOT_OTHER_KEY_PRESSED s
     else s)"

definition oneshot_toggle :: "'e eeprom_ops \<Rightarrow> 'e kb \<Rightarrow> 'e kb" where
  "oneshot_toggle ops s = oneshot_set ops (\<not> oneshot_enable_bit (keymap_config s)) s"

definition oneshot_enable :: "'e eeprom_ops \<Rightarrow> 'e kb \<Rightarrow> 'e kb" where
  "oneshot_enable ops s = oneshot_set ops True s"

definition oneshot_disable :: "'e eeprom_ops \<Rightarrow> 'e kb \<Rightarrow> 'e kb" where
  "oneshot_disable ops s = oneshot_set ops False s"

section \<open>action_util.c: the keyboard report\<close>

definition add_key :: "u8 \<Rightarrow> 'e kb \<Rightarrow> 'e kb" where
  "add_key key s = s\<lparr>keyboard_report := add_key_to_report (nkro_active s) (keyboard_report s) key\<rparr>"

definition del_key :: "u8 \<Rightarrow> 'e kb \<Rightarrow> 'e kb" where
  "del_key key s = s\<lparr>keyboard_report := del_key_from_report (nkro_active s) (keyboard_report s) key\<rparr>"

definition clear_keys :: "'e kb \<Rightarrow> 'e kb" where
  "clear_keys s = s\<lparr>keyboard_report := clear_keys_from_report (nkro_active s) (keyboard_report s)\<rparr>"

text \<open>The report with the modifiers in place, before it is compared with the last one.\<close>

definition prepare_report :: "'e kb \<Rightarrow> 'e kb" where
  "prepare_report s =
    (let s = s\<lparr>keyboard_report := (keyboard_report s)[0 := real_mods s]\<rparr>;
         s = s\<lparr>keyboard_report := (keyboard_report s)[0 := keyboard_report s ! 0 OR weak_mods s]\<rparr>
     in if oneshot_mods s \<noteq> 0
        then let s = s\<lparr>keyboard_report := (keyboard_report s)[0 := keyboard_report s ! 0 OR oneshot_mods s]\<rparr>
             in if has_anykey (nkro_active s) (keyboard_report s) \<noteq> 0 then clear_oneshot_mods s else s
        else s)"

definition send_keyboard_report :: "'e kb \<Rightarrow> 'e kb" where
  "send_keyboard_report s0 =
    (let s = prepare_report s0
     in if keyboard_report s \<noteq> last_report s
        then let s = s\<lparr>last_report := keyboard_report s\<rparr>; (r, s) = host_keyboard_send (keyboard_report s) s
             in s\<lparr>keyboard_report := r\<rparr>
        else s)"

end
