(* ===== verification/Keymap_Common.thy ===== *)
theory Keymap_Common
  imports Keyboard
begin

text \<open>
  From a key position to an action: quantum/keycode_config.c applies the user's swaps to a keycode,
  quantum/keymap_common.c looks the keycode up in the keymap and translates it into the 16-bit action code
  of quantum/action_code.h.
\<close>

section \<open>Keycodes\<close>

definition KC_BACKSLASH :: u16 where "KC_BACKSLASH = 0x31"
definition KC_BACKSPACE :: u16 where "KC_BACKSPACE = 0x2A"
definition KC_CAPS_LOCK :: u16 where "KC_CAPS_LOCK = 0x39"
definition KC_ESCAPE :: u16 where "KC_ESCAPE = 0x29"
definition KC_GRAVE :: u16 where "KC_GRAVE = 0x35"
definition KC_LOCKING_CAPS_LOCK :: u16 where "KC_LOCKING_CAPS_LOCK = 0x82"
definition KC_LEFT_CTRL :: u16 where "KC_LEFT_CTRL = 0xE0"
definition KC_LEFT_SHIFT :: u16 where "KC_LEFT_SHIFT = 0xE1"
definition KC_LEFT_ALT :: u16 where "KC_LEFT_ALT = 0xE2"
definition KC_LEFT_GUI :: u16 where "KC_LEFT_GUI = 0xE3"
definition KC_RIGHT_CTRL :: u16 where "KC_RIGHT_CTRL = 0xE4"
definition KC_RIGHT_SHIFT :: u16 where "KC_RIGHT_SHIFT = 0xE5"
definition KC_RIGHT_ALT :: u16 where "KC_RIGHT_ALT = 0xE6"
definition KC_RIGHT_GUI :: u16 where "KC_RIGHT_GUI = 0xE7"

lemmas kc_defs = KC_BACKSLASH_def KC_BACKSPACE_def KC_CAPS_LOCK_def KC_ESCAPE_def KC_GRAVE_def KC_LOCKING_CAPS_LOCK_def
  KC_LEFT_CTRL_def KC_LEFT_SHIFT_def KC_LEFT_ALT_def KC_LEFT_GUI_def KC_RIGHT_CTRL_def KC_RIGHT_SHIFT_def
  KC_RIGHT_ALT_def KC_RIGHT_GUI_def KC_NO_def KC_TRNS_def

text \<open>A case range \<open>a ... b\<close>.\<close>

definition within :: "'a::ord \<Rightarrow> 'a \<Rightarrow> 'a \<Rightarrow> bool" where
  "within a b k \<longleftrightarrow> a \<le> k \<and> k \<le> b"

section \<open>keycode_config.c\<close>

definition keycode_config :: "u16 \<Rightarrow> u16 \<Rightarrow> u16" where
  "keycode_config c kc =
    (if kc = KC_CAPS_LOCK \<or> kc = KC_LOCKING_CAPS_LOCK then
       (if swap_control_capslock c \<or> capslock_to_control c then KC_LEFT_CTRL
        else if swap_escape_capslock c then KC_ESCAPE else kc)
     else if kc = KC_LEFT_CTRL then
       (if swap_control_capslock c then KC_CAPS_LOCK
        else if swap_lctl_lgui c then (if no_gui c then KC_NO else KC_LEFT_GUI) else KC_LEFT_CTRL)
     else if kc = KC_LEFT_ALT then
       (if swap_lalt_lgui c then (if no_gui c then KC_NO else KC_LEFT_GUI) else KC_LEFT_ALT)
     else if kc = KC_LEFT_GUI then
       (if swap_lalt_lgui c then KC_LEFT_ALT else if swap_lctl_lgui c then KC_LEFT_CTRL
        else if no_gui c then KC_NO else KC_LEFT_GUI)
     else if kc = KC_RIGHT_CTRL then
       (if swap_rctl_rgui c then (if no_gui c then KC_NO else KC_RIGHT_GUI) else KC_RIGHT_CTRL)
     else if kc = KC_RIGHT_ALT then
       (if swap_ralt_rgui c then (if no_gui c then KC_NO else KC_RIGHT_GUI) else KC_RIGHT_ALT)
     else if kc = KC_RIGHT_GUI then
       (if swap_ralt_rgui c then KC_RIGHT_ALT else if swap_rctl_rgui c then KC_RIGHT_CTRL
        else if no_gui c then KC_NO else KC_RIGHT_GUI)
     else if kc = KC_GRAVE then (if swap_grave_esc c then KC_ESCAPE else KC_GRAVE)
     else if kc = KC_ESCAPE then
       (if swap_grave_esc c then KC_GRAVE else if swap_escape_capslock c then KC_CAPS_LOCK else KC_ESCAPE)
     else if kc = KC_BACKSLASH then (if swap_backslash_backspace c then KC_BACKSPACE else KC_BACKSLASH)
     else if kc = KC_BACKSPACE then (if swap_backslash_backspace c then KC_BACKSLASH else KC_BACKSPACE)
     else kc)"

text \<open>Five-bit modifiers: four flags and the bit that says they are the right-hand ones.\<close>

definition MOD_LCTL :: u8 where "MOD_LCTL = 0x01"
definition MOD_LSFT :: u8 where "MOD_LSFT = 0x02"
definition MOD_LALT :: u8 where "MOD_LALT = 0x04"
definition MOD_LGUI :: u8 where "MOD_LGUI = 0x08"
definition MOD_RCTL :: u8 where "MOD_RCTL = 0x11"
definition MOD_RSFT :: u8 where "MOD_RSFT = 0x12"
definition MOD_RALT :: u8 where "MOD_RALT = 0x14"
definition MOD_RGUI :: u8 where "MOD_RGUI = 0x18"

lemmas mod_defs = MOD_LCTL_def MOD_LSFT_def MOD_LALT_def MOD_LGUI_def MOD_RCTL_def MOD_RSFT_def MOD_RALT_def MOD_RGUI_def

text \<open>The four swap blocks of \<open>mod_config\<close> have one shape.\<close>

definition mod_swap :: "u8 \<Rightarrow> u8 \<Rightarrow> u8 \<Rightarrow> u8 \<Rightarrow> u8 \<Rightarrow> u8" where
  "mod_swap gui other rgui rother m =
    (if m AND rgui = gui then (m AND NOT gui) OR other
     else if m AND rother = other then (m AND NOT other) OR gui else m)"

definition mod_config :: "u16 \<Rightarrow> u8 \<Rightarrow> u8" where
  "mod_config c m =
    (let m = (if swap_lalt_lgui c then mod_swap MOD_LGUI MOD_LALT MOD_RGUI MOD_RALT m else m);
         m = (if swap_ralt_rgui c then mod_swap MOD_RGUI MOD_RALT MOD_RGUI MOD_RALT m else m);
         m = (if swap_lctl_lgui c then mod_swap MOD_LGUI MOD_LCTL MOD_RGUI MOD_RCTL m else m);
         m = (if swap_rctl_rgui c then mod_swap MOD_RGUI MOD_RCTL MOD_RGUI MOD_RCTL m else m)
     in if no_gui c then (m AND NOT MOD_LGUI) AND NOT MOD_RGUI else m)"

section \<open>Action codes\<close>

type_synonym action_t = u16

definition ACT_MODS :: u16 where "ACT_MODS = 0"
definition ACT_LMODS :: u16 where "ACT_LMODS = 0"
definition ACT_RMODS :: u16 where "ACT_RMODS = 1"
definition ACT_MODS_TAP :: u16 where "ACT_MODS_TAP = 2"
definition ACT_LMODS_TAP :: u16 where "ACT_LMODS_TAP = 2"
definition ACT_RMODS_TAP :: u16 where "ACT_RMODS_TAP = 3"
definition ACT_USAGE :: u16 where "ACT_USAGE = 4"
definition ACT_MOUSEKEY :: u16 where "ACT_MOUSEKEY = 5"
definition ACT_LAYER :: u16 where "ACT_LAYER = 8"
definition ACT_LAYER_MODS :: u16 where "ACT_LAYER_MODS = 9"
definition ACT_LAYER_TAP :: u16 where "ACT_LAYER_TAP = 10"
definition ACT_LAYER_TAP_EXT :: u16 where "ACT_LAYER_TAP_EXT = 11"

lemmas act_defs = ACT_MODS_def ACT_LMODS_def ACT_RMODS_def ACT_MODS_TAP_def ACT_LMODS_TAP_def ACT_RMODS_TAP_def
  ACT_USAGE_def ACT_MOUSEKEY_def ACT_LAYER_def ACT_LAYER_MODS_def ACT_LAYER_TAP_def ACT_LAYER_TAP_EXT_def

definition ACTION_NO :: action_t where "ACTION_NO = 0"
definition ACTION_TRANSPARENT :: action_t where "ACTION_TRANSPARENT = 1"

definition ACTION :: "u16 \<Rightarrow> u16 \<Rightarrow> action_t" where
  "ACTION kind param = push_bit 12 kind OR param"

definition ACTION_KEY :: "u16 \<Rightarrow> action_t" where "ACTION_KEY key = ACTION ACT_MODS key"
definition ACTION_MODS_KEY :: "u16 \<Rightarrow> u16 \<Rightarrow> action_t" where
  "ACTION_MODS_KEY mods key = ACTION ACT_MODS (push_bit 8 (mods AND 0x1F) OR key)"
definition ACTION_MODS_TAP_KEY :: "u16 \<Rightarrow> u16 \<Rightarrow> action_t" where
  "ACTION_MODS_TAP_KEY mods key = ACTION ACT_MODS_TAP (push_bit 8 (mods AND 0x1F) OR key)"
definition MODS_ONESHOT :: u16 where "MODS_ONESHOT = 0"
definition MODS_TAP_TOGGLE :: u16 where "MODS_TAP_TOGGLE = 1"
definition ACTION_MODS_ONESHOT :: "u16 \<Rightarrow> action_t" where
  "ACTION_MODS_ONESHOT mods = ACTION ACT_MODS_TAP (push_bit 8 (mods AND 0x1F) OR MODS_ONESHOT)"
definition PAGE_SYSTEM :: u16 where "PAGE_SYSTEM = 0"
definition PAGE_CONSUMER :: u16 where "PAGE_CONSUMER = 1"
definition ACTION_USAGE_SYSTEM :: "u16 \<Rightarrow> action_t" where
  "ACTION_USAGE_SYSTEM i = ACTION ACT_USAGE (push_bit 10 PAGE_SYSTEM OR i)"
definition ACTION_USAGE_CONSUMER :: "u16 \<Rightarrow> action_t" where
  "ACTION_USAGE_CONSUMER i = ACTION ACT_USAGE (push_bit 10 PAGE_CONSUMER OR i)"
definition ACTION_MOUSEKEY :: "u16 \<Rightarrow> action_t" where "ACTION_MOUSEKEY key = ACTION ACT_MOUSEKEY key"

definition ON_PRESS :: u16 where "ON_PRESS = 1"
definition ON_RELEASE :: u16 where "ON_RELEASE = 2"
definition OP_BIT_AND :: u16 where "OP_BIT_AND = 0"
definition OP_BIT_OR :: u16 where "OP_BIT_OR = 1"
definition OP_BIT_XOR :: u16 where "OP_BIT_XOR = 2"
definition OP_BIT_SET :: u16 where "OP_BIT_SET = 3"
definition OP_TAP_TOGGLE :: u16 where "OP_TAP_TOGGLE = 0xF0"
definition OP_ON_OFF :: u16 where "OP_ON_OFF = 0xF1"
definition OP_OFF_ON :: u16 where "OP_OFF_ON = 0xF2"
definition OP_SET_CLEAR :: u16 where "OP_SET_CLEAR = 0xF3"
definition OP_ONESHOT :: u16 where "OP_ONESHOT = 0xF4"

lemmas op_defs = ON_PRESS_def ON_RELEASE_def OP_BIT_AND_def OP_BIT_OR_def OP_BIT_XOR_def OP_BIT_SET_def OP_TAP_TOGGLE_def
  OP_ON_OFF_def OP_OFF_ON_def OP_SET_CLEAR_def OP_ONESHOT_def MODS_ONESHOT_def MODS_TAP_TOGGLE_def PAGE_SYSTEM_def PAGE_CONSUMER_def

definition ACTION_LAYER_BITOP :: "u16 \<Rightarrow> u16 \<Rightarrow> u16 \<Rightarrow> u16 \<Rightarrow> action_t" where
  "ACTION_LAYER_BITOP op part bits on =
    ACTION ACT_LAYER (push_bit 10 op OR push_bit 8 on OR push_bit 5 part OR (bits AND 0x1F))"
definition ACTION_LAYER_TAP :: "u16 \<Rightarrow> u16 \<Rightarrow> action_t" where
  "ACTION_LAYER_TAP layer key = ACTION ACT_LAYER_TAP (push_bit 8 layer OR key)"
definition ACTION_LAYER_GOTO :: "u16 \<Rightarrow> action_t" where
  "ACTION_LAYER_GOTO layer = ACTION_LAYER_BITOP OP_BIT_SET (layer div 4) (push_bit (unat (layer mod 4)) 1) ON_PRESS"
definition ACTION_DEFAULT_LAYER_SET :: "u16 \<Rightarrow> action_t" where
  "ACTION_DEFAULT_LAYER_SET layer = ACTION_LAYER_BITOP OP_BIT_SET (layer div 4) (push_bit (unat (layer mod 4)) 1) 0"
definition ACTION_LAYER_TOGGLE :: "u16 \<Rightarrow> action_t" where
  "ACTION_LAYER_TOGGLE layer = ACTION_LAYER_BITOP OP_BIT_XOR (layer div 4) (push_bit (unat (layer mod 4)) 1) ON_RELEASE"
definition ACTION_LAYER_MOMENTARY :: "u16 \<Rightarrow> action_t" where
  "ACTION_LAYER_MOMENTARY layer = ACTION_LAYER_TAP layer OP_ON_OFF"
definition ACTION_LAYER_ONESHOT :: "u16 \<Rightarrow> action_t" where
  "ACTION_LAYER_ONESHOT layer = ACTION_LAYER_TAP layer OP_ONESHOT"
definition ACTION_LAYER_TAP_TOGGLE :: "u16 \<Rightarrow> action_t" where
  "ACTION_LAYER_TAP_TOGGLE layer = ACTION_LAYER_TAP layer OP_TAP_TOGGLE"
definition ACTION_LAYER_MODS :: "u16 \<Rightarrow> u16 \<Rightarrow> action_t" where
  "ACTION_LAYER_MODS layer mods = ACTION ACT_LAYER_MODS (push_bit 8 layer OR mods)"

lemmas action_defs = ACTION_def ACTION_KEY_def ACTION_MODS_KEY_def ACTION_MODS_TAP_KEY_def ACTION_MODS_ONESHOT_def
  ACTION_USAGE_SYSTEM_def ACTION_USAGE_CONSUMER_def ACTION_MOUSEKEY_def ACTION_LAYER_BITOP_def ACTION_LAYER_TAP_def
  ACTION_LAYER_GOTO_def ACTION_DEFAULT_LAYER_SET_def ACTION_LAYER_TOGGLE_def ACTION_LAYER_MOMENTARY_def
  ACTION_LAYER_ONESHOT_def ACTION_LAYER_TAP_TOGGLE_def ACTION_LAYER_MODS_def ACTION_NO_def ACTION_TRANSPARENT_def

text \<open>The bit fields of \<open>action_t\<close>.\<close>

definition field :: "nat \<Rightarrow> nat \<Rightarrow> action_t \<Rightarrow> u16" where
  "field pos width a = take_bit width (drop_bit pos a)"

definition kind_id :: "action_t \<Rightarrow> u16" where "kind_id a = field 12 4 a"
definition key_code :: "action_t \<Rightarrow> u16" where "key_code a = field 0 8 a"
definition key_mods :: "action_t \<Rightarrow> u16" where "key_mods a = field 8 4 a"
definition bitop_bits :: "action_t \<Rightarrow> u16" where "bitop_bits a = field 0 4 a"
definition bitop_xbit :: "action_t \<Rightarrow> u16" where "bitop_xbit a = field 4 1 a"
definition bitop_part :: "action_t \<Rightarrow> u16" where "bitop_part a = field 5 3 a"
definition bitop_on :: "action_t \<Rightarrow> u16" where "bitop_on a = field 8 2 a"
definition bitop_op :: "action_t \<Rightarrow> u16" where "bitop_op a = field 10 2 a"
definition layer_mods_mods :: "action_t \<Rightarrow> u16" where "layer_mods_mods a = field 0 8 a"
definition layer_mods_layer :: "action_t \<Rightarrow> u16" where "layer_mods_layer a = field 8 4 a"
definition layer_tap_code :: "action_t \<Rightarrow> u16" where "layer_tap_code a = field 0 8 a"
definition layer_tap_val :: "action_t \<Rightarrow> u16" where "layer_tap_val a = field 8 5 a"
definition usage_code :: "action_t \<Rightarrow> u16" where "usage_code a = field 0 10 a"
definition usage_page :: "action_t \<Rightarrow> u16" where "usage_page a = field 10 2 a"

lemmas field_defs = field_def kind_id_def key_code_def key_mods_def bitop_bits_def bitop_xbit_def bitop_part_def bitop_on_def
  bitop_op_def layer_mods_mods_def layer_mods_layer_def layer_tap_code_def layer_tap_val_def usage_code_def usage_page_def

section \<open>Keycodes to usages\<close>

definition KEYCODE2SYSTEM :: "u16 \<Rightarrow> u16" where
  "KEYCODE2SYSTEM key = (if key = 0xA5 then 0x81 else if key = 0xA6 then 0x82 else if key = 0xA7 then 0x83 else 0)"

definition consumer_table :: "(u16 \<times> u16) list" where
  "consumer_table =
   [(0xA8, 0x0E2), (0xA9, 0x0E9), (0xAA, 0x0EA), (0xAB, 0x0B5), (0xAC, 0x0B6), (0xBB, 0x0B3), (0xBC, 0x0B4),
    (0xAD, 0x0B7), (0xB0, 0x0CC), (0xAE, 0x0CD), (0xAF, 0x183), (0xB1, 0x18A), (0xB2, 0x192), (0xB3, 0x194),
    (0xBF, 0x19F), (0xC0, 0x1CB), (0xB4, 0x221), (0xB5, 0x223), (0xB6, 0x224), (0xB7, 0x225), (0xB8, 0x226),
    (0xB9, 0x227), (0xBD, 0x06F), (0xBE, 0x070), (0xBA, 0x22A), (0xC1, 0x29F), (0xC2, 0x2A0)]"

definition KEYCODE2CONSUMER :: "u16 \<Rightarrow> u16" where
  "KEYCODE2CONSUMER key = (case map_of consumer_table key of Some u \<Rightarrow> u | None \<Rightarrow> 0)"

section \<open>keymap_common.c\<close>

text \<open>
  The bodies of the switch of \<open>action_for_keycode\<close>, after the remapping at its head.  In
  \<open>QK_LAYER_MOD\<close> the modifiers are shifted as an \<open>int\<close>, so nothing is cut off.
\<close>

definition action_of :: "u16 \<Rightarrow> u16 \<Rightarrow> action_t" where
  "action_of c kc =
    (if within 0x04 0xA4 kc \<or> within KC_LEFT_CTRL KC_RIGHT_GUI kc then ACTION_KEY kc
     else if within 0xA5 0xA7 kc then ACTION_USAGE_SYSTEM (KEYCODE2SYSTEM kc)
     else if within 0xA8 0xC2 kc then ACTION_USAGE_CONSUMER (KEYCODE2CONSUMER kc)
     else if within 0xCD 0xDF kc then ACTION_MOUSEKEY kc
     else if kc = KC_TRNS then ACTION_TRANSPARENT
     else if within 0x0100 0x1FFF kc then
       ACTION_MODS_KEY (ucast (mod_config c (ucast (drop_bit 8 kc AND 0x1F)))) (keycode_config c (kc AND 0xFF))
     else if within 0x4000 0x4FFF kc then
       ACTION_LAYER_TAP (drop_bit 8 kc AND 0xF) (keycode_config c (kc AND 0xFF))
     else if within 0x5200 0x521F kc then ACTION_LAYER_GOTO (kc AND 0x1F)
     else if within 0x5220 0x523F kc then ACTION_LAYER_MOMENTARY (kc AND 0x1F)
     else if within 0x5240 0x525F kc then ACTION_DEFAULT_LAYER_SET (kc AND 0x1F)
     else if within 0x5260 0x527F kc then ACTION_LAYER_TOGGLE (kc AND 0x1F)
     else if within 0x5280 0x529F kc then ACTION_LAYER_ONESHOT (kc AND 0x1F)
     else if within 0x52A0 0x52BF kc then ACTION_MODS_ONESHOT (ucast (mod_config c (ucast (kc AND 0x1F))))
     else if within 0x52C0 0x52DF kc then ACTION_LAYER_TAP_TOGGLE (kc AND 0x1F)
     else if within 0x5000 0x51FF kc then
       (let m = ucast (mod_config c (ucast (kc AND 0x1F))) :: u16; layer = drop_bit 5 kc AND 0xF
        in ACTION_LAYER_MODS layer (if m AND 0x10 \<noteq> 0 then push_bit 4 m else m))
     else if within 0x2000 0x3FFF kc then
       ACTION_MODS_TAP_KEY (ucast (mod_config c (ucast (drop_bit 8 kc AND 0x1F)))) (keycode_config c (kc AND 0xFF))
     else ACTION_NO)"

definition action_for_keycode :: "u16 \<Rightarrow> u16 \<Rightarrow> action_t" where
  "action_for_keycode c kc = action_of c (keycode_config c kc)"

definition KEYLOC_TICK :: u8 where "KEYLOC_TICK = 255"
definition KEYLOC_ENCODER_CW :: u8 where "KEYLOC_ENCODER_CW = 253"
definition KEYLOC_ENCODER_CCW :: u8 where "KEYLOC_ENCODER_CCW = 252"

record keypos =
  key_row :: u8
  key_col :: u8

definition is_matrix_key :: "keypos \<Rightarrow> bool" where
  "is_matrix_key k \<longleftrightarrow> unat (key_row k) < MATRIX_ROWS \<and> unat (key_col k) < MATRIX_COLS"

text \<open>The last key looked up and its keycode stay in four static variables.\<close>

definition keymap_key_to_keycode :: "'e eeprom_ops \<Rightarrow> u8 \<Rightarrow> keypos \<Rightarrow> 'e kb \<Rightarrow> u16 \<times> 'e kb" where
  "keymap_key_to_keycode ops layer key s =
    (if is_matrix_key key then
       (let s = (if layer \<noteq> layerTemp s \<or> key_row key \<noteq> rowTemp s \<or> key_col key \<noteq> colTemp s
                 then s\<lparr>layerTemp := layer, rowTemp := key_row key, colTemp := key_col key,
                        keycodeTemp := keycode_at_keymap_location ops (unat layer) (unat (key_row key)) (unat (key_col key)) (eeprom_state s)\<rparr>
                 else s)
        in (keycodeTemp s, s))
     else if key_row key = KEYLOC_ENCODER_CW \<and> unat (key_col key) < NUM_ENCODERS then
       (keycode_at_encodermap_location ops (unat layer) (unat (key_col key)) True (eeprom_state s), s)
     else if key_row key = KEYLOC_ENCODER_CCW \<and> unat (key_col key) < NUM_ENCODERS then
       (keycode_at_encodermap_location ops (unat layer) (unat (key_col key)) False (eeprom_state s), s)
     else (KC_NO, s))"

definition action_for_key :: "'e eeprom_ops \<Rightarrow> u8 \<Rightarrow> keypos \<Rightarrow> 'e kb \<Rightarrow> action_t \<times> 'e kb" where
  "action_for_key ops layer key s =
    (let (kc, s) = keymap_key_to_keycode ops layer key s in (action_for_keycode (keymap_config s) kc, s))"

end
