(* ===== verification/Action_Layer.thy ===== *)
theory Action_Layer
  imports Keymap_Common
begin

text \<open>
  The layer lookup of quantum/action_layer.c: the action of a key is the topmost non-transparent one of
  the active layers, and the layer a key was pressed on is kept, three bits per key, until its release.
\<close>

section \<open>The source layer cache\<close>

definition MAX_LAYER :: nat where "MAX_LAYER = DYNAMIC_KEYMAP_LAYER_COUNT"
definition MAX_LAYER_BITS :: nat where "MAX_LAYER_BITS = 3"

text \<open>
  Bit plane b of an entry.  In C the negation, the exclusive or and the mask are on \<open>int\<close>; the byte
  keeps the low eight bits.
\<close>

definition cache_bit :: "u8 \<Rightarrow> nat \<Rightarrow> u8 \<Rightarrow> nat \<Rightarrow> u8" where
  "cache_bit layer b c storage_bit =
    c XOR (((if layer AND push_bit b 1 \<noteq> 0 then - 1 else 0) XOR c) AND push_bit storage_bit 1)"

definition update_source_layers_cache_impl :: "u8 \<Rightarrow> nat \<Rightarrow> u8 list list \<Rightarrow> u8 list list" where
  "update_source_layers_cache_impl layer entry_number planes =
    (let idx = entry_number div 8; sbit = entry_number mod 8 in
     fold (\<lambda>b planes. planes[idx := (planes ! idx)[b := cache_bit layer b (planes ! idx ! b) sbit]]) [0..<MAX_LAYER_BITS] planes)"

definition read_source_layers_cache_impl :: "nat \<Rightarrow> u8 list list \<Rightarrow> u8" where
  "read_source_layers_cache_impl entry_number planes =
    (let idx = entry_number div 8; sbit = entry_number mod 8 in
     fold (\<lambda>b layer. layer OR push_bit b (if planes ! idx ! b AND push_bit sbit 1 \<noteq> 0 then 1 else 0)) [0..<MAX_LAYER_BITS] 0)"

text \<open>Events of encoder positions carry an encoder number, which is within the encoder cache.\<close>

definition is_encoder_key :: "keypos \<Rightarrow> bool" where
  "is_encoder_key k \<longleftrightarrow> key_row k = KEYLOC_ENCODER_CW \<or> key_row k = KEYLOC_ENCODER_CCW"

definition entry_of :: "keypos \<Rightarrow> nat" where
  "entry_of k = unat (key_row k) * MATRIX_COLS + unat (key_col k)"

definition update_source_layers_cache :: "keypos \<Rightarrow> u8 \<Rightarrow> 'e kb \<Rightarrow> 'e kb" where
  "update_source_layers_cache key layer s =
    (if is_matrix_key key then
       s\<lparr>source_layers_cache := update_source_layers_cache_impl layer (entry_of key) (source_layers_cache s)\<rparr>
     else if is_encoder_key key then
       s\<lparr>encoder_source_layers_cache :=
           update_source_layers_cache_impl layer (unat (key_col key)) (encoder_source_layers_cache s)\<rparr>
     else s)"

definition read_source_layers_cache :: "keypos \<Rightarrow> 'e kb \<Rightarrow> u8" where
  "read_source_layers_cache key s =
    (if is_matrix_key key then read_source_layers_cache_impl (entry_of key) (source_layers_cache s)
     else if is_encoder_key key then
       read_source_layers_cache_impl (unat (key_col key)) (encoder_source_layers_cache s)
     else 0)"

section \<open>The topmost layer of a key\<close>

fun layer_search :: "'e eeprom_ops \<Rightarrow> u8 \<Rightarrow> keypos \<Rightarrow> nat \<Rightarrow> 'e kb \<Rightarrow> u8 \<times> 'e kb" where
  "layer_search ops layers key 0 s = (0, s)"
| "layer_search ops layers key (Suc i) s =
    (if layers AND push_bit i 1 \<noteq> 0 then
       (let (action, s) = action_for_key ops (of_nat i) key s in
        if action \<noteq> ACTION_TRANSPARENT then (of_nat i, s) else layer_search ops layers key i s)
     else layer_search ops layers key i s)"

definition layer_switch_get_layer :: "'e eeprom_ops \<Rightarrow> keypos \<Rightarrow> 'e kb \<Rightarrow> u8 \<times> 'e kb" where
  "layer_switch_get_layer ops key s = layer_search ops (layer_state s OR default_layer_state s) key MAX_LAYER s"

definition layer_switch_get_action :: "'e eeprom_ops \<Rightarrow> keypos \<Rightarrow> 'e kb \<Rightarrow> action_t \<times> 'e kb" where
  "layer_switch_get_action ops key s =
    (let (layer, s) = layer_switch_get_layer ops key s in action_for_key ops layer key s)"

definition store_or_get_action :: "'e eeprom_ops \<Rightarrow> bool \<Rightarrow> keypos \<Rightarrow> 'e kb \<Rightarrow> action_t \<times> 'e kb" where
  "store_or_get_action ops pressed key s =
    (if disable_action_cache s then layer_switch_get_action ops key s
     else if pressed then
       (let (layer, s) = layer_switch_get_layer ops key s; s = update_source_layers_cache key layer s
        in action_for_key ops layer key s)
     else action_for_key ops (read_source_layers_cache key s) key s)"

section \<open>The cache keeps the layer of every key\<close>

lemma len3: "length xs = 3 \<longleftrightarrow> (\<exists>x y z. xs = [x, y, z])"
  by (auto simp: numeral_3_eq_3 length_Suc_conv)

lemma bit_cache_bit:
  "bit (cache_bit layer b c sb) n \<longleftrightarrow> (if n = sb then n < 8 \<and> bit layer b else bit c n)"
  using bit_u8_high [of c n] by (auto simp: cache_bit_def and_exp_eq_0_iff_not_bit bit_simps)

definition cache_ok :: "nat \<Rightarrow> u8 list list \<Rightarrow> bool" where
  "cache_ok n planes \<longleftrightarrow> length planes = n \<and> (\<forall>row \<in> set planes. length row = MAX_LAYER_BITS)"

lemma cache_planes: "[0..<MAX_LAYER_BITS] = [0, 1, 2]"
  by (simp add: MAX_LAYER_BITS_def upt_rec)

lemma update_impl_row:
  assumes "cache_ok n planes" and "e div 8 < n"
  shows "update_source_layers_cache_impl layer e planes =
    planes[e div 8 := map (\<lambda>b. cache_bit layer b (planes ! (e div 8) ! b) (e mod 8)) [0, 1, 2]]"
proof -
  have len: "length (planes ! (e div 8)) = 3"
    using assms by (auto simp: cache_ok_def MAX_LAYER_BITS_def)
  then obtain x y z where row: "planes ! (e div 8) = [x, y, z]" by (auto simp: len3)
  have lt: "e div 8 < length planes" using assms by (simp add: cache_ok_def)
  show ?thesis using lt by (simp add: update_source_layers_cache_impl_def cache_planes Let_def row)
qed

lemma read_impl_bits:
  "bit (read_source_layers_cache_impl e planes) i \<longleftrightarrow> i < 3 \<and> bit (planes ! (e div 8) ! i) (e mod 8)"
proof -
  consider "i = 0" | "i = 1" | "i = 2" | "3 \<le> i" by linarith
  then show ?thesis
    by cases (auto simp: read_source_layers_cache_impl_def cache_planes Let_def and_exp_eq_0_iff_not_bit bit_simps)
qed

lemma cache_ok_update:
  assumes "cache_ok n planes" and "e div 8 < n"
  shows "cache_ok n (update_source_layers_cache_impl layer e planes)"
  using assms by (auto simp: update_impl_row [OF assms] cache_ok_def MAX_LAYER_BITS_def dest: set_update_subset_insert [THEN subsetD])

lemma read_update_impl:
  assumes "cache_ok n planes" and "e div 8 < n" and "e' div 8 < n"
  shows "read_source_layers_cache_impl e' (update_source_layers_cache_impl layer e planes) =
    (if e' = e then take_bit 3 layer else read_source_layers_cache_impl e' planes)"
proof (rule bit_word_eqI)
  fix i assume "i < LENGTH(8)"
  have lt: "e div 8 < length planes" using assms by (simp add: cache_ok_def)
  have eq: "e' div 8 = e div 8 \<Longrightarrow> e' mod 8 = e mod 8 \<longleftrightarrow> e' = e" by (metis div_mult_mod_eq)
  have "i < 3 \<Longrightarrow> [0, 1, 2] ! i = i" by (auto simp: less_Suc_eq numeral_3_eq_3)
  then show "bit (read_source_layers_cache_impl e' (update_source_layers_cache_impl layer e planes)) i =
      bit (if e' = e then take_bit 3 layer else read_source_layers_cache_impl e' planes) i"
    using lt eq
    by (cases "e' div 8 = e div 8")
      (auto simp: read_impl_bits update_impl_row [OF assms(1,2)] bit_cache_bit bit_take_bit_iff nth_list_update simp del: list.map upt_rec_numeral)
qed

section \<open>The memo of the last lookup\<close>

text \<open>The keymap without the static variables in front of it.\<close>

definition keycode_at :: "'e eeprom_ops \<Rightarrow> u8 \<Rightarrow> keypos \<Rightarrow> 'e \<Rightarrow> u16" where
  "keycode_at ops layer key e =
    (if is_matrix_key key then keycode_at_keymap_location ops (unat layer) (unat (key_row key)) (unat (key_col key)) e
     else if key_row key = KEYLOC_ENCODER_CW \<and> unat (key_col key) < NUM_ENCODERS then
       keycode_at_encodermap_location ops (unat layer) (unat (key_col key)) True e
     else if key_row key = KEYLOC_ENCODER_CCW \<and> unat (key_col key) < NUM_ENCODERS then
       keycode_at_encodermap_location ops (unat layer) (unat (key_col key)) False e
     else KC_NO)"

definition action_at :: "'e eeprom_ops \<Rightarrow> u8 \<Rightarrow> keypos \<Rightarrow> 'e kb \<Rightarrow> action_t" where
  "action_at ops layer key s = action_for_keycode (keymap_config s) (keycode_at ops layer key (eeprom_state s))"

definition memo_key :: "'e kb \<Rightarrow> keypos" where
  "memo_key s = \<lparr>key_row = rowTemp s, key_col = colTemp s\<rparr>"

definition memo_ok :: "'e eeprom_ops \<Rightarrow> 'e kb \<Rightarrow> bool" where
  "memo_ok ops s \<longleftrightarrow> (is_matrix_key (memo_key s) \<longrightarrow> keycodeTemp s = keycode_at ops (layerTemp s) (memo_key s) (eeprom_state s))"

definition memo_only :: "'e kb \<Rightarrow> 'e kb \<Rightarrow> bool" where
  "memo_only s s' \<longleftrightarrow> (\<exists>l r c k. s' = s\<lparr>layerTemp := l, rowTemp := r, colTemp := c, keycodeTemp := k\<rparr>)"

lemma memo_only_refl [simp]: "memo_only s s"
proof -
  have "s = s\<lparr>layerTemp := layerTemp s, rowTemp := rowTemp s, colTemp := colTemp s, keycodeTemp := keycodeTemp s\<rparr>" by simp
  then show ?thesis unfolding memo_only_def by blast
qed

lemma memo_only_trans: "memo_only s t \<Longrightarrow> memo_only t u \<Longrightarrow> memo_only s u"
  by (auto simp: memo_only_def) metis

lemma memo_only_fields:
  "memo_only s s' \<Longrightarrow> eeprom_state s' = eeprom_state s \<and> keymap_config s' = keymap_config s \<and> layer_state s' = layer_state s \<and>
     default_layer_state s' = default_layer_state s \<and> source_layers_cache s' = source_layers_cache s \<and>
     encoder_source_layers_cache s' = encoder_source_layers_cache s \<and> disable_action_cache s' = disable_action_cache s"
  by (auto simp: memo_only_def)

lemma keymap_lookup:
  assumes "memo_ok ops s" and "keymap_key_to_keycode ops layer key s = (kc, s')"
  shows "kc = keycode_at ops layer key (eeprom_state s) \<and> memo_ok ops s' \<and> memo_only s s'"
proof (cases "is_matrix_key key \<and> (layer \<noteq> layerTemp s \<or> key_row key \<noteq> rowTemp s \<or> key_col key \<noteq> colTemp s)")
  case True
  then have "s' = s\<lparr>layerTemp := layer, rowTemp := key_row key, colTemp := key_col key, keycodeTemp := kc\<rparr> \<and>
      kc = keycode_at ops layer key (eeprom_state s)"
    using assms(2) by (auto simp: keymap_key_to_keycode_def keycode_at_def Let_def)
  moreover from this have "memo_key s' = key" by (simp add: memo_key_def)
  ultimately show ?thesis by (auto simp: memo_ok_def memo_only_def)
next
  case False
  then have "s' = s" using assms(2) by (auto simp: keymap_key_to_keycode_def Let_def split: if_splits)
  moreover have "kc = keycode_at ops layer key (eeprom_state s)"
  proof (cases "is_matrix_key key")
    case True
    then have "key = memo_key s" "layer = layerTemp s" using False by (auto simp: memo_key_def)
    then show ?thesis using True assms False by (auto simp: keymap_key_to_keycode_def memo_ok_def Let_def memo_key_def)
  qed (use assms(2) in \<open>auto simp: keymap_key_to_keycode_def keycode_at_def split: if_splits\<close>)
  ultimately show ?thesis using assms(1) by simp
qed

lemma action_lookup:
  assumes "memo_ok ops s" and "action_for_key ops layer key s = (a, s')"
  shows "a = action_at ops layer key s \<and> memo_ok ops s' \<and> memo_only s s'"
proof -
  obtain kc where k: "keymap_key_to_keycode ops layer key s = (kc, s')" and a: "a = action_for_keycode (keymap_config s') kc"
    using assms(2) by (auto simp: action_for_key_def split: prod.splits)
  show ?thesis using keymap_lookup [OF assms(1) k] memo_only_fields [of s s'] by (simp add: a action_at_def)
qed

lemma action_at_cong:
  "eeprom_state s' = eeprom_state s \<Longrightarrow> keymap_config s' = keymap_config s \<Longrightarrow> action_at ops l k s' = action_at ops l k s"
  by (simp add: action_at_def)

section \<open>The topmost layer\<close>

definition opaque :: "'e eeprom_ops \<Rightarrow> u8 \<Rightarrow> keypos \<Rightarrow> 'e kb \<Rightarrow> nat \<Rightarrow> bool" where
  "opaque ops layers key s i \<longleftrightarrow> bit layers i \<and> action_at ops (of_nat i) key s \<noteq> ACTION_TRANSPARENT"

definition topmost :: "nat set \<Rightarrow> nat" where
  "topmost A = (if A = {} then 0 else Max A)"

lemma topmost_Suc:
  "topmost {i. i < Suc n \<and> P i} = (if P n then n else topmost {i. i < n \<and> P i})"
proof (cases "P n")
  case True
  then have "Max {i. i < Suc n \<and> P i} = n" by (intro Max_eqI) auto
  then show ?thesis using True by (auto simp: topmost_def)
next
  case False
  then have "{i. i < Suc n \<and> P i} = {i. i < n \<and> P i}" using less_Suc_eq by auto
  then show ?thesis using False by simp
qed

lemma layer_search_topmost:
  assumes "memo_ok ops s" and "layer_search ops layers key n s = (l, s')"
  shows "l = of_nat (topmost {i. i < n \<and> opaque ops layers key s i}) \<and> memo_ok ops s' \<and> memo_only s s'"
  using assms
proof (induction n arbitrary: s)
  case 0
  then show ?case by (simp add: topmost_def)
next
  case (Suc n)
  obtain a t where a: "action_for_key ops (of_nat n) key s = (a, t)" by (cases "action_for_key ops (of_nat n) key s")
  note look = action_lookup [OF Suc.prems(1) a]
  have same: "opaque ops layers key t = opaque ops layers key s"
    using look memo_only_fields [of s t] by (auto simp: fun_eq_iff opaque_def action_at_def)
  show ?case
  proof (cases "bit layers n \<and> a = ACTION_TRANSPARENT")
    case True
    then have "layer_search ops layers key n t = (l, s')"
      using Suc.prems(2) by (simp add: a and_exp_eq_0_iff_not_bit)
    then show ?thesis using Suc.IH [of t] look True
      by (auto simp: topmost_Suc same opaque_def intro: memo_only_trans)
  next
    case False
    then show ?thesis using Suc.prems Suc.IH [of s] look
      by (auto simp: topmost_Suc opaque_def a and_exp_eq_0_iff_not_bit split: if_splits)
  qed
qed

lemma get_layer_topmost:
  assumes "memo_ok ops s" and "layer_switch_get_layer ops key s = (l, s')"
  shows "l = of_nat (topmost {i. i < MAX_LAYER \<and> opaque ops (layer_state s OR default_layer_state s) key s i}) \<and>
    memo_ok ops s' \<and> memo_only s s'"
  using layer_search_topmost [OF assms(1)] assms(2) by (simp add: layer_switch_get_layer_def)

lemma topmost_less: "0 < n \<Longrightarrow> topmost {i. i < n \<and> P i} < n"
proof -
  assume "0 < n"
  have "finite {i. i < n \<and> P i}" by simp
  then show ?thesis using \<open>0 < n\<close> Max_in [of "{i. i < n \<and> P i}"] by (auto simp: topmost_def)
qed

lemma get_layer_less:
  assumes "memo_ok ops s" and "layer_switch_get_layer ops key s = (l, s')"
  shows "unat l < MAX_LAYER"
proof -
  have "0 < MAX_LAYER" "MAX_LAYER < 256" by (simp_all add: MAX_LAYER_def DYNAMIC_KEYMAP_LAYER_COUNT_def)
  then show ?thesis using get_layer_topmost [OF assms]
      topmost_less [of MAX_LAYER "opaque ops (layer_state s OR default_layer_state s) key s"]
    by (simp add: unat_of_nat_u8)
qed

section \<open>A release meets the action of its press\<close>

text \<open>Everything that looks keys up or changes layers.\<close>

datatype layer_call = Key_Event bool keypos | Set_Layers u8 | Set_Default_Layer u8

fun layer_step :: "'e eeprom_ops \<Rightarrow> layer_call \<Rightarrow> 'e kb \<Rightarrow> 'e kb" where
  "layer_step ops (Key_Event pressed key) s = snd (store_or_get_action ops pressed key s)"
| "layer_step ops (Set_Layers l) s = layer_state_set l s"
| "layer_step ops (Set_Default_Layer l) s = default_layer_set l s"

definition key_ok :: "keypos \<Rightarrow> bool" where
  "key_ok k \<longleftrightarrow> is_matrix_key k \<or> (is_encoder_key k \<and> unat (key_col k) < NUM_ENCODERS)"

fun spares :: "keypos \<Rightarrow> layer_call \<Rightarrow> bool" where
  "spares key (Key_Event pressed k) = (key_ok k \<and> (pressed \<longrightarrow> k \<noteq> key))"
| "spares key _ = True"

definition MATRIX_CACHE_ROWS :: nat where "MATRIX_CACHE_ROWS = (MATRIX_ROWS * MATRIX_COLS + 7) div 8"
definition ENCODER_CACHE_ROWS :: nat where "ENCODER_CACHE_ROWS = (NUM_ENCODERS + 7) div 8"

definition layers_ok :: "'e eeprom_ops \<Rightarrow> 'e kb \<Rightarrow> bool" where
  "layers_ok ops s \<longleftrightarrow> memo_ok ops s \<and> \<not> disable_action_cache s \<and> cache_ok MATRIX_CACHE_ROWS (source_layers_cache s) \<and>
     cache_ok ENCODER_CACHE_ROWS (encoder_source_layers_cache s)"

lemma entry_bound: "is_matrix_key k \<Longrightarrow> entry_of k div 8 < MATRIX_CACHE_ROWS"
  by (auto simp: is_matrix_key_def entry_of_def MATRIX_CACHE_ROWS_def MATRIX_ROWS_def MATRIX_COLS_def)

lemma row_col_inj: "c < 15 \<Longrightarrow> c' < 15 \<Longrightarrow> r * 15 + c = r' * 15 + (c' :: nat) \<Longrightarrow> r = r' \<and> c = c'"
proof -
  assume c: "c < 15" "c' < 15" and eq: "r * 15 + c = r' * 15 + c'"
  have "r = (r * 15 + c) div 15" "r' = (r' * 15 + c') div 15" using c by simp_all
  then have "r = r'" using eq by simp
  then show ?thesis using eq by simp
qed

lemma entry_inj: "is_matrix_key k \<Longrightarrow> is_matrix_key k' \<Longrightarrow> entry_of k = entry_of k' \<longleftrightarrow> k = k'"
proof -
  assume k: "is_matrix_key k" "is_matrix_key k'"
  have "entry_of k = entry_of k' \<Longrightarrow> unat (key_row k) = unat (key_row k') \<and> unat (key_col k) = unat (key_col k')"
    using k row_col_inj by (simp add: is_matrix_key_def entry_of_def MATRIX_COLS_def)
  then show ?thesis by (auto intro: keypos.equality simp: word_unat_eq_iff)
qed

lemma matrix_not_encoder: "is_matrix_key k \<Longrightarrow> \<not> is_encoder_key k"
  by (auto simp: is_matrix_key_def is_encoder_key_def MATRIX_ROWS_def KEYLOC_ENCODER_CW_def KEYLOC_ENCODER_CCW_def)

lemma memo_only_layers_ok: "memo_only s s' \<Longrightarrow> memo_ok ops s' \<Longrightarrow> layers_ok ops s \<Longrightarrow> layers_ok ops s'"
  using memo_only_fields [of s s'] by (simp add: layers_ok_def)

lemma memo_ok_caches [simp]:
  "memo_ok ops (s\<lparr>source_layers_cache := x\<rparr>) = memo_ok ops s"
  "memo_ok ops (s\<lparr>encoder_source_layers_cache := x\<rparr>) = memo_ok ops s"
  by (simp_all add: memo_ok_def memo_key_def)

lemma memo_ok_update [simp]: "memo_ok ops (update_source_layers_cache k l s) = memo_ok ops s"
  by (simp add: update_source_layers_cache_def)

lemma update_layers_ok: "layers_ok ops s \<Longrightarrow> key_ok k \<Longrightarrow> layers_ok ops (update_source_layers_cache k l s)"
  using cache_ok_update [of MATRIX_CACHE_ROWS "source_layers_cache s" "entry_of k"]
    cache_ok_update [of ENCODER_CACHE_ROWS "encoder_source_layers_cache s" "unat (key_col k)"] entry_bound [of k]
  by (auto simp: layers_ok_def key_ok_def update_source_layers_cache_def NUM_ENCODERS_def ENCODER_CACHE_ROWS_def)

lemma read_update_cache:
  assumes "layers_ok ops s" and "is_matrix_key key" and "key_ok k"
  shows "read_source_layers_cache key (update_source_layers_cache k l s) =
    (if k = key then take_bit 3 l else read_source_layers_cache key s)"
  using assms entry_inj [of key k] entry_bound [of k] entry_bound [of key] matrix_not_encoder [of key] matrix_not_encoder [of k]
    read_update_impl [of MATRIX_CACHE_ROWS "source_layers_cache s" "entry_of k" "entry_of key" l]
  by (auto simp: layers_ok_def key_ok_def update_source_layers_cache_def read_source_layers_cache_def)

lemma read_cache_memo: "memo_only s s' \<Longrightarrow> read_source_layers_cache key s' = read_source_layers_cache key s"
  using memo_only_fields [of s s'] by (simp add: read_source_layers_cache_def)

lemma take_bit3: "take_bit 3 (l :: u8) = l \<longleftrightarrow> unat l < 8"
proof -
  have "unat (take_bit 3 l) = unat l mod 8" by (simp only: unsigned_take_bit_eq, simp add: take_bit_eq_mod)
  then show ?thesis by (auto simp: word_unat_eq_iff)
qed

lemma read_cache_less: "unat (read_source_layers_cache k s) < 8"
proof -
  have "take_bit 3 (read_source_layers_cache_impl e c) = read_source_layers_cache_impl e c" for e c
    by (rule bit_word_eqI) (auto simp: bit_take_bit_iff read_impl_bits)
  then show ?thesis by (simp add: read_source_layers_cache_def take_bit3)
qed

text \<open>One lookup: the action, what it stores and what it leaves alone.\<close>

lemma store_or_get:
  assumes "layers_ok ops s" and "key_ok k" and "store_or_get_action ops pressed k s = (a, s')"
  obtains l where "a = action_at ops l k s" "layers_ok ops s'" "unat l < 8"
    "eeprom_state s' = eeprom_state s" "keymap_config s' = keymap_config s"
    "if pressed then l = of_nat (topmost {i. i < MAX_LAYER \<and> opaque ops (layer_state s OR default_layer_state s) k s i})
       else l = read_source_layers_cache k s"
    "\<And>key. is_matrix_key key \<Longrightarrow> read_source_layers_cache key s' =
       (if pressed \<and> k = key then l else read_source_layers_cache key s)"
proof (cases pressed)
  case True
  obtain l t where g: "layer_switch_get_layer ops k s = (l, t)" by (cases "layer_switch_get_layer ops k s")
  let ?u = "update_source_layers_cache k l t"
  have cfg: "\<not> disable_action_cache s" "memo_ok ops s" using assms(1) by (simp_all add: layers_ok_def)
  then have a: "action_for_key ops l k ?u = (a, s')" using assms(3) True by (simp add: store_or_get_action_def g)
  note top = get_layer_topmost [OF cfg(2) g]
  have l8: "unat l < 8" using get_layer_less [OF cfg(2) g] by (simp add: MAX_LAYER_def DYNAMIC_KEYMAP_LAYER_COUNT_def)
  then have tb: "take_bit 3 l = l" by (simp add: take_bit3)
  have t: "layers_ok ops t" using memo_only_layers_ok [of s t] top assms(1) by simp
  then have u: "layers_ok ops ?u" using assms(2) by (rule update_layers_ok)
  then have au: "a = action_at ops l k ?u \<and> memo_ok ops s' \<and> memo_only ?u s'"
    using action_lookup [OF _ a] by (simp add: layers_ok_def)
  have fr: "eeprom_state ?u = eeprom_state s" "keymap_config ?u = keymap_config s"
    using memo_only_fields [of s t] top by (simp_all add: update_source_layers_cache_def)
  show ?thesis
  proof (rule that [of l])
    show "a = action_at ops l k s" using au action_at_cong [OF fr] by simp
    show "layers_ok ops s'" using memo_only_layers_ok [of ?u s'] au u by simp
    show "eeprom_state s' = eeprom_state s" "keymap_config s' = keymap_config s"
      using au fr memo_only_fields [of ?u s'] by simp_all
    show "read_source_layers_cache key s' = (if pressed \<and> k = key then l else read_source_layers_cache key s)"
      if "is_matrix_key key" for key
      using read_cache_memo [of ?u s' key] read_cache_memo [of s t key] au top [THEN conjunct2] True tb
        read_update_cache [OF t that assms(2), of l] by simp
  qed (use top True l8 in simp_all)
next
  case False
  let ?l = "read_source_layers_cache k s"
  have cfg: "\<not> disable_action_cache s" "memo_ok ops s" using assms(1) by (simp_all add: layers_ok_def)
  then have a: "action_for_key ops ?l k s = (a, s')" using assms(3) False by (simp add: store_or_get_action_def)
  note look = action_lookup [OF cfg(2) a]
  show ?thesis
  proof (rule that [of ?l])
    show "unat ?l < 8" by (rule read_cache_less)
  qed (use look False memo_only_layers_ok [of s s'] memo_only_fields [of s s'] read_cache_memo [of s s'] assms(1) in auto)
qed

lemma layers_ok_run:
  assumes "layers_ok ops s" and "\<forall>c \<in> set cs. spares key c" and "is_matrix_key key"
  defines "s' \<equiv> fold (layer_step ops) cs s"
  shows "layers_ok ops s' \<and> read_source_layers_cache key s' = read_source_layers_cache key s \<and>
    eeprom_state s' = eeprom_state s \<and> keymap_config s' = keymap_config s"
  using assms(1,2) unfolding s'_def
proof (induction cs arbitrary: s)
  case (Cons c cs)
  have "layers_ok ops (layer_step ops c s) \<and> read_source_layers_cache key (layer_step ops c s) = read_source_layers_cache key s \<and>
      eeprom_state (layer_step ops c s) = eeprom_state s \<and> keymap_config (layer_step ops c s) = keymap_config s"
  proof (cases c)
    case (Key_Event pressed k)
    obtain a t where st: "store_or_get_action ops pressed k s = (a, t)" by (cases "store_or_get_action ops pressed k s")
    have k: "key_ok k" and other: "pressed \<Longrightarrow> k \<noteq> key" using Cons.prems(2) Key_Event by auto
    obtain l where "layers_ok ops t" "eeprom_state t = eeprom_state s" "keymap_config t = keymap_config s"
        "read_source_layers_cache key t = (if pressed \<and> k = key then l else read_source_layers_cache key s)"
      by (rule store_or_get [OF Cons.prems(1) k st]) (blast intro: that assms(3))
    then show ?thesis using other Key_Event st by auto
  next
    case (Set_Layers l)
    then show ?thesis using Cons.prems(1)
      by (simp add: layer_state_set_def layers_ok_def memo_ok_def memo_key_def read_source_layers_cache_def)
  next
    case (Set_Default_Layer l)
    then show ?thesis using Cons.prems(1)
      by (simp add: default_layer_set_def default_layer_state_set_def layers_ok_def memo_ok_def memo_key_def read_source_layers_cache_def)
  qed
  then show ?case using Cons.IH [of "layer_step ops c s"] Cons.prems(2) by simp
qed simp

text \<open>
  C23.  Pressing a key gives the action of its topmost active layer that is not transparent there (layer 0 when
  there is none), and its release gives the same action, whatever happens in between to the layers and to the
  other keys: a key never goes down as one thing and up as another.
\<close>

theorem release_meets_press:
  assumes "layers_ok ops s" and "is_matrix_key key" and "\<forall>c \<in> set cs. spares key c"
    and "store_or_get_action ops True key s = (a, s1)"
  shows "a = action_at ops (of_nat (topmost {i. i < MAX_LAYER \<and>
            opaque ops (layer_state s OR default_layer_state s) key s i})) key s \<and>
    fst (store_or_get_action ops False key (fold (layer_step ops) cs s1)) = a"
proof -
  have k: "key_ok key" using assms(2) by (simp add: key_ok_def)
  obtain l where l: "a = action_at ops l key s" "layers_ok ops s1" "read_source_layers_cache key s1 = l"
      "l = of_nat (topmost {i. i < MAX_LAYER \<and> opaque ops (layer_state s OR default_layer_state s) key s i})"
      "eeprom_state s1 = eeprom_state s" "keymap_config s1 = keymap_config s"
    using store_or_get [OF assms(1) k assms(4)] assms(2) by (metis (full_types))
  note run = layers_ok_run [OF l(2) assms(3,2)]
  obtain b s3 where r: "store_or_get_action ops False key (fold (layer_step ops) cs s1) = (b, s3)"
    by (cases "store_or_get_action ops False key (fold (layer_step ops) cs s1)")
  have "b = action_at ops l key (fold (layer_step ops) cs s1)"
    using store_or_get [OF _ k r] run l(3) by (metis (full_types))
  then have "b = a" using run l(1,5,6) by (simp add: action_at_def)
  then show ?thesis using l(1,4) r by simp
qed

lemma layers_ok_static: "layers_ok ops (kb_static e)"
  by (simp add: layers_ok_def kb_static_def memo_ok_def memo_key_def is_matrix_key_def cache_ok_def MATRIX_ROWS_def MATRIX_COLS_def
      NUM_ENCODERS_def MATRIX_CACHE_ROWS_def ENCODER_CACHE_ROWS_def MAX_LAYER_BITS_def)

theorem release_meets_press_witness:
  "let ops = transient_ops 2048 (\<lambda>b _. b); key = \<lparr>key_row = 2, key_col = 3\<rparr>;
       (a, s1) = store_or_get_action ops True key (layer_state_set 2 (kb_static (Some (replicate 2048 0))))
   in fst (store_or_get_action ops False key (fold (layer_step ops)
        [Set_Layers 0, Key_Event True \<lparr>key_row = 2, key_col = 4\<rparr>, Set_Default_Layer 4] s1)) = a"
proof -
  let ?ops = "transient_ops 2048 (\<lambda>b _. b)" and ?key = "\<lparr>key_row = 2, key_col = 3\<rparr> :: keypos"
    and ?s = "layer_state_set 2 (kb_static (Some (replicate 2048 0)))"
  obtain a s1 where p: "store_or_get_action ?ops True ?key ?s = (a, s1)" by (cases "store_or_get_action ?ops True ?key ?s")
  have "layers_ok ?ops ?s"
    using layers_ok_static [of ?ops "Some (replicate 2048 0)"]
    by (simp add: layers_ok_def layer_state_set_def memo_ok_def memo_key_def)
  moreover have "is_matrix_key ?key" "is_matrix_key \<lparr>key_row = 2, key_col = 4\<rparr>"
    by (simp_all add: is_matrix_key_def MATRIX_ROWS_def MATRIX_COLS_def)
  ultimately have "fst (store_or_get_action ?ops False ?key (fold (layer_step ?ops)
        [Set_Layers 0, Key_Event True \<lparr>key_row = 2, key_col = 4\<rparr>, Set_Default_Layer 4] s1)) = a"
    using release_meets_press [OF _ _ _ p, of "[Set_Layers 0, Key_Event True \<lparr>key_row = 2, key_col = 4\<rparr>, Set_Default_Layer 4]"]
    by (simp add: key_ok_def del: fold_simps)
  then show ?thesis using p by (simp del: fold_simps)
qed

text \<open>
  C38.  The memo in front of the keymap is not invalidated when the keymap is rewritten: after VIA stores a
  new keycode for the key that was looked up last, the lookup still returns the old one.
\<close>

theorem keymap_memo_stale:
  fixes new :: u16
  assumes "keymap_eeprom ops contents good N" and "good (eeprom_state s)"
    and "unat layer < DYNAMIC_KEYMAP_LAYER_COUNT" and "is_matrix_key key"
    and "keymap_key_to_keycode ops layer key s = (old, s1)"
  defines "s2 \<equiv> s1\<lparr>eeprom_state := dynamic_keymap_set_keycode ops (unat layer) (unat (key_row key)) (unat (key_col key)) new
             (eeprom_state s1)\<rparr>"
  shows "keymap_key_to_keycode ops layer key s2 = (old, s2) \<and> keycode_at ops layer key (eeprom_state s2) = new"
proof -
  have s1: "layerTemp s1 = layer" "rowTemp s1 = key_row key" "colTemp s1 = key_col key" "keycodeTemp s1 = old"
      "eeprom_state s1 = eeprom_state s"
    using assms(4,5) by (auto simp: keymap_key_to_keycode_def Let_def split: if_splits)
  have rc: "unat (key_row key) < MATRIX_ROWS" "unat (key_col key) < MATRIX_COLS" using assms(4) by (simp_all add: is_matrix_key_def)
  have "keycode_at ops layer key (eeprom_state s2) =
      dynamic_keymap_get_keycode ops (unat layer) (unat (key_row key)) (unat (key_col key)) (eeprom_state s2)"
    using assms(3,4) rc by (simp add: keycode_at_def keycode_at_keymap_location_def)
  then show ?thesis
    using assms(4) s1 keymap_eeprom.get_set_keycode [OF assms(1,2,3) rc assms(3) rc, of new]
    by (simp add: keymap_key_to_keycode_def s2_def)
qed

theorem keymap_memo_stale_witness:
  "let ops = transient_ops 2048 (\<lambda>b _. b); key = \<lparr>key_row = 2, key_col = 3\<rparr>;
       (old, s1) = keymap_key_to_keycode ops 0 key (kb_static (Some (replicate 2048 0)));
       s2 = s1\<lparr>eeprom_state := dynamic_keymap_set_keycode ops 0 2 3 0x04 (eeprom_state s1)\<rparr>
   in fst (keymap_key_to_keycode ops 0 key s2) = old \<and> keycode_at ops 0 key (eeprom_state s2) = 0x04"
proof -
  let ?ops = "transient_ops 2048 (\<lambda>b _. b)" and ?key = "\<lparr>key_row = 2, key_col = 3\<rparr> :: keypos"
    and ?s = "kb_static (Some (replicate 2048 0)) :: u8 list option kb"
  obtain old s1 where p: "keymap_key_to_keycode ?ops 0 ?key ?s = (old, s1)" by (cases "keymap_key_to_keycode ?ops 0 ?key ?s")
  show ?thesis
    using keymap_memo_stale [OF p1_ram.keymap_eeprom_axioms _ _ _ p, of "0x04"] p
    by (simp add: kb_static_def is_matrix_key_def MATRIX_ROWS_def MATRIX_COLS_def DYNAMIC_KEYMAP_LAYER_COUNT_def)
qed

end
