(* ===== verification/Action.thy ===== *)
theory Action
  imports Action_Layer
begin

text \<open>
  quantum/action.c: registering and releasing keycodes, and the execution of an action for a key record.
  The handlers of quantum/quantum.c that see a record first and last are parameters (\<open>hooks\<close>), which the theory Quantum fills: they may
  change the keyboard state and stop the processing, but they do not write to the record.
\<close>

section \<open>Key records\<close>

record keyevent =
  ev_key :: keypos
  ev_pressed :: bool
  ev_time :: u16

record keyrecord =
  event :: keyevent
  tap_count :: u8
  tap_interrupted :: bool

definition IS_NOEVENT :: "keyevent \<Rightarrow> bool" where
  "IS_NOEVENT e \<longleftrightarrow> ev_time e = 0 \<or> (key_row (ev_key e) = KEYLOC_TICK \<and> key_col (ev_key e) = KEYLOC_TICK)"

definition no_record :: keyrecord where
  "no_record = \<lparr>event = \<lparr>ev_key = \<lparr>key_row = 0, key_col = 0\<rparr>, ev_pressed = False, ev_time = 0\<rparr>,
     tap_count = 0, tap_interrupted = False\<rparr>"

record 'e hooks =
  pre_process_record_quantum :: "keyrecord \<Rightarrow> 'e kb \<Rightarrow> bool \<times> 'e kb"
  process_record_quantum :: "keyrecord \<Rightarrow> 'e kb \<Rightarrow> bool \<times> 'e kb"
  post_process_record_quantum :: "keyrecord \<Rightarrow> 'e kb \<Rightarrow> 'e kb"

definition TAP_HOLD_CAPS_DELAY :: nat where "TAP_HOLD_CAPS_DELAY = 80"
definition TAP_CODE_DELAY :: nat where "TAP_CODE_DELAY = 0"
definition TAPPING_TOGGLE :: u8 where "TAPPING_TOGGLE = 5"

definition IS_BASIC_KEYCODE :: "u8 \<Rightarrow> bool" where "IS_BASIC_KEYCODE c = within 0x04 0xA4 c"
definition IS_SYSTEM_KEYCODE :: "u8 \<Rightarrow> bool" where "IS_SYSTEM_KEYCODE c = within 0xA5 0xA7 c"
definition IS_CONSUMER_KEYCODE :: "u8 \<Rightarrow> bool" where "IS_CONSUMER_KEYCODE c = within 0xA8 0xC2 c"
definition IS_MOUSE_KEYCODE :: "u8 \<Rightarrow> bool" where "IS_MOUSE_KEYCODE c = within 0xCD 0xDF c"
definition IS_MODIFIER_KEYCODE :: "u8 \<Rightarrow> bool" where "IS_MODIFIER_KEYCODE c = within 0xE0 0xE7 c"

definition MOD_BIT :: "u8 \<Rightarrow> u8" where "MOD_BIT code = push_bit (unat (code AND 7)) 1"

section \<open>Keycodes up and down\<close>

definition register_mouse :: "u8 \<Rightarrow> bool \<Rightarrow> 'e kb \<Rightarrow> 'e kb" where
  "register_mouse code pressed s =
     emit Mousekey_Send (if pressed then emit (Mousekey_On code) s else emit (Mousekey_Off code) s)"

definition register_code :: "u8 \<Rightarrow> 'e kb \<Rightarrow> 'e kb" where
  "register_code code s =
    (if code = 0 then s
     else if IS_BASIC_KEYCODE code then
       (let s = (if is_key_pressed (nkro_active s) (keyboard_report s) code
                 then send_keyboard_report (del_key code s) else s)
        in send_keyboard_report (add_key code s))
     else if IS_MODIFIER_KEYCODE code then send_keyboard_report (add_mods (MOD_BIT code) s)
     else if IS_SYSTEM_KEYCODE code then host_system_send (KEYCODE2SYSTEM (ucast code)) s
     else if IS_CONSUMER_KEYCODE code then host_consumer_send (KEYCODE2CONSUMER (ucast code)) s
     else if IS_MOUSE_KEYCODE code then register_mouse code True s
     else s)"

definition unregister_code :: "u8 \<Rightarrow> 'e kb \<Rightarrow> 'e kb" where
  "unregister_code code s =
    (if code = 0 then s
     else if IS_BASIC_KEYCODE code then send_keyboard_report (del_key code s)
     else if IS_MODIFIER_KEYCODE code then send_keyboard_report (del_mods (MOD_BIT code) s)
     else if IS_SYSTEM_KEYCODE code then host_system_send 0 s
     else if IS_CONSUMER_KEYCODE code then host_consumer_send 0 s
     else if IS_MOUSE_KEYCODE code then register_mouse code False s
     else s)"

definition tap_code_delay :: "u8 \<Rightarrow> nat \<Rightarrow> 'e kb \<Rightarrow> 'e kb" where
  "tap_code_delay code delay s = unregister_code code ((wait_ms 1 ^^ delay) (register_code code s))"

definition tap_code :: "u8 \<Rightarrow> 'e kb \<Rightarrow> 'e kb" where
  "tap_code code s = tap_code_delay code (if code = 0x39 then TAP_HOLD_CAPS_DELAY else TAP_CODE_DELAY) s"

definition register_mods :: "u8 \<Rightarrow> 'e kb \<Rightarrow> 'e kb" where
  "register_mods m s = (if m \<noteq> 0 then send_keyboard_report (add_mods m s) else s)"

definition unregister_mods :: "u8 \<Rightarrow> 'e kb \<Rightarrow> 'e kb" where
  "unregister_mods m s = (if m \<noteq> 0 then send_keyboard_report (del_mods m s) else s)"

definition register_weak_mods :: "u8 \<Rightarrow> 'e kb \<Rightarrow> 'e kb" where
  "register_weak_mods m s = (if m \<noteq> 0 then send_keyboard_report (add_weak_mods m s) else s)"

definition unregister_weak_mods :: "u8 \<Rightarrow> 'e kb \<Rightarrow> 'e kb" where
  "unregister_weak_mods m s = (if m \<noteq> 0 then send_keyboard_report (del_weak_mods m s) else s)"

definition clear_keyboard_but_mods_and_keys :: "'e kb \<Rightarrow> 'e kb" where
  "clear_keyboard_but_mods_and_keys s =
    (let s = host_consumer_send 0 (host_system_send 0 s);
         s = send_keyboard_report (clear_weak_mods s)
     in emit Mousekey_Send (emit Mousekey_Clear s))"

definition clear_keyboard_but_mods :: "'e kb \<Rightarrow> 'e kb" where
  "clear_keyboard_but_mods s = clear_keyboard_but_mods_and_keys (clear_keys s)"

definition clear_keyboard :: "'e kb \<Rightarrow> 'e kb" where
  "clear_keyboard s = clear_keyboard_but_mods (clear_mods s)"

section \<open>The cases of process_action\<close>

definition action_code :: "action_t \<Rightarrow> u8" where "action_code a = ucast (key_code a)"

definition side_mods :: "bool \<Rightarrow> action_t \<Rightarrow> u8" where
  "side_mods left a = (if left then ucast (key_mods a) else push_bit 4 (ucast (key_mods a)))"

text \<open>A modified key, as in \<open>ACT_LMODS\<close> and in a one-shot modifier while one-shot keys are off.\<close>

definition mods_key :: "bool \<Rightarrow> u8 \<Rightarrow> u8 \<Rightarrow> 'e kb \<Rightarrow> 'e kb" where
  "mods_key pressed mods code s =
    (if pressed then
       (let s = (if mods \<noteq> 0 then
                   send_keyboard_report (if IS_MODIFIER_KEYCODE code \<or> code = 0 then add_mods mods s else add_weak_mods mods s)
                 else s)
        in register_code code s)
     else
       (let s = unregister_code code s
        in if mods \<noteq> 0 then
             send_keyboard_report (if IS_MODIFIER_KEYCODE code \<or> code = 0 then del_mods mods s else del_weak_mods mods s)
           else s))"

definition oneshot_mods_key :: "bool \<Rightarrow> u8 \<Rightarrow> u8 \<Rightarrow> 'e kb \<Rightarrow> 'e kb" where
  "oneshot_mods_key pressed count mods s =
    (if pressed then
       (if count = 0 then register_mods (mods OR oneshot_mods s) s
        else if count = 1 then set_oneshot_mods (mods OR oneshot_mods s) s
        else register_mods (mods OR oneshot_mods s) s)
     else if count = 0 then unregister_mods mods (clear_oneshot_mods s)
     else if count = 1 then s
     else clear_oneshot_mods (unregister_mods mods s))"

text \<open>The mod-tap key; a tap that another key interrupted is turned into a hold.\<close>

definition mods_tap_key :: "u8 \<Rightarrow> action_t \<Rightarrow> keyrecord \<Rightarrow> 'e kb \<Rightarrow> keyrecord \<times> 'e kb" where
  "mods_tap_key mods a rec s =
    (if ev_pressed (event rec) then
       (if tap_count rec > 0 then
          (if tap_interrupted rec then (rec\<lparr>tap_count := 0\<rparr>, register_mods mods s)
           else (rec, register_code (action_code a) s))
        else (rec, register_mods mods s))
     else if tap_count rec > 0 then
       (rec, unregister_code (action_code a)
               (wait_ms (if action_code a = 0x39 then TAP_HOLD_CAPS_DELAY else TAP_CODE_DELAY) s))
     else (rec, unregister_mods mods s))"

definition action_mods_tap :: "bool \<Rightarrow> action_t \<Rightarrow> keyrecord \<Rightarrow> 'e kb \<Rightarrow> keyrecord \<times> 'e kb" where
  "action_mods_tap left a rec s =
    (let mods = side_mods left a; pressed = ev_pressed (event rec) in
     if layer_tap_code a = MODS_ONESHOT then
       (rec, if \<not> oneshot_enable_bit (keymap_config s) then mods_key pressed mods (action_code a) s
             else oneshot_mods_key pressed (tap_count rec) mods s)
     else if layer_tap_code a = MODS_TAP_TOGGLE then
       (rec, if pressed then (if tap_count rec \<le> TAPPING_TOGGLE then register_mods mods s else s)
             else (if tap_count rec < TAPPING_TOGGLE then unregister_mods mods s else s))
     else mods_tap_key mods a rec s)"

definition action_usage :: "action_t \<Rightarrow> bool \<Rightarrow> 'e kb \<Rightarrow> 'e kb" where
  "action_usage a pressed s =
    (if usage_page a = PAGE_SYSTEM then host_system_send (if pressed then usage_code a else 0) s
     else if usage_page a = PAGE_CONSUMER then host_consumer_send (if pressed then usage_code a else 0) s
     else s)"

definition bitop_value :: "action_t \<Rightarrow> u8" where
  "bitop_value a =
    (let shift = unat (bitop_part a) * 4;
         bits = push_bit shift (ucast (bitop_bits a)) :: u8;
         m = (if bitop_xbit a \<noteq> 0 then NOT (push_bit shift 0xF) else 0) :: u8
     in bits OR m)"

definition action_layer_bitop :: "action_t \<Rightarrow> bool \<Rightarrow> 'e kb \<Rightarrow> 'e kb" where
  "action_layer_bitop a pressed s =
    (if bitop_on a = 0 then
       (if \<not> pressed then
          (if bitop_op a = OP_BIT_AND then default_layer_and (bitop_value a) s
           else if bitop_op a = OP_BIT_OR then default_layer_or (bitop_value a) s
           else if bitop_op a = OP_BIT_XOR then default_layer_xor (bitop_value a) s
           else default_layer_set (bitop_value a) s)
        else s)
     else if bitop_on a AND (if pressed then ON_PRESS else ON_RELEASE) \<noteq> 0 then
       (if bitop_op a = OP_BIT_AND then layer_and (bitop_value a) s
        else if bitop_op a = OP_BIT_OR then layer_or (bitop_value a) s
        else if bitop_op a = OP_BIT_XOR then layer_xor (bitop_value a) s
        else layer_state_set (bitop_value a) s)
     else s)"

definition action_layer_mods :: "action_t \<Rightarrow> bool \<Rightarrow> 'e kb \<Rightarrow> 'e kb" where
  "action_layer_mods a pressed s =
    (let layer = ucast (layer_mods_layer a); mods = ucast (layer_mods_mods a) in
     if pressed then register_mods mods (layer_on layer s) else layer_off layer (unregister_mods mods s))"

definition oneshot_layer_key :: "bool \<Rightarrow> u8 \<Rightarrow> u8 \<Rightarrow> 'e kb \<Rightarrow> 'e kb" where
  "oneshot_layer_key pressed count layer s =
    (if \<not> oneshot_enable_bit (keymap_config s) then (if pressed then layer_on layer s else layer_off layer s)
     else if pressed then set_oneshot_layer layer ONESHOT_START (layer_on layer s)
     else (let s = clear_oneshot_layer_state ONESHOT_PRESSED s
           in if count > 1 then clear_oneshot_layer_state ONESHOT_OTHER_KEY_PRESSED s else s))"

definition action_layer_tap :: "action_t \<Rightarrow> keyrecord \<Rightarrow> 'e kb \<Rightarrow> 'e kb" where
  "action_layer_tap a rec s =
    (let pressed = ev_pressed (event rec); layer = ucast (layer_tap_val a); code = layer_tap_code a in
     if code = OP_TAP_TOGGLE then
       (if pressed then (if tap_count rec < TAPPING_TOGGLE then layer_invert layer s else s)
        else (if tap_count rec \<le> TAPPING_TOGGLE then layer_invert layer s else s))
     else if code = OP_ON_OFF then (if pressed then layer_on layer s else layer_off layer s)
     else if code = OP_OFF_ON then (if pressed then layer_off layer s else layer_on layer s)
     else if code = OP_SET_CLEAR then (if pressed then layer_move layer s else layer_clear s)
     else if code = OP_ONESHOT then oneshot_layer_key pressed (tap_count rec) layer s
     else if pressed then
       (if tap_count rec > 0 then register_code (action_code a) s else layer_on layer s)
     else if tap_count rec > 0 then
       unregister_code (action_code a)
         (wait_ms (if action_code a = 0x39 then TAP_HOLD_CAPS_DELAY else TAP_CODE_DELAY) s)
     else layer_off layer s)"

section \<open>process_action and process_record\<close>

text \<open>A one-shot layer ends with the first key that is pressed on it and is not a modifier.\<close>

definition ends_oneshot_layer :: "keyrecord \<Rightarrow> action_t \<Rightarrow> 'e kb \<Rightarrow> bool" where
  "ends_oneshot_layer rec a s \<longleftrightarrow>
     is_oneshot_layer_active s \<and> ev_pressed (event rec) \<and>
     (kind_id a = ACT_USAGE \<or>
      \<not> (IS_MODIFIER_KEYCODE (action_code a) \<or>
         (tap_count rec = 0 \<and> (kind_id a = ACT_LMODS_TAP \<or> kind_id a = ACT_RMODS_TAP)))) \<and>
     oneshot_enable_bit (keymap_config s)"

definition action_switch :: "keyrecord \<Rightarrow> action_t \<Rightarrow> 'e kb \<Rightarrow> keyrecord \<times> 'e kb" where
  "action_switch rec a s =
    (let k = kind_id a; pressed = ev_pressed (event rec) in
     if k = ACT_LMODS \<or> k = ACT_RMODS then (rec, mods_key pressed (side_mods (k = ACT_LMODS) a) (action_code a) s)
     else if k = ACT_LMODS_TAP \<or> k = ACT_RMODS_TAP then action_mods_tap (k = ACT_LMODS_TAP) a rec s
     else if k = ACT_USAGE then (rec, action_usage a pressed s)
     else if k = ACT_MOUSEKEY then (rec, register_mouse (action_code a) pressed s)
     else if k = ACT_LAYER then (rec, action_layer_bitop a pressed s)
     else if k = ACT_LAYER_MODS then (rec, action_layer_mods a pressed s)
     else if k = ACT_LAYER_TAP \<or> k = ACT_LAYER_TAP_EXT then (rec, action_layer_tap a rec s)
     else (rec, s))"

definition is_layer_action :: "action_t \<Rightarrow> bool" where
  "is_layer_action a \<longleftrightarrow> kind_id a \<in> {ACT_LAYER, ACT_LAYER_MODS, ACT_LAYER_TAP, ACT_LAYER_TAP_EXT}"

text \<open>The recursive call for the release of the key that ended a one-shot layer is the first argument.\<close>

definition process_action ::
  "(keyrecord \<Rightarrow> 'e kb \<Rightarrow> keyrecord \<times> 'e kb) \<Rightarrow> keyrecord \<Rightarrow> action_t \<Rightarrow> 'e kb \<Rightarrow> keyrecord \<times> 'e kb" where
  "process_action again rec a s =
    (let ends = ends_oneshot_layer rec a s;
         s = (if ends then clear_oneshot_layer_state ONESHOT_OTHER_KEY_PRESSED s else s);
         do_release = (ends \<and> \<not> is_oneshot_layer_active s);
         (rec, s) = action_switch rec a s;
         s = (if is_layer_action a then emit (Led_Set (host_keyboard_leds s)) s else s)
     in if do_release \<and> get_oneshot_layer_state s AND ONESHOT_PRESSED = 0
        then let (rec, s) = again (rec\<lparr>event := (event rec)\<lparr>ev_pressed := False\<rparr>\<rparr>) (layer_on (get_oneshot_layer s) s)
             in (rec, layer_off (get_oneshot_layer s) s)
        else (rec, s))"

text \<open>
  The depth of the recursion between \<open>process_record\<close> and \<open>process_action\<close> is a fuel: a release
  never recurses, so a press recurses once and two levels are all there is
  (\<open>process_record_depth\<close> below).
\<close>

fun process_record_n :: "nat \<Rightarrow> 'e eeprom_ops \<Rightarrow> 'e hooks \<Rightarrow> keyrecord \<Rightarrow> 'e kb \<Rightarrow> keyrecord \<times> 'e kb" where
  "process_record_n 0 ops h rec s = (rec, s)"
| "process_record_n (Suc n) ops h rec s =
    (if IS_NOEVENT (event rec) then (rec, s)
     else let (go, s) = process_record_quantum h rec s in
       if \<not> go then
         (rec, if is_oneshot_layer_active s \<and> ev_pressed (event rec) \<and> oneshot_enable_bit (keymap_config s)
               then clear_oneshot_layer_state ONESHOT_OTHER_KEY_PRESSED s else s)
       else let (a, s) = store_or_get_action ops (ev_pressed (event rec)) (ev_key (event rec)) s;
                (rec, s) = process_action (process_record_n n ops h) rec a s
            in (rec, post_process_record_quantum h rec s))"

definition process_record :: "'e eeprom_ops \<Rightarrow> 'e hooks \<Rightarrow> keyrecord \<Rightarrow> 'e kb \<Rightarrow> keyrecord \<times> 'e kb" where
  "process_record ops h rec s = process_record_n 2 ops h rec s"

definition process_record_nocache :: "'e eeprom_ops \<Rightarrow> 'e hooks \<Rightarrow> keyrecord \<Rightarrow> 'e kb \<Rightarrow> keyrecord \<times> 'e kb" where
  "process_record_nocache ops h rec s =
    (let (rec, s) = process_record ops h rec (s\<lparr>disable_action_cache := True\<rparr>)
     in (rec, s\<lparr>disable_action_cache := False\<rparr>))"

definition is_tap_action :: "action_t \<Rightarrow> bool" where
  "is_tap_action a =
    (if kind_id a \<in> {ACT_LMODS_TAP, ACT_RMODS_TAP, ACT_LAYER_TAP, ACT_LAYER_TAP_EXT}
     then within 0 0xE7 (layer_tap_code a) \<or> layer_tap_code a = OP_TAP_TOGGLE \<or> layer_tap_code a = OP_ONESHOT
     else False)"

definition is_tap_record :: "'e eeprom_ops \<Rightarrow> keyrecord \<Rightarrow> 'e kb \<Rightarrow> bool \<times> 'e kb" where
  "is_tap_record ops rec s =
    (if IS_NOEVENT (event rec) then (False, s)
     else let (a, s) = layer_switch_get_action ops (ev_key (event rec)) s in (is_tap_action a, s))"

text \<open>Without swap hands no action reacts to the hint; the lookup is still made.\<close>

definition process_record_tap_hint :: "'e eeprom_ops \<Rightarrow> keyrecord \<Rightarrow> 'e kb \<Rightarrow> 'e kb" where
  "process_record_tap_hint ops rec s = snd (layer_switch_get_action ops (ev_key (event rec)) s)"

end
