(* ===== verification/Factory_Test.thy ===== *)
theory Factory_Test
  imports Action
begin

text \<open>
  keyboards/keychron/common/factory_test.c and the reset hook of keyboards/keychron/p1/p1.c: the key combinations for the
  factory reset and the backlight test, and the test commands over raw HID.  The state is the factory part of
  \<open>quantum_statics\<close>; the clock is an argument; calls into the RGB matrix, the radio module, raw HID and the pins
  are the values of \<open>factory_call\<close>, in the order they are made.
\<close>

section \<open>State and constants\<close>

datatype factory_call =
    Rgb_Matrix_Enable
  | Rgb_Matrix_Init
  | Rgb_Set_Color_All u8 u8 u8
  | Lkbt51_Factory_Reset
  | Lkbt51_Int_Pin_Test bool
  | Write_Int_Output_Pin u8
  | Lkbt51_Radio_Test u8
  | Raw_Hid_Send "u8 list"

definition BACKLIGHT_TEST_WHITE :: u8 where "BACKLIGHT_TEST_WHITE = 1"
definition BACKLIGHT_TEST_MAX :: u8 where "BACKLIGHT_TEST_MAX = 5"
definition KEY_PRESS_FN :: u8 where "KEY_PRESS_FN = 0x01"
definition KEY_PRESS_J :: u8 where "KEY_PRESS_J = 0x02"
definition KEY_PRESS_Z :: u8 where "KEY_PRESS_Z = 0x04"
definition KEY_PRESS_BL_KEY1 :: u8 where "KEY_PRESS_BL_KEY1 = 0x08"
definition KEY_PRESS_BL_KEY2 :: u8 where "KEY_PRESS_BL_KEY2 = 0x10"
definition KEY_PRESS_FACTORY_RESET :: u8 where "KEY_PRESS_FACTORY_RESET = KEY_PRESS_FN OR KEY_PRESS_J OR KEY_PRESS_Z"
definition KEY_PRESS_BACKLIGTH_TEST :: u8 where
  "KEY_PRESS_BACKLIGTH_TEST = KEY_PRESS_FN OR KEY_PRESS_BL_KEY1 OR KEY_PRESS_BL_KEY2"

lemmas key_press_defs = KEY_PRESS_FN_def KEY_PRESS_J_def KEY_PRESS_Z_def KEY_PRESS_BL_KEY1_def KEY_PRESS_BL_KEY2_def
  KEY_PRESS_FACTORY_RESET_def KEY_PRESS_BACKLIGTH_TEST_def

text \<open>The keys of the P1: MO(1) and MO(3), J, Z, Right, Home and End.\<close>

definition FN_KEY_1 :: u16 where "FN_KEY_1 = 0x5221"
definition FN_KEY_2 :: u16 where "FN_KEY_2 = 0x5223"
definition KC_J :: u16 where "KC_J = 0x0D"
definition KC_Z :: u16 where "KC_Z = 0x1D"
definition BL_CYCLE_KEY :: u16 where "BL_CYCLE_KEY = 0x4F"
definition BL_TRIG_KEY :: u16 where "BL_TRIG_KEY = 0x4A"
definition FN_BL_TRIG_KEY :: u16 where "FN_BL_TRIG_KEY = 0x4D"

lemmas factory_keys = FN_KEY_1_def FN_KEY_2_def KC_J_def KC_Z_def BL_CYCLE_KEY_def BL_TRIG_KEY_def FN_BL_TRIG_KEY_def

section \<open>Keys\<close>

definition factory_timer_start :: "u32 \<Rightarrow> quantum_statics \<Rightarrow> quantum_statics" where
  "factory_timer_start now q = q\<lparr>factory_reset_timer := now\<rparr>"

text \<open>A key of a combination goes down: its bit is set, and the timer starts when the bits are the ones asked for.\<close>

definition factory_key_down :: "u8 \<Rightarrow> u8 \<Rightarrow> u32 \<Rightarrow> quantum_statics \<Rightarrow> quantum_statics" where
  "factory_key_down key combination now q =
    (let q = q\<lparr>factory_reset_state := factory_reset_state q OR key\<rparr>
     in if factory_reset_state q = combination then factory_timer_start now q else q)"

definition factory_key_up :: "u8 \<Rightarrow> quantum_statics \<Rightarrow> quantum_statics" where
  "factory_key_up key q = q\<lparr>factory_reset_state := factory_reset_state q AND NOT key, factory_reset_timer := 0\<rparr>"

definition process_record_factory_test :: "u16 \<Rightarrow> bool \<Rightarrow> u32 \<Rightarrow> quantum_statics \<Rightarrow> bool \<times> quantum_statics" where
  "process_record_factory_test keycode press now q =
    (if keycode = FN_KEY_1 \<or> keycode = FN_KEY_2 then
       (True, if press then q\<lparr>factory_reset_state := factory_reset_state q OR KEY_PRESS_FN\<rparr> else factory_key_up KEY_PRESS_FN q)
     else if keycode = KC_J then
       (let q = (if press then factory_key_down KEY_PRESS_J 0x07 now q else factory_key_up KEY_PRESS_J q)
        in (factory_reset_state q AND KEY_PRESS_FN = 0, q))
     else if keycode = KC_Z then
       (if press then
          (let q = factory_key_down KEY_PRESS_Z 0x07 now q in (factory_reset_state q AND KEY_PRESS_FN = 0, q))
        else
          (let q = factory_key_up KEY_PRESS_Z q
           in if \<not> keys_released q \<and> within 0x7800 0x7834 keycode then (False, q\<lparr>keys_released := True\<rparr>)
              else (factory_reset_state q AND KEY_PRESS_FN = 0, q)))
     else if keycode = BL_CYCLE_KEY then
       (True, if press then
                (if backlight_test_mode q \<noteq> 0 then
                   (let m = backlight_test_mode q + 1
                    in q\<lparr>backlight_test_mode := if BACKLIGHT_TEST_MAX \<le> m then BACKLIGHT_TEST_WHITE else m\<rparr>)
                 else factory_key_down KEY_PRESS_BL_KEY1 0x19 now q)
              else factory_key_up KEY_PRESS_BL_KEY1 q)
     else if keycode = BL_TRIG_KEY \<or> keycode = FN_BL_TRIG_KEY then
       (True, if press then
                (if backlight_test_mode q \<noteq> 0 then q\<lparr>backlight_test_mode := 0\<rparr>
                 else factory_key_down KEY_PRESS_BL_KEY2 0x19 now q)
              else factory_key_up KEY_PRESS_BL_KEY2 q)
     else (True, q))"

section \<open>Task\<close>

text \<open>The whole of eeconfig_init on the P1: eeconfig.c up to the board's own eeconfig_init_kb.\<close>

definition p1_eeconfig_init_kb :: "'e eeprom_ops \<Rightarrow> 'e kb \<Rightarrow> 'e kb" where
  "p1_eeconfig_init_kb ops s =
    (let e = eeconfig_update_kb ops 0 (eeprom_state s);
         cfg = unset_bit 7 (eeconfig_read_keymap ops e);
         e = eeconfig_update_keymap ops cfg e;
         e = eeprom_update_byte ops EECONFIG_DEFAULT_LAYER 4 e
     in default_layer_set 4 (s\<lparr>keymap_config := cfg, eeprom_state := e\<rparr>))"

definition eeconfig_init :: "'e eeprom_ops \<Rightarrow> u8 list \<Rightarrow> firmware_keymap \<Rightarrow> 'e kb \<Rightarrow> 'e kb" where
  "eeconfig_init ops builddate fw s =
    (let (e, dl) = eeconfig_init_quantum ops builddate fw (eeprom_state s)
     in p1_eeconfig_init_kb ops (s\<lparr>eeprom_state := e, default_layer_state := dl\<rparr>))"

record factory_env =
  fe_builddate :: "u8 list"
  fe_firmware :: firmware_keymap
  fe_rgb_enabled :: bool

definition factory_timer_check ::
  "'e eeprom_ops \<Rightarrow> factory_env \<Rightarrow> u32 \<Rightarrow> 'e kb \<Rightarrow> 'e kb \<times> factory_call list" where
  "factory_timer_check ops env now s =
    (let q = statics s; rgb = (if fe_rgb_enabled env then [] else [Rgb_Matrix_Enable]) in
     if 3000 < timer_diff32 now (factory_reset_timer q) then
       (let q = q\<lparr>factory_reset_timer := 0\<rparr> in
        if factory_reset_state q = KEY_PRESS_FACTORY_RESET then
          (let q = q\<lparr>factory_reset_ind_timer := now, factory_reset_ind_state := factory_reset_ind_state q + 1,
                     keys_released := False\<rparr>;
               s = eeconfig_init ops (fe_builddate env) (fe_firmware env) (s\<lparr>statics := q\<rparr>)
           in (s\<lparr>statics := q\<lparr>factory_reset_state := 0\<rparr>\<rparr>, rgb @ [Rgb_Matrix_Init, Lkbt51_Factory_Reset]))
        else if factory_reset_state q = KEY_PRESS_BACKLIGTH_TEST then
          (s\<lparr>statics := q\<lparr>backlight_test_mode := BACKLIGHT_TEST_WHITE, factory_reset_state := 0\<rparr>\<rparr>, rgb)
        else (s\<lparr>statics := q\<lparr>factory_reset_state := 0\<rparr>\<rparr>, []))
     else (s, []))"

definition factory_reset_ind_timer_check :: "u32 \<Rightarrow> quantum_statics \<Rightarrow> quantum_statics" where
  "factory_reset_ind_timer_check now q =
    (if factory_reset_ind_timer q \<noteq> 0 \<and> 250 < timer_diff32 now (factory_reset_ind_timer q) then
       (if 6 < factory_reset_ind_state q then q\<lparr>factory_reset_ind_timer := 0, factory_reset_ind_state := 0\<rparr>
        else q\<lparr>factory_reset_ind_state := factory_reset_ind_state q + 1, factory_reset_ind_timer := now\<rparr>)
     else q)"

definition factory_test_task :: "'e eeprom_ops \<Rightarrow> factory_env \<Rightarrow> u32 \<Rightarrow> 'e kb \<Rightarrow> 'e kb \<times> factory_call list" where
  "factory_test_task ops env now s =
    (let (s, calls) = (if factory_reset_timer (statics s) \<noteq> 0 then factory_timer_check ops env now s else (s, []));
         s = (if factory_reset_ind_timer (statics s) \<noteq> 0
              then s\<lparr>statics := factory_reset_ind_timer_check now (statics s)\<rparr> else s)
     in (s, calls))"

definition factory_reset_indicating :: "quantum_statics \<Rightarrow> bool" where
  "factory_reset_indicating q = (factory_reset_ind_timer q \<noteq> 0)"

definition factory_test_indicator :: "quantum_statics \<Rightarrow> bool \<times> quantum_statics \<times> factory_call list" where
  "factory_test_indicator q =
    (if factory_reset_ind_state q \<noteq> 0 then
       (False, q\<lparr>backlight_test_mode := 0\<rparr>, [Rgb_Set_Color_All (if factory_reset_ind_state q mod 2 \<noteq> 0 then 0 else 255) 0 0])
     else if backlight_test_mode q \<noteq> 0 then
       (False, q,
        if backlight_test_mode q = 1 then [Rgb_Set_Color_All 255 255 255]
        else if backlight_test_mode q = 2 then [Rgb_Set_Color_All 255 0 0]
        else if backlight_test_mode q = 3 then [Rgb_Set_Color_All 0 255 0]
        else if backlight_test_mode q = 4 then [Rgb_Set_Color_All 0 0 255]
        else [])
     else (True, q, []))"

section \<open>Commands\<close>

text \<open>A report of 32 bytes: 0xAB, the payload, zeros, and in the last two bytes the sum of the bytes 1 to 28.\<close>

definition factory_checksum :: "u8 list \<Rightarrow> u16" where
  "factory_checksum data = fold (\<lambda>i sum. sum + ucast (data ! i)) [1..<RAW_EPSIZE - 3] 0"

text \<open>None is a payload that does not fit behind the first byte.\<close>

definition factory_test_send :: "u8 list \<Rightarrow> u8 list option" where
  "factory_test_send payload =
    (if RAW_EPSIZE < 1 + length payload then None
     else
       let data = 0xAB # payload @ replicate (RAW_EPSIZE - 1 - length payload) 0;
           checksum = factory_checksum data
       in Some (data[RAW_EPSIZE - 2 := ucast (checksum AND 0xFF), RAW_EPSIZE - 1 := ucast (drop_bit 8 checksum AND 0xFF)]))"

text \<open>The transport and the level of the USB power pin, which the command 5 reports.\<close>

definition factory_test_rx :: "u8 \<Rightarrow> u8 \<Rightarrow> u8 list \<Rightarrow> quantum_statics \<Rightarrow> quantum_statics \<times> factory_call list" where
  "factory_test_rx transport usb_pin data q =
    (if data ! 0 = 0xAB \<and> factory_checksum data AND 0xFF = ucast (data ! (RAW_EPSIZE - 2)) \<and>
        drop_bit 8 (factory_checksum data) = ucast (data ! (RAW_EPSIZE - 1)) then
       (if data ! 1 = 0x01 then (q\<lparr>backlight_test_mode := data ! 2, factory_reset_timer := 0\<rparr>, [])
        else if data ! 1 = 0x02 then (q\<lparr>report_os_sw_state := data ! 2 \<noteq> 0\<rparr>, [])
        else if data ! 1 = 0x04 then
          (q, if data ! 2 = 0xA1 then [Lkbt51_Int_Pin_Test (data ! 3 \<noteq> 0)]
              else if data ! 2 = 0xA2 then [Write_Int_Output_Pin (data ! 3)] else [])
        else if data ! 1 = 0x05 then (q, map Raw_Hid_Send (case factory_test_send [0x05, transport, usb_pin] of None \<Rightarrow> [] | Some d \<Rightarrow> [d]))
        else if data ! 1 = 0x07 then (q, if data ! 2 < 79 then [Lkbt51_Radio_Test (data ! 2)] else [])
        else (q, []))
     else (q, []))"

definition dip_switch_update_user :: "bool \<Rightarrow> quantum_statics \<Rightarrow> factory_call list" where
  "dip_switch_update_user active q =
    (if report_os_sw_state q then map Raw_Hid_Send (case factory_test_send [0x02, 0x01, of_bool active] of None \<Rightarrow> [] | Some d \<Rightarrow> [d]) else [])"

end
