(* ===== verification/Remap_Restart.thy ===== *)
theory Remap_Restart
  imports Factory_Test Flash_Driver
begin

text \<open>
  The composition of the VIA protocol, the dynamic keymap, the wear-levelled EEPROM and the flash driver: the state a
  session of the configuration tool leaves behind, and what of it is there after the power has been off.  The start of the
  firmware is part of it: via_init of quantum/via.c and magic of quantum/bootmagic/magic.c decide whether what they find
  is kept or replaced by the defaults.
\<close>

section \<open>The start of the firmware\<close>

text \<open>
  quantum/bootmagic/bootmagic_lite.c: with the first key of the first row held the settings are disabled and the
  boot loader is entered, which is the first result.
\<close>

definition bootmagic_lite :: "'e eeprom_ops \<Rightarrow> bool \<Rightarrow> 'e kb \<Rightarrow> bool \<times> 'e kb" where
  "bootmagic_lite ops held s =
    (held, if held then s\<lparr>eeprom_state := eeconfig_disable ops (eeprom_state s)\<rparr> else s)"

text \<open>quantum/bootmagic/magic.c; the debug flags it also loads are not part of the state.\<close>

definition magic :: "'e eeprom_ops \<Rightarrow> u8 list \<Rightarrow> firmware_keymap \<Rightarrow> bool \<Rightarrow> 'e kb \<Rightarrow> bool \<times> 'e kb" where
  "magic ops builddate fw held s =
    (let s = (if \<not> eeconfig_is_enabled ops builddate (eeprom_state s) then eeconfig_init ops builddate fw s else s);
         s = s\<lparr>keymap_config := eeconfig_read_keymap ops (eeprom_state s)\<rparr>;
         (jump, s) = bootmagic_lite ops held s
     in if jump then (True, s)
        else (False, default_layer_set (eeconfig_read_default_layer ops (eeprom_state s)) s))"

text \<open>
  The part of keyboard_init (quantum/keyboard.c) that works on the EEPROM: via_init, and magic at the start of quantum_init.
  The settings of the RGB matrix, which rgb_matrix_init loads after them, are not modelled; they are not in the keymap's area.
\<close>

definition keyboard_start :: "'e eeprom_ops \<Rightarrow> u8 list \<Rightarrow> firmware_keymap \<Rightarrow> bool \<Rightarrow> 'e kb \<Rightarrow> bool \<times> 'e kb" where
  "keyboard_start ops builddate fw held s =
    magic ops builddate fw held (s\<lparr>eeprom_state := via_init ops builddate fw (eeprom_state s)\<rparr>)"

text \<open>
  The keyboard's hook for raw HID commands, in keyboards/keychron/common/lemokey_common.c: 0xAA goes to the radio
  module's firmware update, 0xAB to the factory test, and everything else on to VIA.  The two handlers are arguments here, since
  they work on other state (\<open>lkbt51_dfu_rx\<close> in Lkbt51, \<open>factory_test_rx\<close> in Factory_Test).
\<close>

definition lemokey_via_command_kb ::
  "(u8 list \<Rightarrow> 'e \<Rightarrow> u8 list \<times> 'e) \<Rightarrow> (u8 list \<Rightarrow> 'e \<Rightarrow> u8 list \<times> 'e) \<Rightarrow> u8 list \<Rightarrow> 'e \<Rightarrow> bool \<times> u8 list \<times> 'e" where
  "lemokey_via_command_kb dfu_rx test_rx data e =
    (if data ! 0 = 0xAA then (True, dfu_rx data e)
     else if data ! 0 = 0xAB then (True, test_rx data e)
     else (False, data, e))"

section \<open>Sessions of the configuration tool\<close>

text \<open>The report with which VIA sets a key, and the effect of a session of such reports on the table of keycodes.\<close>

definition set_report :: "u8 \<times> u8 \<times> u8 \<times> u16 \<Rightarrow> u8 list" where
  "set_report c = (case c of (l, r, k, kc) \<Rightarrow> [0x05, l, r, k] @ be_bytes16 kc @ replicate 26 0)"

fun via_session :: "'e eeprom_ops \<Rightarrow> 'e via_context \<Rightarrow> (u8 \<times> u8 \<times> u8 \<times> u16) list \<Rightarrow> 'e \<Rightarrow> 'e option" where
  "via_session ops ctx [] e = Some e"
| "via_session ops ctx (c # cs) e =
    (case raw_hid_receive ops ctx (set_report c) e of None \<Rightarrow> None | Some (_, e') \<Rightarrow> via_session ops ctx cs e')"

definition remap :: "u8 \<times> u8 \<times> u8 \<times> u16 \<Rightarrow> (u8 \<times> u8 \<times> u8 \<Rightarrow> u16) \<Rightarrow> u8 \<times> u8 \<times> u8 \<Rightarrow> u16" where
  "remap c f = (case c of (l, r, k, kc) \<Rightarrow> f((l, r, k) := kc))"

definition key_in_range :: "u8 \<Rightarrow> keypos \<Rightarrow> bool" where
  "key_in_range l key \<longleftrightarrow> unat l < DYNAMIC_KEYMAP_LAYER_COUNT \<and> is_matrix_key key"

lemma be_join_bytes: "be_join16 (hd (be_bytes16 kc)) (hd (tl (be_bytes16 kc))) = kc"
proof -
  have m: "(0xFF :: u16) = mask 8" by (simp add: mask_eq_exp_minus_1)
  show ?thesis unfolding be_join16_def be_bytes16_def list.sel m
  proof (rule bit_word_eqI)
    fix n assume "n < LENGTH(16)"
    then show "bit (push_bit 8 (ucast (ucast (drop_bit 8 kc) :: u8)) OR ucast (ucast (kc AND mask 8) :: u8) :: u16) n = bit kc n"
      by (cases "n < 8") (auto simp: bit_simps)
  qed
qed

lemma set_report_received:
  assumes "via_command_kb ctx = lemokey_via_command_kb dfu test"
  shows "raw_hid_receive ops ctx (set_report (l, r, k, kc)) e =
    Some (Some (set_report (l, r, k, kc)), dynamic_keymap_set_keycode ops (unat l) (unat r) (unat k) kc e)"
  using assms be_join_bytes [of kc]
  by (simp add: raw_hid_receive_def lemokey_via_command_kb_def via_command_def Let_def set_report_def be_bytes16_def)

context keymap_eeprom
begin

lemma set_any_keycode:
  assumes "good e" and "l' < DYNAMIC_KEYMAP_LAYER_COUNT" "r' < MATRIX_ROWS" "k' < MATRIX_COLS"
  shows "dynamic_keymap_get_keycode ops l' r' k' (dynamic_keymap_set_keycode ops l r k kc e) =
    (if (l', r', k') = (l, r, k) then kc else dynamic_keymap_get_keycode ops l' r' k' e)"
proof (cases "l < DYNAMIC_KEYMAP_LAYER_COUNT \<and> r < MATRIX_ROWS \<and> k < MATRIX_COLS")
  case True
  then show ?thesis using assms by (auto simp: get_set_keycode)
qed (use assms in \<open>auto simp: dynamic_keymap_set_keycode_def\<close>)

text \<open>The marks of the settings and of VIA lie below the keymap, so what keeps the bytes there keeps them.\<close>

lemma enabled_kept:
  assumes "good e" "good e'" "keeps (contents e) (contents e') 0 DYNAMIC_KEYMAP_EEPROM_ADDR"
  shows "eeconfig_is_enabled ops p e' = eeconfig_is_enabled ops p e"
proof -
  have low: "VIA_EEPROM_MAGIC_ADDR + 3 \<le> DYNAMIC_KEYMAP_EEPROM_ADDR" "EECONFIG_MAGIC + 1 < DYNAMIC_KEYMAP_EEPROM_ADDR"
    "EECONFIG_MAGIC + 1 < N"
    using room by (simp_all add: eeconfig_layout)
  have "via_eeprom_is_valid ops p e' = via_eeprom_is_valid ops p e"
    by (rule valid_kept [OF assms(1,2)]) (use assms(3) low in \<open>auto simp: keeps_def\<close>)
  moreover have "eeprom_read_word ops EECONFIG_MAGIC e' = eeprom_read_word ops EECONFIG_MAGIC e"
    using read_word [OF assms(1) low(3)] read_word [OF assms(2) low(3)] assms(3) low(2) by (simp add: keeps_def)
  ultimately show ?thesis by (simp add: eeconfig_is_enabled_def)
qed

lemma same_contents:
  assumes "good e" "good e'" "contents e' = contents e"
  shows "eeconfig_is_enabled ops p e' = eeconfig_is_enabled ops p e"
    and "l < DYNAMIC_KEYMAP_LAYER_COUNT \<Longrightarrow> r < MATRIX_ROWS \<Longrightarrow> k < MATRIX_COLS \<Longrightarrow>
      dynamic_keymap_get_keycode ops l r k e' = dynamic_keymap_get_keycode ops l r k e"
  using enabled_kept [OF assms(1,2), of p] assms by (simp_all add: keeps_def get_keycode)

lemma session_result:
  assumes "via_command_kb ctx = lemokey_via_command_kb dfu test" and "good e"
    and "\<And>l key. key_in_range l key \<Longrightarrow>
      dynamic_keymap_get_keycode ops (unat l) (unat (key_row key)) (unat (key_col key)) e = f (l, key_row key, key_col key)"
  shows "\<exists>e'. via_session ops ctx cs e = Some e' \<and> good e' \<and> eeconfig_is_enabled ops p e' = eeconfig_is_enabled ops p e \<and>
    (\<forall>l key. key_in_range l key \<longrightarrow>
      dynamic_keymap_get_keycode ops (unat l) (unat (key_row key)) (unat (key_col key)) e' =
        fold remap cs f (l, key_row key, key_col key))"
  using assms(2,3)
proof (induction cs arbitrary: e f)
  case (Cons c cs)
  obtain l r k kc where c: "c = (l, r, k, kc)" by (metis surj_pair)
  let ?e = "dynamic_keymap_set_keycode ops (unat l) (unat r) (unat k) kc e"
  have good: "good ?e" using set_good [OF Cons.prems(1)] .
  have "keeps (contents e) (contents ?e) 0 DYNAMIC_KEYMAP_EEPROM_ADDR"
  proof (cases "unat l < DYNAMIC_KEYMAP_LAYER_COUNT \<and> unat r < MATRIX_ROWS \<and> unat k < MATRIX_COLS")
    case True
    then show ?thesis using set_keycode [OF Cons.prems(1), of "unat l" "unat r" "unat k" kc]
      by (simp add: keeps_put16 key_address)
  qed (auto simp: dynamic_keymap_set_keycode_def keeps_def)
  then have enabled: "eeconfig_is_enabled ops p ?e = eeconfig_is_enabled ops p e"
    by (rule enabled_kept [OF Cons.prems(1) good])
  have "dynamic_keymap_get_keycode ops (unat l') (unat (key_row key)) (unat (key_col key)) ?e =
      remap c f (l', key_row key, key_col key)" if "key_in_range l' key" for l' key
    using that set_any_keycode [OF Cons.prems(1), of "unat l'" "unat (key_row key)" "unat (key_col key)" "unat l" "unat r" "unat k" kc]
      Cons.prems(2) [OF that]
    by (auto simp: key_in_range_def is_matrix_key_def c remap_def word_unat_eq_iff)
  then show ?case
    using Cons.IH [of ?e "remap c f"] good enabled set_report_received [OF assms(1), of ops l r k kc e] by (simp add: c)
qed simp

text \<open>
  The start leaves an enabled EEPROM alone, and gives any other the defaults; afterwards it is enabled.
\<close>

lemma p1_init_result:
  assumes "good e" "date_ok p"
  shows "good (eeprom_state (eeconfig_init ops p fw (s\<lparr>eeprom_state := e\<rparr>)))"
    and "eeconfig_is_enabled ops p (eeprom_state (eeconfig_init ops p fw (s\<lparr>eeprom_state := e\<rparr>)))"
    and "l < DYNAMIC_KEYMAP_LAYER_COUNT \<Longrightarrow> r < MATRIX_ROWS \<Longrightarrow> k < MATRIX_COLS \<Longrightarrow>
      dynamic_keymap_get_keycode ops l r k (eeprom_state (eeconfig_init ops p fw (s\<lparr>eeprom_state := e\<rparr>))) =
        keycode_at_keymap_location_raw fw l r k"
proof -
  define e1 where "e1 = fst (eeconfig_init_quantum ops p fw e)"
  note init = init_quantum_result(1,2,4) [where fw = fw, OF assms, folded e1_def]
  define e2 where "e2 = eeconfig_update_kb ops 0 e1"
  define e3 where "e3 = eeconfig_update_keymap ops (unset_bit 7 (eeconfig_read_keymap ops e2)) e2"
  define e4 where "e4 = eeprom_update_byte ops EECONFIG_DEFAULT_LAYER 4 e3"
  have e4: "eeprom_state (eeconfig_init ops p fw (s\<lparr>eeprom_state := e\<rparr>)) = e4"
    by (simp add: eeconfig_init_def p1_eeconfig_init_kb_def split_def Let_def default_layer_set_def default_layer_state_set_def
      e4_def e3_def e2_def e1_def)
  have a: "EECONFIG_KEYBOARD = 15" "EECONFIG_KEYMAP = 4" "EECONFIG_DEFAULT_LAYER = 3" "2048 \<le> N"
    using room by (simp_all add: EECONFIG_KEYBOARD_def EECONFIG_KEYMAP_def EECONFIG_DEFAULT_LAYER_def TOTAL_EEPROM_BYTE_COUNT_def)
  have c2: "good e2" "contents e2 = patch (contents e1) 15 (bytes_of_u32 0)"
    using upd(3,7) [OF init(1), of 15 0] a by (simp_all add: e2_def eeconfig_update_kb_def)
  have c3: "good e3" "contents e3 = patch (contents e2) 4 (bytes_of_u16 (unset_bit 7 (eeconfig_read_keymap ops e2)))"
    using upd(2,6) [OF c2(1), of 4] a by (simp_all add: e3_def eeconfig_update_keymap_def)
  have c4: "good e4" "contents e4 = patch (contents e3) 3 [4]"
    using upd(1,5) [OF c3(1), of 3 4] a by (simp_all add: e4_def)
  have len: "length (contents e1) = N" "length (contents e2) = N" "length (contents e3) = N"
    using length_contents init(1) c2(1) c3(1) by blast+
  have byte: "contents e4 ! i = contents e1 ! i" if "i < N" "i < 3 \<or> 19 \<le> i" for i
    using that a len by (auto simp: c4(2) c3(2) c2(2) nth_patch bytes_of_u16_def bytes_of_u32_def)
  have b: "VIA_EEPROM_MAGIC_ADDR = 39" "EECONFIG_MAGIC = 0" "VIA_EEPROM_MAGIC_ADDR + 3 < N" by (simp_all add: eeconfig_layout a(4)
    order.strict_trans2 [OF _ a(4)])
  have "via_eeprom_is_valid ops p e4 = via_eeprom_is_valid ops p e1"
    by (rule valid_kept [OF init(1) c4(1)]) (use byte b in \<open>simp add: keeps_def\<close>)
  moreover have "eeprom_read_word ops EECONFIG_MAGIC e4 = eeprom_read_word ops EECONFIG_MAGIC e1"
    using read_word [OF init(1), of 0] read_word [OF c4(1), of 0] byte [of 0] byte [of 1] a(4) by (simp add: b)
  ultimately have en: "eeconfig_is_enabled ops p e4" using init(2) by (simp add: eeconfig_is_enabled_def split: if_splits)
  have k: "keeps (contents e1) (contents e4) DYNAMIC_KEYMAP_EEPROM_ADDR DYNAMIC_KEYMAP_MACRO_EEPROM_ADDR"
    using byte a(4) by (simp add: keeps_def eeconfig_layout)
  show "good (eeprom_state (eeconfig_init ops p fw (s\<lparr>eeprom_state := e\<rparr>)))"
    "eeconfig_is_enabled ops p (eeprom_state (eeconfig_init ops p fw (s\<lparr>eeprom_state := e\<rparr>)))"
    "l < DYNAMIC_KEYMAP_LAYER_COUNT \<Longrightarrow> r < MATRIX_ROWS \<Longrightarrow> k < MATRIX_COLS \<Longrightarrow>
      dynamic_keymap_get_keycode ops l r k (eeprom_state (eeconfig_init ops p fw (s\<lparr>eeprom_state := e\<rparr>))) =
        keycode_at_keymap_location_raw fw l r k"
    unfolding e4 using c4(1) en key_kept(1) [OF init(1) c4(1) k] init(3) by simp_all
qed

lemma start_result:
  fixes e :: 'e and fw :: firmware_keymap and s :: "'e kb"
  assumes "good e" "date_ok p"
  defines "e' \<equiv> eeprom_state (snd (keyboard_start ops p fw False (s\<lparr>eeprom_state := e\<rparr>)))"
  shows "good e'" and "eeconfig_is_enabled ops p e'" and "eeconfig_is_enabled ops p e \<Longrightarrow> e' = e"
    and "\<not> eeconfig_is_enabled ops p e \<Longrightarrow> l < DYNAMIC_KEYMAP_LAYER_COUNT \<Longrightarrow> r < MATRIX_ROWS \<Longrightarrow> k < MATRIX_COLS \<Longrightarrow>
      dynamic_keymap_get_keycode ops l r k e' = keycode_at_keymap_location_raw fw l r k"
proof -
  define e1 where "e1 = via_init ops p fw e"
  note via = init_via_result(1,2,4) [where fw = fw, OF assms(1,2)]
  have e1: "good e1" using assms(1) via(1) by (simp add: e1_def via_init_def)
  have e': "e' = (if eeconfig_is_enabled ops p e1 then e1 else eeprom_state (eeconfig_init ops p fw (s\<lparr>eeprom_state := e1\<rparr>)))"
    by (simp add: e'_def keyboard_start_def magic_def bootmagic_lite_def default_layer_set_def default_layer_state_set_def e1_def Let_def)
  show "good e'" "eeconfig_is_enabled ops p e'" using e1 p1_init_result(1,2) [OF e1 assms(2)] by (simp_all add: e')
  show "eeconfig_is_enabled ops p e \<Longrightarrow> e' = e"
    by (simp add: e' e1_def via_init_def eeconfig_is_enabled_def split: if_splits)
  assume off: "\<not> eeconfig_is_enabled ops p e" and key: "l < DYNAMIC_KEYMAP_LAYER_COUNT" "r < MATRIX_ROWS" "k < MATRIX_COLS"
  show "dynamic_keymap_get_keycode ops l r k e' = keycode_at_keymap_location_raw fw l r k"
  proof (cases "eeconfig_is_enabled ops p e1")
    case True
    then have "e1 = eeconfig_init_via ops p fw e" using off by (auto simp: e1_def via_init_def)
    then show ?thesis using True via(3) [OF key] by (simp add: e')
  next
    case False
    then show ?thesis using p1_init_result(3) [OF e1 assms(2) key] by (simp add: e')
  qed
qed

end

text \<open>A board with the firmware keymap \<open>fw\<close> is switched on, with the first key up.\<close>

definition board_start ::
  "'e eeprom_ops \<Rightarrow> ('e \<Rightarrow> 'e) \<Rightarrow> u8 list \<Rightarrow> firmware_keymap \<Rightarrow> 'e \<Rightarrow> 'e kb" where
  "board_start ops driver_init builddate fw e = snd (keyboard_start ops builddate fw False (kb_static (driver_init e)))"

definition firmware_table :: "firmware_keymap \<Rightarrow> u8 \<times> u8 \<times> u8 \<Rightarrow> u16" where
  "firmware_table fw = (\<lambda>(l, r, k). keycode_at_keymap_location_raw fw (unat l) (unat r) (unat k))"

context healthy_chip
begin

lemma blank_boot:
  assumes "\<forall>x < lc_backing_size cfg. flash_load ops (base_page_address cfg + of_nat x) f = 0xFFFF"
  defines "e \<equiv> wl_eeprom_restart (legacy_env ops cfg) (Some (power_on (legacy_env ops cfg) f))"
  shows "live.eeprom_good e \<and> cache (the e) = replicate (lc_logical_size cfg) 0"
proof -
  have blank: "\<forall>x. even x \<longrightarrow> x < backing_size (legacy_env ops cfg) \<longrightarrow> legacy_cell ops cfg f x = 0"
    using assms(1) by (simp add: legacy_cell_def legacy_env_def)
  let ?s0 = "\<lparr>cache = replicate (lc_logical_size cfg) 0, write_address = log_start (legacy_env ops cfg),
      unlocked = False, store = f\<rparr>"
  have "durable (legacy_env ops cfg) (legacy_cell ops cfg) ?s0"
    using legacy.blank_durable [OF blank, of False] by (simp add: legacy_env_def)
  then have "live.eeprom_good (Some ?s0)" by (simp add: live.eeprom_good_def live.honest_def)
  moreover have "e = wl_eeprom_restart (legacy_env ops cfg) (Some ?s0)"
    by (simp add: e_def wl_eeprom_restart_def power_on_def)
  ultimately show ?thesis using live.restart_keeps [of "Some ?s0"] by simp
qed

lemma keymap_store:
  assumes "TOTAL_EEPROM_BYTE_COUNT \<le> lc_logical_size cfg"
  shows "keymap_eeprom (wl_eeprom_ops (legacy_env ops cfg)) (\<lambda>e. cache (the e)) live.eeprom_good (lc_logical_size cfg)"
proof -
  have "eeprom (wl_eeprom_ops (legacy_env ops cfg)) (\<lambda>e. cache (the e)) live.eeprom_good (lc_logical_size cfg)"
    using live.dur.eeprom_axioms by (simp add: legacy_env_def)
  then show ?thesis using assms by (intro keymap_eeprom.intro keymap_eeprom_axioms.intro)
qed

lemma remap_survives:
  fixes p :: "u8 list" and fw :: firmware_keymap
  assumes room: "TOTAL_EEPROM_BYTE_COUNT \<le> lc_logical_size cfg"
    and blank: "\<forall>x < lc_backing_size cfg. flash_load ops (base_page_address cfg + of_nat x) f = 0xFFFF"
    and date: "date_ok p"
    and hook: "via_command_kb ctx = lemokey_via_command_kb dfu test"
  defines "eo \<equiv> wl_eeprom_ops (legacy_env ops cfg)"
  defines "start \<equiv> board_start eo (wl_eeprom_restart (legacy_env ops cfg)) p fw"
  shows "\<exists>e1. via_session eo ctx cs (eeprom_state (start (Some (power_on (legacy_env ops cfg) f)))) = Some e1 \<and>
    (\<forall>l key. key_in_range l key \<longrightarrow>
      dynamic_keymap_get_keycode eo (unat l) (unat (key_row key)) (unat (key_col key)) (eeprom_state (start e1)) =
        fold remap cs (firmware_table fw) (l, key_row key, key_col key))"
proof -
  note ke = keymap_store [OF room, folded eo_def]
  let ?boot = "wl_eeprom_restart (legacy_env ops cfg)"
  have kb: "kb_static e = (kb_static undefined)\<lparr>eeprom_state := e\<rparr>" for e :: "'a wl option" by (simp add: kb_static_def)
  have start: "live.eeprom_good (eeprom_state (start e))" "eeconfig_is_enabled eo p (eeprom_state (start e))"
    "eeconfig_is_enabled eo p (?boot e) \<Longrightarrow> eeprom_state (start e) = ?boot e"
    "\<not> eeconfig_is_enabled eo p (?boot e) \<Longrightarrow> key_in_range l key \<Longrightarrow>
      dynamic_keymap_get_keycode eo (unat l) (unat (key_row key)) (unat (key_col key)) (eeprom_state (start e)) =
        firmware_table fw (l, key_row key, key_col key)" if "live.eeprom_good (?boot e)" for e l key
    using keymap_eeprom.start_result [where fw = fw and s = "kb_static undefined", OF ke that date]
    by (simp_all add: start_def board_start_def kb [symmetric] firmware_table_def key_in_range_def is_matrix_key_def)
  let ?e0 = "?boot (Some (power_on (legacy_env ops cfg) f))"
  have e0: "live.eeprom_good ?e0" "cache (the ?e0) = replicate (lc_logical_size cfg) 0" using blank_boot [OF blank] by simp_all
  have "EECONFIG_MAGIC + 1 < lc_logical_size cfg" using room by (simp add: EECONFIG_MAGIC_def TOTAL_EEPROM_BYTE_COUNT_def)
  then have "\<not> eeconfig_is_enabled eo p ?e0"
    using eeprom.read_word [OF keymap_eeprom.axioms(1) [OF ke] e0(1), of EECONFIG_MAGIC] e0(2)
    by (simp add: eeconfig_is_enabled_def EECONFIG_MAGIC_NUMBER_def u16_of_bytes_def)
  note first = start(1,2,4) [OF e0(1)] this
  obtain e1 where e1: "via_session eo ctx cs (eeprom_state (start (Some (power_on (legacy_env ops cfg) f)))) = Some e1"
    "live.eeprom_good e1" "eeconfig_is_enabled eo p e1"
    "\<forall>l key. key_in_range l key \<longrightarrow> dynamic_keymap_get_keycode eo (unat l) (unat (key_row key)) (unat (key_col key)) e1 =
        fold remap cs (firmware_table fw) (l, key_row key, key_col key)"
    using keymap_eeprom.session_result [OF ke hook first(1), of "firmware_table fw" cs p] first(3) [OF first(4)] first(2) by blast
  have b: "live.eeprom_good (?boot e1)" "cache (the (?boot e1)) = cache (the e1)"
    using live.restart_keeps [OF e1(2)] by simp_all
  note same = keymap_eeprom.same_contents [OF ke e1(2) b]
  have "eeprom_state (start e1) = ?boot e1" using start(3) [OF b(1)] same(1) e1(3) by simp
  then show ?thesis using e1(1,4) same(2) by (auto simp: key_in_range_def is_matrix_key_def)
qed

end

lemma fresh_lookup:
  assumes "key_in_range l key" and "layerTemp s = 0xFF"
  shows "fst (keymap_key_to_keycode ops l key s) =
    dynamic_keymap_get_keycode ops (unat l) (unat (key_row key)) (unat (key_col key)) (eeprom_state s)"
proof -
  have "l \<noteq> 0xFF" using assms by (auto simp: key_in_range_def DYNAMIC_KEYMAP_LAYER_COUNT_def)
  then show ?thesis using assms
    by (auto simp: key_in_range_def keymap_key_to_keycode_def keycode_at_keymap_location_def is_matrix_key_def)
qed

lemma start_memo: "layerTemp (board_start ops driver_init p fw e) = 0xFF"
  by (simp add: board_start_def keyboard_start_def magic_def bootmagic_lite_def default_layer_set_def default_layer_state_set_def
    eeconfig_init_def p1_eeconfig_init_kb_def kb_static_def Let_def split_def)

end
