(* ===== verification/Debounce.thy ===== *)
theory Debounce
  imports Dynamic_Keymap
begin

text \<open>
  The debounce algorithms of quantum/debounce.  The main loop calls \<open>debounce\<close> once per
  scan with the raw matrix, the cooked matrix of the last call and whether the raw matrix changed; it returns
  whether the cooked matrix changed.  Every algorithm is a function of the reading of the millisecond
  timer (each branch of the code reads it at most once), of its static variables (a record) and of the
  two arrays.  The raw matrix is only read.

  The \<open>DEBOUNCE\<close> of a board is the parameter \<open>ms\<close>; the preprocessor turns
  it into a counter value of at most 255 (or 127), and for 0 uses none.c.  Nothing here is particular to the P1
  except the number of columns.
\<close>

type_synonym matrix_row = u16

text \<open>The two nested loops of the per-key algorithms, and the index of their running counter pointer.\<close>

definition for_rows :: "nat \<Rightarrow> (nat \<Rightarrow> 's \<Rightarrow> 's) \<Rightarrow> 's \<Rightarrow> 's" where
  "for_rows num_rows body = fold body [0..<num_rows]"

definition for_cols :: "(nat \<Rightarrow> 's \<Rightarrow> 's) \<Rightarrow> 's \<Rightarrow> 's" where
  "for_cols body = fold body [0..<MATRIX_COLS]"

definition counter_index :: "nat \<Rightarrow> nat \<Rightarrow> nat" where
  "counter_index row col = row * MATRIX_COLS + col"

definition col_mask :: "nat \<Rightarrow> matrix_row" where
  "col_mask col = push_bit col 1"

text \<open>The counter start value, and the elapsed time capped at \<open>UINT8_MAX\<close>.\<close>

definition DEBOUNCE_TIME :: "nat \<Rightarrow> nat \<Rightarrow> u8" where
  "DEBOUNCE_TIME limit ms = of_nat (if ms > limit then limit else ms)"

definition elapsed_time :: "u32 \<Rightarrow> u32 \<Rightarrow> u8" where
  "elapsed_time now since = (let e = timer_diff32 now since in ucast (if e > 255 then 255 else e))"

section \<open>none\<close>

definition debounce_none :: "matrix_row list \<Rightarrow> nat \<Rightarrow> bool \<Rightarrow> matrix_row list \<Rightarrow> bool \<times> matrix_row list" where
  "debounce_none raw num_rows changed cooked =
    (if changed \<and> take num_rows cooked \<noteq> take num_rows raw
     then (True, take num_rows raw @ drop num_rows cooked) else (False, cooked))"

section \<open>\<open>sym_defer_g\<close>\<close>

record defer_g =
  debouncing :: bool
  debouncing_time :: u32

definition defer_g_init :: defer_g where
  "defer_g_init = \<lparr>debouncing = False, debouncing_time = 0\<rparr>"

definition debounce_sym_defer_g :: "nat \<Rightarrow> u32 \<Rightarrow> matrix_row list \<Rightarrow> nat \<Rightarrow> bool \<Rightarrow>
    defer_g \<times> matrix_row list \<Rightarrow> bool \<times> defer_g \<times> matrix_row list" where
  "debounce_sym_defer_g ms now raw num_rows changed = (\<lambda>(st, cooked).
    if ms = 0 then (let (r, cooked') = debounce_none raw num_rows changed cooked in (r, st, cooked'))
    else if changed then (False, st\<lparr>debouncing := True, debouncing_time := now\<rparr>, cooked)
    else if debouncing st \<and> timer_diff32 now (debouncing_time st) \<ge> ucast (DEBOUNCE_TIME 255 ms) then
      (if take num_rows cooked \<noteq> take num_rows raw
       then (True, st\<lparr>debouncing := False\<rparr>, take num_rows raw @ drop num_rows cooked)
       else (False, st\<lparr>debouncing := False\<rparr>, cooked))
    else (False, st, cooked))"

section \<open>The static variables of the counting algorithms\<close>

text \<open>One counter per key or per row.  \<open>sym_defer_pk\<close> has no \<open>matrix_need_update\<close>.\<close>

record 'c counting =
  debounce_counters :: "'c list"
  last_time :: u32
  counters_need_update :: bool
  cooked_changed :: bool

record 'c eager_counting = "'c counting" +
  matrix_need_update :: bool

definition set_counter :: "nat \<Rightarrow> 'c \<Rightarrow> ('c, 'm) counting_scheme \<Rightarrow> ('c, 'm) counting_scheme" where
  "set_counter i c st = st\<lparr>debounce_counters := (debounce_counters st)[i := c]\<rparr>"

definition DEBOUNCE_ELAPSED :: u8 where "DEBOUNCE_ELAPSED = 0"

definition counting_init :: "nat \<Rightarrow> u8 counting" where
  "counting_init n = \<lparr>debounce_counters = replicate n DEBOUNCE_ELAPSED, last_time = 0,
     counters_need_update = False, cooked_changed = False\<rparr>"

definition eager_counting_init :: "nat \<Rightarrow> u8 eager_counting" where
  "eager_counting_init n = \<lparr>debounce_counters = replicate n DEBOUNCE_ELAPSED, last_time = 0,
     counters_need_update = False, cooked_changed = False, matrix_need_update = False\<rparr>"

section \<open>\<open>sym_defer_pk\<close>\<close>

definition defer_pk_update_key :: "u8 \<Rightarrow> matrix_row list \<Rightarrow> nat \<Rightarrow> nat \<Rightarrow>
    u8 counting \<times> matrix_row list \<Rightarrow> u8 counting \<times> matrix_row list" where
  "defer_pk_update_key elapsed raw row col = (\<lambda>(st, cooked).
    let i = counter_index row col; c = debounce_counters st ! i in
    if c \<noteq> DEBOUNCE_ELAPSED then
      if c \<le> elapsed then
        let cooked_next = (cooked ! row AND NOT (col_mask col)) OR (raw ! row AND col_mask col)
        in ((set_counter i DEBOUNCE_ELAPSED st)
              \<lparr>cooked_changed := cooked_changed st \<or> (cooked ! row XOR cooked_next) \<noteq> 0\<rparr>,
            cooked[row := cooked_next])
      else ((set_counter i (c - elapsed) st)\<lparr>counters_need_update := True\<rparr>, cooked)
    else (st, cooked))"

definition defer_pk_update_debounce_counters :: "matrix_row list \<Rightarrow> nat \<Rightarrow> u8 \<Rightarrow>
    u8 counting \<times> matrix_row list \<Rightarrow> u8 counting \<times> matrix_row list" where
  "defer_pk_update_debounce_counters raw num_rows elapsed = (\<lambda>(st, cooked).
    for_rows num_rows (\<lambda>row. for_cols (defer_pk_update_key elapsed raw row))
      (st\<lparr>counters_need_update := False\<rparr>, cooked))"

definition start_debounce_key :: "nat \<Rightarrow> nat \<Rightarrow> matrix_row \<Rightarrow> nat \<Rightarrow> u8 counting \<Rightarrow> u8 counting" where
  "start_debounce_key ms row delta col st = (let i = counter_index row col in
    if delta AND col_mask col \<noteq> 0 then
      if debounce_counters st ! i = DEBOUNCE_ELAPSED
      then (set_counter i (DEBOUNCE_TIME 255 ms) st)\<lparr>counters_need_update := True\<rparr> else st
    else set_counter i DEBOUNCE_ELAPSED st)"

definition start_debounce_counters :: "nat \<Rightarrow> matrix_row list \<Rightarrow> matrix_row list \<Rightarrow> nat \<Rightarrow> u8 counting \<Rightarrow> u8 counting" where
  "start_debounce_counters ms raw cooked num_rows =
    for_rows num_rows (\<lambda>row. for_cols (start_debounce_key ms row (raw ! row XOR cooked ! row)))"

definition debounce_sym_defer_pk :: "nat \<Rightarrow> u32 \<Rightarrow> matrix_row list \<Rightarrow> nat \<Rightarrow> bool \<Rightarrow>
    u8 counting \<times> matrix_row list \<Rightarrow> bool \<times> u8 counting \<times> matrix_row list" where
  "debounce_sym_defer_pk ms now raw num_rows changed = (\<lambda>(st, cooked).
    if ms = 0 then (let (r, cooked') = debounce_none raw num_rows changed cooked in (r, st, cooked'))
    else let
      updated_last = counters_need_update st;
      elapsed = elapsed_time now (last_time st);
      st = st\<lparr>cooked_changed := False\<rparr>;
      (st, cooked) =
        if updated_last then
          let st = st\<lparr>last_time := now\<rparr>
          in if elapsed > 0 then defer_pk_update_debounce_counters raw num_rows elapsed (st, cooked) else (st, cooked)
        else (st, cooked);
      st =
        if changed then
          start_debounce_counters ms raw cooked num_rows (if updated_last then st else st\<lparr>last_time := now\<rparr>)
        else st
    in (cooked_changed st, st, cooked))"

section \<open>\<open>sym_eager_pk\<close>, the algorithm of the P1\<close>

definition eager_pk_update_key :: "u8 \<Rightarrow> nat \<Rightarrow> nat \<Rightarrow> u8 eager_counting \<Rightarrow> u8 eager_counting" where
  "eager_pk_update_key elapsed row col st = (let i = counter_index row col; c = debounce_counters st ! i in
    if c \<noteq> DEBOUNCE_ELAPSED then
      if c \<le> elapsed then (set_counter i DEBOUNCE_ELAPSED st)\<lparr>matrix_need_update := True\<rparr>
      else (set_counter i (c - elapsed) st)\<lparr>counters_need_update := True\<rparr>
    else st)"

definition eager_pk_update_debounce_counters :: "nat \<Rightarrow> u8 \<Rightarrow> u8 eager_counting \<Rightarrow> u8 eager_counting" where
  "eager_pk_update_debounce_counters num_rows elapsed st =
    for_rows num_rows (\<lambda>row. for_cols (eager_pk_update_key elapsed row))
      (st\<lparr>counters_need_update := False, matrix_need_update := False\<rparr>)"

text \<open>The inner loop of \<open>transfer_matrix_values\<close>, over the row that is being built.\<close>

definition eager_pk_transfer_key :: "nat \<Rightarrow> nat \<Rightarrow> matrix_row \<Rightarrow> nat \<Rightarrow>
    u8 eager_counting \<times> matrix_row \<Rightarrow> u8 eager_counting \<times> matrix_row" where
  "eager_pk_transfer_key ms row delta col = (\<lambda>(st, existing_row). let i = counter_index row col in
    if delta AND col_mask col \<noteq> 0 \<and> debounce_counters st ! i = DEBOUNCE_ELAPSED
    then ((set_counter i (DEBOUNCE_TIME 255 ms) st)\<lparr>counters_need_update := True, cooked_changed := True\<rparr>,
          existing_row XOR col_mask col)
    else (st, existing_row))"

definition eager_pk_transfer_matrix_values :: "nat \<Rightarrow> matrix_row list \<Rightarrow> nat \<Rightarrow>
    u8 eager_counting \<times> matrix_row list \<Rightarrow> u8 eager_counting \<times> matrix_row list" where
  "eager_pk_transfer_matrix_values ms raw num_rows = (\<lambda>(st, cooked).
    for_rows num_rows (\<lambda>row (st, cooked).
      let (st, existing_row) = for_cols (eager_pk_transfer_key ms row (raw ! row XOR cooked ! row)) (st, cooked ! row)
      in (st, cooked[row := existing_row]))
    (st\<lparr>matrix_need_update := False\<rparr>, cooked))"

definition debounce_sym_eager_pk :: "nat \<Rightarrow> u32 \<Rightarrow> matrix_row list \<Rightarrow> nat \<Rightarrow> bool \<Rightarrow>
    u8 eager_counting \<times> matrix_row list \<Rightarrow> bool \<times> u8 eager_counting \<times> matrix_row list" where
  "debounce_sym_eager_pk ms now raw num_rows changed = (\<lambda>(st, cooked).
    if ms = 0 then (let (r, cooked') = debounce_none raw num_rows changed cooked in (r, st, cooked'))
    else let
      updated_last = counters_need_update st;
      elapsed = elapsed_time now (last_time st);
      st = st\<lparr>cooked_changed := False\<rparr>;
      st =
        if updated_last then
          let st = st\<lparr>last_time := now\<rparr>
          in if elapsed > 0 then eager_pk_update_debounce_counters num_rows elapsed st else st
        else st;
      (st, cooked) =
        if changed \<or> matrix_need_update st then
          eager_pk_transfer_matrix_values ms raw num_rows
            (if updated_last then st else st\<lparr>last_time := now\<rparr>, cooked)
        else (st, cooked)
    in (cooked_changed st, st, cooked))"

section \<open>\<open>sym_eager_pr\<close>\<close>

definition eager_pr_update_row :: "u8 \<Rightarrow> nat \<Rightarrow> u8 eager_counting \<Rightarrow> u8 eager_counting" where
  "eager_pr_update_row elapsed row st = (let c = debounce_counters st ! row in
    if c \<noteq> DEBOUNCE_ELAPSED then
      if c \<le> elapsed then (set_counter row DEBOUNCE_ELAPSED st)\<lparr>matrix_need_update := True\<rparr>
      else (set_counter row (c - elapsed) st)\<lparr>counters_need_update := True\<rparr>
    else st)"

definition eager_pr_update_debounce_counters :: "nat \<Rightarrow> u8 \<Rightarrow> u8 eager_counting \<Rightarrow> u8 eager_counting" where
  "eager_pr_update_debounce_counters num_rows elapsed st =
    for_rows num_rows (eager_pr_update_row elapsed) (st\<lparr>counters_need_update := False, matrix_need_update := False\<rparr>)"

definition eager_pr_transfer_row :: "nat \<Rightarrow> matrix_row list \<Rightarrow> nat \<Rightarrow>
    u8 eager_counting \<times> matrix_row list \<Rightarrow> u8 eager_counting \<times> matrix_row list" where
  "eager_pr_transfer_row ms raw row = (\<lambda>(st, cooked).
    if cooked ! row \<noteq> raw ! row \<and> debounce_counters st ! row = DEBOUNCE_ELAPSED
    then ((set_counter row (DEBOUNCE_TIME 255 ms) st)
            \<lparr>cooked_changed := cooked_changed st \<or> (cooked ! row XOR raw ! row) \<noteq> 0, counters_need_update := True\<rparr>,
          cooked[row := raw ! row])
    else (st, cooked))"

definition eager_pr_transfer_matrix_values :: "nat \<Rightarrow> matrix_row list \<Rightarrow> nat \<Rightarrow>
    u8 eager_counting \<times> matrix_row list \<Rightarrow> u8 eager_counting \<times> matrix_row list" where
  "eager_pr_transfer_matrix_values ms raw num_rows = (\<lambda>(st, cooked).
    for_rows num_rows (eager_pr_transfer_row ms raw) (st\<lparr>matrix_need_update := False\<rparr>, cooked))"

definition debounce_sym_eager_pr :: "nat \<Rightarrow> u32 \<Rightarrow> matrix_row list \<Rightarrow> nat \<Rightarrow> bool \<Rightarrow>
    u8 eager_counting \<times> matrix_row list \<Rightarrow> bool \<times> u8 eager_counting \<times> matrix_row list" where
  "debounce_sym_eager_pr ms now raw num_rows changed = (\<lambda>(st, cooked).
    if ms = 0 then (let (r, cooked') = debounce_none raw num_rows changed cooked in (r, st, cooked'))
    else let
      updated_last = counters_need_update st;
      elapsed = elapsed_time now (last_time st);
      st = st\<lparr>cooked_changed := False\<rparr>;
      st =
        if updated_last then
          let st = st\<lparr>last_time := now\<rparr>
          in if elapsed > 0 then eager_pr_update_debounce_counters num_rows elapsed st else st
        else st;
      (st, cooked) =
        if changed \<or> matrix_need_update st then
          eager_pr_transfer_matrix_values ms raw num_rows
            (if updated_last then st else st\<lparr>last_time := now\<rparr>, cooked)
        else (st, cooked)
    in (cooked_changed st, st, cooked))"

section \<open>\<open>sym_defer_pr\<close>\<close>

text \<open>This one reads the 16-bit timer at every call, and stores its \<open>DEBOUNCE\<close> unclamped into a byte.\<close>

record defer_pr =
  countdowns :: "u8 list"
  last_raw :: "matrix_row list"
  last_time16 :: u16

definition defer_pr_init :: "nat \<Rightarrow> u16 \<Rightarrow> defer_pr" where
  "defer_pr_init num_rows now = \<lparr>countdowns = replicate num_rows 0, last_raw = replicate num_rows 0, last_time16 = now\<rparr>"

definition defer_pr_row :: "nat \<Rightarrow> u8 \<Rightarrow> matrix_row list \<Rightarrow> nat \<Rightarrow>
    bool \<times> defer_pr \<times> matrix_row list \<Rightarrow> bool \<times> defer_pr \<times> matrix_row list" where
  "defer_pr_row ms elapsed raw row = (\<lambda>(ch, st, cooked). let raw_row = raw ! row; c = countdowns st ! row in
    if raw_row \<noteq> last_raw st ! row then
      (ch, st\<lparr>countdowns := (countdowns st)[row := of_nat ms], last_raw := (last_raw st)[row := raw_row]\<rparr>, cooked)
    else if c > elapsed then (ch, st\<lparr>countdowns := (countdowns st)[row := c - elapsed]\<rparr>, cooked)
    else if c \<noteq> 0 then
      (ch \<or> (cooked ! row XOR raw_row) \<noteq> 0, st\<lparr>countdowns := (countdowns st)[row := 0]\<rparr>, cooked[row := raw_row])
    else (ch, st, cooked))"

definition debounce_sym_defer_pr :: "nat \<Rightarrow> u16 \<Rightarrow> matrix_row list \<Rightarrow> nat \<Rightarrow> bool \<Rightarrow>
    defer_pr \<times> matrix_row list \<Rightarrow> bool \<times> defer_pr \<times> matrix_row list" where
  "debounce_sym_defer_pr ms now raw num_rows changed = (\<lambda>(st, cooked).
    let elapsed16 = timer_diff16 now (last_time16 st);
        elapsed = (if elapsed16 > 255 then 255 else ucast elapsed16)
    in for_rows num_rows (defer_pr_row ms elapsed raw) (False, st\<lparr>last_time16 := now\<rparr>, cooked))"

section \<open>\<open>asym_eager_defer_pk\<close>\<close>

text \<open>The bit fields: a pressed flag and a 7-bit time.\<close>

record asym_counter =
  ac_pressed :: bool
  ac_time :: "7 word"

definition asym_counting_init :: "asym_counter list \<Rightarrow> asym_counter eager_counting" where
  "asym_counting_init heap = \<lparr>debounce_counters = map (ac_time_update (\<lambda>_. 0)) heap, last_time = 0,
     counters_need_update = False, cooked_changed = False, matrix_need_update = False\<rparr>"

definition asym_update_key :: "u8 \<Rightarrow> matrix_row list \<Rightarrow> nat \<Rightarrow> nat \<Rightarrow>
    asym_counter eager_counting \<times> matrix_row list \<Rightarrow> asym_counter eager_counting \<times> matrix_row list" where
  "asym_update_key elapsed raw row col = (\<lambda>(st, cooked).
    let i = counter_index row col; c = debounce_counters st ! i in
    if ac_time c \<noteq> 0 then
      if unat (ac_time c) \<le> unat elapsed then
        let st = set_counter i (c\<lparr>ac_time := 0\<rparr>) st in
        if ac_pressed c then (st\<lparr>matrix_need_update := True\<rparr>, cooked)
        else
          let cooked_next = (cooked ! row AND NOT (col_mask col)) OR (raw ! row AND col_mask col)
          in (st\<lparr>cooked_changed := cooked_changed st \<or> (cooked_next XOR cooked ! row) \<noteq> 0\<rparr>,
              cooked[row := cooked_next])
      else ((set_counter i (c\<lparr>ac_time := ac_time c - ucast elapsed\<rparr>) st)\<lparr>counters_need_update := True\<rparr>, cooked)
    else (st, cooked))"

definition asym_update_debounce_counters :: "matrix_row list \<Rightarrow> nat \<Rightarrow> u8 \<Rightarrow>
    asym_counter eager_counting \<times> matrix_row list \<Rightarrow> asym_counter eager_counting \<times> matrix_row list" where
  "asym_update_debounce_counters raw num_rows elapsed = (\<lambda>(st, cooked).
    for_rows num_rows (\<lambda>row. for_cols (asym_update_key elapsed raw row))
      (st\<lparr>counters_need_update := False, matrix_need_update := False\<rparr>, cooked))"

definition asym_transfer_key :: "nat \<Rightarrow> matrix_row list \<Rightarrow> nat \<Rightarrow> matrix_row \<Rightarrow> nat \<Rightarrow>
    asym_counter eager_counting \<times> matrix_row list \<Rightarrow> asym_counter eager_counting \<times> matrix_row list" where
  "asym_transfer_key ms raw row delta col = (\<lambda>(st, cooked).
    let i = counter_index row col; c = debounce_counters st ! i in
    if delta AND col_mask col \<noteq> 0 then
      if ac_time c = 0 then
        let down = (raw ! row AND col_mask col \<noteq> 0);
            st = (set_counter i \<lparr>ac_pressed = down, ac_time = ucast (DEBOUNCE_TIME 127 ms)\<rparr> st)\<lparr>counters_need_update := True\<rparr>
        in if down then (st\<lparr>cooked_changed := True\<rparr>, cooked[row := cooked ! row XOR col_mask col]) else (st, cooked)
      else (st, cooked)
    else if ac_time c \<noteq> 0 \<and> \<not> ac_pressed c then (set_counter i (c\<lparr>ac_time := 0\<rparr>) st, cooked)
    else (st, cooked))"

definition asym_transfer_matrix_values :: "nat \<Rightarrow> matrix_row list \<Rightarrow> nat \<Rightarrow>
    asym_counter eager_counting \<times> matrix_row list \<Rightarrow> asym_counter eager_counting \<times> matrix_row list" where
  "asym_transfer_matrix_values ms raw num_rows = (\<lambda>(st, cooked).
    for_rows num_rows (\<lambda>row (st, cooked). for_cols (asym_transfer_key ms raw row (raw ! row XOR cooked ! row)) (st, cooked))
    (st\<lparr>matrix_need_update := False\<rparr>, cooked))"

definition debounce_asym_eager_defer_pk :: "nat \<Rightarrow> u32 \<Rightarrow> matrix_row list \<Rightarrow> nat \<Rightarrow> bool \<Rightarrow>
    asym_counter eager_counting \<times> matrix_row list \<Rightarrow> bool \<times> asym_counter eager_counting \<times> matrix_row list" where
  "debounce_asym_eager_defer_pk ms now raw num_rows changed = (\<lambda>(st, cooked).
    if ms = 0 then (let (r, cooked') = debounce_none raw num_rows changed cooked in (r, st, cooked'))
    else let
      updated_last = counters_need_update st;
      elapsed = elapsed_time now (last_time st);
      st = st\<lparr>cooked_changed := False\<rparr>;
      (st, cooked) =
        if updated_last then
          let st = st\<lparr>last_time := now\<rparr>
          in if elapsed > 0 then asym_update_debounce_counters raw num_rows elapsed (st, cooked) else (st, cooked)
        else (st, cooked);
      (st, cooked) =
        if changed \<or> matrix_need_update st then
          asym_transfer_matrix_values ms raw num_rows
            (if updated_last then st else st\<lparr>last_time := now\<rparr>, cooked)
        else (st, cooked)
    in (cooked_changed st, st, cooked))"

end
