(* ===== verification/Debounce_Laws.thy ===== *)
theory Debounce_Laws
  imports Debounce
begin

text \<open>
  What the debounce algorithms promise.  Each of them is shown to move every key (or row) of the
  matrix like a small automaton of its own, and the automata are instances of one contract: an input
  that holds still reaches the output within a bounded time.
\<close>

section \<open>Loops over cells\<close>

text \<open>
  A loop whose step k changes only the cells it owns, and changes them depending only on themselves, applies the
  cell function once to every cell owned by one of its steps.  A flag such a loop raises is raised
  by the cells as they were before the loop.
\<close>

locale cell_loop =
  fixes view :: "'x \<Rightarrow> 's \<Rightarrow> 'v" and body :: "'k \<Rightarrow> 's \<Rightarrow> 's" and cell :: "'x \<Rightarrow> 'v \<Rightarrow> 'v"
    and owns :: "'k \<Rightarrow> 'x \<Rightarrow> bool" and X :: "'x set" and K :: "'k set" and ok :: "'s \<Rightarrow> bool"
    and flag :: "'i \<Rightarrow> 's \<Rightarrow> bool" and raised :: "'i \<Rightarrow> 'x \<Rightarrow> 'v \<Rightarrow> bool"
  assumes view_body: "k \<in> K \<Longrightarrow> ok s \<Longrightarrow> x \<in> X \<Longrightarrow>
      view x (body k s) = (if owns k x then cell x (view x s) else view x s)"
    and flag_body: "k \<in> K \<Longrightarrow> ok s \<Longrightarrow>
      flag i (body k s) \<longleftrightarrow> flag i s \<or> (\<exists>x \<in> X. owns k x \<and> raised i x (view x s))"
    and ok_body: "k \<in> K \<Longrightarrow> ok s \<Longrightarrow> ok (body k s)"
    and owns_inj: "owns k x \<Longrightarrow> owns k' x \<Longrightarrow> k = k'"
begin

lemma fold_ok: "set ks \<subseteq> K \<Longrightarrow> ok s \<Longrightarrow> ok (fold body ks s)"
  by (induction ks arbitrary: s) (auto simp: ok_body)

lemma fold_view:
  "distinct ks \<Longrightarrow> set ks \<subseteq> K \<Longrightarrow> ok s \<Longrightarrow> x \<in> X \<Longrightarrow>
   view x (fold body ks s) = (if \<exists>k \<in> set ks. owns k x then cell x (view x s) else view x s)"
proof (induction ks arbitrary: s)
  case (Cons k ks)
  then have "view x (fold body ks (body k s)) =
      (if \<exists>k \<in> set ks. owns k x then cell x (view x (body k s)) else view x (body k s))"
    by (simp add: ok_body)
  with Cons.prems show ?case
    by (auto simp: view_body dest: owns_inj)
qed simp

lemma fold_flag:
  "distinct ks \<Longrightarrow> set ks \<subseteq> K \<Longrightarrow> ok s \<Longrightarrow>
   flag i (fold body ks s) \<longleftrightarrow> flag i s \<or> (\<exists>x \<in> X. (\<exists>k \<in> set ks. owns k x) \<and> raised i x (view x s))"
proof (induction ks arbitrary: s)
  case (Cons k ks)
  have same: "view x (body k s) = view x s" if "x \<in> X" "k' \<in> set ks" "owns k' x" for x k'
    using that Cons.prems owns_inj [OF that(3), of k] by (auto simp: view_body)
  have "flag i (fold body (k # ks) s) \<longleftrightarrow>
      flag i (body k s) \<or> (\<exists>x \<in> X. (\<exists>k \<in> set ks. owns k x) \<and> raised i x (view x (body k s)))"
    using Cons by (simp add: ok_body)
  also have "\<dots> \<longleftrightarrow> flag i s \<or> (\<exists>x \<in> X. owns k x \<and> raised i x (view x s)) \<or>
      (\<exists>x \<in> X. (\<exists>k \<in> set ks. owns k x) \<and> raised i x (view x s))"
    using same Cons.prems by (auto simp: flag_body)
  finally show ?case
    by auto
qed simp

end

section \<open>The contract\<close>

text \<open>
  A debounced input: a step takes the time since the last scan and the raw value, and \<open>out\<close>
  is the value reported.  A settled input stays settled; until then a time runs down.  G bounds
  the time between two scans.
\<close>

locale debouncer =
  fixes step :: "nat \<Rightarrow> 'v \<Rightarrow> 's \<Rightarrow> 's" and out :: "'s \<Rightarrow> 'v" and inv :: "'s \<Rightarrow> bool"
    and left :: "nat \<Rightarrow> 'v \<Rightarrow> 's \<Rightarrow> nat" and bound :: "nat \<Rightarrow> nat"
  assumes inv_step: "inv s \<Longrightarrow> inv (step e r s)"
    and settled_stays: "inv s \<Longrightarrow> out s = r \<Longrightarrow> out (step e r s) = r"
    and progress: "inv s \<Longrightarrow> e \<le> G \<Longrightarrow> out (step e r s) \<noteq> r \<Longrightarrow>
      0 < left G r (step e r s) \<and> left G r (step e r s) + e \<le> left G r s"
    and left_bound: "inv s \<Longrightarrow> left G r s \<le> bound G"
begin

definition scans :: "nat list \<Rightarrow> 'v \<Rightarrow> 's \<Rightarrow> 's" where
  "scans es r = fold (\<lambda>e. step e r) es"

lemma scans_inv: "inv s \<Longrightarrow> inv (scans es r s)"
  unfolding scans_def by (induction es arbitrary: s) (auto simp: inv_step)

lemma scans_settled: "inv s \<Longrightarrow> out s = r \<Longrightarrow> out (scans es r s) = r"
  unfolding scans_def by (induction es arbitrary: s) (auto simp: inv_step settled_stays)

lemma scans_progress:
  "inv s \<Longrightarrow> \<forall>e \<in> set es. e \<le> G \<Longrightarrow> es \<noteq> [] \<Longrightarrow> out (scans es r s) \<noteq> r \<Longrightarrow>
   0 < left G r (scans es r s) \<and> left G r (scans es r s) + sum_list es \<le> left G r s"
proof (induction es arbitrary: s)
  case (Cons e es)
  let ?s = "step e r s"
  have unsettled: "out ?s \<noteq> r"
    using Cons.prems scans_settled [of ?s r es] inv_step by (auto simp: scans_def)
  with Cons.prems have first: "0 < left G r ?s \<and> left G r ?s + e \<le> left G r s"
    by (intro progress) auto
  show ?case
  proof (cases "es = []")
    case False
    with Cons have "0 < left G r (scans es r ?s) \<and> left G r (scans es r ?s) + sum_list es \<le> left G r ?s"
      by (intro Cons.IH) (auto simp: inv_step scans_def)
    with first show ?thesis
      by (simp add: scans_def)
  qed (use first in \<open>simp add: scans_def\<close>)
qed simp

lemma scans_settle:
  assumes "inv s" "\<forall>e \<in> set es. e \<le> G" "es \<noteq> []" "bound G \<le> sum_list es"
  shows "out (fold (\<lambda>e. step e r) es s) = r"
  using scans_progress [OF assms(1-3), of r] left_bound [OF assms(1), of G r] assms(4)
  unfolding scans_def by linarith

end

section \<open>The automata\<close>

definition eager_key :: "nat \<Rightarrow> nat \<Rightarrow> 'v \<Rightarrow> 'v \<times> nat \<Rightarrow> 'v \<times> nat" where
  "eager_key D e r = (\<lambda>(k, c). if r \<noteq> k \<and> c \<le> e then (r, D) else (k, c - e))"

definition defer_key :: "nat \<Rightarrow> nat \<Rightarrow> 'v \<Rightarrow> 'v \<times> nat \<Rightarrow> 'v \<times> nat" where
  "defer_key D e r = (\<lambda>(k, c). if r = k then (k, 0) else if c = 0 then (k, D)
     else if c \<le> e then (r, 0) else (k, c - e))"

definition defer_row :: "nat \<Rightarrow> nat \<Rightarrow> 'v \<Rightarrow> 'v \<times> 'v \<times> nat \<Rightarrow> 'v \<times> 'v \<times> nat" where
  "defer_row D e r = (\<lambda>(k, l, c). if r \<noteq> l then (k, r, D) else if c > e then (k, l, c - e)
     else if c \<noteq> 0 then (r, l, 0) else (k, l, c))"

interpretation eager: debouncer "eager_key D" fst "\<lambda>s. snd s \<le> D" "\<lambda>G r s. snd s" "\<lambda>G. D" for D
  by unfold_locales (auto simp: eager_key_def split: prod.splits if_splits)

interpretation defer_pk: debouncer "defer_key (Suc D)" fst "\<lambda>s. snd s \<le> Suc D"
    "\<lambda>G r s. if snd s = 0 then Suc D + G else snd s" "\<lambda>G. Suc D + G" for D
  by unfold_locales (auto simp: defer_key_def split: prod.splits if_splits)

interpretation defer_pr: debouncer "defer_row (Suc D)" fst "\<lambda>(k, l, c). c \<le> Suc D \<and> (c = 0 \<longrightarrow> k = l)"
    "\<lambda>G r (k, l, c). if r \<noteq> l then Suc D + G else c" "\<lambda>G. Suc D + G" for D
  by unfold_locales (auto simp: defer_row_def split: prod.splits if_splits)

section \<open>Cells of the arrays\<close>

definition keys :: "nat \<Rightarrow> (nat \<times> nat) set" where
  "keys n = {(row, col). row < n \<and> col < MATRIX_COLS}"

definition key_counter :: "nat \<times> nat \<Rightarrow> ('c, 'm) counting_scheme \<Rightarrow> 'c" where
  "key_counter x st = debounce_counters st ! counter_index (fst x) (snd x)"

definition key_bit :: "nat \<times> nat \<Rightarrow> matrix_row list \<Rightarrow> bool" where
  "key_bit x rows = bit (rows ! fst x) (snd x)"

definition sized :: "nat \<Rightarrow> ('c, 'm) counting_scheme \<Rightarrow> bool" where
  "sized n st \<longleftrightarrow> length (debounce_counters st) = n * MATRIX_COLS"

lemma counter_index_inj:
  "col < MATRIX_COLS \<Longrightarrow> col' < MATRIX_COLS \<Longrightarrow> counter_index row col = counter_index row' col' \<longleftrightarrow> row = row' \<and> col = col'"
proof -
  assume c: "col < MATRIX_COLS" "col' < MATRIX_COLS"
  have div: "counter_index r k div MATRIX_COLS = r" "counter_index r k mod MATRIX_COLS = k" if "k < MATRIX_COLS" for r k
    using that by (simp_all add: counter_index_def)
  from c div [of col row] div [of col' row'] show ?thesis
    by metis
qed

lemma counter_index_bound: "row < n \<Longrightarrow> col < MATRIX_COLS \<Longrightarrow> counter_index row col < n * MATRIX_COLS"
proof -
  assume "row < n" "col < MATRIX_COLS"
  then have "counter_index row col < Suc row * MATRIX_COLS"
    by (simp add: counter_index_def)
  also have "\<dots> \<le> n * MATRIX_COLS"
    using \<open>row < n\<close> by (intro mult_le_mono1) simp
  finally show ?thesis .
qed

lemma counter_set [simp]:
  "sized n st \<Longrightarrow> (row, col) \<in> keys n \<Longrightarrow> x \<in> keys n \<Longrightarrow>
   key_counter x (set_counter (counter_index row col) c st) = (if x = (row, col) then c else key_counter x st)"
  by (cases x) (auto simp: key_counter_def set_counter_def sized_def keys_def counter_index_inj counter_index_bound
      nth_list_update_mod)

lemma sized_set [simp]: "sized n (set_counter i c st) = sized n st"
  by (simp add: sized_def set_counter_def)

lemma col_mask_bit: "col < MATRIX_COLS \<Longrightarrow> bit (col_mask col) j \<longleftrightarrow> j = col"
  by (auto simp: col_mask_def bit_simps MATRIX_COLS_def)

lemma and_col_mask: "col < MATRIX_COLS \<Longrightarrow> w AND col_mask col \<noteq> 0 \<longleftrightarrow> bit w col"
proof -
  assume c: "col < MATRIX_COLS"
  have "w AND col_mask col = 0" if "\<not> bit w col"
    using that c by (intro bit_word_eqI) (auto simp: bit_and_iff col_mask_bit)
  moreover have "bit (w AND col_mask col) col = bit w col"
    using c by (simp add: bit_and_iff col_mask_bit)
  ultimately show ?thesis
    by (metis bit_0_eq bot_apply bot_bool_def)
qed

text \<open>Which cell a row, or a column of a given row, owns.\<close>

definition owns_row :: "nat \<Rightarrow> nat \<times> nat \<Rightarrow> bool" where
  "owns_row row x \<longleftrightarrow> fst x = row"

definition owns_key :: "nat \<Rightarrow> nat \<Rightarrow> nat \<times> nat \<Rightarrow> bool" where
  "owns_key row col x \<longleftrightarrow> x = (row, col)"

lemmas cell_defs = keys_def owns_row_def owns_key_def

text \<open>The two nested loops of the per-key algorithms visit every cell once.\<close>

lemma nested_cells:
  assumes "\<And>row. cell_loop view (body row) cell (owns_key row) (keys n) {col. (row, col) \<in> keys n} ok flag raised"
  shows "cell_loop view (\<lambda>row. for_cols (body row)) cell owns_row (keys n) {..<n} ok flag raised"
proof unfold_locales
  fix row s
  assume row: "row \<in> {..<n}" and s: "ok s"
  have cols: "distinct [0..<MATRIX_COLS]" "set [0..<MATRIX_COLS] \<subseteq> {col. (row, col) \<in> keys n}"
    using row by (auto simp: keys_def)
  note loop = cell_loop.fold_view [OF assms [of row] cols s] cell_loop.fold_flag [OF assms [of row] cols s]
    cell_loop.fold_ok [OF assms [of row] cols(2) s]
  show "ok (for_cols (body row) s)"
    using loop(3) by (simp add: for_cols_def)
  show "view x (for_cols (body row) s) = (if owns_row row x then cell x (view x s) else view x s)" if "x \<in> keys n" for x
    using that loop(1) by (auto simp: for_cols_def cell_defs)
  show "flag i (for_cols (body row) s) \<longleftrightarrow> flag i s \<or> (\<exists>x\<in>keys n. owns_row row x \<and> raised i x (view x s))" for i
    unfolding for_cols_def loop(2) by (auto simp: cell_defs)
qed (simp_all add: owns_row_def)

lemma all_cells:
  assumes "cell_loop view body cell owns_row (keys n) {..<n} ok flag raised" and "ok s"
  shows "x \<in> keys n \<Longrightarrow> view x (for_rows n body s) = cell x (view x s)"
    and "flag i (for_rows n body s) \<longleftrightarrow> flag i s \<or> (\<exists>x \<in> keys n. raised i x (view x s))"
    and "ok (for_rows n body s)"
proof -
  have rows: "distinct [0..<n]" "set [0..<n] \<subseteq> {..<n}"
    by auto
  note loop = cell_loop.fold_view [OF assms(1) rows assms(2)] cell_loop.fold_flag [OF assms(1) rows assms(2)]
    cell_loop.fold_ok [OF assms(1) rows(2) assms(2)]
  show "view x (for_rows n body s) = cell x (view x s)" if "x \<in> keys n"
    using that loop(1) [OF that] by (auto simp: for_rows_def cell_defs)
  show "flag i (for_rows n body s) \<longleftrightarrow> flag i s \<or> (\<exists>x \<in> keys n. raised i x (view x s))"
    unfolding for_rows_def loop(2) by (auto simp: cell_defs)
  show "ok (for_rows n body s)"
    using loop(3) by (simp add: for_rows_def)
qed

section \<open>\<open>sym_eager_pk\<close> moves every key like \<open>eager_key\<close>\<close>

text \<open>The first loop, on the counters only.\<close>

definition count_down :: "u8 \<Rightarrow> u8 \<Rightarrow> u8" where
  "count_down e c = (if c \<le> e then 0 else c - e)"

fun eager_flag :: "nat \<Rightarrow> ('c, 'm) eager_counting_scheme \<Rightarrow> bool" where
  "eager_flag i st = (if i = 0 then counters_need_update st else if i = 1 then matrix_need_update st
     else cooked_changed st)"

definition eager_update_raised :: "u8 \<Rightarrow> nat \<Rightarrow> 'x \<Rightarrow> u8 \<Rightarrow> bool" where
  "eager_update_raised e i x c \<longleftrightarrow> (if i = 0 then e < c else i = 1 \<and> c \<noteq> 0 \<and> c \<le> e)"

lemma key_counter_flags [simp]:
  "key_counter x (st\<lparr>counters_need_update := b\<rparr>) = key_counter x st"
  "key_counter x (est\<lparr>matrix_need_update := b\<rparr>) = key_counter x est"
  "key_counter x (st\<lparr>cooked_changed := b\<rparr>) = key_counter x st"
  "key_counter x (st\<lparr>last_time := t\<rparr>) = key_counter x st"
  "sized n (st\<lparr>counters_need_update := b\<rparr>) = sized n st"
  "sized n (est\<lparr>matrix_need_update := b\<rparr>) = sized n est"
  "sized n (st\<lparr>cooked_changed := b\<rparr>) = sized n st"
  "sized n (st\<lparr>last_time := t\<rparr>) = sized n st"
  by (simp_all add: key_counter_def sized_def)

lemma flags_set [simp]:
  "counters_need_update (set_counter i c st) = counters_need_update st"
  "cooked_changed (set_counter i c st) = cooked_changed st"
  "last_time (set_counter i c st) = last_time st"
  "matrix_need_update (set_counter i c est) = matrix_need_update est"
  by (simp_all add: set_counter_def)

interpretation eager_update_cols: cell_loop key_counter "eager_pk_update_key e row" "\<lambda>x. count_down e"
    "owns_key row" "keys n" "{col. (row, col) \<in> keys n}" "sized n" eager_flag "eager_update_raised e" for e row n
proof unfold_locales
  fix col x and st :: "u8 eager_counting"
  assume col: "col \<in> {col. (row, col) \<in> keys n}" and st: "sized n st"
  let ?b = "eager_pk_update_key e row col st"
  have cnt: "debounce_counters st ! counter_index row col = key_counter (row, col) st"
    by (simp add: key_counter_def)
  show "sized n ?b"
    using st by (simp add: eager_pk_update_key_def Let_def)
  show "key_counter x ?b = (if owns_key row col x then count_down e (key_counter x st) else key_counter x st)"
    if "x \<in> keys n"
    using that col st by (simp add: eager_pk_update_key_def Let_def cnt count_down_def owns_key_def DEBOUNCE_ELAPSED_def)
  show "eager_flag i ?b \<longleftrightarrow> eager_flag i st \<or> (\<exists>x\<in>keys n. owns_key row col x \<and> eager_update_raised e i x (key_counter x st))" for i
    using col st by (auto simp: eager_pk_update_key_def Let_def cnt owns_key_def DEBOUNCE_ELAPSED_def eager_update_raised_def)
qed (simp_all add: owns_key_def)

interpretation eager_update_rows: cell_loop key_counter "\<lambda>row. for_cols (eager_pk_update_key e row)" "\<lambda>x. count_down e"
    owns_row "keys n" "{..<n}" "sized n" eager_flag "eager_update_raised e" for e n
  by (rule nested_cells) (rule eager_update_cols.cell_loop_axioms)

lemma eager_pk_update:
  fixes st :: "u8 eager_counting" and e :: u8
  assumes "sized n st"
  defines "st' \<equiv> eager_pk_update_debounce_counters n e st"
  shows "sized n st'" and "x \<in> keys n \<Longrightarrow> key_counter x st' = count_down e (key_counter x st)"
    and "counters_need_update st' \<longleftrightarrow> (\<exists>x \<in> keys n. e < key_counter x st)"
    and "matrix_need_update st' \<longleftrightarrow> (\<exists>x \<in> keys n. key_counter x st \<noteq> 0 \<and> key_counter x st \<le> e)"
    and "cooked_changed st' = cooked_changed st"
proof -
  have "sized n (st\<lparr>counters_need_update := False, matrix_need_update := False\<rparr>)"
    using assms(1) by simp
  note loop = all_cells [OF eager_update_rows.cell_loop_axioms [where e = e] this, folded eager_pk_update_debounce_counters_def st'_def]
  show "sized n st'" "x \<in> keys n \<Longrightarrow> key_counter x st' = count_down e (key_counter x st)"
      "counters_need_update st' \<longleftrightarrow> (\<exists>x \<in> keys n. e < key_counter x st)"
      "matrix_need_update st' \<longleftrightarrow> (\<exists>x \<in> keys n. key_counter x st \<noteq> 0 \<and> key_counter x st \<le> e)"
      "cooked_changed st' = cooked_changed st"
    using loop(1,3) loop(2) [of 0] loop(2) [of 1] loop(2) [of 2] by (auto simp: eager_update_raised_def)
qed

text \<open>The second loop, on counters and cooked rows.\<close>

definition key_view :: "nat \<times> nat \<Rightarrow> ('c, 'm) counting_scheme \<times> matrix_row list \<Rightarrow> bool \<times> 'c" where
  "key_view x s = (key_bit x (snd s), key_counter x (fst s))"

definition sized2 :: "nat \<Rightarrow> ('c, 'm) counting_scheme \<times> matrix_row list \<Rightarrow> bool" where
  "sized2 n s \<longleftrightarrow> sized n (fst s) \<and> length (snd s) = n"

definition eager_transfer_cell :: "u8 \<Rightarrow> (nat \<times> nat \<Rightarrow> bool) \<Rightarrow> nat \<times> nat \<Rightarrow> bool \<times> u8 \<Rightarrow> bool \<times> u8" where
  "eager_transfer_cell D delta x = (\<lambda>(k, c). if delta x \<and> c = 0 then (\<not> k, D) else (k, c))"

definition eager_transfer_raised :: "(nat \<times> nat \<Rightarrow> bool) \<Rightarrow> nat \<Rightarrow> nat \<times> nat \<Rightarrow> bool \<times> u8 \<Rightarrow> bool" where
  "eager_transfer_raised delta i x v \<longleftrightarrow> i \<noteq> 1 \<and> delta x \<and> snd v = 0"

lemma key_bit_row_update:
  "row < length cooked \<Longrightarrow> key_bit x (cooked[row := w]) = (if fst x = row then bit w (snd x) else key_bit x cooked)"
  by (simp add: key_bit_def nth_list_update_mod)

interpretation eager_transfer_cols: cell_loop "\<lambda>x (st, e). key_view x (st, cooked[row := e])"
    "eager_pk_transfer_key ms row delta" "eager_transfer_cell (DEBOUNCE_TIME 255 ms) (\<lambda>x. bit delta (snd x))"
    "owns_key row" "keys n" "{col. (row, col) \<in> keys n \<and> length cooked = n}" "\<lambda>(st, e). sized n st"
    "\<lambda>i (st, e). eager_flag i st" "eager_transfer_raised (\<lambda>x. bit delta (snd x))"
  for ms row delta n and cooked :: "matrix_row list"
proof unfold_locales
  fix col x and s :: "u8 eager_counting \<times> matrix_row"
  assume col: "col \<in> {col. (row, col) \<in> keys n \<and> length cooked = n}" and s: "case s of (st, e) \<Rightarrow> sized n st"
  obtain st e where se: "s = (st, e)" by (cases s)
  let ?b = "eager_pk_transfer_key ms row delta col s"
  have cnt: "debounce_counters st ! counter_index row col = key_counter (row, col) st"
    by (simp add: key_counter_def)
  have c: "col < MATRIX_COLS" "row < length cooked"
    using col by (auto simp: keys_def)
  note defs = eager_pk_transfer_key_def Let_def cnt se owns_key_def DEBOUNCE_ELAPSED_def and_col_mask [OF c(1)]
  show "case ?b of (st, e) \<Rightarrow> sized n st"
    using s by (simp add: defs)
  show "(\<lambda>(st, e). key_view x (st, cooked[row := e])) ?b =
      (if owns_key row col x then eager_transfer_cell (DEBOUNCE_TIME 255 ms) (\<lambda>x. bit delta (snd x)) x
         ((\<lambda>(st, e). key_view x (st, cooked[row := e])) s)
       else (\<lambda>(st, e). key_view x (st, cooked[row := e])) s)" if "x \<in> keys n"
    using that col c s
    by (cases x) (auto simp: defs eager_transfer_cell_def key_view_def key_bit_row_update bit_xor_iff col_mask_bit)
  show "(\<lambda>(st, e). eager_flag i st) ?b \<longleftrightarrow> (\<lambda>(st, e). eager_flag i st) s \<or> (\<exists>x\<in>keys n. owns_key row col x \<and>
      eager_transfer_raised (\<lambda>x. bit delta (snd x)) i x ((\<lambda>(st, e). key_view x (st, cooked[row := e])) s))" for i
    using col s by (auto simp: defs eager_transfer_raised_def key_view_def)
qed (simp_all add: owns_key_def)

definition eager_accept :: "u8 \<Rightarrow> ('x \<Rightarrow> 'v) \<Rightarrow> 'x \<Rightarrow> 'v \<times> u8 \<Rightarrow> 'v \<times> u8" where
  "eager_accept D raw x = (\<lambda>(k, c). if raw x \<noteq> k \<and> c = 0 then (raw x, D) else (k, c))"

definition eager_accept_raised :: "('x \<Rightarrow> 'v) \<Rightarrow> nat \<Rightarrow> 'x \<Rightarrow> 'v \<times> u8 \<Rightarrow> bool" where
  "eager_accept_raised raw i x v \<longleftrightarrow> i \<noteq> 1 \<and> raw x \<noteq> fst v \<and> snd v = 0"

lemma eager_pk_transfer_row:
  assumes row: "row < n" and s: "sized2 n (st, cooked)"
  obtains st' e where
    "for_cols (eager_pk_transfer_key ms row (raw ! row XOR cooked ! row)) (st, cooked ! row) = (st', e)"
    and "sized2 n (st', cooked[row := e])"
    and "\<And>x. x \<in> keys n \<Longrightarrow> key_view x (st', cooked[row := e]) =
      (if owns_row row x then eager_accept (DEBOUNCE_TIME 255 ms) (\<lambda>x. key_bit x raw) x (key_view x (st, cooked))
       else key_view x (st, cooked))"
    and "\<And>i. eager_flag i st' \<longleftrightarrow> eager_flag i st \<or>
      (\<exists>x\<in>keys n. owns_row row x \<and> eager_accept_raised (\<lambda>x. key_bit x raw) i x (key_view x (st, cooked)))"
proof -
  let ?delta = "raw ! row XOR cooked ! row" and ?s = "(st, cooked ! row)"
  have len: "length cooked = n" "sized n st"
    using s by (auto simp: sized2_def)
  have cols: "distinct [0..<MATRIX_COLS]" "set [0..<MATRIX_COLS] \<subseteq> {col. (row, col) \<in> keys n \<and> length cooked = n}"
    and st: "case ?s of (st, e) \<Rightarrow> sized n st"
    using row len by (auto simp: keys_def)
  obtain st' e where res: "for_cols (eager_pk_transfer_key ms row ?delta) ?s = (st', e)"
    by fastforce
  note loop = eager_transfer_cols.fold_view [OF cols st, of _ ms ?delta, folded for_cols_def, unfolded res]
    eager_transfer_cols.fold_flag [OF cols st, of _ ms ?delta, folded for_cols_def, unfolded res]
    eager_transfer_cols.fold_ok [OF cols(2) st, of ms ?delta, folded for_cols_def, unfolded res]
  have delta: "bit ?delta (snd x) \<longleftrightarrow> key_bit x raw \<noteq> key_bit x cooked" if "fst x = row" for x
    using that by (auto simp: bit_xor_iff key_bit_def)
  show thesis
  proof
    show "for_cols (eager_pk_transfer_key ms row ?delta) ?s = (st', e)"
      by (rule res)
    show "sized2 n (st', cooked[row := e])"
      using loop(3) len by (simp add: sized2_def)
    show "key_view x (st', cooked[row := e]) =
      (if owns_row row x then eager_accept (DEBOUNCE_TIME 255 ms) (\<lambda>x. key_bit x raw) x (key_view x (st, cooked))
       else key_view x (st, cooked))" if "x \<in> keys n" for x
      using loop(1) [OF that] that delta [of x]
      by (auto simp: cell_defs eager_transfer_cell_def eager_accept_def key_view_def)
    show "eager_flag i st' \<longleftrightarrow> eager_flag i st \<or>
      (\<exists>x\<in>keys n. owns_row row x \<and> eager_accept_raised (\<lambda>x. key_bit x raw) i x (key_view x (st, cooked)))" for i
      using loop(2) [of i] delta
      by (fastforce simp: cell_defs eager_transfer_raised_def eager_accept_raised_def key_view_def)
  qed
qed

interpretation eager_transfer_rows: cell_loop key_view
    "\<lambda>row (st, cooked). let (st, existing_row) = for_cols (eager_pk_transfer_key ms row (raw ! row XOR cooked ! row)) (st, cooked ! row)
       in (st, cooked[row := existing_row])"
    "eager_accept (DEBOUNCE_TIME 255 ms) (\<lambda>x. key_bit x raw)" owns_row "keys n" "{..<n}" "sized2 n"
    "\<lambda>i (st, cooked). eager_flag i st" "eager_accept_raised (\<lambda>x. key_bit x raw)" for ms raw n
proof unfold_locales
  fix row x i and s :: "u8 eager_counting \<times> matrix_row list"
  let ?body = "\<lambda>(st, cooked). let (st, existing_row) = for_cols (eager_pk_transfer_key ms row (raw ! row XOR cooked ! row)) (st, cooked ! row)
       in (st, cooked[row := existing_row])"
  assume row: "row \<in> {..<n}" and ok: "sized2 n s"
  obtain st cooked where s: "s = (st, cooked)" by (cases s)
  from row have "row < n" by simp
  note row = eager_pk_transfer_row [OF this ok [unfolded s], of ms raw]
  show "sized2 n (?body s)"
    by (rule row) (simp add: s)
  show "key_view x (?body s) = (if owns_row row x then eager_accept (DEBOUNCE_TIME 255 ms) (\<lambda>x. key_bit x raw) x (key_view x s)
      else key_view x s)" if "x \<in> keys n"
    by (rule row) (simp add: s that)
  show "(case ?body s of (st, cooked) \<Rightarrow> eager_flag i st) \<longleftrightarrow> (case s of (st, cooked) \<Rightarrow> eager_flag i st) \<or>
      (\<exists>x\<in>keys n. owns_row row x \<and> eager_accept_raised (\<lambda>x. key_bit x raw) i x (key_view x s))"
    by (rule row) (simp add: s del: eager_flag.simps)
qed (simp_all add: owns_row_def)

lemma eager_pk_transfer:
  fixes st :: "u8 eager_counting"
  assumes "sized2 n (st, cooked)" and "eager_pk_transfer_matrix_values ms raw n (st, cooked) = (st', cooked')"
  shows "sized2 n (st', cooked')"
    and "x \<in> keys n \<Longrightarrow> key_view x (st', cooked') =
      eager_accept (DEBOUNCE_TIME 255 ms) (\<lambda>x. key_bit x raw) x (key_view x (st, cooked))"
    and "counters_need_update st' \<longleftrightarrow> counters_need_update st \<or>
      (\<exists>x\<in>keys n. key_bit x raw \<noteq> key_bit x cooked \<and> key_counter x st = 0)"
    and "cooked_changed st' \<longleftrightarrow> cooked_changed st \<or>
      (\<exists>x\<in>keys n. key_bit x raw \<noteq> key_bit x cooked \<and> key_counter x st = 0)"
    and "matrix_need_update st' = False"
proof -
  have "sized2 n (st\<lparr>matrix_need_update := False\<rparr>, cooked)"
    using assms(1) by (simp add: sized2_def)
  note loop = all_cells [OF eager_transfer_rows.cell_loop_axioms [where ms = ms and raw = raw] this,
      unfolded assms(2) [unfolded eager_pk_transfer_matrix_values_def prod.case]]
  show "sized2 n (st', cooked')" "x \<in> keys n \<Longrightarrow> key_view x (st', cooked') =
      eager_accept (DEBOUNCE_TIME 255 ms) (\<lambda>x. key_bit x raw) x (key_view x (st, cooked))"
      "counters_need_update st' \<longleftrightarrow> counters_need_update st \<or>
        (\<exists>x\<in>keys n. key_bit x raw \<noteq> key_bit x cooked \<and> key_counter x st = 0)"
      "cooked_changed st' \<longleftrightarrow> cooked_changed st \<or>
        (\<exists>x\<in>keys n. key_bit x raw \<noteq> key_bit x cooked \<and> key_counter x st = 0)"
      "matrix_need_update st' = False"
    using loop(1,3) loop(2) [of 0] loop(2) [of 1] loop(2) [of 2]
    by (auto simp: eager_accept_raised_def key_view_def)
qed

text \<open>
  Between two calls: the counters are bounded, a key whose counter has run out agrees with the raw matrix of the last
  call, and the timestamp is that of the last call while a counter is running.
\<close>

definition counters_ok :: "u8 \<Rightarrow> nat \<Rightarrow> u32 \<Rightarrow> matrix_row list \<Rightarrow> (u8, 'm) counting_scheme \<times> matrix_row list \<Rightarrow> bool" where
  "counters_ok D n prev raw s \<longleftrightarrow> sized2 n s \<and>
    (\<forall>x \<in> keys n. key_counter x (fst s) \<le> D \<and>
      (if key_counter x (fst s) = 0 then key_bit x (snd s) = key_bit x raw
       else counters_need_update (fst s) \<and> last_time (fst s) = prev))"

definition eager_pk_inv :: "nat \<Rightarrow> nat \<Rightarrow> u32 \<Rightarrow> matrix_row list \<Rightarrow> u8 eager_counting \<times> matrix_row list \<Rightarrow> bool" where
  "eager_pk_inv ms n prev raw s \<longleftrightarrow> counters_ok (DEBOUNCE_TIME 255 ms) n prev raw s \<and> \<not> matrix_need_update (fst s)"

text \<open>The state of a key as its automaton has it.\<close>

definition key_state :: "nat \<times> nat \<Rightarrow> (u8, 'm) counting_scheme \<times> matrix_row list \<Rightarrow> bool \<times> nat" where
  "key_state x s = (fst (key_view x s), unat (snd (key_view x s)))"

definition DEBOUNCE_NAT :: "nat \<Rightarrow> nat \<Rightarrow> nat" where
  "DEBOUNCE_NAT limit ms = min limit ms"

lemma unat_DEBOUNCE_TIME: "limit < 256 \<Longrightarrow> unat (DEBOUNCE_TIME limit ms) = DEBOUNCE_NAT limit ms"
  by (simp add: DEBOUNCE_TIME_def DEBOUNCE_NAT_def unat_of_nat_u8)

lemma DEBOUNCE_TIME_nonzero: "0 < ms \<Longrightarrow> DEBOUNCE_TIME 255 ms \<noteq> 0"
  using unat_DEBOUNCE_TIME [of 255 ms] by (auto simp: DEBOUNCE_NAT_def)

lemma unat_count_down: "unat (count_down e c) = unat c - unat e"
  by (auto simp: count_down_def word_le_nat_alt unat_sub)

lemma count_down_zero_left [simp]: "count_down e 0 = 0"
  by (simp add: count_down_def)

lemma count_down_le: "count_down e c \<le> c"
  by (simp add: word_le_nat_alt unat_count_down)

lemma count_down_no_time [simp]: "count_down 0 c = c"
  by (simp add: count_down_def)

lemma eager_accept_key:
  "key_view x s' = eager_accept (DEBOUNCE_TIME 255 ms) (\<lambda>x. key_bit x raw) x (k, count_down e c) \<Longrightarrow>
   key_view x s = (k, c) \<Longrightarrow>
   key_state x s' = eager_key (DEBOUNCE_NAT 255 ms) (unat e) (key_bit x raw) (key_state x s)"
  by (auto simp: key_state_def eager_accept_def eager_key_def unat_count_down unat_DEBOUNCE_TIME
      unat_eq_zero [symmetric] count_down_def word_le_nat_alt unat_sub split: if_splits)

text \<open>The first half of a call: every counter has run down by the time since the last call.\<close>

lemma eager_pk_first_half:
  fixes st :: "u8 eager_counting" and now :: u32
  assumes inv: "eager_pk_inv ms n prev raw0 (st, cooked)"
  defines "e \<equiv> elapsed_time now (last_time st)"
  defines "st1 \<equiv> (if counters_need_update st then
       if e > 0 then eager_pk_update_debounce_counters n e (st\<lparr>cooked_changed := False, last_time := now\<rparr>)
       else st\<lparr>cooked_changed := False, last_time := now\<rparr>
     else st\<lparr>cooked_changed := False\<rparr>)"
  shows "sized n st1" and "\<not> cooked_changed st1"
    and "x \<in> keys n \<Longrightarrow> key_counter x st1 = count_down (elapsed_time now prev) (key_counter x st)"
    and "x \<in> keys n \<Longrightarrow> key_counter x st1 \<noteq> 0 \<Longrightarrow> counters_need_update st1"
    and "\<not> matrix_need_update st1 \<Longrightarrow> x \<in> keys n \<Longrightarrow> key_counter x st1 = 0 \<Longrightarrow> key_counter x st = 0"
proof -
  let ?s = "st\<lparr>cooked_changed := False, last_time := now\<rparr>"
  have ok: "sized n st" "sized n ?s" "\<not> matrix_need_update st"
    and run: "\<And>x. x \<in> keys n \<Longrightarrow> key_counter x st \<noteq> 0 \<Longrightarrow> counters_need_update st \<and> last_time st = prev"
    using inv by (auto simp: eager_pk_inv_def counters_ok_def sized2_def split: if_splits)
  note upd = eager_pk_update [OF ok(2), where e = e]
  show "sized n st1"
    using ok upd(1) by (simp add: st1_def)
  show "\<not> cooked_changed st1"
    using upd(5) by (simp add: st1_def)
  show *: "key_counter x st1 = count_down (elapsed_time now prev) (key_counter x st)" if "x \<in> keys n" for x
  proof (cases "key_counter x st = 0")
    case True
    then show ?thesis
      using that upd(2) by (simp add: st1_def)
  next
    case False
    with run [OF that False] that upd(2) [of x] show ?thesis
      by (auto simp: st1_def e_def word_neq_0_conv [symmetric] simp del: word_neq_0_conv)
  qed
  show "counters_need_update st1" if "x \<in> keys n" "key_counter x st1 \<noteq> 0" for x
  proof -
    have "key_counter x st \<noteq> 0"
      using that * by fastforce
    from run [OF that(1) this] show ?thesis
      using that upd(2,3) by (auto simp: st1_def e_def count_down_def not_le not_less split: if_splits)
  qed
  show "key_counter x st = 0" if "\<not> matrix_need_update st1" "x \<in> keys n" "key_counter x st1 = 0" for x
  proof (rule ccontr)
    assume c: "key_counter x st \<noteq> 0"
    from run [OF that(2) c] that c upd(2) [OF that(2)] upd(4) show False
      by (auto simp: st1_def count_down_def split: if_splits)
  qed
qed

text \<open>Neither loop touches the timestamp.\<close>

lemma fold_frame: "(\<And>k s. g (f k s) = g s) \<Longrightarrow> g (fold f ks s) = g s"
  by (induction ks arbitrary: s) simp_all

lemma eager_pk_update_stamp [simp]: "last_time (eager_pk_update_debounce_counters n e st) = last_time st"
proof -
  have "last_time (eager_pk_update_key e row col st) = last_time st" for row col st
    by (simp add: eager_pk_update_key_def Let_def)
  then show ?thesis
    by (simp add: eager_pk_update_debounce_counters_def for_rows_def for_cols_def fold_frame [of last_time])
qed

lemma eager_pk_transfer_stamp:
  "last_time (fst (eager_pk_transfer_matrix_values ms raw n s)) = last_time (fst s)"
proof -
  have "last_time (fst (eager_pk_transfer_key ms row delta col s)) = last_time (fst s)" for row delta col s
    by (cases s) (simp add: eager_pk_transfer_key_def Let_def)
  then have cols: "last_time (fst (for_cols (eager_pk_transfer_key ms row delta) s)) = last_time (fst s)" for row delta s
    unfolding for_cols_def by (rule fold_frame [of "\<lambda>s. last_time (fst s)"])
  show ?thesis
    unfolding eager_pk_transfer_matrix_values_def for_rows_def prod.case_eq_if
    by (subst fold_frame [of "\<lambda>s. last_time (fst s)"]) (simp_all add: Let_def cols split: prod.split)
qed

lemma eager_pk_call:
  fixes s :: "u8 eager_counting \<times> matrix_row list"
  assumes ms: "0 < ms" and inv: "eager_pk_inv ms n prev raw0 s"
    and truthful: "\<not> changed \<Longrightarrow> \<forall>x \<in> keys n. key_bit x raw = key_bit x raw0"
    and res: "debounce_sym_eager_pk ms now raw n changed s = (r, s')"
  shows "eager_pk_inv ms n now raw s'"
    and "x \<in> keys n \<Longrightarrow> key_state x s' =
      eager_key (DEBOUNCE_NAT 255 ms) (unat (elapsed_time now prev)) (key_bit x raw) (key_state x s)"
    and "r \<longleftrightarrow> (\<exists>x \<in> keys n. key_bit x (snd s') \<noteq> key_bit x (snd s))"
proof -
  obtain st cooked where s: "s = (st, cooked)" by (cases s)
  obtain st' cooked' where s': "s' = (st', cooked')" by (cases s')
  let ?D = "DEBOUNCE_TIME 255 ms" and ?e = "elapsed_time now prev"
  define st1 where "st1 = (if counters_need_update st then
       if elapsed_time now (last_time st) > 0
       then eager_pk_update_debounce_counters n (elapsed_time now (last_time st)) (st\<lparr>cooked_changed := False, last_time := now\<rparr>)
       else st\<lparr>cooked_changed := False, last_time := now\<rparr>
     else st\<lparr>cooked_changed := False\<rparr>)"
  define st2 where "st2 = (if counters_need_update st then st1 else st1\<lparr>last_time := now\<rparr>)"
  note half = eager_pk_first_half [OF inv [unfolded s], where now = now, folded st1_def]
  have sizes: "sized2 n (st, cooked)" "sized2 n (st2, cooked)" "sized2 n (st1, cooked)"
    and old: "\<And>x. x \<in> keys n \<Longrightarrow> key_counter x st \<le> ?D"
      "\<And>x. x \<in> keys n \<Longrightarrow> key_counter x st = 0 \<Longrightarrow> key_bit x cooked = key_bit x raw0"
    using inv half(1) by (auto simp: s eager_pk_inv_def counters_ok_def sized2_def st2_def split: if_splits)
  have D: "?D \<noteq> 0"
    using ms by (rule DEBOUNCE_TIME_nonzero)
  have call: "(r, s') = (let (st, cooked) = (if changed \<or> matrix_need_update st1
      then eager_pk_transfer_matrix_values ms raw n (st2, cooked) else (st1, cooked)) in (cooked_changed st, st, cooked))"
    using res ms by (auto simp: debounce_sym_eager_pk_def s Let_def st1_def st2_def)
  have stamp: "last_time st2 = now" "x \<in> keys n \<Longrightarrow> key_counter x st \<noteq> 0 \<Longrightarrow> last_time st1 = now" for x
    using inv by (auto simp: st2_def st1_def s eager_pk_inv_def counters_ok_def)
  have view2: "key_view x (st2, cooked) = (key_bit x cooked, count_down ?e (key_counter x st))" if "x \<in> keys n" for x
    using half(3) [OF that] by (simp add: key_view_def st2_def)
  have all: "sized2 n (st', cooked') \<and> \<not> matrix_need_update st' \<and>
      (r \<longleftrightarrow> (\<exists>x\<in>keys n. key_bit x raw \<noteq> key_bit x cooked \<and> count_down ?e (key_counter x st) = 0)) \<and>
      (\<forall>x \<in> keys n. key_view x (st', cooked') = eager_accept ?D (\<lambda>x. key_bit x raw) x (key_view x (st2, cooked)) \<and>
        (key_counter x st' \<noteq> 0 \<longrightarrow> counters_need_update st' \<and> last_time st' = now))"
  proof (cases "changed \<or> matrix_need_update st1")
    case True
    with call have tr: "eager_pk_transfer_matrix_values ms raw n (st2, cooked) = (st', cooked')" and r: "r = cooked_changed st'"
      by (auto simp: s' split: prod.splits)
    note acc = eager_pk_transfer [OF sizes(2) tr]
    have "last_time st' = now"
      using eager_pk_transfer_stamp [of ms raw n "(st2, cooked)"] stamp(1) by (simp add: tr)
    moreover have "counters_need_update st'" if "x \<in> keys n" "key_counter x st' \<noteq> 0" for x
      using acc(2) [OF that(1)] acc(3) half(4) [OF that(1)] that by (auto simp: eager_accept_def key_view_def st2_def split: if_splits)
    moreover have "r \<longleftrightarrow> (\<exists>x\<in>keys n. key_bit x raw \<noteq> key_bit x cooked \<and> count_down ?e (key_counter x st) = 0)"
      using acc(4) half(2) view2 by (auto simp: r st2_def key_view_def)
    ultimately show ?thesis
      using acc(1,2,5) by auto
  next
    case False
    with call have same: "st' = st1" "cooked' = cooked" "r = cooked_changed st1"
      by (auto simp: s')
    have agree: "key_bit x raw = key_bit x cooked" if "x \<in> keys n" "count_down ?e (key_counter x st) = 0" for x
      using False truthful that half(3) [OF that(1)] old(2) [OF that(1)] half(5) [OF _ that(1)] by auto
    have "counters_need_update st1 \<and> last_time st1 = now" if "x \<in> keys n" "key_counter x st1 \<noteq> 0" for x
      using half(3,4) [OF that(1)] that stamp(2) [OF that(1)] by fastforce
    then show ?thesis
      using False half(1,2) sizes agree view2 half(3) same
      by (auto simp: eager_accept_def key_view_def)
  qed
  have cells: "key_bit x cooked' = (if key_bit x raw \<noteq> key_bit x cooked \<and> count_down ?e (key_counter x st) = 0
        then key_bit x raw else key_bit x cooked)"
      "key_counter x st' = (if key_bit x raw \<noteq> key_bit x cooked \<and> count_down ?e (key_counter x st) = 0
        then ?D else count_down ?e (key_counter x st))" if "x \<in> keys n" for x
    using bspec [OF all [THEN conjunct2, THEN conjunct2, THEN conjunct2] that] view2 [OF that]
    by (auto simp: eager_accept_def key_view_def)
  have keyD: "key_counter x st' \<le> ?D" if "x \<in> keys n" for x
    using cells(2) [OF that] order_trans [OF count_down_le old(1) [OF that]] by simp
  have agree: "key_bit x cooked' = key_bit x raw" if "x \<in> keys n" "key_counter x st' = 0" for x
    using cells [OF that(1)] that(2) D by (simp split: if_splits)
  show "eager_pk_inv ms n now raw s'"
    using all keyD agree by (auto simp: s' eager_pk_inv_def counters_ok_def)
  show "key_state x s' = eager_key (DEBOUNCE_NAT 255 ms) (unat ?e) (key_bit x raw) (key_state x s)" if "x \<in> keys n"
  proof (rule eager_accept_key)
    show "key_view x s' = eager_accept ?D (\<lambda>x. key_bit x raw) x (key_bit x cooked, count_down ?e (key_counter x st))"
      using all that view2 by (simp add: s')
  qed (simp add: s key_view_def)
  show "r \<longleftrightarrow> (\<exists>x \<in> keys n. key_bit x (snd s') \<noteq> key_bit x (snd s))"
    using all cells(1) by (auto simp: s s')
qed

section \<open>Runs of \<open>sym_eager_pk\<close>\<close>

text \<open>
  A scan is the timer reading, the raw matrix and whether the matrix driver reported a change; the
  driver reports every change.
\<close>

type_synonym scan = "u32 \<times> matrix_row list \<times> bool"

fun reported :: "nat \<Rightarrow> matrix_row list \<Rightarrow> scan list \<Rightarrow> bool" where
  "reported n raw0 [] \<longleftrightarrow> True"
| "reported n raw0 ((now, raw, changed) # scans) \<longleftrightarrow>
     (\<not> changed \<longrightarrow> (\<forall>x \<in> keys n. key_bit x raw = key_bit x raw0)) \<and> reported n raw scans"

definition eager_pk_run :: "nat \<Rightarrow> nat \<Rightarrow> scan list \<Rightarrow>
    u8 eager_counting \<times> matrix_row list \<Rightarrow> u8 eager_counting \<times> matrix_row list" where
  "eager_pk_run ms n = fold (\<lambda>(now, raw, changed) s. snd (debounce_sym_eager_pk ms now raw n changed s))"

text \<open>The elapsed times (capped as the code caps them) and raw values one key sees.\<close>

fun gaps :: "u32 \<Rightarrow> scan list \<Rightarrow> nat list" where
  "gaps prev [] = []"
| "gaps prev ((now, raw, changed) # scans) = unat (elapsed_time now prev) # gaps now scans"

definition key_inputs :: "nat \<times> nat \<Rightarrow> scan list \<Rightarrow> bool list" where
  "key_inputs x = map (\<lambda>(now, raw, changed). key_bit x raw)"

definition last_scan :: "u32 \<times> matrix_row list \<Rightarrow> scan list \<Rightarrow> u32 \<times> matrix_row list" where
  "last_scan p scans = (if scans = [] then p else (fst (last scans), fst (snd (last scans))))"

lemma last_scan_simps [simp]:
  "last_scan p [] = p" "last_scan p ((now, raw, changed) # scans) = last_scan (now, raw) scans"
  by (auto simp: last_scan_def)

lemma eager_pk_run_refines:
  assumes "0 < ms"
  shows "eager_pk_inv ms n prev raw0 s \<Longrightarrow> reported n raw0 scans \<Longrightarrow>
    eager_pk_inv ms n (fst (last_scan (prev, raw0) scans)) (snd (last_scan (prev, raw0) scans)) (eager_pk_run ms n scans s) \<and>
    (\<forall>x \<in> keys n. key_state x (eager_pk_run ms n scans s) =
      fold (\<lambda>(e, r). eager_key (DEBOUNCE_NAT 255 ms) e r) (zip (gaps prev scans) (key_inputs x scans)) (key_state x s))"
proof (induction scans arbitrary: s prev raw0)
  case (Cons scan scans)
  obtain now raw changed where scan: "scan = (now, raw, changed)" by (cases scan)
  obtain r s' where call: "debounce_sym_eager_pk ms now raw n changed s = (r, s')" by (rule prod.exhaust)
  from Cons.prems scan have truthful: "\<not> changed \<Longrightarrow> \<forall>x \<in> keys n. key_bit x raw = key_bit x raw0"
    and rest: "reported n raw scans" by auto
  note step = eager_pk_call [OF assms Cons.prems(1) truthful call]
  from Cons.IH [OF step(1) rest] step(2) show ?case
    by (auto simp: scan eager_pk_run_def call key_inputs_def)
qed (simp add: eager_pk_run_def key_inputs_def)

text \<open>With a constant input the automaton's run is the contract's.\<close>

lemma fold_constant_input:
  "length es = length rs \<Longrightarrow> \<forall>v \<in> set rs. v = r \<Longrightarrow>
   fold (\<lambda>(e, r). step e r) (zip es rs) s = fold (\<lambda>e. step e r) es s"
  by (induction es rs arbitrary: s rule: list_induct2) auto

lemma length_gaps [simp]: "length (gaps prev scans) = length scans"
  by (induction prev scans rule: gaps.induct) auto

lemma length_key_inputs [simp]: "length (key_inputs x scans) = length scans"
  by (simp add: key_inputs_def)

lemma gaps_append: "gaps prev (xs @ ys) = gaps prev xs @ gaps (fst (last_scan (prev, raw0) xs)) ys"
  by (induction prev xs arbitrary: raw0 rule: gaps.induct) auto

text \<open>The lockout: between two flips of an eager key, the debounce time passes.\<close>

lemma eager_key_counter:
  "fst (eager_key D e r (k, c)) \<noteq> k \<Longrightarrow> c \<le> e \<and> eager_key D e r (k, c) = (r, D)"
  by (auto simp: eager_key_def split: if_splits)

lemma eager_key_run_counter:
  "length es = length rs \<Longrightarrow> D \<le> snd s + t \<Longrightarrow>
   D \<le> snd (fold (\<lambda>(e, r). eager_key D e r) (zip es rs) s) + (t + sum_list es)"
proof (induction es rs arbitrary: s t rule: list_induct2)
  case (Cons e es r rs)
  have "D \<le> snd (eager_key D e r s) + (t + e)"
    using Cons.prems by (cases s) (auto simp: eager_key_def)
  from Cons.IH [OF this] show ?case
    by (simp add: add.assoc)
qed simp

lemma eager_key_run_bound: "snd s \<le> D \<Longrightarrow> snd (fold (\<lambda>(e, r). eager_key D e r) ers s) \<le> D"
  by (induction ers arbitrary: s) (auto simp: eager_key_def split: prod.splits)

text \<open>After \<open>debounce_init\<close>, with everything up.\<close>

definition eager_pk_reset :: "nat \<Rightarrow> u8 eager_counting \<times> matrix_row list" where
  "eager_pk_reset n = (eager_counting_init (n * MATRIX_COLS), replicate n 0)"

lemma eager_pk_reset_inv: "eager_pk_inv ms n prev (replicate n 0) (eager_pk_reset n)"
  by (auto simp: eager_pk_inv_def counters_ok_def sized2_def sized_def eager_pk_reset_def eager_counting_init_def
      key_counter_def key_bit_def DEBOUNCE_ELAPSED_def keys_def counter_index_bound)

lemma eager_pk_reset_state: "x \<in> keys n \<Longrightarrow> key_state x (eager_pk_reset n) = (False, 0)"
  by (auto simp: eager_pk_reset_def eager_counting_init_def key_state_def key_view_def
      key_counter_def key_bit_def DEBOUNCE_ELAPSED_def keys_def counter_index_bound)

lemma key_bit_state: "key_bit x (snd s) = fst (key_state x s)"
  by (simp add: key_state_def key_view_def)

lemma reported_append:
  "reported n raw0 (xs @ ys) \<longleftrightarrow> reported n raw0 xs \<and> reported n (snd (last_scan (prev, raw0) xs)) ys"
  by (induction n raw0 xs arbitrary: prev rule: reported.induct) auto

lemma eager_pk_run_append: "eager_pk_run ms n (xs @ ys) s = eager_pk_run ms n ys (eager_pk_run ms n xs s)"
  by (simp add: eager_pk_run_def)

text \<open>
  C27.  The debouncer of the P1 keyboard (\<open>sym_eager_pk\<close>) treats the keys independently: whatever
  scans follow its initialisation, the reported state of every key is that of its own small automaton, which takes
  over a changed raw value at once when its counter has run out, starts the counter at the debounce
  time then, and only counts down otherwise.  The shared flags and the shared timestamp of the code do
  not couple the keys.
\<close>

theorem debounce_keys_independent:
  assumes "0 < ms" and "reported n (replicate n 0) scans" and "x \<in> keys n"
  shows "key_state x (eager_pk_run ms n scans (eager_pk_reset n)) =
    fold (\<lambda>(e, r). eager_key (DEBOUNCE_NAT 255 ms) e r) (zip (gaps prev scans) (key_inputs x scans)) (False, 0)"
  using eager_pk_run_refines [OF assms(1) eager_pk_reset_inv assms(2)] assms(3) by (simp add: eager_pk_reset_state)

text \<open>
  C6.  The lockout of the P1 keyboard's debouncer: between two changes of the reported state of one key at least the debounce time
  goes by, in timer readings that the code caps at 255 ms a call, whatever the switch does and whatever the other keys do.
\<close>

theorem debounce_lockout:
  assumes "0 < ms" and "reported n (replicate n 0) (pre @ a # mid @ [b])" and "x \<in> keys n"
  defines "reported_bit \<equiv> \<lambda>scans. key_bit x (snd (eager_pk_run ms n scans (eager_pk_reset n)))"
  assumes "reported_bit (pre @ [a]) \<noteq> reported_bit pre"
    and "reported_bit (pre @ a # mid @ [b]) \<noteq> reported_bit (pre @ a # mid)"
  shows "min 255 ms \<le> sum_list (gaps (fst a) (mid @ [b]))"
proof -
  let ?D = "DEBOUNCE_NAT 255 ms" and ?step = "\<lambda>(e, r). eager_key (DEBOUNCE_NAT 255 ms) e r"
  let ?run = "\<lambda>scans. eager_pk_run ms n scans (eager_pk_reset n)"
  have inv: "eager_pk_inv ms n (fst (last_scan (0, replicate n 0) xs)) (snd (last_scan (0, replicate n 0) xs)) (?run xs)"
    if "reported n (replicate n 0) (xs @ ys)" for xs ys
    using that eager_pk_run_refines [OF assms(1) eager_pk_reset_inv] by (simp add: reported_append [where prev = 0])
  have step: "key_state x (?run (xs @ ys)) =
      fold ?step (zip (gaps (fst (last_scan (0, replicate n 0) xs)) ys) (key_inputs x ys)) (key_state x (?run xs))"
    if "reported n (replicate n 0) (xs @ ys @ zs)" for xs ys zs
    using that eager_pk_run_refines [OF assms(1) inv, of xs ys ys] assms(3)
    by (simp add: reported_append [where prev = 0] eager_pk_run_append)
  obtain ka ca where before: "key_state x (?run pre) = (ka, ca)" by fastforce
  obtain e1 r1 where "key_state x (?run (pre @ [a])) = eager_key ?D e1 r1 (ka, ca)"
    using step [of pre "[a]" "mid @ [b]"] assms(2) before by (cases a) (auto simp: key_inputs_def)
  with assms(5) before have start: "key_state x (?run (pre @ [a])) = (r1, ?D)"
    using eager_key_counter [of ?D e1 r1 ka ca] by (auto simp: reported_bit_def key_bit_state)
  obtain k c where middle: "key_state x (?run (pre @ a # mid)) = (k, c)" by fastforce
  have "?D \<le> c + (0 + sum_list (gaps (fst a) mid))"
    using eager_key_run_counter [of "gaps (fst a) mid" "key_inputs x mid" ?D "(r1, ?D)" 0]
      step [of "pre @ [a]" mid "[b]"] assms(2) start middle by (cases a) (auto simp: last_scan_def)
  moreover obtain e2 r2 where e2: "key_state x (?run (pre @ a # mid @ [b])) = eager_key ?D e2 r2 (k, c)"
      "gaps (fst (last_scan (fst a, replicate n 0) mid)) [b] = [e2]"
    using step [of "pre @ a # mid" "[b]" "[]"] assms(2) middle
    by (cases a; cases b) (auto simp: key_inputs_def last_scan_def split: if_splits)
  moreover have "c \<le> e2"
    using e2(1) assms(6) middle eager_key_counter [of ?D e2 r2 k c] by (auto simp: reported_bit_def key_bit_state)
  ultimately show ?thesis
    using gaps_append [of "fst a" mid "[b]" "replicate n 0"] by (simp add: DEBOUNCE_NAT_def)
qed

lemma eager_pk_settles:
  assumes "0 < ms" and "reported n (replicate n 0) (pre @ quiet)" and "x \<in> keys n"
    and "quiet \<noteq> []" and "\<forall>scan \<in> set quiet. fst (snd scan) = raw"
    and "min 255 ms \<le> sum_list (gaps (fst (last_scan (0, replicate n 0) pre)) quiet)"
  shows "key_bit x (snd (eager_pk_run ms n (pre @ quiet) (eager_pk_reset n))) = key_bit x raw"
proof -
  let ?D = "DEBOUNCE_NAT 255 ms" and ?s = "eager_pk_run ms n pre (eager_pk_reset n)"
  let ?es = "gaps (fst (last_scan (0, replicate n 0) pre)) quiet"
  from assms(2) have rep: "reported n (replicate n 0) pre" "reported n (snd (last_scan (0, replicate n 0) pre)) quiet"
    by (simp_all add: reported_append [where prev = 0])
  note before = eager_pk_run_refines [OF assms(1) eager_pk_reset_inv rep(1), of 0]
  from before have inv: "eager_pk_inv ms n (fst (last_scan (0, replicate n 0) pre)) (snd (last_scan (0, replicate n 0) pre)) ?s"
    by simp
  have const: "\<forall>v \<in> set (key_inputs x quiet). v = key_bit x raw"
    using assms(5) by (auto simp: key_inputs_def)
  have "snd (key_state x ?s) \<le> ?D"
    using before assms(3) by (simp add: eager_pk_reset_state eager_key_run_bound)
  moreover have "key_state x (eager_pk_run ms n (pre @ quiet) (eager_pk_reset n)) =
      fold (\<lambda>e. eager_key ?D e (key_bit x raw)) ?es (key_state x ?s)"
    using eager_pk_run_refines [OF assms(1) inv rep(2)] assms(3)
      fold_constant_input [of ?es "key_inputs x quiet" "key_bit x raw" "eager_key ?D" "key_state x ?s"] const
    by (simp add: eager_pk_run_append)
  ultimately show ?thesis
    using eager.scans_settle [of "key_state x ?s" ?D ?es "sum_list ?es" "key_bit x raw"] assms(4,6)
    by (simp add: key_bit_state DEBOUNCE_NAT_def member_le_sum_list length_greater_0_conv [symmetric] del: length_greater_0_conv)
qed

text \<open>
  C7.  A raw matrix that stops changing is reported within the debounce time: once the scans since have
  counted 255 or \<open>DEBOUNCE\<close> milliseconds, every key of the cooked matrix of the P1 keyboard agrees with the raw matrix,
  even when the last bounce fell into the lockout and even when no further change is reported to the debouncer.
\<close>

theorem debounce_settles:
  assumes "0 < ms" and "reported n (replicate n 0) (pre @ quiet)" and "x \<in> keys n"
    and "quiet \<noteq> []" and "\<forall>scan \<in> set quiet. fst (snd scan) = raw"
    and "min 255 ms \<le> sum_list (gaps (fst (last_scan (0, replicate n 0) pre)) quiet)"
  shows "key_bit x (snd (eager_pk_run ms n (pre @ quiet) (eager_pk_reset n))) = key_bit x raw"
  using assms by (rule eager_pk_settles)

text \<open>
  A switch in column 3 of a one-row board closes at 10, bounces at 15, 17 and 20 and is up for good from 33: it is reported
  down at 10 and up at 33.
\<close>

definition bouncing :: "scan list" where
  "bouncing = [(10, [8], True), (15, [0], True), (17, [8], True), (20, [8], False), (29, [8], False), (33, [0], True)]"

theorem debounce_keys_independent_witness:
  "key_state (0, 3) (eager_pk_run 20 1 bouncing (eager_pk_reset 1)) = (False, 20)"
proof -
  have "(0, 3) \<in> keys 1"
    by (simp add: keys_def MATRIX_COLS_def)
  from debounce_keys_independent [OF _ _ this, of 20 bouncing 0] show ?thesis
    by (simp add: bouncing_def key_inputs_def key_bit_def elapsed_time_def timer_diff32_def eager_key_def DEBOUNCE_NAT_def bit_numeral_rec)
qed

lemma bouncing_run:
  "prev \<le> length bouncing \<Longrightarrow> key_bit (0, 3) (snd (eager_pk_run 20 1 (take prev bouncing) (eager_pk_reset 1))) =
     fst (fold (\<lambda>(e, r). eager_key 20 e r) (zip (gaps 0 (take prev bouncing)) (key_inputs (0, 3) (take prev bouncing))) (False, 0))"
proof -
  have x: "(0, 3) \<in> keys 1"
    by (simp add: keys_def MATRIX_COLS_def)
  have rep: "reported 1 (replicate 1 0) bouncing"
    by (simp add: bouncing_def)
  have "reported 1 (replicate 1 0) (take prev bouncing)"
    using reported_append [of 1 "replicate 1 0" "take prev bouncing" "drop prev bouncing" 0] rep by simp
  from eager_pk_run_refines [OF _ eager_pk_reset_inv this, of 20 0] x eager_pk_reset_state [OF x] show ?thesis
    by (simp add: key_bit_state DEBOUNCE_NAT_def)
qed

theorem debounce_lockout_witness:
  "20 \<le> sum_list (gaps 10 (drop 1 bouncing))"
proof -
  let ?a = "(10, [8], True) :: scan" and ?b = "(33, [0], True) :: scan"
    and ?mid = "[(15, [0], True), (17, [8], True), (20, [8], False), (29, [8], False)] :: scan list"
  let ?bit = "\<lambda>scans. key_bit (0, 3) (snd (eager_pk_run 20 1 scans (eager_pk_reset 1)))"
  have eq: "take 0 bouncing = []" "take 1 bouncing = [] @ [?a]" "take 5 bouncing = [] @ ?a # ?mid"
      "take 6 bouncing = [] @ ?a # ?mid @ [?b]"
    by (simp_all add: bouncing_def)
  note eval = key_inputs_def key_bit_def elapsed_time_def timer_diff32_def eager_key_def bit_numeral_rec
  have bits: "\<not> ?bit []" "?bit ([] @ [?a])" "?bit ([] @ ?a # ?mid)" "\<not> ?bit ([] @ ?a # ?mid @ [?b])"
    using bouncing_run [of 0] bouncing_run [of 1] bouncing_run [of 5] bouncing_run [of 6]
    unfolding eq by (simp_all add: bouncing_def eval)
  have "min 255 20 \<le> sum_list (gaps (fst ?a) (?mid @ [?b]))"
    using bits by (intro debounce_lockout [of 20 1 "[]" ?a ?mid ?b "(0, 3)"]) (simp_all add: keys_def MATRIX_COLS_def)
  then show ?thesis
    by (simp add: bouncing_def)
qed

theorem debounce_settles_witness:
  "\<not> key_bit (0, 3) (snd (eager_pk_run 20 1 (take 5 bouncing @ drop 5 bouncing @ [(44, [0], False), (54, [0], False)]) (eager_pk_reset 1)))"
proof -
  have x: "(0, 3) \<in> keys 1"
    by (simp add: keys_def MATRIX_COLS_def)
  have "key_bit (0, 3) (snd (eager_pk_run 20 1 (take 5 bouncing @ drop 5 bouncing @ [(44, [0], False), (54, [0], False)]) (eager_pk_reset 1))) =
      key_bit (0, 3) [0]"
    by (rule debounce_settles [OF _ _ x])
      (simp_all add: bouncing_def elapsed_time_def timer_diff32_def)
  then show ?thesis
    by (simp add: key_bit_def)
qed

end
