(* ===== verification/Debounce_Defer.thy ===== *)
theory Debounce_Defer
  imports Debounce_Laws
begin

text \<open>
  The deferring debouncers per row and per key (\<open>sym_defer_pr\<close>, \<open>sym_defer_pk\<close>): every
  row or key moves like its automaton, so a raw matrix that holds still is taken over in bounded time, and nothing else is.
\<close>

section \<open>\<open>sym_defer_pr\<close>\<close>

definition defer_pr_state :: "nat \<Rightarrow> defer_pr \<times> matrix_row list \<Rightarrow> matrix_row \<times> matrix_row \<times> nat" where
  "defer_pr_state row = (\<lambda>(st, cooked). (cooked ! row, last_raw st ! row, unat (countdowns st ! row)))"

definition defer_pr_ok :: "nat \<Rightarrow> defer_pr \<times> matrix_row list \<Rightarrow> bool" where
  "defer_pr_ok n = (\<lambda>(st, cooked). length cooked = n \<and> length (last_raw st) = n \<and> length (countdowns st) = n)"

lemma word_xor_eq_0: "x XOR y = 0 \<longleftrightarrow> x = (y :: 'a :: len word)"
  by (metis xor.assoc xor.left_neutral xor_self_eq)

definition elapsed_pr :: "u16 \<Rightarrow> u16 \<Rightarrow> u8" where
  "elapsed_pr now since = (if timer_diff16 now since > 255 then 255 else ucast (timer_diff16 now since))"

interpretation defer_pr_rows: cell_loop "\<lambda>row (ch, s). defer_pr_state row s" "defer_pr_row ms e raw"
    "\<lambda>row. defer_row (unat (of_nat ms :: u8)) (unat e) (raw ! row)" "(=)" "{..<n}" "{..<n}" "\<lambda>(ch, s). defer_pr_ok n s"
    "\<lambda>(i :: unit) (ch, s). ch" "\<lambda>i row (k, l, c). raw ! row = l \<and> c \<noteq> 0 \<and> c \<le> unat e \<and> k \<noteq> raw ! row" for ms e raw n
proof unfold_locales
  fix row x and i :: unit and s :: "bool \<times> defer_pr \<times> matrix_row list"
  assume row: "row \<in> {..<n}" and ok: "case s of (ch, s) \<Rightarrow> defer_pr_ok n s"
  obtain ch st cooked where s: "s = (ch, st, cooked)" by (cases s) auto
  have len: "row < length cooked" "row < length (last_raw st)" "row < length (countdowns st)"
    using row ok by (auto simp: s defer_pr_ok_def)
  note defs = s defer_pr_row_def Let_def defer_pr_state_def defer_pr_ok_def
  show "case defer_pr_row ms e raw row s of (ch, s) \<Rightarrow> defer_pr_ok n s"
    using ok by (simp add: defs)
  show "(case defer_pr_row ms e raw row s of (ch, s) \<Rightarrow> defer_pr_state x s) =
      (if row = x then defer_row (unat (of_nat ms :: u8)) (unat e) (raw ! x) (case s of (ch, s) \<Rightarrow> defer_pr_state x s)
       else (case s of (ch, s) \<Rightarrow> defer_pr_state x s))"
    using len by (auto simp: defs defer_row_def word_less_nat_alt unat_sub word_le_nat_alt unat_eq_zero)
  show "(case defer_pr_row ms e raw row s of (ch, s) \<Rightarrow> ch) \<longleftrightarrow> (case s of (ch, s) \<Rightarrow> ch) \<or>
      (\<exists>x\<in>{..<n}. row = x \<and> (\<lambda>(k, l, c). raw ! x = l \<and> c \<noteq> 0 \<and> c \<le> unat e \<and> k \<noteq> raw ! x)
         (case s of (ch, s) \<Rightarrow> defer_pr_state x s))"
    using len row by (auto simp: defs word_less_nat_alt unat_gt_0 word_xor_eq_0)
qed simp

lemma defer_pr_call:
  assumes ok: "defer_pr_ok n (st, cooked)"
    and res: "debounce_sym_defer_pr ms now raw n changed (st, cooked) = (r, s')"
  shows "defer_pr_ok n s'" and "last_time16 (fst s') = now"
    and "row < n \<Longrightarrow> defer_pr_state row s' =
      defer_row (unat (of_nat ms :: u8)) (unat (elapsed_pr now (last_time16 st))) (raw ! row) (defer_pr_state row (st, cooked))"
    and "r \<longleftrightarrow> (\<exists>row < n. snd s' ! row \<noteq> cooked ! row)"
proof -
  let ?s = "(False, st\<lparr>last_time16 := now\<rparr>, cooked)" and ?e = "elapsed_pr now (last_time16 st)"
  have rows: "distinct [0..<n]" "set [0..<n] \<subseteq> {..<n}" and s: "case ?s of (ch, s) \<Rightarrow> defer_pr_ok n s"
    using ok by (auto simp: defer_pr_ok_def)
  have res: "for_rows n (defer_pr_row ms ?e raw) ?s = (r, s')"
    using res by (simp add: debounce_sym_defer_pr_def Let_def elapsed_pr_def)
  note loop = defer_pr_rows.fold_view [OF rows s, where ms = ms and e = ?e and raw = raw, folded for_rows_def, unfolded res]
    and flag = defer_pr_rows.fold_flag [OF rows s, where ms = ms and e = ?e and raw = raw, folded for_rows_def, unfolded res]
  show "defer_pr_ok n s'"
    using defer_pr_rows.fold_ok [OF rows(2) s, of ms ?e raw, folded for_rows_def, unfolded res] by simp
  show state: "defer_pr_state row s' =
      defer_row (unat (of_nat ms :: u8)) (unat ?e) (raw ! row) (defer_pr_state row (st, cooked))" if "row < n" for row
    using loop [of row] that by (simp add: defer_pr_state_def)
  have "last_time16 (fst (snd (defer_pr_row ms ?e raw row s))) = last_time16 (fst (snd s))" for row s
    by (cases s) (simp add: defer_pr_row_def Let_def)
  then show "last_time16 (fst s') = now"
    using fold_frame [of "\<lambda>s. last_time16 (fst (snd s))" "defer_pr_row ms ?e raw" "[0..<n]" ?s] res
    by (simp add: for_rows_def)
  show "r \<longleftrightarrow> (\<exists>row < n. snd s' ! row \<noteq> cooked ! row)"
  proof -
    have "snd s' ! row = fst (defer_pr_state row s')" for row
      by (simp add: defer_pr_state_def split: prod.split)
    then have "snd s' ! row \<noteq> cooked ! row \<longleftrightarrow> (case defer_pr_state row (st, cooked) of (k, l, c) \<Rightarrow>
        raw ! row = l \<and> c \<noteq> 0 \<and> c \<le> unat ?e \<and> k \<noteq> raw ! row)" if "row < n" for row
      using state [OF that] by (auto simp: defer_pr_state_def defer_row_def)
    then show ?thesis
      using flag by (simp add: Bex_def defer_pr_state_def conj_commute cong: conj_cong)
  qed
qed

section \<open>\<open>sym_defer_pk\<close>\<close>

definition defer_expire :: "u8 \<Rightarrow> ('x \<Rightarrow> 'v) \<Rightarrow> 'x \<Rightarrow> 'v \<times> u8 \<Rightarrow> 'v \<times> u8" where
  "defer_expire e raw x = (\<lambda>(k, c). if c \<noteq> 0 then if c \<le> e then (raw x, 0) else (k, c - e) else (k, c))"

definition defer_expire_raised :: "u8 \<Rightarrow> ('x \<Rightarrow> 'v) \<Rightarrow> bool \<Rightarrow> 'x \<Rightarrow> 'v \<times> u8 \<Rightarrow> bool" where
  "defer_expire_raised e raw i x = (\<lambda>(k, c). if i then e < c else c \<noteq> 0 \<and> c \<le> e \<and> k \<noteq> raw x)"

fun defer_flag :: "bool \<Rightarrow> ('c, 'm) counting_scheme \<Rightarrow> bool" where
  "defer_flag True st = counters_need_update st"
| "defer_flag False st = cooked_changed st"

lemma transfer_bit:
  "col < MATRIX_COLS \<Longrightarrow> bit ((w AND NOT (col_mask col)) OR (r AND col_mask col)) j = (if j = col then bit r col else bit w j)"
  for w r :: matrix_row
  by (auto simp: bit_simps col_mask_bit dest: bit_imp_le_length)

lemma transfer_change:
  "col < MATRIX_COLS \<Longrightarrow> w XOR ((w AND NOT (col_mask col)) OR (r AND col_mask col)) \<noteq> 0 \<longleftrightarrow> bit w col \<noteq> bit r col"
  for w r :: matrix_row
  by (auto simp: word_xor_eq_0 transfer_bit intro!: bit_word_eqI dest!: arg_cong [of w _ "\<lambda>w. bit w col"]
      split: if_splits)

lemma sized2_simps [simp]: "sized2 n (st, cooked) \<longleftrightarrow> sized n st \<and> length cooked = n"
  by (simp add: sized2_def)

interpretation defer_update_cols: cell_loop key_view "defer_pk_update_key e raw row" "defer_expire e (\<lambda>x. key_bit x raw)"
    "owns_key row" "keys n" "{col. (row, col) \<in> keys n}" "sized2 n" "\<lambda>i (st, cooked). defer_flag i st"
    "defer_expire_raised e (\<lambda>x. key_bit x raw)" for e raw row n
proof unfold_locales
  fix col x i and s :: "u8 counting \<times> matrix_row list"
  assume col: "col \<in> {col. (row, col) \<in> keys n}" and ok: "sized2 n s"
  obtain st cooked where s: "s = (st, cooked)" by (cases s)
  have cnt: "debounce_counters st ! counter_index row col = key_counter (row, col) st"
    by (simp add: key_counter_def)
  have c: "col < MATRIX_COLS" "row < length cooked"
    using col ok by (auto simp: keys_def s)
  note defs = s defer_pk_update_key_def Let_def cnt owns_key_def DEBOUNCE_ELAPSED_def
  show "sized2 n (defer_pk_update_key e raw row col s)"
    using ok by (simp add: defs)
  show "key_view x (defer_pk_update_key e raw row col s) =
      (if owns_key row col x then defer_expire e (\<lambda>x. key_bit x raw) x (key_view x s) else key_view x s)" if "x \<in> keys n"
    using that col c ok
    by (cases x) (auto simp: defs defer_expire_def key_view_def key_bit_row_update transfer_bit, auto simp: key_bit_def)
  show "(case defer_pk_update_key e raw row col s of (st, cooked) \<Rightarrow> defer_flag i st) \<longleftrightarrow>
      (case s of (st, cooked) \<Rightarrow> defer_flag i st) \<or>
      (\<exists>x\<in>keys n. owns_key row col x \<and> defer_expire_raised e (\<lambda>x. key_bit x raw) i x (key_view x s))"
    using col c ok transfer_change [OF c(1), of "cooked ! row" "raw ! row"]
    by (cases i) (auto simp: defs defer_expire_raised_def key_view_def key_bit_def)
qed (simp_all add: owns_key_def)

interpretation defer_update_rows: cell_loop key_view "\<lambda>row. for_cols (defer_pk_update_key e raw row)"
    "defer_expire e (\<lambda>x. key_bit x raw)" owns_row "keys n" "{..<n}" "sized2 n" "\<lambda>i (st, cooked). defer_flag i st"
    "defer_expire_raised e (\<lambda>x. key_bit x raw)" for e raw n
  by (rule nested_cells) (rule defer_update_cols.cell_loop_axioms)

definition defer_start :: "u8 \<Rightarrow> ('x \<Rightarrow> bool) \<Rightarrow> 'x \<Rightarrow> u8 \<Rightarrow> u8" where
  "defer_start D delta x c = (if delta x then if c = 0 then D else c else 0)"

definition defer_start_raised :: "('x \<Rightarrow> bool) \<Rightarrow> bool \<Rightarrow> 'x \<Rightarrow> u8 \<Rightarrow> bool" where
  "defer_start_raised delta i x c \<longleftrightarrow> i \<and> delta x \<and> c = 0"

interpretation defer_start_cols: cell_loop key_counter "start_debounce_key ms row (raw ! row XOR cooked ! row)"
    "defer_start (DEBOUNCE_TIME 255 ms) (\<lambda>x. key_bit x raw \<noteq> key_bit x cooked)"
    "owns_key row" "keys n" "{col. (row, col) \<in> keys n}" "sized n" defer_flag
    "defer_start_raised (\<lambda>x. key_bit x raw \<noteq> key_bit x cooked)" for ms row raw cooked n
proof unfold_locales
  fix col x i and st :: "u8 counting"
  assume col: "col \<in> {col. (row, col) \<in> keys n}" and st: "sized n st"
  have cnt: "debounce_counters st ! counter_index row col = key_counter (row, col) st"
    by (simp add: key_counter_def)
  have c: "col < MATRIX_COLS"
    using col by (auto simp: keys_def)
  have delta: "(raw ! row XOR cooked ! row) AND col_mask col \<noteq> 0 \<longleftrightarrow> key_bit (row, col) raw \<noteq> key_bit (row, col) cooked"
    using and_col_mask [OF c] by (auto simp: key_bit_def bit_xor_iff)
  let ?b = "start_debounce_key ms row (raw ! row XOR cooked ! row) col st"
  note defs = start_debounce_key_def Let_def cnt owns_key_def DEBOUNCE_ELAPSED_def delta
  show "sized n ?b"
    using st by (simp add: defs)
  show "key_counter x ?b = (if owns_key row col x then
      defer_start (DEBOUNCE_TIME 255 ms) (\<lambda>x. key_bit x raw \<noteq> key_bit x cooked) x (key_counter x st) else key_counter x st)"
    if "x \<in> keys n"
    using that col st by (auto simp: defs defer_start_def)
  show "defer_flag i ?b \<longleftrightarrow> defer_flag i st \<or>
      (\<exists>x\<in>keys n. owns_key row col x \<and> defer_start_raised (\<lambda>x. key_bit x raw \<noteq> key_bit x cooked) i x (key_counter x st))"
    using col st by (cases i) (auto simp: defs defer_start_raised_def)
qed (simp_all add: owns_key_def)

interpretation defer_start_rows: cell_loop key_counter "\<lambda>row. for_cols (start_debounce_key ms row (raw ! row XOR cooked ! row))"
    "defer_start (DEBOUNCE_TIME 255 ms) (\<lambda>x. key_bit x raw \<noteq> key_bit x cooked)"
    owns_row "keys n" "{..<n}" "sized n" defer_flag
    "defer_start_raised (\<lambda>x. key_bit x raw \<noteq> key_bit x cooked)" for ms raw cooked n
  by (rule nested_cells) (rule defer_start_cols.cell_loop_axioms)

lemma defer_pk_update:
  fixes st :: "u8 counting" and e :: u8
  assumes "sized2 n (st, cooked)" and "defer_pk_update_debounce_counters raw n e (st, cooked) = (st', cooked')"
  shows "sized2 n (st', cooked')"
    and "x \<in> keys n \<Longrightarrow> key_view x (st', cooked') = defer_expire e (\<lambda>x. key_bit x raw) x (key_view x (st, cooked))"
    and "counters_need_update st' \<longleftrightarrow> (\<exists>x \<in> keys n. e < key_counter x st)"
    and "cooked_changed st' \<longleftrightarrow> cooked_changed st \<or>
      (\<exists>x \<in> keys n. key_counter x st \<noteq> 0 \<and> key_counter x st \<le> e \<and> key_bit x cooked \<noteq> key_bit x raw)"
proof -
  have "sized2 n (st\<lparr>counters_need_update := False\<rparr>, cooked)"
    using assms(1) by simp
  note loop = all_cells [OF defer_update_rows.cell_loop_axioms [where e = e and raw = raw] this,
      unfolded assms(2) [unfolded defer_pk_update_debounce_counters_def prod.case]]
  show "sized2 n (st', cooked')"
      "x \<in> keys n \<Longrightarrow> key_view x (st', cooked') = defer_expire e (\<lambda>x. key_bit x raw) x (key_view x (st, cooked))"
      "counters_need_update st' \<longleftrightarrow> (\<exists>x \<in> keys n. e < key_counter x st)"
      "cooked_changed st' \<longleftrightarrow> cooked_changed st \<or>
        (\<exists>x \<in> keys n. key_counter x st \<noteq> 0 \<and> key_counter x st \<le> e \<and> key_bit x cooked \<noteq> key_bit x raw)"
    using loop(1,3) loop(2) [of True] loop(2) [of False] by (auto simp: defer_expire_raised_def key_view_def)
qed

lemma defer_pk_start:
  fixes st :: "u8 counting" and ms :: nat and raw cooked :: "matrix_row list"
  assumes "sized n st"
  defines "st' \<equiv> start_debounce_counters ms raw cooked n st"
  shows "sized n st'"
    and "x \<in> keys n \<Longrightarrow> key_counter x st' =
      defer_start (DEBOUNCE_TIME 255 ms) (\<lambda>x. key_bit x raw \<noteq> key_bit x cooked) x (key_counter x st)"
    and "counters_need_update st' \<longleftrightarrow> counters_need_update st \<or>
      (\<exists>x \<in> keys n. key_bit x raw \<noteq> key_bit x cooked \<and> key_counter x st = 0)"
    and "cooked_changed st' \<longleftrightarrow> cooked_changed st"
proof -
  note loop = all_cells [OF defer_start_rows.cell_loop_axioms [where ms = ms and raw = raw and cooked = cooked] assms(1),
      folded start_debounce_counters_def st'_def]
  show "sized n st'" "x \<in> keys n \<Longrightarrow> key_counter x st' =
      defer_start (DEBOUNCE_TIME 255 ms) (\<lambda>x. key_bit x raw \<noteq> key_bit x cooked) x (key_counter x st)"
    "counters_need_update st' \<longleftrightarrow> counters_need_update st \<or>
      (\<exists>x \<in> keys n. key_bit x raw \<noteq> key_bit x cooked \<and> key_counter x st = 0)"
    "cooked_changed st' \<longleftrightarrow> cooked_changed st"
    using loop(1,3) loop(2) [of True] loop(2) [of False] by (auto simp: defer_start_raised_def)
qed

text \<open>Between calls a counter runs exactly for the keys whose raw value has not been taken over.\<close>

definition defer_pk_inv :: "nat \<Rightarrow> nat \<Rightarrow> u32 \<Rightarrow> matrix_row list \<Rightarrow> u8 counting \<times> matrix_row list \<Rightarrow> bool" where
  "defer_pk_inv ms n prev raw s \<longleftrightarrow> counters_ok (DEBOUNCE_TIME 255 ms) n prev raw s \<and>
    (\<forall>x \<in> keys n. key_counter x (fst s) \<noteq> 0 \<longrightarrow> key_bit x (snd s) \<noteq> key_bit x raw)"

lemma defer_pk_first_half:
  fixes st :: "u8 counting" and now :: u32
  assumes inv: "defer_pk_inv ms n prev raw0 (st, cooked)"
    and half: "(if counters_need_update st then
       if elapsed_time now (last_time st) > 0
       then defer_pk_update_debounce_counters raw n (elapsed_time now (last_time st))
              (st\<lparr>cooked_changed := False, last_time := now\<rparr>, cooked)
       else (st\<lparr>cooked_changed := False, last_time := now\<rparr>, cooked)
     else (st\<lparr>cooked_changed := False\<rparr>, cooked)) = (st1, cooked1)"
  shows "sized2 n (st1, cooked1)"
    and "x \<in> keys n \<Longrightarrow> key_view x (st1, cooked1) =
      defer_expire (elapsed_time now prev) (\<lambda>x. key_bit x raw) x (key_view x (st, cooked))"
    and "x \<in> keys n \<Longrightarrow> key_counter x st1 \<noteq> 0 \<Longrightarrow> counters_need_update st1"
    and "cooked_changed st1 \<longleftrightarrow> (\<exists>x \<in> keys n. key_bit x cooked1 \<noteq> key_bit x cooked)"
proof -
  let ?e = "elapsed_time now (last_time st)" and ?s = "st\<lparr>cooked_changed := False, last_time := now\<rparr>"
  have ok: "sized2 n (?s, cooked)" "sized n st"
    and run: "\<And>x. x \<in> keys n \<Longrightarrow> key_counter x st \<noteq> 0 \<Longrightarrow> counters_need_update st \<and> last_time st = prev"
    using inv by (auto simp: defer_pk_inv_def counters_ok_def split: if_splits)
  consider (update) "counters_need_update st" "?e > 0"
      "defer_pk_update_debounce_counters raw n ?e (?s, cooked) = (st1, cooked1)"
    | (still) "?e = 0 \<or> \<not> counters_need_update st" "cooked1 = cooked" "\<not> cooked_changed st1" "\<And>x. key_counter x st1 = key_counter x st"
      "counters_need_update st1 = counters_need_update st" "sized n st1"
    using half ok(2) by (auto simp: word_gt_0 split: if_splits)
  then have "sized2 n (st1, cooked1) \<and> (cooked_changed st1 \<longleftrightarrow> (\<exists>x \<in> keys n. key_bit x cooked1 \<noteq> key_bit x cooked)) \<and>
    (\<forall>x \<in> keys n. key_view x (st1, cooked1) = defer_expire (elapsed_time now prev) (\<lambda>x. key_bit x raw) x (key_view x (st, cooked))
      \<and> (key_counter x st1 \<noteq> 0 \<longrightarrow> counters_need_update st1))"
  proof cases
    case update
    note upd = defer_pk_update [OF ok(1) update(3)]
    have view: "key_view x (st1, cooked1) = defer_expire ?e (\<lambda>x. key_bit x raw) x (key_bit x cooked, key_counter x st)"
      if "x \<in> keys n" for x
      using upd(2) [OF that] by (simp add: key_view_def)
    have same_e: "defer_expire ?e f x (k, key_counter x st) = defer_expire (elapsed_time now prev) f x (k, key_counter x st)"
      if "x \<in> keys n" for x k and f :: "nat \<times> nat \<Rightarrow> bool"
      using run [OF that] by (cases "key_counter x st = 0") (auto simp: defer_expire_def)
    have "key_counter x st1 \<noteq> 0 \<longrightarrow> counters_need_update st1" if "x \<in> keys n" for x
      using view [OF that] upd(3) that by (auto simp: key_view_def defer_expire_def not_le split: if_splits)
    moreover have "cooked_changed st1 \<longleftrightarrow> (\<exists>x \<in> keys n. key_bit x cooked1 \<noteq> key_bit x cooked)"
    proof -
      have "key_bit x cooked1 \<noteq> key_bit x cooked \<longleftrightarrow> key_counter x st \<noteq> 0 \<and> key_counter x st \<le> ?e \<and> key_bit x cooked \<noteq> key_bit x raw"
        if "x \<in> keys n" for x
        using view [OF that] by (auto simp: key_view_def defer_expire_def split: if_splits)
      then show ?thesis
        using upd(4) by simp
    qed
    ultimately show ?thesis
      using upd(1) view same_e by (simp add: key_view_def)
  next
    case still
    then have "defer_expire (elapsed_time now prev) f x (k, key_counter x st) = (k, key_counter x st)"
      if "x \<in> keys n" for x k and f :: "nat \<times> nat \<Rightarrow> bool"
      using run [OF that] by (cases "key_counter x st = 0") (auto simp: defer_expire_def)
    with still run ok show ?thesis
      by (auto simp: key_view_def)
  qed
  then show "sized2 n (st1, cooked1)"
    "x \<in> keys n \<Longrightarrow> key_view x (st1, cooked1) =
      defer_expire (elapsed_time now prev) (\<lambda>x. key_bit x raw) x (key_view x (st, cooked))"
    "x \<in> keys n \<Longrightarrow> key_counter x st1 \<noteq> 0 \<Longrightarrow> counters_need_update st1"
    "cooked_changed st1 \<longleftrightarrow> (\<exists>x \<in> keys n. key_bit x cooked1 \<noteq> key_bit x cooked)"
    by blast+
qed

lemma defer_key_cases:
  assumes "defer_expire e raw x (k, c) = (k1, c1)"
    and "changed \<or> (raw x = k \<longleftrightarrow> c = 0)"
    and "c2 = (if changed then if raw x \<noteq> k1 then if c1 = 0 then DEBOUNCE_TIME 255 ms else c1 else 0 else c1)"
  shows "(k1, unat c2) = defer_key (DEBOUNCE_NAT 255 ms) (unat e) (raw x) (k, unat c)"
proof (cases "c = 0")
  case True
  with assms show ?thesis
    by (auto simp: defer_expire_def defer_start_def defer_key_def unat_DEBOUNCE_TIME split: if_splits)
next
  case False
  then have "unat c \<noteq> 0"
    by (simp add: unat_eq_zero)
  with False assms show ?thesis
    by (cases "c \<le> e"; cases changed) (auto simp: defer_expire_def defer_start_def defer_key_def word_le_nat_alt unat_sub unat_eq_zero
        dest: arg_cong [of _ _ unat])
qed

lemma defer_expire_bound:
  "defer_expire e raw x (k, c) = (k1, c1) \<Longrightarrow> c1 \<le> c" and defer_expire_zero: "defer_expire e raw x (k, c) = (k1, c1) \<Longrightarrow> c1 = 0 \<Longrightarrow> c \<noteq> 0 \<Longrightarrow> k1 = raw x"
  by (auto simp: defer_expire_def word_le_nat_alt unat_sub split: if_splits)

lemma defer_pk_update_stamp:
  "last_time (fst (defer_pk_update_debounce_counters raw n e s)) = last_time (fst s)"
proof -
  have "last_time (fst (defer_pk_update_key e raw row col s)) = last_time (fst s)" for row col s
    by (cases s) (simp add: defer_pk_update_key_def Let_def)
  then show ?thesis
    by (cases s) (simp add: defer_pk_update_debounce_counters_def for_rows_def for_cols_def
        fold_frame [of "\<lambda>s. last_time (fst s)"])
qed

lemma start_debounce_stamp: "last_time (start_debounce_counters ms raw cooked n st) = last_time st"
proof -
  have "last_time (start_debounce_key ms row delta col st) = last_time st" for row delta col st
    by (simp add: start_debounce_key_def Let_def)
  then show ?thesis
    by (simp add: start_debounce_counters_def for_rows_def for_cols_def fold_frame [of last_time])
qed

lemma defer_pk_call:
  fixes s :: "u8 counting \<times> matrix_row list"
  assumes ms: "0 < ms" and inv: "defer_pk_inv ms n prev raw0 s"
    and truthful: "\<not> changed \<Longrightarrow> \<forall>x \<in> keys n. key_bit x raw = key_bit x raw0"
    and res: "debounce_sym_defer_pk ms now raw n changed s = (r, s')"
  shows "defer_pk_inv ms n now raw s'"
    and "x \<in> keys n \<Longrightarrow> key_state x s' =
      defer_key (DEBOUNCE_NAT 255 ms) (unat (elapsed_time now prev)) (key_bit x raw) (key_state x s)"
    and "r \<longleftrightarrow> (\<exists>x \<in> keys n. key_bit x (snd s') \<noteq> key_bit x (snd s))"
proof -
  obtain st cooked where s: "s = (st, cooked)" by (cases s)
  obtain st' cooked' where s': "s' = (st', cooked')" by (cases s')
  let ?D = "DEBOUNCE_TIME 255 ms" and ?e = "elapsed_time now prev"
  obtain st1 cooked1 where half: "(if counters_need_update st then
       if elapsed_time now (last_time st) > 0
       then defer_pk_update_debounce_counters raw n (elapsed_time now (last_time st))
              (st\<lparr>cooked_changed := False, last_time := now\<rparr>, cooked)
       else (st\<lparr>cooked_changed := False, last_time := now\<rparr>, cooked)
     else (st\<lparr>cooked_changed := False\<rparr>, cooked)) = (st1, cooked1)"
    by fastforce
  note first = defer_pk_first_half [OF inv [unfolded s] half]
  define st2 where "st2 = (if counters_need_update st then st1 else st1\<lparr>last_time := now\<rparr>)"
  have size1: "sized n st1" "sized n st2" "length cooked1 = n"
    using first(1) by (simp_all add: st2_def)
  have st': "st' = (if changed then start_debounce_counters ms raw cooked1 n st2 else st1)" "cooked' = cooked1"
      "r = cooked_changed st'"
    using res ms half by (auto simp: debounce_sym_defer_pk_def s s' st2_def Let_def split: if_splits)
  note start = defer_pk_start [OF size1(2), where ms = ms and raw = raw and cooked = cooked1]
  have old: "key_counter x st \<le> ?D" "key_bit x raw0 = key_bit x cooked \<longleftrightarrow> key_counter x st = 0" if "x \<in> keys n" for x
    using inv that by (auto simp: s defer_pk_inv_def counters_ok_def split: if_splits)
  have cell: "defer_expire ?e (\<lambda>x. key_bit x raw) x (key_bit x cooked, key_counter x st) = (key_bit x cooked1, key_counter x st1)"
    if "x \<in> keys n" for x
    using first(2) [OF that] by (simp add: key_view_def)
  have counter2: "key_counter x st' = (if changed then
      if key_bit x raw \<noteq> key_bit x cooked1 then if key_counter x st1 = 0 then ?D else key_counter x st1 else 0
      else key_counter x st1)" if "x \<in> keys n" for x
    using start(2) [OF that] by (simp add: st' st2_def defer_start_def)
  have ready: "changed \<or> (key_bit x raw = key_bit x cooked \<longleftrightarrow> key_counter x st = 0)" if "x \<in> keys n" for x
    using truthful that old(2) [OF that] by auto
  show "key_state x s' = defer_key (DEBOUNCE_NAT 255 ms) (unat ?e) (key_bit x raw) (key_state x s)" if "x \<in> keys n" for x
    using defer_key_cases [OF cell [OF that] ready [OF that] counter2 [OF that]]
    by (simp add: s s' key_state_def key_view_def st'(2))
  have "cooked_changed st' = cooked_changed st1"
    using start(4) by (simp add: st' st2_def)
  then show "r \<longleftrightarrow> (\<exists>x \<in> keys n. key_bit x (snd s') \<noteq> key_bit x (snd s))"
    using first(4) by (simp add: st' s s')
  have size: "sized2 n (st', cooked')"
    using start(1) size1 by (simp add: st')
  have stamp1: "last_time st1 = now" if "counters_need_update st"
    using half that by (auto simp: defer_pk_update_stamp [of raw n _ "(st\<lparr>cooked_changed := False, last_time := now\<rparr>, cooked)", simplified]
        dest!: arg_cong [of _ _ "\<lambda>s. last_time (fst s)"] split: if_splits)
  have zero1: "key_counter x st1 = 0" if "x \<in> keys n" "key_counter x st = 0" for x
    using cell [OF that(1)] that(2) by (simp add: defer_expire_def)
  have stamp: "last_time st' = now" if "x \<in> keys n" "key_counter x st' \<noteq> 0" for x
  proof (cases changed)
    case True
    then show ?thesis
      using stamp1 by (simp add: st' start_debounce_stamp st2_def)
  next
    case False
    then have "key_counter x st \<noteq> 0"
      using that(2) zero1 [OF that(1)] by (auto simp: st')
    then show ?thesis
      using False that inv stamp1 by (auto simp: st' s defer_pk_inv_def counters_ok_def split: if_splits)
  qed
  have "counters_need_update st'" if "x \<in> keys n" "key_counter x st' \<noteq> 0" for x
    using first(3) [OF that(1)] start(3) counter2 [OF that(1)] that by (auto simp: st' st2_def split: if_splits)
  moreover have "key_counter x st' \<le> ?D" if "x \<in> keys n" for x
    using counter2 [OF that] order_trans [OF defer_expire_bound [OF cell [OF that]] old(1) [OF that]] by simp
  moreover have "key_bit x raw = key_bit x cooked' \<longleftrightarrow> key_counter x st' = 0" if "x \<in> keys n" for x
  proof (cases changed)
    case True
    then show ?thesis
      using counter2 [OF that] DEBOUNCE_TIME_nonzero [OF ms] by (auto simp: st'(2))
  next
    case False
    then show ?thesis
      using counter2 [OF that] cell [OF that] old(2) [OF that] truthful that
      by (auto simp: st'(2) defer_expire_def split: if_splits)
  qed
  ultimately show "defer_pk_inv ms n now raw s'"
    using size stamp unfolding s' defer_pk_inv_def counters_ok_def fst_conv snd_conv by metis
qed

section \<open>Runs of \<open>sym_defer_pk\<close>\<close>

definition defer_pk_run :: "nat \<Rightarrow> nat \<Rightarrow> scan list \<Rightarrow> u8 counting \<times> matrix_row list \<Rightarrow> u8 counting \<times> matrix_row list" where
  "defer_pk_run ms n = fold (\<lambda>(now, raw, changed) s. snd (debounce_sym_defer_pk ms now raw n changed s))"

definition defer_pk_reset :: "nat \<Rightarrow> u8 counting \<times> matrix_row list" where
  "defer_pk_reset n = (counting_init (n * MATRIX_COLS), replicate n 0)"

lemma defer_pk_reset_inv: "defer_pk_inv ms n prev (replicate n 0) (defer_pk_reset n)"
  by (auto simp: defer_pk_inv_def counters_ok_def sized_def defer_pk_reset_def counting_init_def
      key_counter_def key_bit_def DEBOUNCE_ELAPSED_def keys_def counter_index_bound)

lemma defer_pk_reset_state: "x \<in> keys n \<Longrightarrow> key_state x (defer_pk_reset n) = (False, 0)"
  by (auto simp: defer_pk_reset_def counting_init_def key_state_def key_view_def
      key_counter_def key_bit_def DEBOUNCE_ELAPSED_def keys_def counter_index_bound)

lemma defer_pk_run_refines:
  assumes "0 < ms"
  shows "defer_pk_inv ms n prev raw0 s \<Longrightarrow> reported n raw0 scans \<Longrightarrow>
    defer_pk_inv ms n (fst (last_scan (prev, raw0) scans)) (snd (last_scan (prev, raw0) scans)) (defer_pk_run ms n scans s) \<and>
    (\<forall>x \<in> keys n. key_state x (defer_pk_run ms n scans s) =
      fold (\<lambda>(e, r). defer_key (DEBOUNCE_NAT 255 ms) e r) (zip (gaps prev scans) (key_inputs x scans)) (key_state x s))"
proof (induction scans arbitrary: s prev raw0)
  case (Cons scan scans)
  obtain now raw changed where scan: "scan = (now, raw, changed)" by (cases scan)
  obtain r s' where call: "debounce_sym_defer_pk ms now raw n changed s = (r, s')" by (rule prod.exhaust)
  from Cons.prems scan have truthful: "\<not> changed \<Longrightarrow> \<forall>x \<in> keys n. key_bit x raw = key_bit x raw0"
    and rest: "reported n raw scans" by auto
  note step = defer_pk_call [OF assms Cons.prems(1) truthful call]
  from Cons.IH [OF step(1) rest] step(2) show ?case
    by (auto simp: scan defer_pk_run_def call key_inputs_def)
qed (simp add: defer_pk_run_def key_inputs_def)

text \<open>While the counter of a deferring key runs, its raw value has differed from the reported one ever since the counter started.\<close>

lemma defer_key_pending:
  assumes "0 < c" and "fold (\<lambda>(e, r). defer_key D e r) trace (k0, 0) = (k, c)"
  shows "\<exists>ys e0 zs. trace = ys @ (e0, \<not> k) # zs \<and> (\<forall>z \<in> set zs. snd z = (\<not> k)) \<and> D \<le> c + sum_list (map fst zs)"
  using assms
proof (induction trace arbitrary: k c rule: rev_induct)
  case (snoc er trace)
  obtain e r where er: "er = (e, r)" by (cases er)
  obtain k1 c1 where before: "fold (\<lambda>(e, r). defer_key D e r) trace (k0, 0) = (k1, c1)" by fastforce
  with snoc.prems er have step: "defer_key D e r (k1, c1) = (k, c)" by simp
  with snoc.prems(1) have k: "k1 = k" "r = (\<not> k)" "c1 = 0 \<Longrightarrow> c = D" "c1 \<noteq> 0 \<Longrightarrow> c1 = c + e"
    by (auto simp: defer_key_def split: if_splits)
  show ?case
  proof (cases "c1 = 0")
    case True
    then have "trace @ [er] = trace @ (e, \<not> k) # [] \<and> (\<forall>z \<in> set []. snd z = (\<not> k)) \<and> D \<le> c + sum_list (map fst [])"
      using k er by simp
    then show ?thesis by blast
  next
    case False
    with snoc.IH [OF _ before] obtain ys e0 zs where "trace = ys @ (e0, \<not> k) # zs" "\<forall>z \<in> set zs. snd z = (\<not> k)"
        "D \<le> c1 + sum_list (map fst zs)"
      using k(1) by auto
    then have "trace @ [er] = ys @ (e0, \<not> k) # (zs @ [er]) \<and> (\<forall>z \<in> set (zs @ [er]). snd z = (\<not> k)) \<and>
        D \<le> c + sum_list (map fst (zs @ [er]))"
      using k(2) k(4) [OF False] er by simp
    then show ?thesis by blast
  qed
qed simp

text \<open>
  C28.  \<open>sym_defer_pk\<close> rejects noise: it changes the reported state of a key only to a raw value
  that every scan of at least the last \<open>DEBOUNCE\<close> milliseconds (255 at most) has seen, whatever the other keys do.
\<close>

theorem deferred_change_was_stable:
  assumes "0 < ms" and "reported n (replicate n 0) (scans @ [b])" and "x \<in> keys n"
  defines "reported_bit \<equiv> \<lambda>scans. key_bit x (snd (defer_pk_run ms n scans (defer_pk_reset n)))"
  assumes "reported_bit (scans @ [b]) \<noteq> reported_bit scans"
  shows "\<exists>pre a mid. scans = pre @ a # mid \<and> min 255 ms \<le> sum_list (gaps (fst a) (mid @ [b])) \<and>
    (\<forall>(now, raw, changed) \<in> set (a # mid @ [b]). key_bit x raw = reported_bit (scans @ [b]))"
proof -
  let ?D = "DEBOUNCE_NAT 255 ms" and ?step = "\<lambda>(e, r). defer_key (DEBOUNCE_NAT 255 ms) e r"
  let ?trace = "\<lambda>scans. zip (gaps 0 scans) (key_inputs x scans)"
  have run: "key_state x (defer_pk_run ms n xs (defer_pk_reset n)) = fold ?step (?trace xs) (False, 0)"
    if "reported n (replicate n 0) xs" for xs
    using defer_pk_run_refines [OF assms(1) defer_pk_reset_inv that] assms(3) by (simp add: defer_pk_reset_state)
  obtain k c where before: "fold ?step (?trace scans) (False, 0) = (k, c)" by fastforce
  obtain e r where last: "?trace (scans @ [b]) = ?trace scans @ [(e, r)]" "r = key_bit x (fst (snd b))"
      "gaps (fst (last_scan (0, replicate n 0) scans)) [b] = [e]"
    by (cases b) (auto simp: gaps_append [of _ _ _ "replicate n 0"] key_inputs_def)
  from assms(2) have "reported n (replicate n 0) scans"
    by (simp add: reported_append [where prev = 0])
  with assms(2,5) run have "fst (defer_key ?D e r (k, c)) \<noteq> k" and new: "reported_bit (scans @ [b]) = fst (defer_key ?D e r (k, c))"
    by (auto simp: reported_bit_def key_bit_state last(1) before)
  then have r: "r = (\<not> k)" "c \<noteq> 0" "c \<le> e" "reported_bit (scans @ [b]) = r"
    by (auto simp: defer_key_def split: if_splits)
  with defer_key_pending [OF _ before] obtain ys e0 zs where split: "?trace scans = ys @ (e0, r) # zs"
      "\<forall>z \<in> set zs. snd z = r" "?D \<le> c + sum_list (map fst zs)"
    by auto
  have "length (?trace scans) = length scans"
    by simp
  then have len: "length ys < length scans"
    using split(1) by simp
  define pre a mid where "pre = take (length ys) scans" and "a = scans ! length ys" and "mid = drop (Suc (length ys)) scans"
  have scans: "scans = pre @ a # mid"
    using len by (simp add: pre_def a_def mid_def id_take_nth_drop)
  have "?trace scans = ?trace pre @ zip (gaps (fst (last_scan (0, replicate n 0) pre)) (a # mid)) (key_inputs x (a # mid))"
    by (simp add: scans gaps_append [of _ _ _ "replicate n 0"] key_inputs_def)
  with split(1) have "zip (gaps (fst (last_scan (0, replicate n 0) pre)) (a # mid)) (key_inputs x (a # mid)) = (e0, r) # zs"
    using len by (simp add: pre_def append_eq_append_conv)
  then have at: "key_bit x (fst (snd a)) = r" and zs: "zs = zip (gaps (fst a) mid) (key_inputs x mid)"
    by (cases a; simp add: key_inputs_def)+
  have sum: "map fst zs = gaps (fst a) mid" and vals: "map snd zs = key_inputs x mid"
    by (simp_all add: zs)
  have "gaps (fst a) (mid @ [b]) = gaps (fst a) mid @ [e]"
    using last(3) scans gaps_append [of "fst a" mid "[b]" "replicate n 0"]
    by (cases a) (simp add: last_scan_def split: if_splits)
  then have "min 255 ms \<le> sum_list (gaps (fst a) (mid @ [b]))"
    using split(3) r(3) by (simp add: sum DEBOUNCE_NAT_def)
  moreover have "\<forall>v \<in> set (key_inputs x mid). v = r"
    using split(2) by (auto simp flip: vals)
  then have "\<forall>(now, raw, changed) \<in> set (a # mid @ [b]). key_bit x raw = reported_bit (scans @ [b])"
    using at r(4) last(2) by (auto simp: key_inputs_def)
  ultimately show ?thesis
    using scans by blast
qed

text \<open>A key of a one-row board closes at 10 for less than 2 ms, and for good at 20.\<close>

definition noisy :: "scan list" where
  "noisy = [(10, [8], True), (12, [0], True), (20, [8], True), (23, [8], False)]"

theorem deferred_change_was_stable_witness:
  "\<exists>pre a mid. noisy = pre @ a # mid \<and> 5 \<le> sum_list (gaps (fst a) (mid @ [(26, [8], False)])) \<and>
    (\<forall>(now, raw, changed) \<in> set (a # mid @ [(26, [8], False)]). key_bit (0, 3) raw)"
proof -
  have x: "(0, 3) \<in> keys 1"
    by (simp add: keys_def MATRIX_COLS_def)
  let ?bit = "\<lambda>scans. key_bit (0, 3) (snd (defer_pk_run 5 1 scans (defer_pk_reset 1)))"
  have rep: "reported 1 (replicate 1 0) noisy" "reported 1 (replicate 1 0) (noisy @ [(26, [8], False)])"
    by (simp_all add: noisy_def)
  note eval = noisy_def key_inputs_def key_bit_def elapsed_time_def timer_diff32_def defer_key_def bit_numeral_rec DEBOUNCE_NAT_def
  have bits: "\<not> ?bit noisy" "?bit (noisy @ [(26, [8], False)])"
    using defer_pk_run_refines [OF _ defer_pk_reset_inv rep(1), of 5 0] defer_pk_run_refines [OF _ defer_pk_reset_inv rep(2), of 5 0]
      x defer_pk_reset_state [OF x] unfolding key_bit_state by (simp_all add: eval)
  from deferred_change_was_stable [OF _ rep(2) x, of 5] bits show ?thesis
    by simp
qed

section \<open>Settling, and a debounce time of 0\<close>

text \<open>
  In both deferring debouncers a raw matrix that holds still is reported within the debounce time and one scan interval
  more, since the scan that notices a change does not count.
\<close>

lemma defer_pk_settles:
  assumes "0 < ms" and "defer_pk_inv ms n prev raw0 s" and "reported n raw0 quiet" and "x \<in> keys n"
    and "quiet \<noteq> []" and "\<forall>scan \<in> set quiet. fst (snd scan) = raw"
    and "\<forall>e \<in> set (gaps prev quiet). e \<le> G" and "min 255 ms + G \<le> sum_list (gaps prev quiet)"
  shows "key_bit x (snd (defer_pk_run ms n quiet s)) = key_bit x raw"
proof -
  have D: "DEBOUNCE_NAT 255 ms = Suc (DEBOUNCE_NAT 255 ms - 1)"
    using assms(1) by (simp add: DEBOUNCE_NAT_def)
  have const: "\<forall>v \<in> set (key_inputs x quiet). v = key_bit x raw"
    using assms(6) by (auto simp: key_inputs_def)
  have "key_counter x (fst s) \<le> DEBOUNCE_TIME 255 ms"
    using assms(2,4) by (auto simp: defer_pk_inv_def counters_ok_def)
  then have "snd (key_state x s) \<le> DEBOUNCE_NAT 255 ms"
    using unat_DEBOUNCE_TIME [of 255 ms] by (simp add: key_state_def key_view_def word_le_nat_alt)
  with D have inv: "snd (key_state x s) \<le> Suc (DEBOUNCE_NAT 255 ms - 1)"
    by simp
  have sum: "Suc (DEBOUNCE_NAT 255 ms - 1) + G \<le> sum_list (gaps prev quiet)"
    using assms(8) unfolding D [symmetric] by (simp add: DEBOUNCE_NAT_def)
  have nonempty: "gaps prev quiet \<noteq> []"
    using assms(5) by (cases quiet) auto
  have "key_state x (defer_pk_run ms n quiet s) =
      fold (\<lambda>e. defer_key (DEBOUNCE_NAT 255 ms) e (key_bit x raw)) (gaps prev quiet) (key_state x s)"
    using defer_pk_run_refines [OF assms(1-3)] assms(4)
      fold_constant_input [of "gaps prev quiet" "key_inputs x quiet" "key_bit x raw" "defer_key (DEBOUNCE_NAT 255 ms)" "key_state x s"] const
    by simp
  with defer_pk.scans_settle [OF inv assms(7) nonempty sum, of "key_bit x raw", unfolded D [symmetric]] show ?thesis
    by (simp add: key_bit_state)
qed

definition defer_pr_run :: "nat \<Rightarrow> nat \<Rightarrow> (u16 \<times> matrix_row list) list \<Rightarrow> defer_pr \<times> matrix_row list \<Rightarrow> defer_pr \<times> matrix_row list" where
  "defer_pr_run ms n = fold (\<lambda>(now, raw) s. snd (debounce_sym_defer_pr ms now raw n True s))"

fun gaps_pr :: "u16 \<Rightarrow> (u16 \<times> matrix_row list) list \<Rightarrow> nat list" where
  "gaps_pr prev [] = []"
| "gaps_pr prev ((now, raw) # scans) = unat (elapsed_pr now prev) # gaps_pr now scans"

lemma defer_pr_run_refines:
  "defer_pr_ok n s \<Longrightarrow> row < n \<Longrightarrow> defer_pr_state row (defer_pr_run ms n scans s) =
    fold (\<lambda>(e, r). defer_row (unat (of_nat ms :: u8)) e r)
      (zip (gaps_pr (last_time16 (fst s)) scans) (map (\<lambda>(now, raw). raw ! row) scans)) (defer_pr_state row s)"
proof (induction scans arbitrary: s)
  case (Cons scan scans)
  obtain now raw where scan: "scan = (now, raw)" by (cases scan)
  obtain st cooked where s: "s = (st, cooked)" by (cases s)
  obtain r s' where call: "debounce_sym_defer_pr ms now raw n True (st, cooked) = (r, s')" by (rule prod.exhaust)
  note step = defer_pr_call [OF Cons.prems(1) [unfolded s] call]
  from Cons.IH [OF step(1) Cons.prems(2)] step(2,3) Cons.prems(2) show ?case
    by (simp add: scan s defer_pr_run_def call)
qed (simp add: defer_pr_run_def)

text \<open>
  A debounce time of 0 (or any multiple of 256) makes \<open>sym_defer_pr\<close> deaf instead of disabling it: no
  scan ever changes the cooked matrix after \<open>debounce_init\<close>.
\<close>

lemma defer_pr_zero_is_deaf:
  assumes "ms mod 256 = 0" and "row < n"
  shows "snd (defer_pr_run ms n scans (defer_pr_init n now, replicate n 0)) ! row = 0"
proof -
  let ?s = "(defer_pr_init n now, replicate n 0)"
  have ms: "unat (of_nat ms :: u8) = 0"
    using assms(1) by (simp add: unat_of_nat take_bit_eq_mod)
  have deaf: "\<exists>l'. fold (\<lambda>(e, r). defer_row 0 e r) ers (k, l, 0) = (k, l', 0)" for ers k l
    by (induction ers arbitrary: l) (auto simp: defer_row_def)
  have "defer_pr_ok n ?s" "defer_pr_state row ?s = (0, 0, 0)"
    using assms(2) by (simp_all add: defer_pr_ok_def defer_pr_init_def defer_pr_state_def)
  with defer_pr_run_refines [of n ?s row ms scans] assms(2)
  have "\<exists>l'. defer_pr_state row (defer_pr_run ms n scans ?s) = (0, l', 0)"
    using deaf [of _ 0 0] by (simp add: ms)
  then show ?thesis
    by (auto simp: defer_pr_state_def split: prod.splits)
qed

lemma defer_pr_settles:
  assumes "0 < ms" "ms < 256" and "row < n" and "scans \<noteq> []" and "\<forall>scan \<in> set scans. snd scan = raw"
    and "\<forall>e \<in> set (gaps_pr now scans). e \<le> G" and "ms + G \<le> sum_list (gaps_pr now scans)"
  shows "snd (defer_pr_run ms n scans (defer_pr_init n now, replicate n 0)) ! row = raw ! row"
proof -
  let ?s = "(defer_pr_init n now, replicate n 0)"
  obtain D where D: "ms = Suc D"
    using assms(1) by (cases ms) auto
  have start: "defer_pr_ok n ?s" "defer_pr_state row ?s = (0, 0, 0)"
    using assms(3) by (simp_all add: defer_pr_ok_def defer_pr_init_def defer_pr_state_def)
  have vals: "\<forall>v \<in> set (map (\<lambda>(now, raw). raw ! row) scans). v = raw ! row"
    using assms(5) by auto
  have len: "length (gaps_pr now' scans') = length scans'" for now' scans'
    by (induction now' scans' rule: gaps_pr.induct) auto
  then have nonempty: "gaps_pr now scans \<noteq> []"
    using assms(4) by (metis length_0_conv)
  have "defer_pr_state row (defer_pr_run ms n scans ?s) =
      fold (\<lambda>e. defer_row ms e (raw ! row)) (gaps_pr now scans) (0, 0, 0)"
    using defer_pr_run_refines [OF start(1) assms(3), of ms scans] start(2) assms(2)
      fold_constant_input [OF _ vals, of "gaps_pr now scans" "defer_row ms" "(0, 0, 0)"] len
    by (simp add: unat_of_nat_u8 defer_pr_init_def)
  moreover have "fst (fold (\<lambda>e. defer_row (Suc D) e (raw ! row)) (gaps_pr now scans) (0, 0, 0)) = raw ! row"
    using assms(6,7) nonempty by (intro defer_pr.scans_settle [where G = G]) (auto simp: D)
  ultimately have "fst (defer_pr_state row (defer_pr_run ms n scans ?s)) = raw ! row"
    by (simp add: D)
  then show ?thesis
    by (simp add: defer_pr_state_def split: prod.splits)
qed

end
