(* ===== verification/Report_Buffer.thy ===== *)
theory Report_Buffer
  imports Report Ring_Queue
begin

text \<open>
  keyboards/keychron/common/wireless/report_buffer.c: the queue of reports for the radio module, the minimum interval between
  two transmissions and the retransmission of a report the module has not acknowledged.  The timer reading is an argument of the
  functions that use it (all readings within one call are the same).

  A \<open>report_buffer_t\<close> is a type and a union; the type always tells which member is valid, so it is a datatype.
\<close>

section \<open>The state and its operations\<close>

datatype report_buffer_t =
    REPORT_TYPE_NONE
  | REPORT_TYPE_KB report_keyboard_t
  | REPORT_TYPE_NKRO report_keyboard_t
  | REPORT_TYPE_CONSUMER u16

definition REPORT_BUFFER_QUEUE_SIZE :: nat where "REPORT_BUFFER_QUEUE_SIZE = 256"
definition RETPORT_RETRY_COUNT :: u8 where "RETPORT_RETRY_COUNT = 30"
definition DEFAULT_2P4G_REPORT_INVERVAL_MS :: u8 where "DEFAULT_2P4G_REPORT_INVERVAL_MS = 1"

record report_queue =
  report_interval :: u8
  report_timer_buffer :: u32
  retry_time_buffer :: u32
  report_buffer_queue :: "report_buffer_t list"
  report_buffer_queue_head :: u8
  report_buffer_queue_tail :: u8
  kb_rpt :: report_buffer_t
  retry :: u8

text \<open>The variables as the linker leaves them.\<close>

definition report_queue_static :: report_queue where
  "report_queue_static = \<lparr>report_interval = DEFAULT_2P4G_REPORT_INVERVAL_MS, report_timer_buffer = 0, retry_time_buffer = 0,
     report_buffer_queue = replicate REPORT_BUFFER_QUEUE_SIZE REPORT_TYPE_NONE, report_buffer_queue_head = 0,
     report_buffer_queue_tail = 0, kb_rpt = REPORT_TYPE_NONE, retry = 0\<rparr>"

definition report_buffer_init :: "u32 \<Rightarrow> report_queue \<Rightarrow> report_queue" where
  "report_buffer_init now q = q\<lparr>report_buffer_queue := replicate REPORT_BUFFER_QUEUE_SIZE REPORT_TYPE_NONE,
     report_buffer_queue_head := 0, report_buffer_queue_tail := 0, retry := 0, report_timer_buffer := now\<rparr>"

definition report_buffer_next :: "u8 \<Rightarrow> u8" where
  "report_buffer_next i = of_nat ((unat i + 1) mod REPORT_BUFFER_QUEUE_SIZE)"

definition report_buffer_enqueue :: "report_buffer_t \<Rightarrow> report_queue \<Rightarrow> bool \<times> report_queue" where
  "report_buffer_enqueue r q =
    (let next = report_buffer_next (report_buffer_queue_head q) in
     if next = report_buffer_queue_tail q then (False, q)
     else (True, q\<lparr>report_buffer_queue := (report_buffer_queue q)[unat (report_buffer_queue_head q) := r],
                    report_buffer_queue_head := next\<rparr>))"

definition report_buffer_dequeue :: "report_queue \<Rightarrow> report_buffer_t option \<times> report_queue" where
  "report_buffer_dequeue q =
    (if report_buffer_queue_head q = report_buffer_queue_tail q then (None, q)
     else (Some (report_buffer_queue q ! unat (report_buffer_queue_tail q)),
           q\<lparr>report_buffer_queue_tail := report_buffer_next (report_buffer_queue_tail q)\<rparr>))"

definition report_buffer_is_empty :: "report_queue \<Rightarrow> bool" where
  "report_buffer_is_empty q \<longleftrightarrow> report_buffer_queue_head q = report_buffer_queue_tail q"

definition report_buffer_update_timer :: "u32 \<Rightarrow> report_queue \<Rightarrow> report_queue" where
  "report_buffer_update_timer now q = q\<lparr>report_timer_buffer := now\<rparr>"

definition report_buffer_next_inverval :: "u32 \<Rightarrow> report_queue \<Rightarrow> bool" where
  "report_buffer_next_inverval now q \<longleftrightarrow> ucast (report_interval q) < timer_diff32 now (report_timer_buffer q)"

definition report_buffer_set_inverval :: "u8 \<Rightarrow> report_queue \<Rightarrow> report_queue" where
  "report_buffer_set_inverval i q = q\<lparr>report_interval := i\<rparr>"

definition report_buffer_get_retry :: "report_queue \<Rightarrow> u8" where
  "report_buffer_get_retry q = retry q"

definition report_buffer_set_retry :: "u8 \<Rightarrow> report_queue \<Rightarrow> report_queue" where
  "report_buffer_set_retry n q = q\<lparr>retry := n\<rparr>"

text \<open>
  The task.  Its first argument is whether the state of wireless.c is \<open>WT_CONNECTED\<close>; besides the new state it yields the
  report it hands to the transport, whose send functions are all set.  A report taken from the queue in the first two
  milliseconds of the timer is not sent.
\<close>

definition report_buffer_task :: "bool \<Rightarrow> u32 \<Rightarrow> report_queue \<Rightarrow> report_buffer_t option \<times> report_queue" where
  "report_buffer_task connected now q =
    (if connected \<and> (\<not> report_buffer_is_empty q \<or> retry q \<noteq> 0) \<and> report_buffer_next_inverval now q then
       let (pending_data, q) =
         (if retry q = 0 then
            (case report_buffer_dequeue q of
               (None, q) \<Rightarrow> (False, q)
             | (Some r, q) \<Rightarrow>
                 (let q = q\<lparr>kb_rpt := r\<rparr> in
                  if r \<noteq> REPORT_TYPE_NONE \<and> now > 2
                  then (True, q\<lparr>retry := RETPORT_RETRY_COUNT, retry_time_buffer := now\<rparr>) else (False, q)))
          else if timer_diff32 now (retry_time_buffer q) > 2
          then (True, q\<lparr>retry := retry q - 1, retry_time_buffer := now\<rparr>) else (False, q))
       in if pending_data then (Some (kb_rpt q), q\<lparr>report_timer_buffer := now\<rparr>) else (None, q)
     else (None, q))"

section \<open>The queue\<close>

definition report_queue_ok :: "report_queue \<Rightarrow> bool" where
  "report_queue_ok q \<longleftrightarrow> length (report_buffer_queue q) = REPORT_BUFFER_QUEUE_SIZE"

definition report_queue_content :: "report_queue \<Rightarrow> report_buffer_t list" where
  "report_queue_content q = ring_list (report_buffer_queue q) (unat (report_buffer_queue_head q)) (unat (report_buffer_queue_tail q))"

lemma unat_report_buffer_next: "unat (report_buffer_next i) = (unat i + 1) mod REPORT_BUFFER_QUEUE_SIZE"
  unfolding report_buffer_next_def by (rule unat_of_nat_u8) (simp add: REPORT_BUFFER_QUEUE_SIZE_def)

lemma report_ring: "report_queue_ok q \<Longrightarrow>
   ring_ok REPORT_BUFFER_QUEUE_SIZE (report_buffer_queue q) (unat (report_buffer_queue_head q)) (unat (report_buffer_queue_tail q))"
  by (simp add: report_queue_ok_def ring_ok_def REPORT_BUFFER_QUEUE_SIZE_def)

interpretation rq: fifo report_buffer_enqueue report_buffer_dequeue report_queue_content report_queue_ok
    "REPORT_BUFFER_QUEUE_SIZE - 1"
proof
  fix q and x :: report_buffer_t
  assume inv: "report_queue_ok q"
  let ?h = "unat (report_buffer_queue_head q)" and ?t = "unat (report_buffer_queue_tail q)"
  note ok = report_ring [OF inv]
  then have lt: "?h < REPORT_BUFFER_QUEUE_SIZE" "?t < REPORT_BUFFER_QUEUE_SIZE"
    and len: "length (report_buffer_queue q) = REPORT_BUFFER_QUEUE_SIZE"
    by (auto simp: ring_ok_def)
  have full: "report_buffer_next (report_buffer_queue_head q) = report_buffer_queue_tail q \<longleftrightarrow>
      (?h + 1) mod REPORT_BUFFER_QUEUE_SIZE = ?t"
    by (simp add: word_unat_eq_iff unat_report_buffer_next)
  have emp: "report_buffer_queue_head q = report_buffer_queue_tail q \<longleftrightarrow> ?h = ?t"
    by (simp add: word_unat_eq_iff)
  show "length (report_queue_content q) \<le> REPORT_BUFFER_QUEUE_SIZE - 1"
    using ring_len_bound [OF lt] by (simp add: report_queue_content_def len)
  show "report_queue_ok (snd (report_buffer_enqueue x q))" "report_queue_ok (snd (report_buffer_dequeue q))"
    using inv by (simp_all add: report_queue_ok_def report_buffer_enqueue_def report_buffer_dequeue_def Let_def)
  show "(fst (report_buffer_enqueue x q), report_queue_content (snd (report_buffer_enqueue x q))) =
      spec_enq (REPORT_BUFFER_QUEUE_SIZE - 1) x (report_queue_content q)"
    using ring_enq [OF ok] ring_full_iff [OF lt] ring_len_bound [OF lt] full
    by (auto simp: report_buffer_enqueue_def spec_enq_def report_queue_content_def Let_def unat_report_buffer_next len)
  show "(fst (report_buffer_dequeue q), report_queue_content (snd (report_buffer_dequeue q))) = spec_deq (report_queue_content q)"
    using ring_deq [OF ok] ring_empty_iff [OF lt] emp len
    by (auto simp: report_buffer_dequeue_def report_queue_content_def unat_report_buffer_next ring_list_def)
qed

section \<open>Delivery\<close>

text \<open>
  The calls the rest of the firmware makes while the module stays connected: a report is queued, the task runs, or an acknowledgement sets
  the interval and, unless it reports a full FIFO, ends the retransmission.  A run collects the accepted reports and the
  transmitted ones.
\<close>

datatype report_call = Queue report_buffer_t | Task u32 | Ack bool u8

type_synonym report_run = "report_buffer_t list \<times> report_buffer_t list \<times> report_queue"

fun report_step :: "report_call \<Rightarrow> report_run \<Rightarrow> report_run" where
  "report_step (Queue r) (acc, tx, q) = (let (ok, q) = report_buffer_enqueue r q in (if ok then acc @ [r] else acc, tx, q))"
| "report_step (Task now) (acc, tx, q) =
     (let (r, q) = report_buffer_task True now q in (acc, (case r of None \<Rightarrow> tx | Some r \<Rightarrow> tx @ [r]), q))"
| "report_step (Ack done interval) (acc, tx, q) =
     (acc, tx, report_buffer_set_inverval interval (if done then report_buffer_set_retry 0 q else q))"

definition report_run :: "report_call list \<Rightarrow> report_queue \<Rightarrow> report_run" where
  "report_run calls q = fold report_step calls ([], [], q)"

fun call_ok :: "report_call \<Rightarrow> bool" where
  "call_ok (Queue r) \<longleftrightarrow> r \<noteq> REPORT_TYPE_NONE"
| "call_ok (Task now) \<longleftrightarrow> 2 < now"
| "call_ok (Ack done interval) \<longleftrightarrow> True"

definition sent_each :: "report_buffer_t list \<Rightarrow> nat list \<Rightarrow> report_buffer_t list" where
  "sent_each del ks = concat (map2 (\<lambda>r k. replicate k r) del ks)"

text \<open>What has been transmitted is the dequeued reports in order, each between once and 31 times; the last one has retransmissions left.\<close>

definition deliveries :: "report_buffer_t list \<Rightarrow> report_run \<Rightarrow> report_buffer_t list \<Rightarrow> nat list \<Rightarrow> bool" where
  "deliveries start run del ks \<longleftrightarrow> (case run of (acc, tx, q) \<Rightarrow>
     report_queue_ok q \<and> length ks = length del \<and> tx = sent_each del ks \<and> (\<forall>k \<in> set ks. 1 \<le> k \<and> k \<le> 31) \<and>
     start @ acc = del @ report_queue_content q \<and> REPORT_TYPE_NONE \<notin> set (start @ acc) \<and>
     (retry q \<noteq> 0 \<longrightarrow> del \<noteq> [] \<and> kb_rpt q = last del \<and> last ks + unat (retry q) \<le> 31))"

lemma sent_each_snoc [simp]:
  "length ks = length del \<Longrightarrow> sent_each (del @ [r]) (ks @ [k]) = sent_each del ks @ replicate k r"
  by (simp add: sent_each_def)

lemma queue_enqueue:
  assumes "report_queue_ok q" and "report_buffer_enqueue r q = (ok, q')"
  shows "report_queue_ok q'" and "report_queue_content q' = report_queue_content q @ (if ok then [r] else [])"
    and "retry q' = retry q" and "kb_rpt q' = kb_rpt q"
proof -
  show "report_queue_ok q'"
    using rq.enq_inv [OF assms(1), of r] assms(2) by simp
  show "report_queue_content q' = report_queue_content q @ (if ok then [r] else [])"
    using rq.enq_content [OF assms(1), of r] assms(2) by (simp add: spec_enq_def split: if_splits)
  show "retry q' = retry q" "kb_rpt q' = kb_rpt q"
    using assms(2) by (auto simp: report_buffer_enqueue_def Let_def split: if_splits)
qed

lemma queue_dequeue:
  assumes "report_queue_ok q" and "report_buffer_dequeue q = (r, q')"
  shows "report_queue_ok q'" and "(r, report_queue_content q') = spec_deq (report_queue_content q)"
    and "retry q' = retry q" and "kb_rpt q' = kb_rpt q"
proof -
  show "report_queue_ok q'"
    using rq.deq_inv [OF assms(1)] assms(2) by simp
  show "(r, report_queue_content q') = spec_deq (report_queue_content q)"
    using rq.deq_content [OF assms(1)] assms(2) by simp
  show "retry q' = retry q" "kb_rpt q' = kb_rpt q"
    using assms(2) by (auto simp: report_buffer_dequeue_def split: if_splits)
qed

lemma content_flags [simp]:
  "report_queue_content (q\<lparr>report_timer_buffer := t\<rparr>) = report_queue_content q"
  "report_queue_content (q\<lparr>retry_time_buffer := t\<rparr>) = report_queue_content q"
  "report_queue_content (q\<lparr>report_interval := i\<rparr>) = report_queue_content q"
  "report_queue_content (q\<lparr>retry := n\<rparr>) = report_queue_content q"
  "report_queue_content (q\<lparr>kb_rpt := r\<rparr>) = report_queue_content q"
  "report_queue_ok (q\<lparr>report_timer_buffer := t\<rparr>) = report_queue_ok q"
  "report_queue_ok (q\<lparr>retry_time_buffer := t\<rparr>) = report_queue_ok q"
  "report_queue_ok (q\<lparr>report_interval := i\<rparr>) = report_queue_ok q"
  "report_queue_ok (q\<lparr>retry := n\<rparr>) = report_queue_ok q"
  "report_queue_ok (q\<lparr>kb_rpt := r\<rparr>) = report_queue_ok q"
  by (simp_all add: report_queue_content_def report_queue_ok_def)

text \<open>The task in the three cases that change something: nothing to do, a new report, a retransmission.\<close>

lemma report_task_cases:
  assumes "report_queue_ok q" and "2 < now" and "report_buffer_task True now q = (r, q')"
    and "REPORT_TYPE_NONE \<notin> set (report_queue_content q)"
  obtains (idle) "r = None" "q' = q"
  | (first) x where "retry q = 0" "report_queue_content q = x # report_queue_content q'" "r = Some x" "report_queue_ok q'"
      "retry q' = 30" "kb_rpt q' = x"
  | (again) "retry q \<noteq> 0" "r = Some (kb_rpt q)" "report_queue_content q' = report_queue_content q" "report_queue_ok q'"
      "retry q' = retry q - 1" "kb_rpt q' = kb_rpt q"
proof (cases "(\<not> report_buffer_is_empty q \<or> retry q \<noteq> 0) \<and> report_buffer_next_inverval now q")
  case False
  then show ?thesis
    using assms(3) by (intro idle) (auto simp: report_buffer_task_def)
next
  case True
  show ?thesis
  proof (cases "retry q = 0")
    case retry: True
    with True obtain x q1 where deq: "report_buffer_dequeue q = (Some x, q1)"
      by (auto simp: report_buffer_dequeue_def report_buffer_is_empty_def)
    note d = queue_dequeue [OF assms(1) deq]
    have cont: "report_queue_content q = x # report_queue_content q1"
      using d(2) by (cases "report_queue_content q") auto
    then have "x \<noteq> REPORT_TYPE_NONE"
      using assms(4) by auto
    with assms(2,3) True retry show ?thesis
      by (intro first [of x]) (auto simp: report_buffer_task_def deq Let_def d cont RETPORT_RETRY_COUNT_def)
  next
    case False
    with assms(1,3) True show ?thesis
      by (cases "2 < timer_diff32 now (retry_time_buffer q)")
        (auto simp: report_buffer_task_def intro: idle again)
  qed
qed

lemma report_step_deliveries:
  assumes "deliveries start (acc, tx, q) del ks" and "call_ok call"
  shows "\<exists>del ks. deliveries start (report_step call (acc, tx, q)) del ks"
proof -
  from assms(1) have ok: "report_queue_ok q" and len: "length ks = length del" and tx: "tx = sent_each del ks"
    and ks: "\<forall>k \<in> set ks. 1 \<le> k \<and> k \<le> 31" and all: "start @ acc = del @ report_queue_content q"
    and types: "REPORT_TYPE_NONE \<notin> set (start @ acc)"
    and retry: "retry q \<noteq> 0 \<Longrightarrow> del \<noteq> [] \<and> kb_rpt q = last del \<and> last ks + unat (retry q) \<le> 31"
    unfolding deliveries_def prod.case by blast+
  have types: "REPORT_TYPE_NONE \<notin> set start" "REPORT_TYPE_NONE \<notin> set acc" "REPORT_TYPE_NONE \<notin> set del"
      "REPORT_TYPE_NONE \<notin> set (report_queue_content q)"
    using types arg_cong [OF all, of set] by auto
  show ?thesis
  proof (cases call)
    case (Queue r)
    obtain b q' where enq: "report_buffer_enqueue r q = (b, q')" by (rule prod.exhaust)
    have "deliveries start (report_step call (acc, tx, q)) del ks"
      using queue_enqueue [OF ok enq] len tx ks all types retry assms(2) by (auto simp: deliveries_def Queue enq)
    then show ?thesis by blast
  next
    case (Task now)
    have now: "2 < now" and types': "REPORT_TYPE_NONE \<notin> set (report_queue_content q)"
      using assms(2) types by (auto simp: Task)
    obtain r q' where task: "report_buffer_task True now q = (r, q')" by (rule prod.exhaust)
    from ok now task types' show ?thesis
    proof (cases rule: report_task_cases)
      case idle
      then show ?thesis
        using assms(1) by (auto simp: Task task)
    next
      case (first x)
      then have "deliveries start (report_step call (acc, tx, q)) (del @ [x]) (ks @ [1])"
        using len tx ks all types by (auto simp: deliveries_def Task task)
      then show ?thesis by blast
    next
      case again
      from retry [OF again(1)] have del: "del \<noteq> []" "kb_rpt q = last del" "last ks + unat (retry q) \<le> 31" by auto
      from del(1) len have "ks \<noteq> []" by auto
      have dec: "Suc (unat (retry q - 1)) = unat (retry q)"
        using again(1) by (metis Suc_pred' unat_gt_0 unat_minus_one)
      have split: "sent_each del (butlast ks @ [Suc (last ks)]) = sent_each del ks @ [last del]"
        using del(1) \<open>ks \<noteq> []\<close> len sent_each_snoc [of "butlast ks" "butlast del" "last del"]
        by (metis append_assoc append_butlast_last_id length_butlast replicate_Suc replicate_append_same)
      have "deliveries start (report_step call (acc, tx, q)) del (butlast ks @ [Suc (last ks)])"
        using again del dec len tx ks all types split \<open>ks \<noteq> []\<close>
        by (auto simp: deliveries_def Task task dest: in_set_butlastD)
      then show ?thesis by blast
    qed
  next
    case (Ack b i)
    have "deliveries start (report_step call (acc, tx, q)) del ks"
      using ok len tx ks all types retry
      by (cases b) (simp_all add: deliveries_def Ack report_buffer_set_inverval_def report_buffer_set_retry_def)
    then show ?thesis by blast
  qed
qed

text \<open>
  C10.  While the radio module is connected and the timer is past its second millisecond, reports reach the module in the order they were
  accepted, and none is skipped: what has been transmitted is a prefix of the accepted reports, each transmitted
  between once and 31 times in a row, and the rest is still queued, whatever acknowledgements arrive.
\<close>

theorem reports_delivered_in_order:
  assumes "report_queue_ok q" and "retry q = 0" and "REPORT_TYPE_NONE \<notin> set (report_queue_content q)"
    and "\<forall>call \<in> set calls. call_ok call" and "report_run calls q = (acc, tx, q')"
  shows "\<exists>del ks. report_queue_content q @ acc = del @ report_queue_content q' \<and> tx = sent_each del ks \<and>
    length ks = length del \<and> (\<forall>k \<in> set ks. 1 \<le> k \<and> k \<le> 31)"
proof -
  have run: "\<exists>del ks. deliveries (report_queue_content q0) (fold report_step calls run) del ks"
    if "\<exists>del ks. deliveries (report_queue_content q0) run del ks" for q0 run
    using that assms(4)
  proof (induction calls arbitrary: run)
    case (Cons call calls)
    obtain acc tx q where "run = (acc, tx, q)" by (cases run)
    with Cons.prems obtain del ks where "deliveries (report_queue_content q0) (acc, tx, q) del ks" and "call_ok call"
      by auto
    from report_step_deliveries [OF this] Cons.prems(2) Cons.IH show ?case
      by (simp add: \<open>run = (acc, tx, q)\<close>)
  qed simp
  have "deliveries (report_queue_content q) ([], [], q) [] []"
    using assms by (simp add: deliveries_def sent_each_def)
  with run [of q "([], [], q)"] assms(5) obtain del ks where "deliveries (report_queue_content q) (acc, tx, q') del ks"
    by (auto simp: report_run_def)
  then show ?thesis
    unfolding deliveries_def prod.case by blast
qed

theorem reports_delivered_in_order_witness:
  "case report_run [Queue (REPORT_TYPE_CONSUMER 0xE9), Queue (REPORT_TYPE_CONSUMER 0), Task 10, Task 14, Ack True 1, Task 18] report_queue_static of
     (acc, tx, q') \<Rightarrow> tx = [REPORT_TYPE_CONSUMER 0xE9, REPORT_TYPE_CONSUMER 0xE9, REPORT_TYPE_CONSUMER 0] \<and>
       (\<exists>del ks. acc = del @ report_queue_content q' \<and> tx = sent_each del ks \<and> length ks = length del)"
proof -
  let ?calls = "[Queue (REPORT_TYPE_CONSUMER 0xE9), Queue (REPORT_TYPE_CONSUMER 0), Task 10, Task 14, Ack True 1, Task 18]"
  obtain acc tx q' where run: "report_run ?calls report_queue_static = (acc, tx, q')" by (cases "report_run ?calls report_queue_static")
  have start: "report_queue_ok report_queue_static" "report_queue_content report_queue_static = []"
    by (simp_all add: report_queue_ok_def report_queue_static_def report_queue_content_def ring_list_def ring_len_def)
  have "tx = [REPORT_TYPE_CONSUMER 0xE9, REPORT_TYPE_CONSUMER 0xE9, REPORT_TYPE_CONSUMER 0]"
    using run by (auto simp: report_run_def report_queue_static_def report_buffer_enqueue_def report_buffer_next_def
        REPORT_BUFFER_QUEUE_SIZE_def report_buffer_task_def report_buffer_is_empty_def report_buffer_next_inverval_def
        report_buffer_dequeue_def timer_diff32_def RETPORT_RETRY_COUNT_def DEFAULT_2P4G_REPORT_INVERVAL_MS_def Let_def
        report_buffer_set_inverval_def report_buffer_set_retry_def)
  with reports_delivered_in_order [OF start(1) _ _ _ run] start(2) run show ?thesis
    by (force simp: report_queue_static_def)
qed

end
