(* ===== verification/Lkbt51.thy ===== *)
theory Lkbt51
  imports Prelude
begin

text \<open>
  keyboards/keychron/common/wireless/lkbt51.c, the driver of the LKBT51 Bluetooth/2.4 GHz module: the framing of commands on the SPI
  bus, one function per command, and the relay of firmware-update packets from raw HID.  What the driver receives is
  in Wireless, since it drives the state machine there.

  An array the code writes or reads outside its bounds is the value None.  The static array \<open>payload\<close> is cleared by every
  function before it fills it, so it is the list of the bytes filled in.  What leaves the chip is appended to the trace \<open>radio_out\<close>,
  newest first.  The clock is the millisecond timer: computation takes no time, \<open>wait_ms\<close> does.
\<close>

datatype radio_out = Spi_Send "u8 list" | Wake_Pulse | Raw_Hid_Send "u8 list"

record radio =
  clock :: u32
  reg_offset :: u8
  expect_len :: u8
  connection_interval :: u16
  wake_time :: u32
  cmd_sn :: u8
  dfu_sn :: u8
  wait_for_new_pkt :: bool
  pkt_len :: u8
  pkt_sn :: u8
  radio_out :: "radio_out list"

definition radio_static :: "u32 \<Rightarrow> radio" where
  "radio_static now = \<lparr>clock = now, reg_offset = 0xFF, expect_len = 22, connection_interval = 1, wake_time = 0, cmd_sn = 0,
     dfu_sn = 0, wait_for_new_pkt = True, pkt_len = 0xFF, pkt_sn = 0, radio_out = []\<rparr>"

definition PACKET_MAX_LEN :: nat where "PACKET_MAX_LEN = 64"
definition PACKECT_HEADER_LEN :: nat where "PACKECT_HEADER_LEN = 5"
definition P24G_INDEX :: u8 where "P24G_INDEX = 24"

definition LKBT51_CMD_SEND_KB :: u8 where "LKBT51_CMD_SEND_KB = 0x11"
definition LKBT51_CMD_SEND_KB_NKRO :: u8 where "LKBT51_CMD_SEND_KB_NKRO = 0x12"
definition LKBT51_CMD_SEND_CONSUMER :: u8 where "LKBT51_CMD_SEND_CONSUMER = 0x13"
definition LKBT51_CMD_SEND_SYSTEM :: u8 where "LKBT51_CMD_SEND_SYSTEM = 0x14"
definition LKBT51_CMD_SEND_MOUSE :: u8 where "LKBT51_CMD_SEND_MOUSE = 0x16"
definition LKBT51_CMD_PAIRING :: u8 where "LKBT51_CMD_PAIRING = 0x21"
definition LKBT51_CMD_CONNECT :: u8 where "LKBT51_CMD_CONNECT = 0x22"
definition LKBT51_CMD_DISCONNECT :: u8 where "LKBT51_CMD_DISCONNECT = 0x23"
definition LKBT51_CMD_SWITCH_HOST :: u8 where "LKBT51_CMD_SWITCH_HOST = 0x24"
definition LKBT51_CMD_READ_STATE_REG :: u8 where "LKBT51_CMD_READ_STATE_REG = 0x25"
definition LKBT51_CMD_UPDATE_BAT_LVL :: u8 where "LKBT51_CMD_UPDATE_BAT_LVL = 0x32"
definition LKBT51_CMD_UPDATE_BAT_STATE :: u8 where "LKBT51_CMD_UPDATE_BAT_STATE = 0x33"
definition LKBT51_CMD_GET_MODULE_INFO :: u8 where "LKBT51_CMD_GET_MODULE_INFO = 0x40"
definition LKBT51_CMD_SET_CONFIG :: u8 where "LKBT51_CMD_SET_CONFIG = 0x41"
definition LKBT51_CMD_GET_CONFIG :: u8 where "LKBT51_CMD_GET_CONFIG = 0x42"
definition LKBT51_CMD_SET_NAME :: u8 where "LKBT51_CMD_SET_NAME = 0x45"
definition LKBT51_CMD_GET_NAME :: u8 where "LKBT51_CMD_GET_NAME = 0x46"
definition LKBT51_CMD_FACTORY_RESET :: u8 where "LKBT51_CMD_FACTORY_RESET = 0x71"
definition LKBT51_CMD_IO_TEST :: u8 where "LKBT51_CMD_IO_TEST = 0x72"
definition LKBT51_CMD_RADIO_TEST :: u8 where "LKBT51_CMD_RADIO_TEST = 0x73"
definition LKBT51_CONNECTION_EVT_ACK :: u8 where "LKBT51_CONNECTION_EVT_ACK = 0xA4"

lemmas cmd_defs = LKBT51_CMD_SEND_KB_def LKBT51_CMD_SEND_KB_NKRO_def LKBT51_CMD_SEND_CONSUMER_def LKBT51_CMD_SEND_SYSTEM_def
  LKBT51_CMD_SEND_MOUSE_def LKBT51_CMD_PAIRING_def LKBT51_CMD_CONNECT_def LKBT51_CMD_DISCONNECT_def LKBT51_CMD_SWITCH_HOST_def
  LKBT51_CMD_READ_STATE_REG_def LKBT51_CMD_UPDATE_BAT_LVL_def LKBT51_CMD_UPDATE_BAT_STATE_def LKBT51_CMD_GET_MODULE_INFO_def
  LKBT51_CMD_SET_CONFIG_def LKBT51_CMD_GET_CONFIG_def LKBT51_CMD_SET_NAME_def LKBT51_CMD_GET_NAME_def
  LKBT51_CMD_FACTORY_RESET_def LKBT51_CMD_IO_TEST_def LKBT51_CMD_RADIO_TEST_def LKBT51_CONNECTION_EVT_ACK_def

section \<open>Sending\<close>

definition radio_emit :: "radio_out \<Rightarrow> radio \<Rightarrow> radio" where
  "radio_emit out r = r\<lparr>radio_out := out # radio_out r\<rparr>"

definition radio_wait_ms :: "nat \<Rightarrow> radio \<Rightarrow> radio" where
  "radio_wait_ms n r = r\<lparr>clock := clock r + of_nat n\<rparr>"

definition low_byte :: "u16 \<Rightarrow> u8" where "low_byte w = ucast (w AND 0xFF)"
definition high_byte :: "u16 \<Rightarrow> u8" where "high_byte w = ucast (drop_bit 8 w AND 0xFF)"

definition packet_checksum :: "u8 list \<Rightarrow> u16" where
  "packet_checksum payload = fold (\<lambda>b sum. sum + ucast b) payload 0"

definition lkbt51_wake :: "radio \<Rightarrow> radio" where
  "lkbt51_wake r =
    (if timer_diff32 (clock r) (wake_time r) > 3000
     then radio_wait_ms 300 (radio_wait_ms 10 (radio_emit Wake_Pulse (r\<lparr>wake_time := clock r\<rparr>)))
     else r)"

definition lkbt51_send_protocol_ver :: "u16 \<Rightarrow> radio \<Rightarrow> radio" where
  "lkbt51_send_protocol_ver ver r =
    radio_emit (Spi_Send [0x84, 0x7e, 0x00, 0x00, 0xAA, 0x54, low_byte ver, high_byte ver, NOT 0x54, NOT 0xAA]) (r\<lparr>expect_len := 10\<rparr>)"

text \<open>The packet of a command: SPI prefix, header, length and its complement, serial number, payload, checksum.\<close>

definition lkbt51_packet :: "u8 list \<Rightarrow> bool \<Rightarrow> u8 \<Rightarrow> u8 list" where
  "lkbt51_packet payload ack_enable sn =
    (let len = of_nat (length payload) :: u8; checksum = packet_checksum payload in
     [0x84, 0x7e, 0x00, 0x00, 0xAA, if ack_enable then 0x56 else 0x55, len + 2, NOT (len + 2), sn] @ payload @
     [low_byte checksum, high_byte checksum])"

definition next_sn :: "bool \<Rightarrow> u8 \<Rightarrow> u8" where
  "next_sn retry sn = (let sn = (if retry then sn else sn + 1) in if sn = 0 then sn + 1 else sn)"

definition lkbt51_send_cmd :: "u8 list \<Rightarrow> bool \<Rightarrow> bool \<Rightarrow> radio \<Rightarrow> radio option" where
  "lkbt51_send_cmd payload ack_enable retry r =
    (let r = r\<lparr>cmd_sn := next_sn retry (cmd_sn r)\<rparr>; pkt = lkbt51_packet payload ack_enable (cmd_sn r) in
     if length pkt > PACKET_MAX_LEN then None
     else Some (radio_emit (Spi_Send pkt) (r\<lparr>expect_len := 64\<rparr>)))"

text \<open>
  The reports.  A report is passed as the bytes the pointer leads to; reading past the object it points to is out of bounds.
\<close>

definition lkbt51_send_keyboard :: "u8 list \<Rightarrow> radio \<Rightarrow> radio option" where
  "lkbt51_send_keyboard report r =
    (if length report < 8 then None else lkbt51_send_cmd (LKBT51_CMD_SEND_KB # take 8 report) True False r)"

definition lkbt51_send_nkro :: "u8 list \<Rightarrow> radio \<Rightarrow> radio option" where
  "lkbt51_send_nkro report r =
    (if length report < 20 then None else lkbt51_send_cmd (LKBT51_CMD_SEND_KB_NKRO # take 20 report) True False r)"

definition lkbt51_send_consumer :: "u16 \<Rightarrow> radio \<Rightarrow> radio option" where
  "lkbt51_send_consumer report r =
    lkbt51_send_cmd ([LKBT51_CMD_SEND_CONSUMER, low_byte report, high_byte report] @ replicate 4 0) True False r"

definition lkbt51_send_system :: "u16 \<Rightarrow> radio \<Rightarrow> radio option" where
  "lkbt51_send_system report r =
    (let hid_usage = low_byte report in
     if hid_usage < 0x81 \<or> hid_usage > 0x83 then Some r
     else lkbt51_send_cmd [LKBT51_CMD_SEND_SYSTEM, push_bit (unat (hid_usage - 0x81)) 1] True False r)"

definition sign_byte :: "u8 \<Rightarrow> u8" where
  "sign_byte b = (if b AND 0x80 \<noteq> 0 then 0xff else 0x00)"

definition lkbt51_send_mouse :: "u8 list \<Rightarrow> radio \<Rightarrow> radio option" where
  "lkbt51_send_mouse report r =
    (if length report < 6 then None
     else lkbt51_send_cmd [LKBT51_CMD_SEND_MOUSE, report ! 1, report ! 2, sign_byte (report ! 2), report ! 3, sign_byte (report ! 3),
            report ! 4, report ! 5] False False r)"

definition lkbt51_send_conn_evt_ack :: "radio \<Rightarrow> radio option" where
  "lkbt51_send_conn_evt_ack = lkbt51_send_cmd [LKBT51_CONNECTION_EVT_ACK] False False"

text \<open>Connections.  A NULL parameter of \<open>lkbt51_become_discoverable\<close> stands for the default parameters.\<close>

record pairing_param =
  pp_timeout :: u16
  pp_pairingMode :: u8
  pp_BRorLE :: u8
  pp_txPower :: u8
  pp_leName :: "u8 list option"

definition PAIRING_MODE_LESC_OR_SSP :: u8 where "PAIRING_MODE_LESC_OR_SSP = 3"
definition BT_MODE_CLASSIC :: u8 where "BT_MODE_CLASSIC = 1"

definition default_pairing_param :: pairing_param where
  "default_pairing_param = \<lparr>pp_timeout = 0, pp_pairingMode = PAIRING_MODE_LESC_OR_SSP, pp_BRorLE = BT_MODE_CLASSIC,
     pp_txPower = 0, pp_leName = None\<rparr>"

definition lkbt51_become_discoverable :: "u8 \<Rightarrow> pairing_param option \<Rightarrow> radio \<Rightarrow> radio option" where
  "lkbt51_become_discoverable host_idx param r =
    (let p = (case param of None \<Rightarrow> default_pairing_param | Some p \<Rightarrow> p);
         payload = [LKBT51_CMD_PAIRING, host_idx, low_byte (pp_timeout p), high_byte (pp_timeout p), pp_pairingMode p,
           pp_BRorLE p, pp_txPower p] @ (case pp_leName p of None \<Rightarrow> [] | Some name \<Rightarrow> name)
     in if length payload > PACKET_MAX_LEN then None
        else lkbt51_send_cmd payload True False (lkbt51_wake r))"

definition lkbt51_connect :: "u8 \<Rightarrow> u16 \<Rightarrow> radio \<Rightarrow> radio option" where
  "lkbt51_connect hostIndex timeout r =
    lkbt51_send_cmd [LKBT51_CMD_CONNECT, hostIndex, low_byte timeout, high_byte timeout] True False (lkbt51_wake r)"

definition lkbt51_disconnect :: "radio \<Rightarrow> radio option" where
  "lkbt51_disconnect r = lkbt51_send_cmd [LKBT51_CMD_DISCONNECT, 0] True False (radio_wait_ms 70 (radio_wait_ms 30 r))"

definition lkbt51_switch_host :: "u8 \<Rightarrow> radio \<Rightarrow> radio option" where
  "lkbt51_switch_host hostIndex = lkbt51_send_cmd [LKBT51_CMD_SWITCH_HOST, hostIndex] True False"

definition lkbt51_read_state_reg :: "u8 \<Rightarrow> u8 \<Rightarrow> radio \<Rightarrow> radio option" where
  "lkbt51_read_state_reg reg len r =
    lkbt51_send_cmd [LKBT51_CMD_READ_STATE_REG, reg, len] False False (r\<lparr>reg_offset := reg\<rparr>)"

definition lkbt51_update_bat_lvl :: "u8 \<Rightarrow> radio \<Rightarrow> radio option" where
  "lkbt51_update_bat_lvl bat_lvl = lkbt51_send_cmd [LKBT51_CMD_UPDATE_BAT_LVL, bat_lvl] False False"

definition lkbt51_update_bat_state :: "u8 \<Rightarrow> radio \<Rightarrow> radio option" where
  "lkbt51_update_bat_state bat_state = lkbt51_send_cmd [LKBT51_CMD_UPDATE_BAT_STATE, bat_state] False False"

text \<open>Parameters of the module.\<close>

record module_param =
  event_mode :: u8
  connected_idle_timeout :: u16
  pairing_timeout :: u16
  pairing_mode :: u8
  reconnect_timeout :: u16
  report_rate :: u8
  rsvd1 :: u8
  rsvd2 :: u8
  vendor_id_source :: u8
  verndor_id :: u16
  product_id :: u16
  le_connection_interval_min :: u16
  le_connection_interval_max :: u16
  le_connection_interval_timeout :: u16

definition le_bytes :: "u16 \<Rightarrow> u8 list" where
  "le_bytes w = [low_byte w, high_byte w]"

definition module_param_bytes :: "module_param \<Rightarrow> u8 list" where
  "module_param_bytes p = [event_mode p] @ le_bytes (connected_idle_timeout p) @ le_bytes (pairing_timeout p) @ [pairing_mode p] @
     le_bytes (reconnect_timeout p) @ [report_rate p, rsvd1 p, rsvd2 p, vendor_id_source p] @ le_bytes (verndor_id p) @
     le_bytes (product_id p) @ le_bytes (le_connection_interval_min p) @ le_bytes (le_connection_interval_max p) @
     le_bytes (le_connection_interval_timeout p)"

definition lkbt51_get_info :: "radio \<Rightarrow> radio option" where
  "lkbt51_get_info = lkbt51_send_cmd [LKBT51_CMD_GET_MODULE_INFO] False False"

definition lkbt51_set_param :: "module_param \<Rightarrow> radio \<Rightarrow> radio option" where
  "lkbt51_set_param p = lkbt51_send_cmd (LKBT51_CMD_SET_CONFIG # module_param_bytes p) False False"

definition lkbt51_get_param :: "radio \<Rightarrow> radio option" where
  "lkbt51_get_param = lkbt51_send_cmd [LKBT51_CMD_GET_CONFIG] False False"

definition lkbt51_set_local_name :: "u8 list \<Rightarrow> radio \<Rightarrow> radio option" where
  "lkbt51_set_local_name name r =
    (let len = unat (of_nat (length name) :: u8) in
     if len + 1 > PACKET_MAX_LEN then None else lkbt51_send_cmd (LKBT51_CMD_SET_NAME # take len name) False False r)"

definition lkbt51_get_local_name :: "radio \<Rightarrow> radio option" where
  "lkbt51_get_local_name = lkbt51_send_cmd [LKBT51_CMD_GET_NAME] False False"

definition lkbt51_factory_reset :: "radio \<Rightarrow> radio option" where
  "lkbt51_factory_reset r = lkbt51_send_cmd [LKBT51_CMD_FACTORY_RESET] False False (lkbt51_wake r)"

definition lkbt51_int_pin_test :: "bool \<Rightarrow> radio \<Rightarrow> radio option" where
  "lkbt51_int_pin_test enable = lkbt51_send_cmd [LKBT51_CMD_IO_TEST, of_bool enable] False False"

definition lkbt51_radio_test :: "u8 \<Rightarrow> radio \<Rightarrow> radio option" where
  "lkbt51_radio_test channel = lkbt51_send_cmd [LKBT51_CMD_RADIO_TEST, channel, 0] False False"

section \<open>Firmware update of the module over raw HID\<close>

text \<open>
  The answer to the host: the first \<open>memcpy\<close> writes all bytes of the answer into the 32-byte buffer, behind seven bytes
  of header, before the part beyond 25 bytes is sent in a second report; and the checksum loop, whose sum is never used, reads
  the byte behind the answer.
\<close>

definition lkbt51_dfu_tx :: "u8 \<Rightarrow> u8 list \<Rightarrow> u8 \<Rightarrow> radio \<Rightarrow> radio option" where
  "lkbt51_dfu_tx rsp data sn r =
    (let len = of_nat (length data) :: u8; buf = [0x03, 0xAA, 0x57, len, NOT len, sn, rsp] @ data in
     if length buf > RAW_EPSIZE \<or> length buf \<ge> RAW_EPSIZE then None
     else let r = radio_emit (Raw_Hid_Send (buf @ replicate (RAW_EPSIZE - length buf) 0)) r in
       if len > 25
       then Some (radio_emit (Raw_Hid_Send ((0x03 # drop 25 data) @ replicate (RAW_EPSIZE - 1 - (length data - 25)) 0)) r)
       else Some r)"

text \<open>
  A raw HID packet from the host.  Its payload is relayed to the module when the header, the length and the checksum are right
  and it is a firmware-update command; a packet with the serial number of the last one is relayed as a retry.  The checksum bytes
  of a payload length below two would be the header bytes in front of the payload.
\<close>

definition lkbt51_dfu_rx :: "u8 list \<Rightarrow> radio \<Rightarrow> radio option" where
  "lkbt51_dfu_rx data r =
    (if length data < RAW_EPSIZE then None
     else if data ! 0 = 0xAA \<and> (data ! 1 = 0x55 \<or> data ! 1 = 0x56) \<and> data ! 2 = NOT (data ! 3) then
       let payload_len = unat (data ! 2); payload = drop PACKECT_HEADER_LEN data in
       if payload_len > RAW_EPSIZE - PACKECT_HEADER_LEN then Some r
       else let checksum = packet_checksum (take (payload_len - 2) payload) in
         if low_byte checksum \<noteq> data ! (PACKECT_HEADER_LEN + payload_len - 2) \<or>
            ucast (drop_bit 8 checksum) \<noteq> data ! (PACKECT_HEADER_LEN + payload_len - 1) then Some r
         else let retry = (dfu_sn r = data ! 4); r = r\<lparr>dfu_sn := data ! 4\<rparr> in
           if payload ! 0 AND 0xF0 = 0x60
           then (let len = unat (data ! 2 - 2) in
                 if len > length payload then None
                 else lkbt51_send_cmd (take len payload) (data ! 1 = 0x56) retry (lkbt51_wake r))
           else Some r
     else Some r)"

end
