(* ===== verification/Battery.thy ===== *)
theory Battery
  imports Prelude
begin

text \<open>
  The variables and the arithmetic of keyboards/keychron/common/wireless/battery.c: voltage to percentage, and the two
  counters that latch an empty and a critically low battery.  The tasks that drive them are in Wireless_Tasks.
\<close>

definition BATTERY_EMPTY_COUNT :: u8 where "BATTERY_EMPTY_COUNT = 10"
definition CRITICAL_LOW_COUNT :: u8 where "CRITICAL_LOW_COUNT = 20"
definition LKBT51_RVD_R1 :: u32 where "LKBT51_RVD_R1 = 560"
definition LKBT51_RVD_R2 :: u32 where "LKBT51_RVD_R2 = 499"
definition RVD_R1 :: u32 where "RVD_R1 = 10"
definition RVD_R2 :: u32 where "RVD_R2 = 10"
definition FULL_VOLTAGE_VALUE :: u16 where "FULL_VOLTAGE_VALUE = 4100"
definition EMPTY_VOLTAGE_VALUE :: u16 where "EMPTY_VOLTAGE_VALUE = 3500"
definition SHUTDOWN_VOLTAGE_VALUE :: u16 where "SHUTDOWN_VOLTAGE_VALUE = 3300"
definition VOLTAGE_MEASURE_INTERVAL :: u32 where "VOLTAGE_MEASURE_INTERVAL = 3000"
definition VOLTAGE_POWER_ON_MEASURE_COUNT :: u8 where "VOLTAGE_POWER_ON_MEASURE_COUNT = 15"
definition BACKLIGHT_OFF_VOLTAGE_MEASURE_INTERVAL :: u32 where "BACKLIGHT_OFF_VOLTAGE_MEASURE_INTERVAL = 200"
definition RTC_MAX_TIME :: u32 where "RTC_MAX_TIME = 86400000"
definition BAT_CHARGING :: u8 where "BAT_CHARGING = 1"
definition BAT_FULL_CHARGED :: u8 where "BAT_FULL_CHARGED = 2"

lemmas battery_consts = BATTERY_EMPTY_COUNT_def CRITICAL_LOW_COUNT_def FULL_VOLTAGE_VALUE_def EMPTY_VOLTAGE_VALUE_def
  SHUTDOWN_VOLTAGE_VALUE_def VOLTAGE_MEASURE_INTERVAL_def VOLTAGE_POWER_ON_MEASURE_COUNT_def
  BACKLIGHT_OFF_VOLTAGE_MEASURE_INTERVAL_def RTC_MAX_TIME_def

record battery =
  bat_monitor_timer_buffer :: u32
  voltage :: u16
  bat_empty :: u8
  critical_low :: u8
  power_on_sample :: u8

definition battery_static :: battery where
  "battery_static = \<lparr>bat_monitor_timer_buffer = 0, voltage = FULL_VOLTAGE_VALUE, bat_empty = 0, critical_low = 0, power_on_sample = 0\<rparr>"

definition battery_set_voltage :: "u16 \<Rightarrow> battery \<Rightarrow> battery" where
  "battery_set_voltage value b = b\<lparr>voltage := value\<rparr>"

text \<open>
  The raw value is scaled in 32 bits and stored in 16.  The compensation for the LED current is an input, 0 with the matrix off.
\<close>

definition battery_calculate_voltage :: "u32 \<Rightarrow> bool \<Rightarrow> u16 \<Rightarrow> battery \<Rightarrow> battery" where
  "battery_calculate_voltage compensation vol_src_bt value b =
    (if value < 100 then b
     else let v = (if vol_src_bt then (ucast (ucast value * (LKBT51_RVD_R1 + LKBT51_RVD_R2) div LKBT51_RVD_R2) :: u16)
                   else ucast (ucast value * 3300 div 1024 * (RVD_R1 + RVD_R2) div RVD_R2));
              v = v + ucast compensation
          in battery_set_voltage v b)"

definition battery_get_voltage :: "battery \<Rightarrow> u16" where
  "battery_get_voltage b = voltage b"

definition battery_get_percentage :: "battery \<Rightarrow> u8" where
  "battery_get_percentage b =
    (if voltage b > FULL_VOLTAGE_VALUE then 100
     else if voltage b > EMPTY_VOLTAGE_VALUE then
       ucast ((ucast (voltage b) - ucast EMPTY_VOLTAGE_VALUE) * 80 div ucast (FULL_VOLTAGE_VALUE - EMPTY_VOLTAGE_VALUE) + (20 :: u32))
     else if voltage b > SHUTDOWN_VOLTAGE_VALUE then
       ucast ((ucast (voltage b) - ucast SHUTDOWN_VOLTAGE_VALUE) * 20 div ucast (EMPTY_VOLTAGE_VALUE - SHUTDOWN_VOLTAGE_VALUE) :: u32)
     else 0)"

definition battery_is_empty :: "battery \<Rightarrow> bool" where
  "battery_is_empty b \<longleftrightarrow> bat_empty b > BATTERY_EMPTY_COUNT"

definition battery_is_critical_low :: "battery \<Rightarrow> bool" where
  "battery_is_critical_low b \<longleftrightarrow> critical_low b > CRITICAL_LOW_COUNT"

definition battery_power_on_sample :: "battery \<Rightarrow> bool" where
  "battery_power_on_sample b \<longleftrightarrow> power_on_sample b < VOLTAGE_POWER_ON_MEASURE_COUNT"

text \<open>The counters of the two checks, and whether the check reaches its limit now.\<close>

definition battery_count_empty :: "battery \<Rightarrow> bool \<times> battery" where
  "battery_count_empty b =
    (if voltage b < EMPTY_VOLTAGE_VALUE \<and> bat_empty b \<le> BATTERY_EMPTY_COUNT
     then let b = b\<lparr>bat_empty := bat_empty b + 1\<rparr> in
       if bat_empty b > BATTERY_EMPTY_COUNT then (True, b\<lparr>power_on_sample := VOLTAGE_POWER_ON_MEASURE_COUNT\<rparr>) else (False, b)
     else (False, b))"

definition battery_count_critical_low :: "battery \<Rightarrow> bool \<times> battery" where
  "battery_count_critical_low b =
    (if voltage b < SHUTDOWN_VOLTAGE_VALUE then
       (if critical_low b \<le> CRITICAL_LOW_COUNT
        then let b = b\<lparr>critical_low := critical_low b + 1\<rparr> in (critical_low b > CRITICAL_LOW_COUNT, b) else (False, b))
     else if critical_low b \<le> CRITICAL_LOW_COUNT then (False, b\<lparr>critical_low := 0\<rparr>) else (False, b))"

section \<open>The percentage\<close>

text \<open>The percentage as a function on the natural numbers.\<close>

definition percentage :: "nat \<Rightarrow> nat" where
  "percentage v = (if v > 4100 then 100 else if v > 3500 then (v - 3500) * 80 div 600 + 20
     else if v > 3300 then (v - 3300) * 20 div 200 else 0)"

lemma percentage_le: "percentage v \<le> 100"
  unfolding percentage_def by (auto; linarith)

lemma percentage_mono: "v \<le> w \<Longrightarrow> percentage v \<le> percentage w"
proof -
  assume "v \<le> w"
  then have "(v - 3500) * 80 div 600 \<le> (w - 3500) * 80 div 600" "(v - 3300) * 20 div 200 \<le> (w - 3300) * 20 div 200"
    by (auto intro!: div_le_mono)
  moreover have "(v - 3300) * 20 div 200 \<le> 20" if "v \<le> 3500"
    using that by linarith
  moreover have "(v - 3500) * 80 div 600 \<le> 80" if "v \<le> 4100"
    using that by linarith
  ultimately show ?thesis
    using \<open>v \<le> w\<close> unfolding percentage_def by (auto; linarith)
qed

lemma unat_scaled:
  fixes v :: u16 and base k d :: u32
  assumes "unat base \<le> unat v" and "unat k \<le> 100"
  shows "unat ((ucast v - base) * k div d) = (unat v - unat base) * unat k div unat d"
proof -
  have le: "base \<le> (ucast v :: u32)"
    using assms(1) by (simp add: word_le_nat_alt)
  have "(unat v - unat base) * unat k \<le> 65536 * 100"
    by (intro mult_le_mono) (use unat_u16_lt [of v] assms(2) in linarith)+
  then have "unat ((ucast v - base) * k) = (unat v - unat base) * unat k"
    using le by (simp add: unat_mult_lem [THEN iffD1] unat_sub unat_word_ariths)
  then show ?thesis
    by (simp add: unat_div)
qed

text \<open>
  C39.  The battery percentage is the piecewise linear function of the millivolts, computed without overflow for every voltage:
  it never exceeds 100, and a higher voltage never shows a lower percentage.
\<close>

theorem battery_percentage:
  "unat (battery_get_percentage b) = percentage (unat (voltage b)) \<and> battery_get_percentage b \<le> 100 \<and>
   (voltage b \<le> voltage b' \<longrightarrow> battery_get_percentage b \<le> battery_get_percentage b')"
proof -
  have val: "unat (battery_get_percentage b) = percentage (unat (voltage b))" for b
  proof -
    let ?v = "unat (voltage b)"
    have hi: "unat (ucast ((ucast (voltage b) - 3500) * 80 div 600 + (20 :: u32)) :: u8) = (?v - 3500) * 80 div 600 + 20"
      if "3500 < ?v" "?v \<le> 4100"
    proof -
      have "unat ((ucast (voltage b) - 3500) * 80 div 600 :: u32) = (?v - 3500) * 80 div 600"
        using that unat_scaled [of 3500 "voltage b" 80 600] by simp
      moreover have "(?v - 3500) * 80 div 600 \<le> 80"
        using that by linarith
      ultimately show ?thesis
        by (simp add: unsigned_ucast_eq unat_word_ariths take_bit_nat_eq_self)
    qed
    have lo: "unat (ucast ((ucast (voltage b) - 3300) * 20 div (200 :: u32)) :: u8) = (?v - 3300) * 20 div 200"
      if "3300 < ?v" "?v \<le> 3500"
    proof -
      have "unat ((ucast (voltage b) - 3300) * 20 div 200 :: u32) = (?v - 3300) * 20 div 200"
        using that unat_scaled [of 3300 "voltage b" 20 200] by simp
      moreover have "(?v - 3300) * 20 div 200 \<le> 20"
        using that by linarith
      ultimately show ?thesis
        by (simp add: unsigned_ucast_eq take_bit_nat_eq_self)
    qed
    show ?thesis
      using hi lo by (auto simp: battery_get_percentage_def percentage_def battery_consts word_less_nat_alt not_less)
  qed
  then show ?thesis
    using percentage_le [of "unat (voltage b)"] percentage_mono [of "unat (voltage b)" "unat (voltage b')"]
    by (simp add: word_le_nat_alt)
qed

text \<open>Four volts and 3.4 volts.\<close>

theorem battery_percentage_witness:
  "battery_get_percentage (battery_static\<lparr>voltage := 3400\<rparr>) \<le> battery_get_percentage (battery_static\<lparr>voltage := 4000\<rparr>) \<and>
   unat (battery_get_percentage (battery_static\<lparr>voltage := 4000\<rparr>)) = 86"
  using battery_percentage [of "battery_static\<lparr>voltage := 3400\<rparr>" "battery_static\<lparr>voltage := 4000\<rparr>"]
    battery_percentage [of "battery_static\<lparr>voltage := 4000\<rparr>"]
  by (simp add: percentage_def)

end
