(* ===== verification/Wireless.thy ===== *)
theory Wireless
  imports Action Report_Buffer Lkbt51 Battery "HOL-Library.Monad_Syntax"
begin

text \<open>
  keyboards/keychron/common/wireless/wireless.c: the event queue, the state machine of the radio link and the host driver
  that hands reports to the report buffer.  The record \<open>wt\<close> holds the variables of the wireless files; the report
  buffer, the module driver and the battery have records of their own in it, and the keyboard core is in it because a
  new connection clears the keyboard and switches NKRO.

  \<open>wireless_transport\<close> is the table of lkbt51.c, whose entries are all set, so its functions are called directly.
  The result None is that of a buffer overrun in lkbt51.c.  Calls into the indicator LEDs are appended to the trace
  \<open>wt_out\<close>; the pins, the LED state and the RTC the code reads are the record \<open>wt_env\<close>.
\<close>

section \<open>State\<close>

datatype wt_state = WT_RESET | WT_INITIALIZED | WT_DISCONNECTED | WT_CONNECTED | WT_PARING | WT_RECONNECTING | WT_SUSPEND

datatype event_type = EVT_NONE | EVT_RESET | EVT_DISCOVERABLE | EVT_RECONNECTING | EVT_CONNECTED | EVT_DISCONNECTED
  | EVT_PINCODE_ENTRY | EVT_EXIT_PINCODE_ENTRY | EVT_SLEEP | EVT_HID_SET_PROTOCOL | EVT_HID_INDICATOR | EVT_CONECTION_INTERVAL

text \<open>The parameter union holds one byte, whichever member is used.\<close>

record wireless_event =
  evt_type :: event_type
  params :: u8

definition no_wireless_event :: wireless_event where
  "no_wireless_event = \<lparr>evt_type = EVT_NONE, params = 0\<rparr>"

datatype wt_driver = No_Driver | Chibios_Driver | Wireless_Driver

datatype wt_out =
    Usb_Out host_event
  | Core_Out host_event
  | Indicator_Init
  | Indicator_Set wt_state u8
  | Indicator_Stop
  | Battery_Low_Backlit bool
  | Led_Update_Kb u8
  | Bat_Level_Animation u8
  | Factory_Test_Send "u8 list"

record wt_env =
  usb_power :: bool
  usb_driver_active :: bool
  indicator_running :: bool
  led_enabled :: bool
  led_compensation :: u32
  charging_pin :: bool
  rtc_ms :: u32

definition WT_EVENT_QUEUE_SIZE :: nat where "WT_EVENT_QUEUE_SIZE = 16"

record 'e wt =
  core :: "'e kb"
  active_driver :: wt_driver
  reports :: report_queue
  radio :: radio
  bat :: battery
  wt_env :: wt_env
  host_index :: u8
  led_state :: u8
  wireless_state :: wt_state
  pincodeEntry :: bool
  wireless_report_protocol :: bool
  wireless_event_queue :: "wireless_event list"
  wireless_event_queue_head :: u8
  wireless_event_queue_tail :: u8
  transport :: u8
  nkro_usb :: bool
  nkro_bluetooth :: bool
  usb_host_indicator_enable :: bool
  firstDisconnect :: bool
  pairing_key_timer :: u32
  host_idx :: u8
  record_host_idx :: u8
  winlock_timer :: u32
  pre_task_time :: u32
  lpm_time_up :: bool
  lpm_timer_buffer :: u32
  wt_out :: "wt_out list"

text \<open>The variables as the linker leaves them, before \<open>wireless_init\<close>.\<close>

definition wt_static :: "'e kb \<Rightarrow> u32 \<Rightarrow> wt_env \<Rightarrow> 'e wt" where
  "wt_static k now env = \<lparr>core = k, active_driver = No_Driver, reports = report_queue_static, radio = radio_static now,
     bat = battery_static, wt_env = env, host_index = 0, led_state = 0, wireless_state = WT_RESET, pincodeEntry = False,
     wireless_report_protocol = True, wireless_event_queue = replicate WT_EVENT_QUEUE_SIZE no_wireless_event,
     wireless_event_queue_head = 0, wireless_event_queue_tail = 0, transport = 0, nkro_usb = False, nkro_bluetooth = False,
     usb_host_indicator_enable = False, firstDisconnect = True, pairing_key_timer = 0, host_idx = 0, record_host_idx = 0,
     winlock_timer = 0, pre_task_time = 0, lpm_time_up = False, lpm_timer_buffer = 0, wt_out = []\<rparr>"

definition wt_emit :: "wt_out \<Rightarrow> 'e wt \<Rightarrow> 'e wt" where
  "wt_emit out s = s\<lparr>wt_out := out # wt_out s\<rparr>"

definition wt_now :: "'e wt \<Rightarrow> u32" where
  "wt_now s = clock (radio s)"

text \<open>A call into one of the parts.\<close>

definition with_radio :: "(radio \<Rightarrow> radio option) \<Rightarrow> 'e wt \<Rightarrow> 'e wt option" where
  "with_radio f s = map_option (\<lambda>r. s\<lparr>radio := r\<rparr>) (f (radio s))"

definition with_reports :: "(report_queue \<Rightarrow> report_queue) \<Rightarrow> 'e wt \<Rightarrow> 'e wt" where
  "with_reports f s = s\<lparr>reports := f (reports s)\<rparr>"

definition set_keymap_nkro :: "bool \<Rightarrow> 'e wt \<Rightarrow> 'e wt" where
  "set_keymap_nkro b s = s\<lparr>core := (core s)\<lparr>keymap_config := if b then set_bit 7 (keymap_config (core s)) else unset_bit 7 (keymap_config (core s))\<rparr>\<rparr>"

definition lpm_timer_reset :: "'e wt \<Rightarrow> 'e wt" where
  "lpm_timer_reset s = s\<lparr>lpm_time_up := False, lpm_timer_buffer := wt_now s\<rparr>"

definition lpm_timer_stop :: "'e wt \<Rightarrow> 'e wt" where
  "lpm_timer_stop s = s\<lparr>lpm_time_up := False, lpm_timer_buffer := 0\<rparr>"

section \<open>The event queue\<close>

definition wireless_event_queue_init :: "'e wt \<Rightarrow> 'e wt" where
  "wireless_event_queue_init s = s\<lparr>wireless_event_queue := replicate WT_EVENT_QUEUE_SIZE no_wireless_event,
     wireless_event_queue_head := 0, wireless_event_queue_tail := 0\<rparr>"

definition wireless_event_next :: "u8 \<Rightarrow> u8" where
  "wireless_event_next i = of_nat ((unat i + 1) mod WT_EVENT_QUEUE_SIZE)"

text \<open>A full queue loses its oldest event.\<close>

definition wireless_event_enqueue :: "wireless_event \<Rightarrow> 'e wt \<Rightarrow> 'e wt" where
  "wireless_event_enqueue ev s =
    (let next = wireless_event_next (wireless_event_queue_head s);
         s = (if next = wireless_event_queue_tail s
              then s\<lparr>wireless_event_queue_tail := wireless_event_next (wireless_event_queue_tail s)\<rparr> else s)
     in s\<lparr>wireless_event_queue := (wireless_event_queue s)[unat (wireless_event_queue_head s) := ev],
          wireless_event_queue_head := next\<rparr>)"

definition wireless_event_dequeue :: "'e wt \<Rightarrow> wireless_event option \<times> 'e wt" where
  "wireless_event_dequeue s =
    (if wireless_event_queue_head s = wireless_event_queue_tail s then (None, s)
     else (Some (wireless_event_queue s ! unat (wireless_event_queue_tail s)),
           s\<lparr>wireless_event_queue_tail := wireless_event_next (wireless_event_queue_tail s)\<rparr>))"

section \<open>Connecting\<close>

definition wireless_disconnect :: "'e wt \<Rightarrow> 'e wt option" where
  "wireless_disconnect s = with_radio lkbt51_disconnect s"

definition wireless_pairing_ex :: "u8 \<Rightarrow> pairing_param option \<Rightarrow> 'e wt \<Rightarrow> 'e wt option" where
  "wireless_pairing_ex idx param s =
    (if battery_is_critical_low (bat s) then Some s
     else do { s \<leftarrow> with_radio (lkbt51_become_discoverable idx param) s;
               Some (s\<lparr>wireless_state := WT_PARING, host_index := idx\<rparr>) })"

definition wireless_pairing :: "'e wt \<Rightarrow> 'e wt option" where
  "wireless_pairing s =
    (if battery_is_critical_low (bat s) then Some s
     else do { s \<leftarrow> wireless_pairing_ex 0 None s; Some (s\<lparr>wireless_state := WT_PARING\<rparr>) })"

definition wireless_connect :: "'e wt \<Rightarrow> 'e wt option" where
  "wireless_connect s =
    (if battery_is_critical_low (bat s) \<or> wt_now s = 0 then Some s
     else let s = (if wireless_state s = WT_RECONNECTING \<and> \<not> indicator_running (wt_env s)
                   then wt_emit (Indicator_Set (wireless_state s) (host_index s)) s else s)
          in do { s \<leftarrow> with_radio (lkbt51_connect 0 0) s; Some (s\<lparr>wireless_state := WT_RECONNECTING\<rparr>) })"

definition wireless_connect_ex :: "u8 \<Rightarrow> u16 \<Rightarrow> 'e wt \<Rightarrow> 'e wt option" where
  "wireless_connect_ex idx timeout s =
    (if battery_is_critical_low (bat s) then Some s
     else if idx \<noteq> 0 \<and> host_index s = idx \<and> wireless_state s = WT_CONNECTED then Some s
     else let s = (if idx \<noteq> 0 then s\<lparr>host_index := idx, led_state := 0\<rparr> else s)
          in do { s \<leftarrow> with_radio (lkbt51_connect idx timeout) s; Some (s\<lparr>wireless_state := WT_RECONNECTING\<rparr>) })"

section \<open>The host driver\<close>

definition wreless_keyboard_leds :: "'e wt \<Rightarrow> u8" where
  "wreless_keyboard_leds s = (if wireless_state s = WT_CONNECTED then led_state s else 0)"

definition wireless_send_keyboard :: "report_keyboard_t \<Rightarrow> 'e wt \<Rightarrow> 'e wt option" where
  "wireless_send_keyboard report s =
    (if wireless_state s = WT_PARING \<and> \<not> pincodeEntry s then Some s
     else if wireless_state s = WT_CONNECTED \<or> (wireless_state s = WT_PARING \<and> pincodeEntry s) then
       (if wireless_report_protocol s \<and> nkro (keymap_config (core s))
        then Some (with_reports (\<lambda>q. snd (report_buffer_enqueue (REPORT_TYPE_NKRO report) q)) s)
        else Some (with_reports (\<lambda>q. snd (report_buffer_enqueue (REPORT_TYPE_KB report) q)) s))
     else if wireless_state s \<noteq> WT_RESET then wireless_connect s
     else Some s)"

definition wireless_send_mouse :: "u8 list \<Rightarrow> 'e wt \<Rightarrow> 'e wt option" where
  "wireless_send_mouse report s =
    (if wireless_state s = WT_CONNECTED then with_radio (lkbt51_send_mouse report) s
     else if wireless_state s \<noteq> WT_RESET then wireless_connect s
     else Some s)"

definition wireless_send_system :: "u16 \<Rightarrow> 'e wt \<Rightarrow> 'e wt option" where
  "wireless_send_system data s =
    (if wireless_state s = WT_CONNECTED then with_radio (lkbt51_send_system data) s
     else if wireless_state s \<noteq> WT_RESET then wireless_connect s
     else Some s)"

definition wireless_send_consumer :: "u16 \<Rightarrow> 'e wt \<Rightarrow> 'e wt option" where
  "wireless_send_consumer data s =
    (if wireless_state s = WT_CONNECTED then
       (if report_buffer_is_empty (reports s) \<and> report_buffer_next_inverval (wt_now s) (reports s)
        then do { s \<leftarrow> with_radio (lkbt51_send_consumer data) s; Some (with_reports (report_buffer_update_timer (wt_now s)) s) }
        else Some (with_reports (\<lambda>q. snd (report_buffer_enqueue (REPORT_TYPE_CONSUMER data) q)) s))
     else if wireless_state s \<noteq> WT_RESET then wireless_connect s
     else Some s)"

definition wireless_send_extra :: "u8 \<Rightarrow> u16 \<Rightarrow> 'e wt \<Rightarrow> 'e wt option" where
  "wireless_send_extra report_id usage s =
    (if report_id = REPORT_ID_SYSTEM then wireless_send_system usage s
     else if report_id = REPORT_ID_CONSUMER then wireless_send_consumer usage s
     else Some s)"

text \<open>
  What the keyboard core emits while it runs goes to the active driver.  The drivers read nothing the core
  writes except \<open>keymap_config\<close>, which none of the core operations used here changes between two reports, so the reports of a call are handed over when it returns.
\<close>

definition deliver :: "host_event \<Rightarrow> 'e wt \<Rightarrow> 'e wt option" where
  "deliver ev s = (case active_driver s of
      No_Driver \<Rightarrow> Some (wt_emit (Core_Out ev) s)
    | Chibios_Driver \<Rightarrow> Some (wt_emit (case ev of Send_Keyboard r \<Rightarrow> Usb_Out ev | Send_Extra i u \<Rightarrow> Usb_Out ev | _ \<Rightarrow> Core_Out ev) s)
    | Wireless_Driver \<Rightarrow> (case ev of Send_Keyboard r \<Rightarrow> wireless_send_keyboard r s
        | Send_Extra i u \<Rightarrow> wireless_send_extra i u s | _ \<Rightarrow> Some (wt_emit (Core_Out ev) s)))"

primrec deliver_all :: "host_event list \<Rightarrow> 'e wt \<Rightarrow> 'e wt option" where
  "deliver_all [] s = Some s"
| "deliver_all (ev # evs) s = deliver ev s \<bind> deliver_all evs"

definition run_core :: "('e kb \<Rightarrow> 'e kb) \<Rightarrow> 'e wt \<Rightarrow> 'e wt option" where
  "run_core f s =
    (let k = f ((core s)\<lparr>sent := []\<rparr>) in deliver_all (rev (sent k)) (s\<lparr>core := k\<lparr>sent := sent (core s)\<rparr>\<rparr>))"

section \<open>Entering a state\<close>

text \<open>The parameters lemokey\_wireless\_common.c sets in the module.  The product name and id are those of the P1.\<close>

definition PRODUCT :: "u8 list" where
  "PRODUCT = [81, 105, 110, 103, 78, 105, 97, 111, 32, 55, 53]"

definition kb_module_param :: module_param where
  "kb_module_param = \<lparr>event_mode = 2, connected_idle_timeout = 7200, pairing_timeout = 180, pairing_mode = 0, reconnect_timeout = 5,
     report_rate = 90, rsvd1 = 0, rsvd2 = 0, vendor_id_source = 1, verndor_id = 0x3434, product_id = 0x1310,
     le_connection_interval_min = 0, le_connection_interval_max = 0, le_connection_interval_timeout = 0\<rparr>"

definition lkbt51_param_init :: "'e wt \<Rightarrow> 'e wt option" where
  "lkbt51_param_init s = with_radio (\<lambda>r. do {
     r \<leftarrow> lkbt51_set_local_name PRODUCT r; lkbt51_set_param kb_module_param (radio_wait_ms 3 r) }) s"

definition TRANSPORT_USB :: u8 where "TRANSPORT_USB = 1"
definition TRANSPORT_BLUETOOTH :: u8 where "TRANSPORT_BLUETOOTH = 2"
definition TRANSPORT_P2P4 :: u8 where "TRANSPORT_P2P4 = 4"
definition TRANSPORT_WIRELESS :: u8 where "TRANSPORT_WIRELESS = TRANSPORT_BLUETOOTH OR TRANSPORT_P2P4"

definition wireless_enter_reset_kb :: "u8 \<Rightarrow> 'e wt \<Rightarrow> 'e wt option" where
  "wireless_enter_reset_kb reason = lkbt51_param_init"

definition wireless_enter_disconnected_kb :: "u8 \<Rightarrow> 'e wt \<Rightarrow> 'e wt option" where
  "wireless_enter_disconnected_kb idx s =
    (if firstDisconnect s \<and> wt_now s < 1000 then do {
       s \<leftarrow> lkbt51_param_init s;
       s \<leftarrow> (if transport s = TRANSPORT_BLUETOOTH then wireless_connect s else Some s);
       Some (s\<lparr>firstDisconnect := False\<rparr>) }
     else Some s)"

definition wireless_enter_reset :: "u8 \<Rightarrow> 'e wt \<Rightarrow> 'e wt option" where
  "wireless_enter_reset reason s = wireless_enter_reset_kb reason (s\<lparr>wireless_state := WT_RESET\<rparr>)"

definition wireless_enter_discoverable :: "u8 \<Rightarrow> 'e wt \<Rightarrow> 'e wt" where
  "wireless_enter_discoverable idx s =
    wt_emit (Indicator_Set WT_PARING idx) (s\<lparr>host_index := idx, wireless_state := WT_PARING\<rparr>)"

definition wireless_enter_reconnecting :: "u8 \<Rightarrow> 'e wt \<Rightarrow> 'e wt" where
  "wireless_enter_reconnecting idx s =
    wt_emit (Indicator_Set WT_RECONNECTING idx) (s\<lparr>host_index := idx, wireless_state := WT_RECONNECTING\<rparr>)"

definition wireless_enter_connected :: "u8 \<Rightarrow> 'e wt \<Rightarrow> 'e wt option" where
  "wireless_enter_connected idx s =
    (let s = wt_emit (Indicator_Set WT_CONNECTED idx) (s\<lparr>wireless_state := WT_CONNECTED\<rparr>)\<lparr>host_index := idx\<rparr>
     in do {
       s \<leftarrow> run_core clear_keyboard s;
       let s = set_keymap_nkro (nkro_bluetooth s) s;
       with_radio (lkbt51_update_bat_lvl (battery_get_percentage (bat s))) s })"

definition wireless_enter_disconnected :: "u8 \<Rightarrow> 'e wt \<Rightarrow> 'e wt option" where
  "wireless_enter_disconnected idx s =
    (let previous_state = wireless_state s;
         s = wt_emit (Led_Update_Kb 0) (s\<lparr>led_state := 0\<rparr>);
         s = s\<lparr>wireless_state := WT_DISCONNECTED\<rparr>;
         s = (if previous_state = WT_CONNECTED then wt_emit (Indicator_Set WT_SUSPEND idx) (lpm_timer_reset s)
              else wt_emit (Indicator_Set (wireless_state s) idx) s);
         s = with_reports (report_buffer_set_retry 0 \<circ> report_buffer_init (wt_now s)) s
     in do { s \<leftarrow> wireless_enter_disconnected_kb idx s; Some (wt_emit (Battery_Low_Backlit False) s) })"

definition wireless_enter_bluetooth_pin_code_entry :: "'e wt \<Rightarrow> 'e wt" where
  "wireless_enter_bluetooth_pin_code_entry s = (set_keymap_nkro False s)\<lparr>pincodeEntry := True\<rparr>"

definition wireless_exit_bluetooth_pin_code_entry :: "'e wt \<Rightarrow> 'e wt" where
  "wireless_exit_bluetooth_pin_code_entry s = (set_keymap_nkro True s)\<lparr>pincodeEntry := False\<rparr>"

definition wireless_enter_sleep :: "'e wt \<Rightarrow> 'e wt" where
  "wireless_enter_sleep s =
    (let s = s\<lparr>led_state := 0\<rparr> in
     if wireless_state s = WT_PARING
     then wt_emit (Battery_Low_Backlit False) (wt_emit (Indicator_Set WT_SUSPEND 0) (s\<lparr>wireless_state := WT_SUSPEND\<rparr>))
     else s)"

definition wireless_hid_set_protocol :: "u8 \<Rightarrow> 'e wt \<Rightarrow> 'e wt" where
  "wireless_hid_set_protocol report_protocol s = s\<lparr>wireless_report_protocol := False\<rparr>"

section \<open>The event task\<close>

definition wireless_handle :: "wireless_event \<Rightarrow> 'e wt \<Rightarrow> 'e wt option" where
  "wireless_handle ev s = (case evt_type ev of
      EVT_RESET \<Rightarrow> wireless_enter_reset (params ev) s
    | EVT_CONNECTED \<Rightarrow> wireless_enter_connected (params ev) s
    | EVT_DISCOVERABLE \<Rightarrow> Some (wireless_enter_discoverable (params ev) s)
    | EVT_RECONNECTING \<Rightarrow> Some (wireless_enter_reconnecting (params ev) s)
    | EVT_DISCONNECTED \<Rightarrow> wireless_enter_disconnected (params ev) s
    | EVT_PINCODE_ENTRY \<Rightarrow> Some (wireless_enter_bluetooth_pin_code_entry s)
    | EVT_EXIT_PINCODE_ENTRY \<Rightarrow> Some (wireless_exit_bluetooth_pin_code_entry s)
    | EVT_SLEEP \<Rightarrow> Some (wireless_enter_sleep s)
    | EVT_HID_INDICATOR \<Rightarrow> Some (s\<lparr>led_state := params ev\<rparr>)
    | EVT_HID_SET_PROTOCOL \<Rightarrow> Some (wireless_hid_set_protocol (params ev) s)
    | EVT_CONECTION_INTERVAL \<Rightarrow> Some (with_reports (report_buffer_set_inverval (params ev)) s)
    | EVT_NONE \<Rightarrow> Some s)"

text \<open>The loop over the queue; no handler queues an event, so as many rounds as the queue has slots are enough.\<close>

fun wireless_event_loop :: "nat \<Rightarrow> 'e wt \<Rightarrow> 'e wt option" where
  "wireless_event_loop 0 s = Some s"
| "wireless_event_loop (Suc n) s = (case wireless_event_dequeue s of
      (None, s) \<Rightarrow> Some s
    | (Some ev, s) \<Rightarrow> wireless_handle ev s \<bind> wireless_event_loop n)"

definition wireless_event_task :: "'e wt \<Rightarrow> 'e wt option" where
  "wireless_event_task = wireless_event_loop WT_EVENT_QUEUE_SIZE"

text \<open>The report task with the transport it sends through: a keyboard report is passed from its modifier byte on.\<close>

definition transport_send :: "report_buffer_t \<Rightarrow> radio \<Rightarrow> radio option" where
  "transport_send r = (case r of
      REPORT_TYPE_NONE \<Rightarrow> Some
    | REPORT_TYPE_KB report \<Rightarrow> lkbt51_send_keyboard report
    | REPORT_TYPE_NKRO report \<Rightarrow> lkbt51_send_nkro (drop 1 report)
    | REPORT_TYPE_CONSUMER usage \<Rightarrow> lkbt51_send_consumer usage)"

definition wireless_report_task :: "'e wt \<Rightarrow> 'e wt option" where
  "wireless_report_task s =
    (let (r, q) = report_buffer_task (wireless_state s = WT_CONNECTED) (wt_now s) (reports s); s = s\<lparr>reports := q\<rparr> in
     case r of None \<Rightarrow> Some s
     | Some r \<Rightarrow> map_option lpm_timer_reset (with_radio (transport_send r) s))"

definition wireless_init :: "'e eeprom_ops \<Rightarrow> 'e wt \<Rightarrow> 'e wt" where
  "wireless_init ops s =
    (let s = wireless_event_queue_init (s\<lparr>wireless_state := WT_INITIALIZED\<rparr>);
         s = wt_emit Indicator_Init (with_reports (report_buffer_init (wt_now s)) s);
         s = lpm_timer_reset s;
         cfg = eeconfig_read_keymap ops (eeprom_state (core s))
     in s\<lparr>core := (core s)\<lparr>keymap_config := cfg\<rparr>, nkro_usb := nkro cfg, nkro_bluetooth := nkro cfg\<rparr>)"

end
