(* ===== verification/Wireless_Tasks.thy ===== *)
theory Wireless_Tasks
  imports Wireless
begin

text \<open>
  What drives the state machine of the radio link: the bytes lkbt51.c reads from the module, the tasks of battery.c and
  lemokey\_wireless\_common.c, the choice of the transport (transport.c) and the keys that select a host.
\<close>

section \<open>Reading from the module\<close>

definition BUFFER_SIZE :: nat where "BUFFER_SIZE = 64"
definition VALID_DATA_START_INDEX :: nat where "VALID_DATA_START_INDEX = 4"

text \<open>
  \<open>lkbt51_read\<close> exchanges four bytes of header and the expected length with the module.  The bytes from the module go
  into a buffer of 64 bytes, and those to the module come from another one of that size.
\<close>

definition lkbt51_read_length :: "u8 \<Rightarrow> u8" where
  "lkbt51_read_length len = 4 + len"

definition lkbt51_read :: "(nat \<Rightarrow> u8) \<Rightarrow> u8 \<Rightarrow> u8 list option" where
  "lkbt51_read miso len =
    (let n = unat (lkbt51_read_length len) in
     if n > BUFFER_SIZE then None else Some (map miso [0..<n] @ replicate (BUFFER_SIZE - n) 0))"

text \<open>Access to the buffer at a signed index.\<close>

definition buf_at :: "u8 list \<Rightarrow> int \<Rightarrow> u8 option" where
  "buf_at buf i = (if 0 \<le> i \<and> i < int (length buf) then Some (buf ! nat i) else None)"

definition LKBT51_EVT_ACK :: u8 where "LKBT51_EVT_ACK = 0xA1"
definition LKBT51_EVT_QUERY_RSP :: u8 where "LKBT51_EVT_QUERY_RSP = 0xA2"
definition LKBT51_EVT_OTA_RSP :: u8 where "LKBT51_EVT_OTA_RSP = 0xA3"
definition LKBT51_EVT_RESET :: u8 where "LKBT51_EVT_RESET = 0xB0"
definition LKBT51_EVT_HID_EVENT :: u8 where "LKBT51_EVT_HID_EVENT = 0xB4"

definition ACK_SUCCESS :: u8 where "ACK_SUCCESS = 0"
definition ACK_FIFO_HALF_WARNING :: u8 where "ACK_FIFO_HALF_WARNING = 2"
definition ACK_FIFO_FULL_ERROR :: u8 where "ACK_FIFO_FULL_ERROR = 3"

lemmas evt_defs = LKBT51_EVT_ACK_def LKBT51_EVT_QUERY_RSP_def LKBT51_EVT_OTA_RSP_def LKBT51_EVT_RESET_def
  LKBT51_EVT_HID_EVENT_def ACK_SUCCESS_def ACK_FIFO_HALF_WARNING_def ACK_FIFO_FULL_ERROR_def

definition ack_handler :: "u8 list \<Rightarrow> 'e wt \<Rightarrow> 'e wt option" where
  "ack_handler data s = do {
     cmd \<leftarrow> buf_at data 1;
     if cmd \<in> {LKBT51_CMD_SEND_KB, LKBT51_CMD_SEND_KB_NKRO, LKBT51_CMD_SEND_CONSUMER, LKBT51_CMD_SEND_SYSTEM, LKBT51_CMD_SEND_MOUSE}
     then do {
       status \<leftarrow> buf_at data 2;
       let interval = connection_interval (radio s);
       Some (if status = ACK_SUCCESS then with_reports (report_buffer_set_inverval (ucast interval) \<circ> report_buffer_set_retry 0) s
             else if status = ACK_FIFO_HALF_WARNING
             then with_reports (report_buffer_set_inverval (ucast (interval + 5)) \<circ> report_buffer_set_retry 0) s
             else if status = ACK_FIFO_FULL_ERROR then with_reports (report_buffer_set_inverval (ucast (interval + 10))) s
             else s) }
     else Some s }"

definition query_rsp_handler :: "u8 list \<Rightarrow> u8 \<Rightarrow> 'e wt \<Rightarrow> 'e wt option" where
  "query_rsp_handler data len s = do {
     status \<leftarrow> buf_at data 2;
     cmd \<leftarrow> buf_at data 1;
     if status = 0 \<and> cmd = LKBT51_CMD_IO_TEST
     then if unat len > length data then None else Some (wt_emit (Factory_Test_Send (take (unat len) data)) s)
     else Some s }"

definition lkbt51_event_handler :: "u8 \<Rightarrow> u8 list \<Rightarrow> u8 \<Rightarrow> u8 \<Rightarrow> 'e wt \<Rightarrow> 'e wt option" where
  "lkbt51_event_handler evt data len sn s =
    (if evt = LKBT51_EVT_ACK then ack_handler data s
     else if evt = LKBT51_EVT_RESET then do {
       reason \<leftarrow> buf_at data 0; Some (wireless_event_enqueue \<lparr>evt_type = EVT_RESET, params = reason\<rparr> s) }
     else if evt = LKBT51_EVT_HID_EVENT then do {
       led \<leftarrow> buf_at data 0; Some (wireless_event_enqueue \<lparr>evt_type = EVT_HID_INDICATOR, params = led\<rparr> s) }
     else if evt = LKBT51_EVT_QUERY_RSP then query_rsp_handler data len s
     else if evt = LKBT51_EVT_OTA_RSP then
       (if unat len > length data then None else with_radio (lkbt51_dfu_tx LKBT51_EVT_OTA_RSP (take (unat len) data) sn) s)
     else Some s)"

text \<open>
  The status bytes of a packet.  The event variable keeps its type from the reset into the connection part.  The flag that
  tells the win-lock LED of a sleep event is left out with the LEDs.
\<close>

definition LK_EVT_MSK_CONNECTION :: u8 where "LK_EVT_MSK_CONNECTION = 1"
definition LK_EVT_MSK_LED :: u8 where "LK_EVT_MSK_LED = 2"
definition LK_EVT_MSK_BATT :: u8 where "LK_EVT_MSK_BATT = 4"
definition LK_EVT_MSK_RESET :: u8 where "LK_EVT_MSK_RESET = 8"
definition LK_EVT_MSK_RPT_INTERVAL :: u8 where "LK_EVT_MSK_RPT_INTERVAL = 16"

definition connection_event :: "event_type \<Rightarrow> u8 \<Rightarrow> event_type" where
  "connection_event before status =
    (if status = 0x20 then EVT_CONNECTED else if status = 0x21 then EVT_DISCOVERABLE
     else if status = 0x22 then EVT_RECONNECTING else if status = 0x23 then EVT_DISCONNECTED
     else if status = 0x24 then EVT_PINCODE_ENTRY else if status = 0x25 then EVT_EXIT_PINCODE_ENTRY
     else if status = 0x26 then EVT_SLEEP else before)"

text \<open>The report interval in milliseconds from the byte of the status, and the divided value that is used.\<close>

definition report_interval_ms :: "u8 \<Rightarrow> u16" where
  "report_interval_ms b =
    (let interval = (if b AND 0x80 \<noteq> 0 then ucast (b AND 0x7F) * 1250 else ucast (b AND 0x7F) * 125 :: u32);
         ms = ucast (interval div 1000)
     in if ms > 7 then ms div 3 else ms)"

definition lkbt51_status :: "u8 list \<Rightarrow> 'e wt \<Rightarrow> 'e wt option" where
  "lkbt51_status pbuf s =
    (let evt_mask = pbuf ! 1;
         ev = no_wireless_event;
         (ev, s) = (if evt_mask AND LK_EVT_MSK_RESET \<noteq> 0
                    then let ev = \<lparr>evt_type = EVT_RESET, params = pbuf ! 2\<rparr> in (ev, wireless_event_enqueue ev s) else (ev, s))
     in do {
       s \<leftarrow> (if evt_mask AND LK_EVT_MSK_CONNECTION \<noteq> 0 then do {
               s \<leftarrow> with_radio lkbt51_send_conn_evt_ack s;
               Some (wireless_event_enqueue \<lparr>evt_type = connection_event (evt_type ev) (pbuf ! 2), params = pbuf ! 3\<rparr> s) }
             else Some s);
       let s = (if evt_mask AND LK_EVT_MSK_LED \<noteq> 0
                then wireless_event_enqueue \<lparr>evt_type = EVT_HID_INDICATOR, params = pbuf ! 4\<rparr> s else s);
       let s = (if evt_mask AND LK_EVT_MSK_RPT_INTERVAL \<noteq> 0
                then let s = s\<lparr>radio := (radio s)\<lparr>connection_interval := report_interval_ms (pbuf ! 8)\<rparr>\<rparr>
                     in wireless_event_enqueue \<lparr>evt_type = EVT_CONECTION_INTERVAL, params = ucast (connection_interval (radio s))\<rparr> s
                else s);
       Some (if evt_mask AND LK_EVT_MSK_BATT \<noteq> 0
             then s\<lparr>bat := battery_calculate_voltage (led_compensation (wt_env s)) True
                      (push_bit 8 (ucast (pbuf ! 6)) OR ucast (pbuf ! 5)) (bat s)\<rparr>
             else s) })"

definition is_protocol_ver :: "u8 list \<Rightarrow> bool" where
  "is_protocol_ver pbuf \<longleftrightarrow> pbuf ! 0 = 0xAA \<and> pbuf ! 1 = 0x54 \<and> pbuf ! 4 = NOT 0x54 \<and> pbuf ! 5 = NOT 0xAA"

text \<open>
  The search for an event frame behind the status: every position of the loop that looks like a header is taken, so the last one
  counts.  The result is the start of the frame's bytes, 0 when none was found.
\<close>

definition header_at :: "u8 list \<Rightarrow> nat \<Rightarrow> bool" where
  "header_at buf i \<longleftrightarrow> buf ! i = 0xAA \<and> buf ! (i + 1) = 0x57 \<and> NOT (buf ! (i + 2)) = buf ! (i + 3)"

definition find_frame :: "u8 list \<Rightarrow> radio \<Rightarrow> nat \<times> radio" where
  "find_frame buf r = fold (\<lambda>i (start, r).
     if header_at buf i
     then (i + 5, r\<lparr>pkt_len := buf ! (i + 2), pkt_sn := buf ! (i + 4), wait_for_new_pkt := False\<rparr>) else (start, r))
     [10..<BUFFER_SIZE - 5] (0, r)"

text \<open>The sum over the bytes before the checksum, None when it leaves the buffer.\<close>

fun sum_at :: "u8 list \<Rightarrow> int \<Rightarrow> nat \<Rightarrow> u16 option" where
  "sum_at buf start 0 = Some 0"
| "sum_at buf start (Suc n) = do { sum \<leftarrow> sum_at buf start n; b \<leftarrow> buf_at buf (start + int n); Some (sum + ucast b) }"

definition lkbt51_frame :: "u8 list \<Rightarrow> nat \<Rightarrow> 'e wt \<Rightarrow> 'e wt option" where
  "lkbt51_frame buf start s =
    (let len = unat (pkt_len (radio s)); s = s\<lparr>radio := (radio s)\<lparr>wait_for_new_pkt := True\<rparr>\<rparr> in do {
       checksum \<leftarrow> sum_at buf (int start) (len - 2);
       lo \<leftarrow> buf_at buf (int start + int len - 2);
       if low_byte checksum \<noteq> lo then Some s
       else do {
         hi \<leftarrow> buf_at buf (int start + int len - 1);
         if high_byte checksum \<noteq> hi then Some s
         else do {
           evt \<leftarrow> buf_at buf (int start);
           lkbt51_event_handler evt (drop (start + 1) buf) (of_nat len - 3) (pkt_sn (radio s)) s } } })"

text \<open>The task on the 64 bytes of its buffer, after the exchange.\<close>

definition lkbt51_receive :: "u8 list \<Rightarrow> 'e wt \<Rightarrow> 'e wt option" where
  "lkbt51_receive buf s = do {
     let pbuf = drop VALID_DATA_START_INDEX buf;
     s \<leftarrow> (if is_protocol_ver pbuf then Some s else if pbuf ! 0 = 0xAA then lkbt51_status pbuf s else Some s);
     let (start, s) = (if wait_for_new_pkt (radio s)
                       then let (start, r) = find_frame buf (radio s) in (start, s\<lparr>radio := r\<rparr>) else (0, s));
     if \<not> wait_for_new_pkt (radio s) \<and> unat (pkt_len (radio s)) \<le> BUFFER_SIZE - 5 then lkbt51_frame buf start s else Some s }"

text \<open>The task: None for the pin being high, or the bytes the module would clock out.\<close>

definition lkbt51_task :: "(nat \<Rightarrow> u8) option \<Rightarrow> 'e wt \<Rightarrow> 'e wt option" where
  "lkbt51_task int_pin_low s = (case int_pin_low of None \<Rightarrow> Some s
     | Some miso \<Rightarrow> do { buf \<leftarrow> lkbt51_read miso (expect_len (radio s)); lkbt51_receive buf s })"

section \<open>The battery task\<close>

definition wireless_low_battery_shutdown :: "'e wt \<Rightarrow> 'e wt option" where
  "wireless_low_battery_shutdown s = wireless_disconnect (wt_emit (Battery_Low_Backlit False) s)"

definition battery_check_empty :: "'e wt \<Rightarrow> 'e wt" where
  "battery_check_empty s =
    (let (full, b) = battery_count_empty (bat s); s = s\<lparr>bat := b\<rparr>
     in if full then wt_emit (Battery_Low_Backlit True) s else s)"

definition battery_check_critical_low :: "'e wt \<Rightarrow> 'e wt option" where
  "battery_check_critical_low s =
    (let (full, b) = battery_count_critical_low (bat s); s = s\<lparr>bat := b\<rparr>
     in if full then wireless_low_battery_shutdown s else Some s)"

definition battery_measure :: "'e wt \<Rightarrow> 'e wt option" where
  "battery_measure s = with_radio (lkbt51_read_state_reg 0x05 0x02) s"

definition battery_sample :: "'e wt \<Rightarrow> 'e wt option" where
  "battery_sample s = do {
     s \<leftarrow> battery_check_critical_low (battery_check_empty s);
     let s = (if rtc_ms (wt_env s) > RTC_MAX_TIME
              then s\<lparr>bat := (bat s)\<lparr>bat_monitor_timer_buffer := 0\<rparr>, wt_env := (wt_env s)\<lparr>rtc_ms := 0\<rparr>\<rparr>
              else s\<lparr>bat := (bat s)\<lparr>bat_monitor_timer_buffer := rtc_ms (wt_env s)\<rparr>\<rparr>);
     s \<leftarrow> (if battery_power_on_sample (bat s) \<or> led_enabled (wt_env s) then do {
             s \<leftarrow> battery_measure s; Some (s\<lparr>bat := (bat s)\<lparr>power_on_sample := power_on_sample (bat s) + 1\<rparr>\<rparr>) }
           else Some s);
     Some (if power_on_sample (bat s) > VOLTAGE_POWER_ON_MEASURE_COUNT
           then s\<lparr>bat := (bat s)\<lparr>power_on_sample := VOLTAGE_POWER_ON_MEASURE_COUNT\<rparr>\<rparr> else s) }"

definition battery_task :: "'e wt \<Rightarrow> 'e wt option" where
  "battery_task s =
    (let t = timer_diff32 (rtc_ms (wt_env s)) (bat_monitor_timer_buffer (bat s)) in do {
       s \<leftarrow> (if transport s AND TRANSPORT_WIRELESS \<noteq> 0 \<and>
                (wireless_state s = WT_CONNECTED \<or> battery_power_on_sample (bat s))
             then do {
               s \<leftarrow> (if usb_power (wt_env s) \<and> t > VOLTAGE_MEASURE_INTERVAL
                     then with_radio (lkbt51_update_bat_state (if charging_pin (wt_env s) then BAT_CHARGING else BAT_FULL_CHARGED)) s
                     else Some s);
               if (battery_power_on_sample (bat s) \<and> \<not> led_enabled (wt_env s) \<and> t > BACKLIGHT_OFF_VOLTAGE_MEASURE_INTERVAL)
                  \<or> t > VOLTAGE_MEASURE_INTERVAL
               then battery_sample s else Some s }
             else Some s);
       Some (if (bat_empty (bat s) \<noteq> 0 \<or> critical_low (bat s) \<noteq> 0) \<and> usb_power (wt_env s)
             then wt_emit (Battery_Low_Backlit False) (s\<lparr>bat := (bat s)\<lparr>bat_empty := 0, critical_low := 0\<rparr>\<rparr>)
             else s) })"

section \<open>Choosing the transport\<close>

text \<open>
  Turning a radio transport on disconnects, runs the module task for 50 ms and connects.  What the module does at each of these
  polls (its pin, and the bytes it would clock out) is an argument.
\<close>

type_synonym module_polls = "(nat \<Rightarrow> u8) option list"

primrec module_tasks :: "module_polls \<Rightarrow> 'e wt \<Rightarrow> 'e wt option" where
  "module_tasks [] s = Some s"
| "module_tasks (pin # pins) s = lkbt51_task pin s \<bind> module_tasks pins"

text \<open>The receiving half of the task on buffers that have been read, one after the other.\<close>

primrec receive_all :: "u8 list list \<Rightarrow> 'e wt \<Rightarrow> 'e wt option" where
  "receive_all [] s = Some s"
| "receive_all (buf # bufs) s = lkbt51_receive buf s \<bind> receive_all bufs"

definition radio_reconnect :: "module_polls \<Rightarrow> u8 \<Rightarrow> 'e wt \<Rightarrow> 'e wt option" where
  "radio_reconnect pins idx s = do {
     s \<leftarrow> wireless_disconnect (s\<lparr>active_driver := Wireless_Driver, core := (core s)\<lparr>host_driver := True\<rparr>\<rparr>);
     s \<leftarrow> module_tasks pins s;
     s \<leftarrow> with_radio (Some \<circ> radio_wait_ms 50) s;
     wireless_connect_ex idx 0 s }"

definition empty_report :: report_keyboard_t where
  "empty_report = replicate 32 0"

definition bt_transport_enable :: "module_polls \<Rightarrow> bool \<Rightarrow> 'e wt \<Rightarrow> 'e wt option" where
  "bt_transport_enable pins enable s =
    (if enable then radio_reconnect pins 30 s
     else let s = wt_emit Indicator_Stop s in
       if wireless_state s = WT_CONNECTED \<and> transport s = TRANSPORT_BLUETOOTH then wireless_send_keyboard empty_report s else Some s)"

definition p24g_transport_enable :: "module_polls \<Rightarrow> bool \<Rightarrow> 'e wt \<Rightarrow> 'e wt option" where
  "p24g_transport_enable pins enable s =
    (if enable then radio_reconnect pins P24G_INDEX s
     else let s = wt_emit Indicator_Stop s in
       if wireless_state s = WT_CONNECTED \<and> transport s = TRANSPORT_P2P4 then wireless_send_keyboard empty_report s else Some s)"

text \<open>The USB connection is kept in the radio modes, so only the driver changes.\<close>

definition usb_transport_enable :: "bool \<Rightarrow> 'e wt \<Rightarrow> 'e wt" where
  "usb_transport_enable enable s =
    (if enable then if active_driver s \<noteq> Chibios_Driver then s\<lparr>active_driver := Chibios_Driver, core := (core s)\<lparr>host_driver := True\<rparr>\<rparr> else s
     else if usb_driver_active (wt_env s) then wt_emit (Usb_Out (Send_Keyboard empty_report)) s else s)"

definition transport_changed :: "'e wt \<Rightarrow> 'e wt" where
  "transport_changed s = wt_emit Indicator_Init s"

text \<open>The cases of the switch in \<open>set_transport\<close>.\<close>

definition transport_to_usb :: "module_polls \<Rightarrow> 'e wt \<Rightarrow> 'e wt option" where
  "transport_to_usb pins s = do {
     let s = usb_transport_enable True (s\<lparr>usb_host_indicator_enable := True\<rparr>);
     s \<leftarrow> bt_transport_enable pins False s;
     s \<leftarrow> with_radio (Some \<circ> radio_wait_ms 5) s;
     s \<leftarrow> p24g_transport_enable pins False s;
     s \<leftarrow> wireless_disconnect s;
     let s = lpm_timer_stop s;
     let s = s\<lparr>nkro_bluetooth := nkro (keymap_config (core s))\<rparr>;
     Some (set_keymap_nkro (nkro_usb s) s) }"

definition nkro_for_radio :: "'e wt \<Rightarrow> 'e wt" where
  "nkro_for_radio s = (let s = s\<lparr>nkro_usb := nkro (keymap_config (core s))\<rparr> in set_keymap_nkro (nkro_bluetooth s) s)"

definition transport_to_bluetooth :: "module_polls \<Rightarrow> 'e wt \<Rightarrow> 'e wt option" where
  "transport_to_bluetooth pins s = do {
     s \<leftarrow> p24g_transport_enable pins False s;
     s \<leftarrow> with_radio (Some \<circ> radio_wait_ms 1) s;
     s \<leftarrow> bt_transport_enable pins True s;
     Some (nkro_for_radio (lpm_timer_reset (usb_transport_enable False s))) }"

definition transport_to_p2p4 :: "module_polls \<Rightarrow> 'e wt \<Rightarrow> 'e wt option" where
  "transport_to_p2p4 pins s = do {
     s \<leftarrow> bt_transport_enable pins False s;
     s \<leftarrow> with_radio (Some \<circ> radio_wait_ms 1) s;
     s \<leftarrow> p24g_transport_enable pins True s;
     Some (nkro_for_radio (lpm_timer_reset (usb_transport_enable False s))) }"

definition set_transport :: "module_polls \<Rightarrow> u8 \<Rightarrow> 'e wt \<Rightarrow> 'e wt option" where
  "set_transport pins new s =
    (if transport s = new then Some s
     else do {
       s \<leftarrow> (if transport s = TRANSPORT_USB \<or> wireless_state s = WT_CONNECTED then run_core clear_keyboard s else Some s);
       let s = s\<lparr>transport := new\<rparr>;
       s \<leftarrow> (if new = TRANSPORT_USB then transport_to_usb pins s
             else if new = TRANSPORT_BLUETOOTH then transport_to_bluetooth pins s
             else if new = TRANSPORT_P2P4 then transport_to_p2p4 pins s
             else Some s);
       Some (transport_changed s) })"

section \<open>The keys of the radio modes\<close>

definition BT_HST1 :: u16 where "BT_HST1 = 0x7E0B"
definition BT_HST3 :: u16 where "BT_HST3 = 0x7E0D"
definition P2P4G :: u16 where "P2P4G = 0x7E0E"
definition BAT_LVL :: u16 where "BAT_LVL = 0x7E0F"
definition MD_USB :: u16 where "MD_USB = 0x7E10"
definition GU_TOGG :: u16 where "GU_TOGG = 0x700B"

lemmas radio_keys = BT_HST1_def BT_HST3_def P2P4G_def BAT_LVL_def MD_USB_def GU_TOGG_def

text \<open>
  The function has a static variable \<open>host_idx\<close> of its own, which hides the one of the file that the pairing task
  reads: \<open>record_host_idx\<close> here.
\<close>

definition update_default_mode :: "'e eeprom_ops \<Rightarrow> u8 \<Rightarrow> 'e wt \<Rightarrow> 'e wt" where
  "update_default_mode ops mode s = s\<lparr>core := (core s)\<lparr>eeprom_state := eeconfig_update_default_mode ops mode (eeprom_state (core s))\<rparr>\<rparr>"

definition process_record_lemokey_wireless :: "'e eeprom_ops \<Rightarrow> module_polls \<Rightarrow> u16 \<Rightarrow> bool \<Rightarrow> 'e wt \<Rightarrow> 'e wt option" where
  "process_record_lemokey_wireless ops pins keycode press s =
    (if BT_HST1 \<le> keycode \<and> keycode \<le> BT_HST3 then
       (if press then do {
          s \<leftarrow> set_transport pins TRANSPORT_BLUETOOTH s;
          let s = update_default_mode ops TRANSPORT_BLUETOOTH s;
          let s = s\<lparr>record_host_idx := ucast (keycode - BT_HST1 + 1), pairing_key_timer := wt_now s\<rparr>;
          wireless_connect_ex (record_host_idx s) 0 s }
        else Some (s\<lparr>record_host_idx := 0, pairing_key_timer := 0\<rparr>))
     else if keycode = P2P4G then
       (if press then do {
          s \<leftarrow> set_transport pins TRANSPORT_P2P4 s;
          let s = update_default_mode ops TRANSPORT_P2P4 s;
          Some (s\<lparr>record_host_idx := P24G_INDEX, pairing_key_timer := wt_now s\<rparr>) }
        else Some (s\<lparr>record_host_idx := 0, pairing_key_timer := 0\<rparr>))
     else if keycode = MD_USB then
       (if press \<and> usb_power (wt_env s) then do {
          s \<leftarrow> set_transport pins TRANSPORT_USB s; Some (update_default_mode ops TRANSPORT_USB s) }
        else Some s)
     else if keycode = GU_TOGG then Some (s\<lparr>winlock_timer := if press then wt_now s else 0\<rparr>)
     else if keycode = BAT_LVL then
       (if transport s AND TRANSPORT_WIRELESS \<noteq> 0 \<and> \<not> usb_power (wt_env s)
        then Some (wt_emit (Bat_Level_Animation (battery_get_percentage (bat s))) s) else Some s)
     else Some (if transport s = TRANSPORT_USB \<and> \<not> usb_driver_active (wt_env s) \<and> keycode < 0xFF
                then s\<lparr>usb_host_indicator_enable := True\<rparr> else s))"

definition process_record_wireless :: "'e eeprom_ops \<Rightarrow> module_polls \<Rightarrow> u16 \<Rightarrow> bool \<Rightarrow> 'e wt \<Rightarrow> 'e wt option" where
  "process_record_wireless ops pins keycode press s =
    (let s = (if transport s AND TRANSPORT_WIRELESS \<noteq> 0 then
                let s = lpm_timer_reset s in
                if battery_is_empty (bat s) \<and> wireless_state s = WT_CONNECTED \<and> press then wt_emit (Battery_Low_Backlit True) s else s
              else s)
     in process_record_lemokey_wireless ops pins keycode press s)"

text \<open>A host key held for two seconds starts pairing.\<close>

definition lemokey_wireless_common_task :: "'e wt \<Rightarrow> 'e wt option" where
  "lemokey_wireless_common_task s =
    (if pairing_key_timer s \<noteq> 0 \<and> timer_diff32 (wt_now s) (pairing_key_timer s) > 2000
     then wireless_pairing_ex (host_idx s) None (s\<lparr>pairing_key_timer := 0\<rparr>) else Some s)"

text \<open>The task before the others: the transport stored in the EEPROM at the start, and the win-lock key.\<close>

definition toggle_no_gui :: "'e eeprom_ops \<Rightarrow> 'e wt \<Rightarrow> 'e wt" where
  "toggle_no_gui ops s =
    (let cfg = keymap_config (core s); cfg = (if no_gui cfg then unset_bit 4 cfg else set_bit 4 cfg);
         s = s\<lparr>winlock_timer := 0, core := (core s)\<lparr>keymap_config := cfg, eeprom_state := eeconfig_update_keymap ops cfg (eeprom_state (core s))\<rparr>\<rparr>
     in wt_emit (Led_Update_Kb (if active_driver s = Wireless_Driver then wreless_keyboard_leds s else host_keyboard_leds (core s))) s)"

definition wireless_pre_task :: "'e eeprom_ops \<Rightarrow> module_polls \<Rightarrow> 'e wt \<Rightarrow> 'e wt option" where
  "wireless_pre_task ops pins s = do {
     s \<leftarrow> (if pre_task_time s = 0 then
             let mode = eeconfig_read_default_mode ops (eeprom_state (core s)); s = s\<lparr>pre_task_time := wt_now s\<rparr> in
             if mode = TRANSPORT_USB then set_transport pins TRANSPORT_USB (s\<lparr>usb_host_indicator_enable := True\<rparr>)
             else if mode = TRANSPORT_BLUETOOTH then set_transport pins TRANSPORT_BLUETOOTH s
             else if mode = TRANSPORT_P2P4 then set_transport pins TRANSPORT_P2P4 s
             else Some s
           else Some s);
     Some (if no_gui (keymap_config (core s))
           then if winlock_timer s \<noteq> 0 \<and> timer_diff32 (wt_now s) (winlock_timer s) > 1 then toggle_no_gui ops s else s
           else if winlock_timer s \<noteq> 0 \<and> timer_diff32 (wt_now s) (winlock_timer s) > 3000 then toggle_no_gui ops s else s) }"

section \<open>One round of the wireless tasks\<close>

text \<open>
  The first argument is the module's pin and bytes, as for \<open>lkbt51_task\<close>.  The indicator task (LEDs) and the
  low-power task (stopping the core) come before the battery task and after it and are not modelled; nor is the USB remote
  wakeup that ends \<open>wireless_tasks\<close>.
\<close>

definition wireless_task :: "(nat \<Rightarrow> u8) option \<Rightarrow> 'e wt \<Rightarrow> 'e wt option" where
  "wireless_task pin s = do {
     s \<leftarrow> lkbt51_task pin s;
     s \<leftarrow> wireless_event_task s;
     s \<leftarrow> wireless_report_task s;
     s \<leftarrow> lemokey_wireless_common_task s;
     battery_task s }"

definition wireless_tasks :: "'e eeprom_ops \<Rightarrow> module_polls \<Rightarrow> (nat \<Rightarrow> u8) option \<Rightarrow> 'e wt \<Rightarrow> 'e wt option" where
  "wireless_tasks ops pins pin s = do { s \<leftarrow> wireless_pre_task ops pins s; wireless_task pin s }"

end
