(* ===== verification/Wireless_Laws.thy ===== *)
theory Wireless_Laws
  imports Wireless_Tasks
begin

text \<open>
  The well-formedness of the radio link: the queues' sizes and index ranges and the bound of the retry counter, kept by
  every function of common/wireless that stays inside its buffers.
\<close>

section \<open>Well-formedness\<close>

definition reports_ok :: "report_queue \<Rightarrow> bool" where
  "reports_ok q \<longleftrightarrow> report_queue_ok q \<and> unat (retry q) \<le> 30"

definition events_ok :: "'e wt \<Rightarrow> bool" where
  "events_ok s \<longleftrightarrow> ring_ok WT_EVENT_QUEUE_SIZE (wireless_event_queue s) (unat (wireless_event_queue_head s)) (unat (wireless_event_queue_tail s))"

definition wt_ok :: "'e wt \<Rightarrow> bool" where
  "wt_ok s \<longleftrightarrow> reports_ok (reports s) \<and> events_ok s"

text \<open>An operation that may fail keeps a property of the state when its result, if there is one, has it.\<close>

lemma pred_bind: "pred_option P x \<Longrightarrow> (\<And>s. P s \<Longrightarrow> pred_option Q (f s)) \<Longrightarrow> pred_option Q (x \<bind> f)"
  by (cases x) auto

lemma pred_if: "(b \<Longrightarrow> pred_option P x) \<Longrightarrow> (\<not> b \<Longrightarrow> pred_option P y) \<Longrightarrow> pred_option P (if b then x else y)"
  by simp

lemma pred_map: "pred_option (\<lambda>x. P (f x)) x \<Longrightarrow> pred_option P (map_option f x)"
  by (cases x) auto

lemma with_radio_ok: "P s \<Longrightarrow> (\<And>r. P (s\<lparr>radio := r\<rparr>) = P s) \<Longrightarrow> pred_option P (with_radio f s)"
  by (cases "f (radio s)") (auto simp: with_radio_def)

text \<open>The fields well-formedness looks at, and the updates that leave them alone.\<close>

lemma wt_ok_frame [simp]:
  "wt_ok (s\<lparr>core := a1\<rparr>) = wt_ok s" "wt_ok (s\<lparr>active_driver := a2\<rparr>) = wt_ok s" "wt_ok (s\<lparr>radio := a3\<rparr>) = wt_ok s"
  "wt_ok (s\<lparr>bat := a4\<rparr>) = wt_ok s" "wt_ok (s\<lparr>wt_env := a5\<rparr>) = wt_ok s" "wt_ok (s\<lparr>host_index := a6\<rparr>) = wt_ok s"
  "wt_ok (s\<lparr>led_state := a7\<rparr>) = wt_ok s" "wt_ok (s\<lparr>wireless_state := a8\<rparr>) = wt_ok s" "wt_ok (s\<lparr>pincodeEntry := a9\<rparr>) = wt_ok s"
  "wt_ok (s\<lparr>wireless_report_protocol := b1\<rparr>) = wt_ok s" "wt_ok (s\<lparr>transport := b2\<rparr>) = wt_ok s" "wt_ok (s\<lparr>nkro_usb := b3\<rparr>) = wt_ok s"
  "wt_ok (s\<lparr>nkro_bluetooth := b4\<rparr>) = wt_ok s" "wt_ok (s\<lparr>usb_host_indicator_enable := b5\<rparr>) = wt_ok s" "wt_ok (s\<lparr>firstDisconnect := b6\<rparr>) = wt_ok s"
  "wt_ok (s\<lparr>pairing_key_timer := b7\<rparr>) = wt_ok s" "wt_ok (s\<lparr>host_idx := b8\<rparr>) = wt_ok s" "wt_ok (s\<lparr>record_host_idx := b9\<rparr>) = wt_ok s"
  "wt_ok (s\<lparr>winlock_timer := c1\<rparr>) = wt_ok s" "wt_ok (s\<lparr>pre_task_time := c2\<rparr>) = wt_ok s" "wt_ok (s\<lparr>lpm_time_up := c3\<rparr>) = wt_ok s"
  "wt_ok (s\<lparr>lpm_timer_buffer := c4\<rparr>) = wt_ok s" "wt_ok (s\<lparr>wt_out := c5\<rparr>) = wt_ok s"
  by (simp_all add: wt_ok_def events_ok_def)

lemma wt_ok_small [simp]:
  "wt_ok (wt_emit out s) = wt_ok s" "wt_ok (lpm_timer_reset s) = wt_ok s" "wt_ok (lpm_timer_stop s) = wt_ok s"
  "wt_ok (set_keymap_nkro b s) = wt_ok s"
  by (simp_all add: wt_emit_def lpm_timer_reset_def lpm_timer_stop_def set_keymap_nkro_def)

lemma radio_ok [intro]: "wt_ok s \<Longrightarrow> pred_option wt_ok (with_radio f s)"
  by (rule with_radio_ok) simp_all

lemma reports_ok_ops [simp]:
  "reports_ok q \<Longrightarrow> reports_ok (snd (report_buffer_enqueue r q))"
  "reports_ok q \<Longrightarrow> reports_ok (report_buffer_set_inverval i q)"
  "reports_ok q \<Longrightarrow> reports_ok (report_buffer_set_retry 0 q)"
  "reports_ok q \<Longrightarrow> reports_ok (report_buffer_update_timer t q)"
  "reports_ok (report_buffer_init t q)"
  using rq.enq_inv [of q r] queue_enqueue(3) [of q r "fst (report_buffer_enqueue r q)" "snd (report_buffer_enqueue r q)"]
  by (simp_all add: reports_ok_def report_buffer_set_inverval_def report_buffer_set_retry_def report_buffer_update_timer_def
      report_buffer_init_def report_queue_ok_def)

lemma reports_ok_task:
  assumes "reports_ok q" and "report_buffer_task c now q = (r, q')"
  shows "reports_ok q'"
proof -
  have ok: "report_queue_ok q" "unat (retry q) \<le> 30"
    using assms(1) by (simp_all add: reports_ok_def)
  obtain x q1 where deq: "report_buffer_dequeue q = (x, q1)" by (rule prod.exhaust)
  note d = queue_dequeue [OF ok(1) deq]
  have "unat (retry q - 1) \<le> 30" if "retry q \<noteq> 0"
    using that ok(2) by (simp add: unat_minus_one)
  with assms ok d show ?thesis
    by (auto simp: report_buffer_task_def Let_def deq reports_ok_def RETPORT_RETRY_COUNT_def split: if_splits option.splits prod.splits)
qed

lemma with_reports_ok [simp]: "wt_ok s \<Longrightarrow> (\<And>q. reports_ok q \<Longrightarrow> reports_ok (f q)) \<Longrightarrow> wt_ok (with_reports f s)"
  by (simp add: wt_ok_def with_reports_def events_ok_def)

lemma wireless_event_index: "unat (wireless_event_next i) = (unat i + 1) mod WT_EVENT_QUEUE_SIZE"
  unfolding wireless_event_next_def by (rule unat_of_nat_u8) (simp add: WT_EVENT_QUEUE_SIZE_def less_trans [OF mod_less_divisor])

lemma event_ops_ok [simp]:
  "wt_ok s \<Longrightarrow> wt_ok (wireless_event_enqueue ev s)"
  "wt_ok s \<Longrightarrow> wt_ok (snd (wireless_event_dequeue s))"
  "wt_ok s \<Longrightarrow> wt_ok (wireless_event_queue_init s)"
  by (auto simp: wt_ok_def events_ok_def ring_ok_def wireless_event_enqueue_def wireless_event_dequeue_def
      wireless_event_queue_init_def Let_def wireless_event_index WT_EVENT_QUEUE_SIZE_def)

text \<open>Every operation keeps the state well formed, whatever arrives.\<close>

named_theorems wt_intros "operations that keep the wireless state well formed"

lemma some_ok [wt_intros]: "wt_ok s \<Longrightarrow> pred_option wt_ok (Some s)"
  by simp

lemmas [wt_intros] = radio_ok

lemma connect_ok [wt_intros]:
  "wt_ok s \<Longrightarrow> pred_option wt_ok (wireless_disconnect s)"
  "wt_ok s \<Longrightarrow> pred_option wt_ok (wireless_pairing_ex idx param s)"
  "wt_ok s \<Longrightarrow> pred_option wt_ok (wireless_connect s)"
  "wt_ok s \<Longrightarrow> pred_option wt_ok (wireless_connect_ex idx timeout s)"
  by (auto simp: wireless_disconnect_def wireless_pairing_ex_def wireless_connect_def wireless_connect_ex_def Let_def
      intro!: pred_bind [of wt_ok])

lemma pairing_ok [wt_intros]: "wt_ok s \<Longrightarrow> pred_option wt_ok (wireless_pairing s)"
  by (auto simp: wireless_pairing_def intro!: pred_bind [of wt_ok] connect_ok)

lemma driver_ok [wt_intros]:
  "wt_ok s \<Longrightarrow> pred_option wt_ok (wireless_send_keyboard report s)"
  "wt_ok s \<Longrightarrow> pred_option wt_ok (wireless_send_mouse mouse s)"
  "wt_ok s \<Longrightarrow> pred_option wt_ok (wireless_send_system usage s)"
  "wt_ok s \<Longrightarrow> pred_option wt_ok (wireless_send_consumer usage s)"
  by (auto simp: wireless_send_keyboard_def wireless_send_mouse_def wireless_send_system_def wireless_send_consumer_def
      intro!: pred_bind [of wt_ok] connect_ok)

lemma extra_ok [wt_intros]: "wt_ok s \<Longrightarrow> pred_option wt_ok (wireless_send_extra i usage s)"
  by (simp add: wireless_send_extra_def driver_ok)

lemma deliver_ok [wt_intros]: "wt_ok s \<Longrightarrow> pred_option wt_ok (deliver ev s)"
  by (auto simp: deliver_def driver_ok extra_ok split: wt_driver.split host_event.split)

lemma deliver_all_ok [wt_intros]: "wt_ok s \<Longrightarrow> pred_option wt_ok (deliver_all evs s)"
  by (induction evs arbitrary: s) (auto intro!: pred_bind [of wt_ok] deliver_ok)

lemma run_core_ok [wt_intros]: "wt_ok s \<Longrightarrow> pred_option wt_ok (run_core f s)"
  by (simp add: run_core_def Let_def deliver_all_ok)

lemma enter_ok [wt_intros]:
  "wt_ok s \<Longrightarrow> pred_option wt_ok (wireless_enter_reset b s)"
  "wt_ok s \<Longrightarrow> pred_option wt_ok (wireless_enter_connected b s)"
  "wt_ok s \<Longrightarrow> pred_option wt_ok (wireless_enter_disconnected_kb b s)"
  "wt_ok s \<Longrightarrow> wt_ok (wireless_enter_discoverable b s)"
  "wt_ok s \<Longrightarrow> wt_ok (wireless_enter_reconnecting b s)"
  "wt_ok s \<Longrightarrow> wt_ok (wireless_enter_bluetooth_pin_code_entry s)"
  "wt_ok s \<Longrightarrow> wt_ok (wireless_exit_bluetooth_pin_code_entry s)"
  "wt_ok s \<Longrightarrow> wt_ok (wireless_enter_sleep s)"
  "wt_ok s \<Longrightarrow> wt_ok (wireless_hid_set_protocol b s)"
  by (auto simp: wireless_enter_reset_def wireless_enter_reset_kb_def lkbt51_param_init_def wireless_enter_connected_def
      wireless_enter_disconnected_kb_def wireless_enter_discoverable_def wireless_enter_reconnecting_def
      wireless_enter_bluetooth_pin_code_entry_def wireless_exit_bluetooth_pin_code_entry_def wireless_enter_sleep_def
      wireless_hid_set_protocol_def Let_def intro!: pred_bind [of wt_ok] run_core_ok connect_ok radio_ok)

lemma enter_disconnected_ok [wt_intros]: "wt_ok s \<Longrightarrow> pred_option wt_ok (wireless_enter_disconnected b s)"
  unfolding wireless_enter_disconnected_def Let_def
  by (rule pred_bind [of wt_ok]) (auto intro!: enter_ok)

lemma handle_ok [wt_intros]: "wt_ok s \<Longrightarrow> pred_option wt_ok (wireless_handle ev s)"
  by (auto simp: wireless_handle_def enter_ok enter_disconnected_ok split: event_type.split)

lemma event_loop_ok: "wt_ok s \<Longrightarrow> pred_option wt_ok (wireless_event_loop n s)"
proof (induction n arbitrary: s)
  case (Suc n)
  obtain ev s' where deq: "wireless_event_dequeue s = (ev, s')" by (rule prod.exhaust)
  with event_ops_ok(2) [OF Suc.prems] have "wt_ok s'" by simp
  then show ?case
    by (auto simp: deq intro!: pred_bind [of wt_ok] handle_ok Suc.IH split: option.split)
qed simp

lemma event_task_ok [wt_intros]: "wt_ok s \<Longrightarrow> pred_option wt_ok (wireless_event_task s)"
  by (simp add: wireless_event_task_def event_loop_ok)

lemma report_task_ok [wt_intros]: "wt_ok s \<Longrightarrow> pred_option wt_ok (wireless_report_task s)"
proof -
  assume s: "wt_ok s"
  obtain r q where task: "report_buffer_task (wireless_state s = WT_CONNECTED) (wt_now s) (reports s) = (r, q)" by (rule prod.exhaust)
  have "wt_ok (s\<lparr>reports := q\<rparr>)"
    using s reports_ok_task [OF _ task] by (simp add: wt_ok_def events_ok_def)
  then show ?thesis
    by (cases r) (simp_all add: wireless_report_task_def task Let_def radio_ok pred_map)
qed

lemma ack_ok: "wt_ok s \<Longrightarrow> pred_option wt_ok (ack_handler data s)"
  unfolding ack_handler_def Let_def
  by (auto intro!: pred_bind [of "\<lambda>_. True"] simp: option.pred_True)

lemma query_ok: "wt_ok s \<Longrightarrow> pred_option wt_ok (query_rsp_handler data len s)"
  unfolding query_rsp_handler_def
  by (auto intro!: pred_bind [of "\<lambda>_. True"] simp: option.pred_True)

lemma event_handler_ok: "wt_ok s \<Longrightarrow> pred_option wt_ok (lkbt51_event_handler evt data len sn s)"
  unfolding lkbt51_event_handler_def
  by (auto intro!: pred_bind [of "\<lambda>_. True"] ack_ok query_ok simp: option.pred_True)

lemma status_ok: "wt_ok s \<Longrightarrow> pred_option wt_ok (lkbt51_status pbuf s)"
  unfolding lkbt51_status_def Let_def
  by (auto intro!: pred_bind [of wt_ok] split: prod.split)

lemma frame_ok: "wt_ok s \<Longrightarrow> pred_option wt_ok (lkbt51_frame buf start s)"
  unfolding lkbt51_frame_def Let_def
  by (auto intro!: pred_bind [of "\<lambda>_. True"] event_handler_ok simp: option.pred_True)

lemma receive_ok [wt_intros]: "wt_ok s \<Longrightarrow> pred_option wt_ok (lkbt51_receive buf s)"
  unfolding lkbt51_receive_def Let_def
  by (auto intro!: pred_bind [of wt_ok] status_ok frame_ok split: prod.split)

lemma module_task_ok [wt_intros]: "wt_ok s \<Longrightarrow> pred_option wt_ok (lkbt51_task pin s)"
  unfolding lkbt51_task_def by (auto intro!: pred_bind [of "\<lambda>_. True"] receive_ok simp: option.pred_True split: option.split)

lemma module_tasks_ok [wt_intros]: "wt_ok s \<Longrightarrow> pred_option wt_ok (module_tasks pins s)"
  by (induction pins arbitrary: s) (auto intro!: pred_bind [of wt_ok] module_task_ok)

lemma check_empty_ok [simp]: "wt_ok s \<Longrightarrow> wt_ok (battery_check_empty s)"
  by (simp add: battery_check_empty_def Let_def split: prod.split)

lemma check_critical_ok: "wt_ok s \<Longrightarrow> pred_option wt_ok (battery_check_critical_low s)"
  by (auto simp: battery_check_critical_low_def wireless_low_battery_shutdown_def Let_def intro!: connect_ok split: prod.split)

lemma sample_ok: "wt_ok s \<Longrightarrow> pred_option wt_ok (battery_sample s)"
  unfolding battery_sample_def battery_measure_def Let_def
  by (rule pred_bind [of wt_ok], rule check_critical_ok, simp) (auto intro!: pred_bind [of wt_ok])

lemma battery_task_ok [wt_intros]: "wt_ok s \<Longrightarrow> pred_option wt_ok (battery_task s)"
  unfolding battery_task_def Let_def
  by (rule pred_bind [of wt_ok]) (auto intro!: pred_bind [of wt_ok] sample_ok)

lemma enable_ok [wt_intros]:
  "wt_ok s \<Longrightarrow> pred_option wt_ok (radio_reconnect pins idx s)"
  "wt_ok s \<Longrightarrow> pred_option wt_ok (bt_transport_enable pins b s)"
  "wt_ok s \<Longrightarrow> pred_option wt_ok (p24g_transport_enable pins b s)"
  "wt_ok s \<Longrightarrow> wt_ok (usb_transport_enable b s)"
proof -
  have reconnect: "pred_option wt_ok (radio_reconnect pins idx s)" if "wt_ok s" for idx
    unfolding radio_reconnect_def using that
    by (intro pred_bind [of wt_ok] connect_ok module_tasks_ok radio_ok) simp_all
  then show "wt_ok s \<Longrightarrow> pred_option wt_ok (radio_reconnect pins idx s)" .
  show "wt_ok s \<Longrightarrow> pred_option wt_ok (bt_transport_enable pins b s)" "wt_ok s \<Longrightarrow> pred_option wt_ok (p24g_transport_enable pins b s)"
    by (auto simp: bt_transport_enable_def p24g_transport_enable_def Let_def intro!: reconnect driver_ok)
  show "wt_ok s \<Longrightarrow> wt_ok (usb_transport_enable b s)"
    by (simp add: usb_transport_enable_def)
qed

lemma transport_to_ok:
  "wt_ok s \<Longrightarrow> pred_option wt_ok (transport_to_usb pins s)"
  "wt_ok s \<Longrightarrow> pred_option wt_ok (transport_to_bluetooth pins s)"
  "wt_ok s \<Longrightarrow> pred_option wt_ok (transport_to_p2p4 pins s)"
proof -
  show "wt_ok s \<Longrightarrow> pred_option wt_ok (transport_to_usb pins s)"
    unfolding transport_to_usb_def Let_def by (intro pred_bind [of wt_ok] enable_ok connect_ok radio_ok) (simp_all add: enable_ok)
  show "wt_ok s \<Longrightarrow> pred_option wt_ok (transport_to_bluetooth pins s)"
    unfolding transport_to_bluetooth_def nkro_for_radio_def Let_def
    by (intro pred_bind [of wt_ok] enable_ok connect_ok radio_ok) (simp_all add: enable_ok)
  show "wt_ok s \<Longrightarrow> pred_option wt_ok (transport_to_p2p4 pins s)"
    unfolding transport_to_p2p4_def nkro_for_radio_def Let_def
    by (intro pred_bind [of wt_ok] enable_ok connect_ok radio_ok) (simp_all add: enable_ok)
qed

lemma set_transport_ok [wt_intros]: "wt_ok s \<Longrightarrow> pred_option wt_ok (set_transport pins new s)"
  by (auto simp: set_transport_def transport_changed_def Let_def intro!: pred_bind [of wt_ok] run_core_ok transport_to_ok)

lemma common_task_ok [wt_intros]: "wt_ok s \<Longrightarrow> pred_option wt_ok (lemokey_wireless_common_task s)"
  by (auto simp: lemokey_wireless_common_task_def intro!: connect_ok)

lemma pre_task_ok [wt_intros]: "wt_ok s \<Longrightarrow> pred_option wt_ok (wireless_pre_task ops pins s)"
  unfolding wireless_pre_task_def toggle_no_gui_def Let_def
  by (rule pred_bind [of wt_ok]) (auto intro!: set_transport_ok)

lemma wireless_task_ok [wt_intros]: "wt_ok s \<Longrightarrow> pred_option wt_ok (wireless_task pin s)"
  unfolding wireless_task_def
  by (auto intro!: pred_bind [of wt_ok] module_task_ok event_task_ok report_task_ok common_task_ok battery_task_ok split: option.split)

lemma record_ok [wt_intros]: "wt_ok s \<Longrightarrow> pred_option wt_ok (process_record_lemokey_wireless ops pins keycode press s)"
  unfolding process_record_lemokey_wireless_def update_default_mode_def Let_def
  by (intro pred_if pred_bind [of wt_ok] set_transport_ok connect_ok some_ok) simp_all

text \<open>
  The variables of the radio link keep their type as long as no buffer is overrun: the indices of the event queue stay inside its 16
  slots, the report queue keeps its 256 slots and the retry counter stays at 30 or below.
\<close>

lemma wireless_state_well_formed:
  assumes "wt_ok s"
  shows "pred_option wt_ok (wireless_tasks ops pins pin s) \<and> pred_option wt_ok (process_record_wireless ops pins keycode press s) \<and>
    pred_option wt_ok (wireless_send_keyboard report s) \<and> pred_option wt_ok (wireless_send_extra i usage s) \<and>
    pred_option wt_ok (wireless_send_mouse mouse s) \<and> wt_ok (wireless_init ops s)"
proof -
  have "pred_option wt_ok (wireless_tasks ops pins pin s)"
    unfolding wireless_tasks_def using assms by (intro pred_bind [of wt_ok] pre_task_ok wireless_task_ok)
  moreover have "pred_option wt_ok (process_record_wireless ops pins keycode press s)"
    using assms by (simp add: process_record_wireless_def Let_def record_ok)
  moreover have "wt_ok (wireless_init ops s)"
    using assms by (simp add: wireless_init_def Let_def)
  ultimately show ?thesis
    using assms by (simp add: driver_ok extra_ok)
qed

text \<open>A board with its variables as linked, half a second after the start, on battery.\<close>

definition fresh_board :: "u8 list option wt" where
  "fresh_board = wt_static (kb_static (Some (replicate 2048 0))) 500 \<lparr>usb_power = False, usb_driver_active = False,
     indicator_running = False, led_enabled = False, led_compensation = 0, charging_pin = False, rtc_ms = 0\<rparr>"

definition board_ops :: "u8 list option eeprom_ops" where
  "board_ops = transient_ops 2048 (\<lambda>b _. b)"

lemma fresh_board_ok: "wt_ok fresh_board"
  by (simp add: wt_ok_def reports_ok_def events_ok_def ring_ok_def report_queue_ok_def fresh_board_def wt_static_def
      report_queue_static_def WT_EVENT_QUEUE_SIZE_def)

end
