(* ===== verification/Wireless_Link.thy ===== *)
theory Wireless_Link
  imports Wireless_Laws "HOL-Library.Sublist"
begin

text \<open>
  The radio link end to end: the event queue and the loop that empties it, the frames the module sends, the firmware-update
  packets that are relayed to it, and the reports typed while a PIN is entered.
\<close>

section \<open>The event queue\<close>

definition wireless_events :: "'e wt \<Rightarrow> wireless_event list" where
  "wireless_events s = ring_list (wireless_event_queue s) (unat (wireless_event_queue_head s)) (unat (wireless_event_queue_tail s))"

text \<open>
  The handlers neither read nor write the queue: they commute with replacing its slots and indices.
\<close>

type_synonym event_ring = "wireless_event list \<times> u8 \<times> u8"

definition set_ring :: "event_ring \<Rightarrow> 'e wt \<Rightarrow> 'e wt" where
  "set_ring e s =
     s\<lparr>wireless_event_queue := fst e, wireless_event_queue_head := fst (snd e), wireless_event_queue_tail := snd (snd e)\<rparr>"

definition get_ring :: "'e wt \<Rightarrow> event_ring" where
  "get_ring s = (wireless_event_queue s, wireless_event_queue_head s, wireless_event_queue_tail s)"

lemma ring_select [simp]:
  "core (set_ring e s) = core s" "active_driver (set_ring e s) = active_driver s" "reports (set_ring e s) = reports s"
  "radio (set_ring e s) = radio s" "bat (set_ring e s) = bat s" "wt_env (set_ring e s) = wt_env s"
  "host_index (set_ring e s) = host_index s" "wireless_state (set_ring e s) = wireless_state s"
  "pincodeEntry (set_ring e s) = pincodeEntry s" "wireless_report_protocol (set_ring e s) = wireless_report_protocol s"
  "transport (set_ring e s) = transport s" "nkro_bluetooth (set_ring e s) = nkro_bluetooth s"
  "firstDisconnect (set_ring e s) = firstDisconnect s" "wt_now (set_ring e s) = wt_now s"
  "get_ring (set_ring e s) = e"
  "wt_out (set_ring e s) = wt_out s"
  by (simp_all add: set_ring_def wt_now_def get_ring_def)

lemma ring_update [simp]:
  "(set_ring e s)\<lparr>core := c\<rparr> = set_ring e (s\<lparr>core := c\<rparr>)"
  "(set_ring e s)\<lparr>reports := q\<rparr> = set_ring e (s\<lparr>reports := q\<rparr>)"
  "(set_ring e s)\<lparr>radio := r\<rparr> = set_ring e (s\<lparr>radio := r\<rparr>)"
  "(set_ring e s)\<lparr>host_index := i\<rparr> = set_ring e (s\<lparr>host_index := i\<rparr>)"
  "(set_ring e s)\<lparr>led_state := l\<rparr> = set_ring e (s\<lparr>led_state := l\<rparr>)"
  "(set_ring e s)\<lparr>wireless_state := w\<rparr> = set_ring e (s\<lparr>wireless_state := w\<rparr>)"
  "(set_ring e s)\<lparr>pincodeEntry := b\<rparr> = set_ring e (s\<lparr>pincodeEntry := b\<rparr>)"
  "(set_ring e s)\<lparr>wireless_report_protocol := b\<rparr> = set_ring e (s\<lparr>wireless_report_protocol := b\<rparr>)"
  "(set_ring e s)\<lparr>firstDisconnect := b\<rparr> = set_ring e (s\<lparr>firstDisconnect := b\<rparr>)"
  "(set_ring e s)\<lparr>lpm_time_up := b\<rparr> = set_ring e (s\<lparr>lpm_time_up := b\<rparr>)"
  "(set_ring e s)\<lparr>lpm_timer_buffer := b2\<rparr> = set_ring e (s\<lparr>lpm_timer_buffer := b2\<rparr>)"
  "(set_ring e s)\<lparr>wt_out := out\<rparr> = set_ring e (s\<lparr>wt_out := out\<rparr>)"
  "set_ring e (set_ring e2 s) = set_ring e s"
  by (simp_all add: set_ring_def)

lemma ring_radio [simp]: "with_radio f (set_ring e s) = map_option (set_ring e) (with_radio f s)"
  by (cases "f (radio s)") (simp_all add: with_radio_def)

lemma ring_small [simp]:
  "wt_emit out (set_ring e s) = set_ring e (wt_emit out s)" "lpm_timer_reset (set_ring e s) = set_ring e (lpm_timer_reset s)"
  "set_keymap_nkro b (set_ring e s) = set_ring e (set_keymap_nkro b s)"
  "with_reports g (set_ring e s) = set_ring e (with_reports g s)"
  by (simp_all add: wt_emit_def lpm_timer_reset_def set_keymap_nkro_def with_reports_def)

text \<open>The operations the handlers are made of.\<close>

lemma ring_connect [simp]:
  "wireless_connect (set_ring e s) = map_option (set_ring e) (wireless_connect s)"
  by (simp add: wireless_connect_def Let_def bind_map_option map_option_bind comp_def)

lemma ring_send [simp]:
  "wireless_send_keyboard report (set_ring e s) = map_option (set_ring e) (wireless_send_keyboard report s)"
  "wireless_send_system usage (set_ring e s) = map_option (set_ring e) (wireless_send_system usage s)"
  "wireless_send_consumer usage (set_ring e s) = map_option (set_ring e) (wireless_send_consumer usage s)"
  "wireless_send_extra i usage (set_ring e s) = map_option (set_ring e) (wireless_send_extra i usage s)"
  by (simp_all add: wireless_send_keyboard_def wireless_send_system_def wireless_send_consumer_def wireless_send_extra_def
      bind_map_option map_option_bind comp_def)

lemma ring_deliver [simp]: "deliver ev (set_ring e s) = map_option (set_ring e) (deliver ev s)"
  by (simp add: deliver_def split: wt_driver.split host_event.split)

lemma ring_deliver_all [simp]: "deliver_all evs (set_ring e s) = map_option (set_ring e) (deliver_all evs s)"
  by (induction evs arbitrary: s) (simp_all add: bind_map_option map_option_bind comp_def)

lemma ring_run_core [simp]: "run_core f (set_ring e s) = map_option (set_ring e) (run_core f s)"
  by (simp add: run_core_def Let_def)

lemma ring_param_init [simp]: "lkbt51_param_init (set_ring e s) = map_option (set_ring e) (lkbt51_param_init s)"
  by (simp add: lkbt51_param_init_def)

lemma ring_enter [simp]:
  "wireless_enter_reset b (set_ring e s) = map_option (set_ring e) (wireless_enter_reset b s)"
  "wireless_enter_discoverable b (set_ring e s) = set_ring e (wireless_enter_discoverable b s)"
  "wireless_enter_reconnecting b (set_ring e s) = set_ring e (wireless_enter_reconnecting b s)"
  "wireless_enter_bluetooth_pin_code_entry (set_ring e s) = set_ring e (wireless_enter_bluetooth_pin_code_entry s)"
  "wireless_exit_bluetooth_pin_code_entry (set_ring e s) = set_ring e (wireless_exit_bluetooth_pin_code_entry s)"
  "wireless_enter_sleep (set_ring e s) = set_ring e (wireless_enter_sleep s)"
  "wireless_hid_set_protocol b (set_ring e s) = set_ring e (wireless_hid_set_protocol b s)"
  by (simp_all add: wireless_enter_reset_def wireless_enter_reset_kb_def wireless_enter_discoverable_def
      wireless_enter_reconnecting_def wireless_enter_bluetooth_pin_code_entry_def wireless_exit_bluetooth_pin_code_entry_def
      wireless_enter_sleep_def wireless_hid_set_protocol_def Let_def)

lemma ring_enter_connected [simp]:
  "wireless_enter_connected b (set_ring e s) = map_option (set_ring e) (wireless_enter_connected b s)"
  by (simp add: wireless_enter_connected_def Let_def bind_map_option map_option_bind comp_def)

lemma ring_if_connect:
  "(if b then wireless_connect (set_ring e s) else Some (set_ring e s)) = map_option (set_ring e) (if b then wireless_connect s else Some s)"
  by simp

lemma ring_enter_disconnected_kb [simp]:
  "wireless_enter_disconnected_kb b (set_ring e s) = map_option (set_ring e) (wireless_enter_disconnected_kb b s)"
  by (simp add: wireless_enter_disconnected_kb_def bind_map_option map_option_bind comp_def ring_if_connect)

lemma ring_enter_disconnected [simp]:
  "wireless_enter_disconnected b (set_ring e s) = map_option (set_ring e) (wireless_enter_disconnected b s)"
  by (simp add: wireless_enter_disconnected_def Let_def bind_map_option map_option_bind comp_def)

lemma ring_handle [simp]: "wireless_handle ev (set_ring e s) = map_option (set_ring e) (wireless_handle ev s)"
  by (simp add: wireless_handle_def split: event_type.split)

text \<open>The queue as a list: a full one loses its oldest event.\<close>

lemma events_dequeue:
  assumes "wt_ok s" and "wireless_event_dequeue s = (ev, s')"
  shows "(ev, wireless_events s') = (case wireless_events s of [] \<Rightarrow> (None, []) | ev # evs \<Rightarrow> (Some ev, evs))"
    and "\<exists>t. s' = set_ring (wireless_event_queue s, wireless_event_queue_head s, t) s"
proof -
  let ?h = "unat (wireless_event_queue_head s)" and ?t = "unat (wireless_event_queue_tail s)"
  have ok: "ring_ok WT_EVENT_QUEUE_SIZE (wireless_event_queue s) ?h ?t"
    using assms(1) by (simp add: wt_ok_def events_ok_def)
  then have "?h < length (wireless_event_queue s)" "?t < length (wireless_event_queue s)"
    by (simp_all add: ring_ok_def)
  moreover have "length (wireless_event_queue s) = WT_EVENT_QUEUE_SIZE"
    using ok by (simp add: ring_ok_def)
  moreover have "wireless_event_queue_head s = wireless_event_queue_tail s \<longleftrightarrow> ?h = ?t"
    by (simp add: word_unat_eq_iff)
  ultimately show "(ev, wireless_events s') = (case wireless_events s of [] \<Rightarrow> (None, []) | ev # evs \<Rightarrow> (Some ev, evs))"
    using assms(2) ring_deq [OF ok] ring_empty_iff [of ?h "length (wireless_event_queue s)" ?t]
    by (auto simp: wireless_event_dequeue_def wireless_events_def wireless_event_index ring_list_def split: if_splits)
  show "\<exists>t. s' = set_ring (wireless_event_queue s, wireless_event_queue_head s, t) s"
    using assms(2) by (intro exI [of _ "wireless_event_queue_tail s'"]) (auto simp: wireless_event_dequeue_def set_ring_def split: if_splits)
qed

lemma events_enqueue:
  assumes "wt_ok s"
  shows "wireless_events (wireless_event_enqueue ev s) =
    (if length (wireless_events s) = WT_EVENT_QUEUE_SIZE - 1 then tl (wireless_events s) else wireless_events s) @ [ev]"
proof -
  let ?q = "wireless_event_queue s"
  let ?h = "unat (wireless_event_queue_head s)" and ?t = "unat (wireless_event_queue_tail s)"
  let ?next = "(?h + 1) mod WT_EVENT_QUEUE_SIZE" and ?tnext = "(?t + 1) mod WT_EVENT_QUEUE_SIZE"
  have ok: "ring_ok WT_EVENT_QUEUE_SIZE ?q ?h ?t"
    using assms by (simp add: wt_ok_def events_ok_def)
  then have lt: "?h < WT_EVENT_QUEUE_SIZE" "?t < WT_EVENT_QUEUE_SIZE" and len: "length ?q = WT_EVENT_QUEUE_SIZE"
    by (simp_all add: ring_ok_def)
  have full: "wireless_event_next (wireless_event_queue_head s) = wireless_event_queue_tail s \<longleftrightarrow> ?next = ?t"
    by (simp add: word_unat_eq_iff wireless_event_index)
  show ?thesis
  proof (cases "?next = ?t")
    case True
    have "?h \<noteq> ?t" "?next \<noteq> ?tnext"
      using True lt by (auto simp: WT_EVENT_QUEUE_SIZE_def mod_Suc split: if_splits)
    then have "ring_list ?q ?h ?t = ?q ! ?t # ring_list ?q ?h ?tnext"
      and "ring_list (?q[?h := ev]) ?next ?tnext = ring_list ?q ?h ?tnext @ [ev]"
      using ring_deq [OF ok] ring_enq [OF ring_ok_deq [OF ok]] by simp_all
    moreover have "length (wireless_events s) = WT_EVENT_QUEUE_SIZE - 1"
      using True ring_full_iff [OF lt] len by (simp add: wireless_events_def)
    ultimately show ?thesis
      using True full by (simp add: wireless_events_def wireless_event_enqueue_def Let_def wireless_event_index)
  next
    case False
    then show ?thesis
      using full ring_full_iff [OF lt] len ring_enq [OF ok]
      by (simp add: wireless_events_def wireless_event_enqueue_def Let_def wireless_event_index)
  qed
qed

text \<open>The specification of the event task: every queued event goes to its handler, in the order of arrival.\<close>

primrec handle_all :: "wireless_event list \<Rightarrow> 'e wt \<Rightarrow> 'e wt option" where
  "handle_all [] s = Some s"
| "handle_all (ev # evs) s = wireless_handle ev s \<bind> handle_all evs"

lemma ring_handle_all [simp]: "handle_all evs (set_ring e s) = map_option (set_ring e) (handle_all evs s)"
  by (induction evs arbitrary: s) (simp_all add: bind_map_option map_option_bind comp_def)

lemma set_ring_get [simp]: "set_ring (get_ring s) s = s"
  by (simp add: set_ring_def get_ring_def)

lemma get_set_ring [simp]: "get_ring (set_ring e s) = e"
  by (simp add: set_ring_def get_ring_def)

lemma set_ring_fields [simp]:
  "wireless_event_queue (set_ring (q, h, t) s) = q" "wireless_event_queue_head (set_ring (q, h, t) s) = h"
  "wireless_events (set_ring (q, h, t) s) = ring_list q (unat h) (unat t)"
  by (simp_all add: set_ring_def wireless_events_def)

lemma dequeue_none:
  assumes "wireless_event_dequeue s = (None, s')"
  shows "s' = s" and "set_ring (wireless_event_queue s, wireless_event_queue_head s, wireless_event_queue_head s) s = s"
  using assms set_ring_get [of s] by (auto simp: wireless_event_dequeue_def get_ring_def split: if_splits)

lemma event_loop_handles:
  assumes "wt_ok s" and "length (wireless_events s) < n"
  shows "wireless_event_loop n s =
    map_option (set_ring (wireless_event_queue s, wireless_event_queue_head s, wireless_event_queue_head s)) (handle_all (wireless_events s) s)"
  using assms
proof (induction n arbitrary: s)
  case (Suc n)
  let ?q = "wireless_event_queue s" and ?h = "wireless_event_queue_head s"
  obtain ev s' where deq: "wireless_event_dequeue s = (ev, s')" by (rule prod.exhaust)
  note d = events_dequeue [OF Suc.prems(1) deq]
  show ?case
  proof (cases "wireless_events s")
    case Nil
    with d(1) have "ev = None" by simp
    with deq Nil dequeue_none [of s s'] show ?thesis by simp
  next
    case (Cons x evs)
    with d(1) have ev: "ev = Some x" and evs: "wireless_events s' = evs" by simp_all
    obtain t where s': "s' = set_ring (?q, ?h, t) s" using d(2) by blast
    have ok': "wt_ok s'" using event_ops_ok(2) [OF Suc.prems(1)] by (simp add: deq)
    show ?thesis
    proof (cases "wireless_handle x s")
      case None
      with deq ev s' Cons show ?thesis by simp
    next
      case (Some s1)
      let ?s2 = "set_ring (?q, ?h, t) s1"
      have "wireless_handle x s' = Some ?s2"
        using Some by (simp add: s')
      moreover from this have "wt_ok ?s2"
        using handle_ok [OF ok', of x] by simp
      moreover have "wireless_events ?s2 = evs"
        using evs by (simp add: s')
      ultimately show ?thesis
        using Suc.IH [of ?s2] Suc.prems(2) deq ev Some Cons by (simp add: option.map_comp comp_def)
    qed
  qed
qed simp

lemma events_bound: "wt_ok s \<Longrightarrow> length (wireless_events s) < WT_EVENT_QUEUE_SIZE"
  by (auto simp: wireless_events_def wt_ok_def events_ok_def ring_ok_def intro!: ring_len_bound)

text \<open>A burst of events: the newest fifteen are kept.\<close>

lemma newest_snoc:
  assumes "ys = drop (length zs - n) zs" and "0 < n"
  shows "(if length ys = n then tl ys else ys) @ [x] = drop (length (zs @ [x]) - n) (zs @ [x])"
proof (cases "length zs < n")
  case False
  then have "length ys = n" "tl ys = drop (Suc (length zs) - n) zs"
    using assms by (simp_all add: tl_drop drop_Suc [symmetric] Suc_diff_le drop_tl)
  then show ?thesis using False assms(2) by simp
qed (use assms in auto)

lemma events_enqueue_all:
  assumes "wt_ok s"
  shows "wt_ok (fold wireless_event_enqueue evs s) \<and> (\<exists>e. fold wireless_event_enqueue evs s = set_ring e s) \<and>
    (let xs = wireless_events s @ evs in
     wireless_events (fold wireless_event_enqueue evs s) = drop (length xs - (WT_EVENT_QUEUE_SIZE - 1)) xs)"
proof (induction evs rule: rev_induct)
  case Nil
  have "set_ring (get_ring s) s = s" by simp
  then have "\<exists>e. s = set_ring e s" by metis
  moreover have "length (wireless_events s) - (WT_EVENT_QUEUE_SIZE - 1) = 0"
    using events_bound [OF assms] by simp
  ultimately show ?case
    using assms by (simp add: Let_def)
next
  case (snoc ev evs)
  let ?s = "fold wireless_event_enqueue evs s"
  obtain e where e: "?s = set_ring e s" using snoc.IH by blast
  have "\<exists>e. wireless_event_enqueue ev ?s = set_ring e ?s"
    by (intro exI [of _ "get_ring (wireless_event_enqueue ev ?s)"]) (simp add: wireless_event_enqueue_def set_ring_def get_ring_def Let_def)
  then have "\<exists>e. wireless_event_enqueue ev ?s = set_ring e s"
    by (auto simp: e)
  moreover have "wt_ok ?s" using snoc.IH by blast
  moreover have "wireless_events (wireless_event_enqueue ev ?s) =
    (let xs = (wireless_events s @ evs) @ [ev] in drop (length xs - (WT_EVENT_QUEUE_SIZE - 1)) xs)"
    using snoc.IH unfolding events_enqueue [OF \<open>wt_ok ?s\<close>, of ev] Let_def
    by (intro newest_snoc) (simp_all add: WT_EVENT_QUEUE_SIZE_def)
  ultimately show ?case
    by simp
qed

text \<open>
  C9.  Events of the radio module are handled in the order they arrived and none is left over: after any burst of events, one run of
  the event task passes exactly the newest fifteen of the waiting and arrived events to their handlers, oldest first, and leaves the
  queue empty; the sixteen rounds of its loop are always enough.
\<close>

theorem wireless_events_in_order:
  assumes "wt_ok s"
  shows "\<exists>e. wireless_event_task (fold wireless_event_enqueue evs s) =
      map_option (set_ring e) (let xs = wireless_events s @ evs in handle_all (drop (length xs - 15) xs) s) \<and>
    wireless_events (set_ring e s) = []"
proof -
  let ?s = "fold wireless_event_enqueue evs s"
  obtain e where e: "?s = set_ring e s" and ok: "wt_ok ?s"
    and evs: "wireless_events ?s = (let xs = wireless_events s @ evs in drop (length xs - (WT_EVENT_QUEUE_SIZE - 1)) xs)"
    using events_enqueue_all [OF assms, of evs] unfolding Let_def by blast
  let ?e = "(wireless_event_queue ?s, wireless_event_queue_head ?s, wireless_event_queue_head ?s)"
  have "wireless_event_task ?s = map_option (set_ring ?e) (handle_all (wireless_events ?s) ?s)"
    unfolding wireless_event_task_def by (rule event_loop_handles [OF ok events_bound [OF ok]])
  also have "\<dots> = map_option (set_ring ?e) (handle_all (wireless_events ?s) s)"
    unfolding e by (simp add: option.map_comp comp_def)
  also have "\<dots> = map_option (set_ring ?e) (let xs = wireless_events s @ evs in handle_all (drop (length xs - 15) xs) s)"
    unfolding evs by (simp add: Let_def WT_EVENT_QUEUE_SIZE_def)
  finally show ?thesis
    by (intro exI [of _ ?e] conjI) (simp_all add: ring_list_def ring_len_def)
qed

text \<open>Sixteen events arrive at once: the first, the start of a PIN entry, is lost, and the last LED state stays.\<close>

theorem wireless_events_in_order_witness:
  "\<exists>s. wireless_event_task (fold wireless_event_enqueue
       (\<lparr>evt_type = EVT_PINCODE_ENTRY, params = 0\<rparr> # replicate 14 \<lparr>evt_type = EVT_HID_INDICATOR, params = 3\<rparr> @
        [\<lparr>evt_type = EVT_HID_INDICATOR, params = 6\<rparr>]) fresh_board) = Some s \<and>
     led_state s = 6 \<and> \<not> pincodeEntry s"
proof -
  let ?burst = "\<lparr>evt_type = EVT_PINCODE_ENTRY, params = 0\<rparr> # replicate 14 \<lparr>evt_type = EVT_HID_INDICATOR, params = 3\<rparr> @
        [\<lparr>evt_type = EVT_HID_INDICATOR, params = 6\<rparr>]"
  have "wireless_events fresh_board = []"
    by (simp add: wireless_events_def fresh_board_def wt_static_def ring_list_def ring_len_def)
  with wireless_events_in_order [OF fresh_board_ok, of ?burst] show ?thesis
    by (auto simp: wireless_handle_def set_ring_def eval_nat_numeral fresh_board_def wt_static_def)
qed

section \<open>Frames from the module\<close>

text \<open>That an operation has a result, and which.\<close>

definition yields :: "('s \<Rightarrow> bool) \<Rightarrow> 's option \<Rightarrow> bool" where
  "yields P x \<longleftrightarrow> (\<exists>s. x = Some s \<and> P s)"

lemma yields_simps [simp]: "yields P (Some s) = P s" "\<not> yields P None"
  by (simp_all add: yields_def)

lemma yields_bind: "yields P x \<Longrightarrow> (\<And>s. P s \<Longrightarrow> yields Q (f s)) \<Longrightarrow> yields Q (x \<bind> f)"
  by (auto simp: yields_def)

text \<open>The two halves of the module task: the status bytes, and the search for a frame.\<close>

definition receive_status :: "u8 list \<Rightarrow> 'e wt \<Rightarrow> 'e wt option" where
  "receive_status buf s = (let pbuf = drop VALID_DATA_START_INDEX buf in
     if is_protocol_ver pbuf then Some s else if pbuf ! 0 = 0xAA then lkbt51_status pbuf s else Some s)"

definition receive_frame :: "u8 list \<Rightarrow> 'e wt \<Rightarrow> 'e wt option" where
  "receive_frame buf s =
    (let (start, s) = (if wait_for_new_pkt (radio s)
                       then let (start, r) = find_frame buf (radio s) in (start, s\<lparr>radio := r\<rparr>) else (0, s))
     in if \<not> wait_for_new_pkt (radio s) \<and> unat (pkt_len (radio s)) \<le> BUFFER_SIZE - 5 then lkbt51_frame buf start s else Some s)"

lemma receive_split: "lkbt51_receive buf s = receive_status buf s \<bind> receive_frame buf"
  unfolding lkbt51_receive_def receive_status_def receive_frame_def [abs_def] Let_def ..

definition parser :: "radio \<Rightarrow> bool \<times> u8 \<times> u8" where
  "parser r = (wait_for_new_pkt r, pkt_len r, pkt_sn r)"

text \<open>The status bytes only queue events: they leave the reports and the frame parser alone.\<close>

lemma send_cmd_parser:
  "length payload \<le> 53 \<Longrightarrow> yields (\<lambda>r'. parser r' = parser r) (lkbt51_send_cmd payload ack again r)"
  by (simp add: lkbt51_send_cmd_def lkbt51_packet_def PACKET_MAX_LEN_def parser_def radio_emit_def Let_def)

lemma enqueue_frame [simp]:
  "reports (wireless_event_enqueue ev s) = reports s" "radio (wireless_event_enqueue ev s) = radio s"
  by (simp_all add: wireless_event_enqueue_def Let_def)

lemma status_frame: "yields (\<lambda>s'. reports s' = reports s \<and> parser (radio s') = parser (radio s)) (receive_status buf s)"
proof -
  define K where "K = (\<lambda>s' :: 'a wt. reports s' = reports s \<and> parser (radio s') = parser (radio s))"
  have ack: "yields K (with_radio lkbt51_send_conn_evt_ack s')" if "K s'" for s'
    using that send_cmd_parser [of "[LKBT51_CONNECTION_EVT_ACK]" "radio s'" False False]
    by (cases "lkbt51_send_conn_evt_ack (radio s')")
      (auto simp: K_def with_radio_def lkbt51_send_conn_evt_ack_def)
  have upd [simp]: "K s" "K (wireless_event_enqueue ev s') = K s'" "K (s'\<lparr>bat := b\<rparr>) = K s'"
    "radio s' = radio s'' \<Longrightarrow> K (s'\<lparr>radio := (radio s'')\<lparr>connection_interval := i\<rparr>\<rparr>) = K s'" for ev s' s'' b i
    by (simp_all add: K_def parser_def)
  have "yields K (lkbt51_status pbuf s)" for pbuf
    unfolding lkbt51_status_def Let_def by (auto intro!: yields_bind [of K] ack)
  then show ?thesis
    by (simp add: receive_status_def Let_def K_def)
qed

text \<open>The search for a frame takes the last header.\<close>

lemma find_frame_prefix:
  "\<exists>start' a b c. fold (\<lambda>i (start, r). if header_at buf i
       then (i + 5, r\<lparr>pkt_len := buf ! (i + 2), pkt_sn := buf ! (i + 4), wait_for_new_pkt := False\<rparr>) else (start, r)) is (start, r) =
     (start', r\<lparr>pkt_len := a, pkt_sn := b, wait_for_new_pkt := c\<rparr>)"
proof (induction "is" arbitrary: start r)
  case Nil
  have "r = r\<lparr>pkt_len := pkt_len r, pkt_sn := pkt_sn r, wait_for_new_pkt := wait_for_new_pkt r\<rparr>" by simp
  then show ?case by (simp, blast)
next
  case (Cons i "is")
  obtain start' a b c where "fold (\<lambda>i (start, r). if header_at buf i
       then (i + 5, r\<lparr>pkt_len := buf ! (i + 2), pkt_sn := buf ! (i + 4), wait_for_new_pkt := False\<rparr>) else (start, r)) is
     (i + 5, r\<lparr>pkt_len := buf ! (i + 2), pkt_sn := buf ! (i + 4), wait_for_new_pkt := False\<rparr>) =
     (start', r\<lparr>pkt_len := buf ! (i + 2), pkt_sn := buf ! (i + 4), wait_for_new_pkt := False\<rparr>
        \<lparr>pkt_len := a, pkt_sn := b, wait_for_new_pkt := c\<rparr>)"
    using Cons.IH by meson
  then show ?case
    using Cons.IH [of start r] by (cases "header_at buf i") auto
qed

lemma find_frame_last:
  assumes "10 \<le> i" "i < BUFFER_SIZE - 5" "header_at buf i" "\<And>j. i < j \<Longrightarrow> j < BUFFER_SIZE - 5 \<Longrightarrow> \<not> header_at buf j"
  shows "find_frame buf r = (i + 5, r\<lparr>pkt_len := buf ! (i + 2), pkt_sn := buf ! (i + 4), wait_for_new_pkt := False\<rparr>)"
proof -
  define step where "step = (\<lambda>i (start :: nat, r :: radio). if header_at buf i
     then (i + 5, r\<lparr>pkt_len := buf ! (i + 2), pkt_sn := buf ! (i + 4), wait_for_new_pkt := False\<rparr>) else (start, r))"
  have split: "[10..<BUFFER_SIZE - 5] = [10..<i] @ i # [Suc i..<BUFFER_SIZE - 5]"
    using assms(1,2) upt_add_eq_append [of 10 i "BUFFER_SIZE - 5 - i"] upt_conv_Cons [of i "BUFFER_SIZE - 5"] by simp
  have rest: "fold step is p = p" if "set is \<subseteq> {i<..<BUFFER_SIZE - 5}" for "is" p
    using that assms(4) by (induction "is" arbitrary: p) (auto simp: step_def)
  obtain start a b c where pre: "fold step [10..<i] (0, r) = (start, r\<lparr>pkt_len := a, pkt_sn := b, wait_for_new_pkt := c\<rparr>)"
    using find_frame_prefix [of buf "[10..<i]" 0 r] by (auto simp: step_def)
  have "find_frame buf r = fold step [10..<BUFFER_SIZE - 5] (0, r)"
    by (simp add: find_frame_def step_def)
  also have "\<dots> = fold step [Suc i..<BUFFER_SIZE - 5] (step i (start, r\<lparr>pkt_len := a, pkt_sn := b, wait_for_new_pkt := c\<rparr>))"
    by (simp add: split pre)
  also have "\<dots> = step i (start, r\<lparr>pkt_len := a, pkt_sn := b, wait_for_new_pkt := c\<rparr>)"
    by (rule rest) auto
  finally show ?thesis
    using assms(3) by (simp add: step_def)
qed

text \<open>A length that does not fit the buffer: the parser waits for the rest of the frame for ever.\<close>

definition wedged :: "'e wt \<Rightarrow> bool" where
  "wedged s \<longleftrightarrow> \<not> wait_for_new_pkt (radio s) \<and> BUFFER_SIZE - 5 < unat (pkt_len (radio s))"

lemma wedged_receive:
  assumes "wedged s"
  shows "yields (\<lambda>s'. wedged s' \<and> reports s' = reports s) (lkbt51_receive buf s)"
proof -
  have "yields (\<lambda>s'. wedged s' \<and> reports s' = reports s) (receive_frame buf s')"
    if "reports s' = reports s \<and> parser (radio s') = parser (radio s)" for s'
    using that assms by (auto simp: receive_frame_def wedged_def parser_def)
  then show ?thesis
    unfolding receive_split by (rule yields_bind [OF status_frame])
qed

lemma wedged_receive_all:
  "wedged s \<Longrightarrow> yields (\<lambda>s'. wedged s' \<and> reports s' = reports s) (receive_all bufs s)"
proof (induction bufs arbitrary: s)
  case (Cons buf bufs)
  have "yields (\<lambda>s'. wedged s' \<and> reports s' = reports s) (receive_all bufs s1)"
    if "wedged s1 \<and> reports s1 = reports s" for s1 :: "'a wt"
    using that Cons.IH [of s1] by simp
  then show ?case
    unfolding receive_all.simps by (rule yields_bind [OF wedged_receive [OF Cons.prems]])
qed simp

text \<open>
  C30.  One corrupt length byte silences the module for good: a frame header whose length, confirmed by its complement, is 60 or more
  leaves the parser waiting for a frame that cannot fit, and from then on no buffer, however correct its frames, changes the report queue,
  so no acknowledgement ever ends a retransmission again.
\<close>

theorem parser_wedges:
  assumes "wait_for_new_pkt (radio s)"
    and "10 \<le> i" "i < BUFFER_SIZE - 5" "header_at buf i" "60 \<le> buf ! (i + 2)"
    and "\<forall>j. i < j \<and> j < BUFFER_SIZE - 5 \<longrightarrow> \<not> header_at buf j"
  shows "\<exists>s'. receive_all (buf # bufs) s = Some s' \<and> reports s' = reports s \<and> \<not> wait_for_new_pkt (radio s')"
proof -
  have "yields (\<lambda>s'. wedged s' \<and> reports s' = reports s) (receive_frame buf s')"
    if "reports s' = reports s \<and> parser (radio s') = parser (radio s)" for s'
    using that assms find_frame_last [OF assms(2-4), of "radio s'"]
    by (auto simp: receive_frame_def wedged_def parser_def BUFFER_SIZE_def word_le_nat_alt)
  then have "yields (\<lambda>s'. wedged s' \<and> reports s' = reports s) (lkbt51_receive buf s)"
    unfolding receive_split by (rule yields_bind [OF status_frame])
  moreover have "yields (\<lambda>s'. reports s' = reports s \<and> \<not> wait_for_new_pkt (radio s')) (receive_all bufs s1)"
    if "wedged s1 \<and> reports s1 = reports s" for s1 :: "'a wt"
    using that wedged_receive_all [of s1 bufs] by (cases "receive_all bufs s1") (auto simp: wedged_def)
  ultimately show ?thesis
    unfolding receive_all.simps yields_def [symmetric] by (rule yields_bind)
qed

text \<open>A frame as the module sends it: the same layout as a command, with the event as the first byte of the body.\<close>

definition event_frame :: "u8 list \<Rightarrow> u8 \<Rightarrow> u8 list" where
  "event_frame body sn = (let len = of_nat (length body + 2) :: u8; checksum = packet_checksum body in
     [0xAA, 0x57, len, NOT len, sn] @ body @ [low_byte checksum, high_byte checksum])"

text \<open>A keyboard report is waiting for its acknowledgement; the frame with the bad length comes first.\<close>

theorem parser_wedges_witness:
  "let s = fresh_board\<lparr>reports := report_queue_static\<lparr>retry := 30\<rparr>\<rparr>;
       bad = replicate 10 0 @ [0xAA, 0x57, 60, NOT 60] @ replicate 50 0;
       ack = replicate 10 0 @ event_frame [LKBT51_EVT_ACK, 0, LKBT51_CMD_SEND_KB, ACK_SUCCESS] 1 @ replicate 43 0
   in \<exists>s'. receive_all [bad, ack] s = Some s' \<and> retry (reports s') = 30"
proof -
  let ?s = "fresh_board\<lparr>reports := report_queue_static\<lparr>retry := 30\<rparr>\<rparr>"
  let ?bad = "replicate 10 0 @ [0xAA, 0x57, 60, NOT 60] @ replicate 50 0 :: u8 list"
  let ?ack = "replicate 10 0 @ event_frame [LKBT51_EVT_ACK, 0, LKBT51_CMD_SEND_KB, ACK_SUCCESS] 1 @ replicate 43 0"
  have wait: "wait_for_new_pkt (radio ?s)"
    by (simp add: fresh_board_def wt_static_def radio_static_def)
  have bad: "?bad ! j = (if j = 10 then 0xAA else if j = 11 then 0x57 else if j = 12 then 60 else if j = 13 then NOT 60 else 0)" if "j < 64" for j
    using that by (auto simp: nth_append nth_Cons split: nat.splits)
  have far: "?bad ! j \<noteq> 0xAA" if "10 < j" "j < 59" for j
    using that by (subst bad) auto
  have "\<forall>j. 10 < j \<and> j < BUFFER_SIZE - 5 \<longrightarrow> \<not> header_at ?bad j"
    using far by (auto simp: header_at_def BUFFER_SIZE_def)
  moreover have "header_at ?bad 10" "60 \<le> ?bad ! (10 + 2)"
    by (simp_all add: header_at_def nth_append)
  ultimately show ?thesis
    using parser_wedges [OF wait, of 10 ?bad "[?ack]"] by (auto simp: Let_def BUFFER_SIZE_def)
qed

lemma buf_at_append: "n < length xs \<Longrightarrow> buf_at (p @ xs) (int (length p) + int n) = Some (xs ! n)"
  by (simp add: buf_at_def nat_add_distrib flip: of_nat_add)

lemma sum_at_body:
  "n \<le> length body \<Longrightarrow> sum_at (pre @ body @ post) (int (length pre)) n = Some (packet_checksum (take n body))"
proof (induction n)
  case (Suc n)
  then have "buf_at (pre @ body @ post) (int (length pre) + int n) = Some (body ! n)"
    by (simp add: buf_at_def nat_add_distrib nth_append flip: of_nat_add)
  with Suc show ?case
    by (simp add: packet_checksum_def take_Suc_conv_app_nth)
qed (simp add: packet_checksum_def)


text \<open>
  C29.  A frame of the module reaches its handler unchanged: whatever bytes surround it in the buffer, as long as no later position looks
  like a header, the event, its data and the serial number that were packed are the ones handed to the event handler after the
  status bytes have been processed, and the parser is ready for the next frame.
\<close>

theorem frame_delivered:
  assumes "buf = pre @ event_frame (evt # data) sn @ post" and "length buf = BUFFER_SIZE" and "10 \<le> length pre"
    and "\<forall>j. length pre < j \<and> j < BUFFER_SIZE - 5 \<longrightarrow> \<not> header_at buf j" and "wait_for_new_pkt (radio s)"
  shows "\<exists>rest. lkbt51_receive buf s = receive_status buf s \<bind>
    (\<lambda>s. lkbt51_event_handler evt (data @ rest) (of_nat (length data)) sn
       (s\<lparr>radio := (radio s)\<lparr>pkt_len := of_nat (length data + 3), pkt_sn := sn, wait_for_new_pkt := True\<rparr>\<rparr>))"
proof -
  let ?body = "evt # data" and ?i = "length pre"
  let ?sum = "packet_checksum ?body"
  let ?rest = "[low_byte ?sum, high_byte ?sum] @ post"
  have room: "?i + length data + 8 \<le> 64"
    using assms(1,2) by (simp add: event_frame_def Let_def BUFFER_SIZE_def)
  then have len: "unat (of_nat (length data + 3) :: u8) = length data + 3"
    using assms(3) by (intro unat_of_nat_u8) simp
  have header: "header_at buf ?i" "buf ! (?i + 2) = of_nat (length data + 3)" "buf ! (?i + 4) = sn"
    by (simp_all add: assms(1) event_frame_def Let_def header_at_def nth_append add.commute)
  have found: "find_frame buf r = (?i + 5, r\<lparr>pkt_len := of_nat (length data + 3), pkt_sn := sn, wait_for_new_pkt := False\<rparr>)" for r
    using find_frame_last [of ?i buf r] assms(3,4) room header by (simp add: BUFFER_SIZE_def)
  obtain p where buf: "buf = p @ ?body @ ?rest" and p: "length p = ?i + 5"
  proof
    show "buf = (pre @ [0xAA, 0x57, of_nat (length data + 3), NOT (of_nat (length data + 3)), sn]) @ ?body @ ?rest"
      by (simp add: assms(1) event_frame_def Let_def add.commute)
  qed simp
  have sum: "sum_at buf (int (?i + 5)) (length data + 1) = Some ?sum"
    using sum_at_body [of "length data + 1" ?body p ?rest] by (simp only: buf p) simp
  have bytes: "buf_at buf (int (?i + 5) + int (length data + 3) - 2) = Some (low_byte ?sum)"
    "buf_at buf (int (?i + 5) + int (length data + 3) - 1) = Some (high_byte ?sum)" "buf_at buf (int (?i + 5)) = Some evt"
    using buf_at_append [of "length data + 1" "?body @ ?rest" p] buf_at_append [of "length data + 2" "?body @ ?rest" p]
      buf_at_append [of 0 "?body @ ?rest" p]
    by (simp_all add: buf p nth_append ac_simps)
  have "receive_frame buf s1 = lkbt51_event_handler evt (data @ ?rest) (of_nat (length data)) sn
       (s1\<lparr>radio := (radio s1)\<lparr>pkt_len := of_nat (length data + 3), pkt_sn := sn, wait_for_new_pkt := True\<rparr>\<rparr>)"
    if "wait_for_new_pkt (radio s1)" for s1 :: "'a wt"
  proof -
    have "drop (?i + 5 + 1) buf = data @ ?rest"
      by (simp add: buf p)
    then show ?thesis
      using that room sum bytes len by (simp add: receive_frame_def found lkbt51_frame_def Let_def BUFFER_SIZE_def)
  qed
  moreover obtain s1 where "receive_status buf s = Some s1" "wait_for_new_pkt (radio s1)"
    using status_frame [of s buf] assms(5) by (auto simp: yields_def parser_def)
  ultimately show ?thesis
    unfolding receive_split by (intro exI [of _ ?rest]) simp
qed

text \<open>The acknowledgement of a keyboard report ends its retransmission.\<close>

theorem frame_delivered_witness:
  "let s = fresh_board\<lparr>reports := report_queue_static\<lparr>retry := 30\<rparr>\<rparr>;
       ack = replicate 10 0 @ event_frame [LKBT51_EVT_ACK, 0, LKBT51_CMD_SEND_KB, ACK_SUCCESS] 1 @ replicate 43 0
   in \<exists>s'. lkbt51_receive ack s = Some s' \<and> retry (reports s') = 0"
proof -
  let ?s = "fresh_board\<lparr>reports := report_queue_static\<lparr>retry := 30\<rparr>\<rparr>"
  let ?frame = "event_frame [LKBT51_EVT_ACK, 0, LKBT51_CMD_SEND_KB, ACK_SUCCESS] 1"
  let ?ack = "replicate 10 0 @ ?frame @ replicate 43 0"
  have frame: "?frame = [0xAA, 0x57, 6, NOT 6, 1, 0xA1, 0, 0x11, 0, 0xB2, 0]"
    by (simp add: event_frame_def Let_def packet_checksum_def low_byte_def high_byte_def evt_defs cmd_defs)
  have "?ack ! j \<noteq> 0xAA" if "10 < j" "j < 59" for j
    using that unfolding frame by (auto simp: nth_append nth_Cons split: nat.splits)
  then have later: "\<forall>j. length (replicate 10 (0 :: u8)) < j \<and> j < BUFFER_SIZE - 5 \<longrightarrow> \<not> header_at ?ack j"
    by (simp add: header_at_def BUFFER_SIZE_def)
  have wait: "wait_for_new_pkt (radio ?s)"
    by (simp add: fresh_board_def wt_static_def radio_static_def)
  have "length ?ack = BUFFER_SIZE"
    by (simp add: frame BUFFER_SIZE_def)
  moreover have "receive_status ?ack ?s = Some ?s"
    by (simp add: receive_status_def is_protocol_ver_def VALID_DATA_START_INDEX_def Let_def nth_append)
  ultimately show ?thesis
    using frame_delivered [OF refl _ _ later wait]
    by (auto simp: Let_def lkbt51_event_handler_def ack_handler_def buf_at_def evt_defs cmd_defs with_reports_def
        report_buffer_set_retry_def report_buffer_set_inverval_def)
qed

section \<open>Firmware update packets\<close>

text \<open>
  A raw HID packet laid out as the module's own commands is relayed with its payload unchanged; the serial number of the
  relayed command is fresh unless the packet repeats the last one.
\<close>

lemma dfu_relayed:
  assumes "data = drop 4 (lkbt51_packet payload ack sn) @ padding" and "length data = RAW_EPSIZE"
    and "payload \<noteq> []" and "hd payload AND 0xF0 = 0x60"
  shows "lkbt51_dfu_rx data r = lkbt51_send_cmd payload ack (dfu_sn r = sn) (lkbt51_wake (r\<lparr>dfu_sn := sn\<rparr>))"
proof -
  let ?len = "of_nat (length payload + 2) :: u8" and ?sum = "packet_checksum payload"
  have data: "data = [0xAA, if ack then 0x56 else 0x55, ?len, NOT ?len, sn] @ payload @ [low_byte ?sum, high_byte ?sum] @ padding"
    by (simp add: assms(1) lkbt51_packet_def Let_def add.commute)
  then have room: "length payload + 7 \<le> 32"
    using assms(2) by (simp add: RAW_EPSIZE_def)
  then have "unat (of_nat (length payload) :: u8) = length payload" and "unat ?len = length payload + 2"
    by (intro unat_of_nat_u8, simp)+
  then have len: "unat ?len = length payload + 2" "unat (?len - 2) = length payload"
    by simp_all
  then have body: "take (unat ?len - 2) (drop 5 data) = payload" "take (unat (?len - 2)) (drop 5 data) = payload"
    "data ! (5 + unat ?len - 2) = low_byte ?sum" "data ! (5 + unat ?len - 1) = high_byte ?sum" "drop 5 data ! 0 = hd payload"
    unfolding len using assms(3) by (simp_all add: data nth_append hd_conv_nth)
  have high: "ucast (drop_bit 8 ?sum) = high_byte ?sum"
  proof -
    have byte: "drop_bit 8 ?sum AND 0xFF = take_bit 8 (drop_bit 8 ?sum)"
      by (simp add: take_bit_eq_mask mask_eq_exp_minus_1)
    show ?thesis
      unfolding high_byte_def byte by (rule bit_word_eqI) (auto simp: bit_simps)
  qed
  have "length payload + 2 \<le> RAW_EPSIZE - PACKECT_HEADER_LEN"
    using room by (simp add: RAW_EPSIZE_def PACKECT_HEADER_LEN_def)
  moreover have "data ! 0 = 0xAA" "data ! 1 = (if ack then 0x56 else 0x55)" "data ! 2 = ?len" "data ! 3 = NOT ?len" "data ! 4 = sn"
    by (simp_all add: data)
  ultimately show ?thesis
    using assms(2,4) body len high by (auto simp: lkbt51_dfu_rx_def Let_def PACKECT_HEADER_LEN_def)
qed

section \<open>A PIN typed while pairing\<close>

text \<open>
  The reports of the digits are queued, but the report task waits for the connected state and the connection does not
  clear the queue.
\<close>

definition holds_reports :: "report_buffer_t list \<Rightarrow> 'e wt \<Rightarrow> bool" where
  "holds_reports rs s \<longleftrightarrow> wt_ok s \<and> prefix rs (report_queue_content (reports s))"

lemma holds_frame [simp]:
  "holds_reports rs (s\<lparr>core := k\<rparr>) = holds_reports rs s" "holds_reports rs (s\<lparr>radio := r\<rparr>) = holds_reports rs s"
  "holds_reports rs (s\<lparr>wireless_state := w\<rparr>) = holds_reports rs s" "holds_reports rs (s\<lparr>host_index := i\<rparr>) = holds_reports rs s"
  "holds_reports rs (wt_emit out s) = holds_reports rs s" "holds_reports rs (set_keymap_nkro b s) = holds_reports rs s"
  by (simp_all add: holds_reports_def wt_emit_def set_keymap_nkro_def)

lemma holds_radio: "holds_reports rs s \<Longrightarrow> pred_option (holds_reports rs) (with_radio f s)"
  by (rule with_radio_ok) simp_all

lemma holds_enqueue [simp]:
  assumes "holds_reports rs s"
  shows "holds_reports rs (with_reports (\<lambda>q. snd (report_buffer_enqueue r q)) s)"
    and "holds_reports rs (with_reports (report_buffer_update_timer t) s)"
proof -
  have "report_queue_ok (reports s)"
    using assms by (simp add: holds_reports_def wt_ok_def reports_ok_def)
  then show "holds_reports rs (with_reports (\<lambda>q. snd (report_buffer_enqueue r q)) s)"
    using assms queue_enqueue(2) [of "reports s" r "fst (report_buffer_enqueue r (reports s))" "snd (report_buffer_enqueue r (reports s))"]
    by (auto simp: holds_reports_def) (auto simp: with_reports_def prefix_def)
  show "holds_reports rs (with_reports (report_buffer_update_timer t) s)"
    using assms by (auto simp: holds_reports_def) (simp add: with_reports_def report_buffer_update_timer_def)
qed

lemma holds_connect: "holds_reports rs s \<Longrightarrow> pred_option (holds_reports rs) (wireless_connect s)"
  by (auto simp: wireless_connect_def Let_def intro!: pred_bind [of "holds_reports rs"] holds_radio)

lemma holds_send:
  "holds_reports rs s \<Longrightarrow> pred_option (holds_reports rs) (wireless_send_keyboard report s)"
  "holds_reports rs s \<Longrightarrow> pred_option (holds_reports rs) (wireless_send_extra i usage s)"
  by (auto simp: wireless_send_keyboard_def wireless_send_extra_def wireless_send_system_def wireless_send_consumer_def
      intro!: pred_bind [of "holds_reports rs"] holds_radio holds_connect)

lemma holds_deliver: "holds_reports rs s \<Longrightarrow> pred_option (holds_reports rs) (deliver ev s)"
  by (auto simp: deliver_def holds_send split: wt_driver.split host_event.split)

lemma holds_run_core: "holds_reports rs s \<Longrightarrow> pred_option (holds_reports rs) (run_core f s)"
proof -
  have "pred_option (holds_reports rs) (deliver_all evs s)" if "holds_reports rs s" for evs and s :: "'a wt"
    using that by (induction evs arbitrary: s) (auto intro!: pred_bind [of "holds_reports rs"] holds_deliver)
  then show "holds_reports rs s \<Longrightarrow> pred_option (holds_reports rs) (run_core f s)"
    by (simp add: run_core_def Let_def)
qed

lemma holds_connected: "holds_reports rs s \<Longrightarrow> pred_option (holds_reports rs) (wireless_enter_connected idx s)"
  by (auto simp: wireless_enter_connected_def Let_def intro!: pred_bind [of "holds_reports rs"] holds_run_core holds_radio)

text \<open>Keyboard reports with a run of the report task after each.\<close>

primrec type_and_poll :: "report_keyboard_t list \<Rightarrow> 'e wt \<Rightarrow> 'e wt option" where
  "type_and_poll [] s = Some s"
| "type_and_poll (r # rs) s = do { s \<leftarrow> wireless_send_keyboard r s; s \<leftarrow> wireless_report_task s; type_and_poll rs s }"

lemma report_task_unconnected: "wireless_state s \<noteq> WT_CONNECTED \<Longrightarrow> wireless_report_task s = Some s"
  by (simp add: wireless_report_task_def report_buffer_task_def)

lemma pin_digit:
  assumes "wireless_state s = WT_PARING" "pincodeEntry s" "\<not> nkro (keymap_config (core s))"
  shows "wireless_send_keyboard r s \<bind> wireless_report_task = Some (with_reports (\<lambda>q. snd (report_buffer_enqueue (REPORT_TYPE_KB r) q)) s)"
  using assms by (simp add: wireless_send_keyboard_def report_task_unconnected with_reports_def)

lemma pin_digits_queued:
  assumes "wt_ok s" "wireless_state s = WT_PARING" "pincodeEntry s" "\<not> nkro (keymap_config (core s))"
    and "length (report_queue_content (reports s)) + length rs < REPORT_BUFFER_QUEUE_SIZE"
  shows "\<exists>s'. type_and_poll rs s = Some s' \<and> wt_ok s' \<and> radio s' = radio s \<and>
    report_queue_content (reports s') = report_queue_content (reports s) @ map REPORT_TYPE_KB rs"
  using assms
proof (induction rs arbitrary: s)
  case (Cons r rs)
  let ?q = "report_buffer_enqueue (REPORT_TYPE_KB r) (reports s)"
  let ?s = "with_reports (\<lambda>q. snd (report_buffer_enqueue (REPORT_TYPE_KB r) q)) s"
  have "report_queue_ok (reports s)"
    using Cons.prems(1) by (simp add: wt_ok_def reports_ok_def)
  then have "report_queue_content (snd ?q) = report_queue_content (reports s) @ [REPORT_TYPE_KB r]"
    using Cons.prems(5) rq.enq_content [of "reports s" "REPORT_TYPE_KB r"] by (simp add: spec_enq_def split: if_splits)
  then have "report_queue_content (reports ?s) = report_queue_content (reports s) @ [REPORT_TYPE_KB r]"
    by (simp add: with_reports_def)
  moreover from this have "\<exists>s'. type_and_poll rs ?s = Some s' \<and> wt_ok s' \<and> radio s' = radio ?s \<and>
      report_queue_content (reports s') = report_queue_content (reports ?s) @ map REPORT_TYPE_KB rs"
    using Cons.prems by (intro Cons.IH) (simp_all, simp_all add: with_reports_def)
  moreover have "type_and_poll (r # rs) s = type_and_poll rs ?s"
    using pin_digit [OF Cons.prems(2-4), of r] by (auto simp: bind_assoc [symmetric])
  moreover have "radio ?s = radio s"
    by (simp add: with_reports_def)
  ultimately show ?case by auto
qed simp

text \<open>
  C31.  The digits of a PIN do not reach the module while it asks for them: every report typed during the PIN entry is queued without a
  single packet to the module, and when a connection comes about the queue still begins with them, so they are then sent to
  the new host as ordinary key reports.
\<close>

theorem pin_digits_kept_for_host:
  assumes "wt_ok s" "wireless_state s = WT_PARING" "pincodeEntry s" "\<not> nkro (keymap_config (core s))"
    and "length (report_queue_content (reports s)) + length rs < REPORT_BUFFER_QUEUE_SIZE"
  shows "\<exists>s'. type_and_poll rs s = Some s' \<and> radio s' = radio s \<and>
    pred_option (\<lambda>s2. prefix (report_queue_content (reports s) @ map REPORT_TYPE_KB rs) (report_queue_content (reports s2)))
      (wireless_enter_connected idx s')"
proof -
  obtain s' where s': "type_and_poll rs s = Some s'" "wt_ok s'" "radio s' = radio s"
    "report_queue_content (reports s') = report_queue_content (reports s) @ map REPORT_TYPE_KB rs"
    using pin_digits_queued [OF assms] by blast
  then have "holds_reports (report_queue_content (reports s) @ map REPORT_TYPE_KB rs) s'"
    by (simp add: holds_reports_def)
  from holds_connected [OF this, of idx] s' show ?thesis
    by (cases "wireless_enter_connected idx s'") (auto simp: holds_reports_def)
qed

theorem pin_digits_kept_for_host_witness:
  "let s = wireless_enter_bluetooth_pin_code_entry (wireless_enter_discoverable 1 fresh_board);
       digits = [[0, 0, 30, 0, 0, 0, 0, 0], replicate 8 0]
   in \<exists>s'. type_and_poll digits s = Some s' \<and> radio_out (radio s') = [] \<and>
     pred_option (\<lambda>s2. prefix (map REPORT_TYPE_KB digits) (report_queue_content (reports s2))) (wireless_enter_connected 1 s')"
proof -
  let ?s = "wireless_enter_bluetooth_pin_code_entry (wireless_enter_discoverable 1 fresh_board)"
  have ok: "wt_ok ?s"
    using fresh_board_ok by (simp add: enter_ok)
  have s: "wireless_state ?s = WT_PARING" "pincodeEntry ?s" "\<not> nkro (keymap_config (core ?s))" "radio_out (radio ?s) = []"
      "report_queue_content (reports ?s) = []"
    by (simp_all add: wireless_enter_bluetooth_pin_code_entry_def wireless_enter_discoverable_def wt_emit_def set_keymap_nkro_def
        fresh_board_def wt_static_def kb_static_def nkro_def report_queue_content_def report_queue_static_def ring_list_def ring_len_def
        radio_static_def bit_simps)
  show ?thesis
    using pin_digits_kept_for_host [OF ok s(1-3), of "[[0, 0, 30, 0, 0, 0, 0, 0], replicate 8 0]" 1] s(4,5)
    by (auto simp: Let_def REPORT_BUFFER_QUEUE_SIZE_def)
qed

section \<open>Buffer overruns\<close>

text \<open>After any command the expected length is 64, and the four bytes of header make the next exchange longer than its buffers.\<close>

lemma read_overruns_after_command:
  "lkbt51_send_cmd payload ack again r = Some r' \<Longrightarrow> lkbt51_read miso (expect_len r') = None"
  by (auto simp: lkbt51_send_cmd_def lkbt51_read_def lkbt51_read_length_def radio_emit_def BUFFER_SIZE_def Let_def split: if_splits)

lemma task_overruns: "expect_len (radio s) = 64 \<Longrightarrow> lkbt51_task (Some miso) s = None"
  by (simp add: lkbt51_task_def lkbt51_read_def lkbt51_read_length_def BUFFER_SIZE_def)

lemma tasks_overrun: "expect_len (radio s) = 64 \<Longrightarrow> Some miso \<in> set pins \<Longrightarrow> module_tasks pins s = None"
proof (induction pins)
  case (Cons pin pins)
  then show ?case by (cases pin) (auto simp: task_overruns, simp add: lkbt51_task_def)
qed simp

lemma command_length: "lkbt51_send_cmd payload ack again r = Some r' \<Longrightarrow> expect_len r' = 64"
  by (auto simp: lkbt51_send_cmd_def radio_emit_def Let_def split: if_splits)

text \<open>
  C8.  Reading from the radio module stays inside the buffers only until the first command.  The read with the length the
  firmware starts with, or any other up to 60, fills a buffer of 64 bytes; but after any command has been sent, the next pass of the main
  loop in which the module pulls its pin low exchanges 68 bytes with two buffers of 64; so does every change to a radio
  transport, from whatever state, when the module has something to say in the 50 ms after the disconnect command.  The
  result None is such an access outside an array.
\<close>

theorem radio_reads_overrun:
  assumes "Some m \<in> set pins"
  shows "(\<forall>len. unat len \<le> 60 \<longrightarrow> (\<exists>buf. lkbt51_read m len = Some buf \<and> length buf = BUFFER_SIZE)) \<and>
    (\<forall>payload ack again r. lkbt51_send_cmd payload ack again (radio s) = Some r \<longrightarrow> wireless_task (Some m) (s\<lparr>radio := r\<rparr>) = None) \<and>
    bt_transport_enable pins True s = None \<and> p24g_transport_enable pins True s = None"
proof -
  have read: "\<exists>buf. lkbt51_read m len = Some buf \<and> length buf = BUFFER_SIZE" if "unat len \<le> 60" for len
  proof -
    have "unat (4 + len) = 4 + unat len" using that by (subst unat_plus_if') simp
    then show ?thesis using that by (simp add: lkbt51_read_def lkbt51_read_length_def BUFFER_SIZE_def Let_def)
  qed
  have task: "wireless_task (Some m) (s\<lparr>radio := r\<rparr>) = None" if "lkbt51_send_cmd payload ack again (radio s) = Some r" for payload ack again r
    using task_overruns [of "s\<lparr>radio := r\<rparr>" m] command_length [OF that] by (simp add: wireless_task_def)
  have "radio_reconnect pins idx s = None" for idx
  proof (cases "wireless_disconnect (s\<lparr>active_driver := Wireless_Driver, core := (core s)\<lparr>host_driver := True\<rparr>\<rparr>)")
    case (Some t)
    then have "expect_len (radio t) = 64"
      by (auto simp: wireless_disconnect_def with_radio_def lkbt51_disconnect_def dest!: command_length)
    then show ?thesis using tasks_overrun [of t m pins] assms Some by (simp add: radio_reconnect_def)
  qed (simp add: radio_reconnect_def)
  with read task show ?thesis by (simp add: bt_transport_enable_def p24g_transport_enable_def)
qed

theorem radio_reads_overrun_witness:
  "bt_transport_enable [None, Some (\<lambda>_. 0xAA)] True fresh_board = None \<and> expect_len (radio fresh_board) = 22 \<and>
    (\<exists>buf. lkbt51_read (\<lambda>_. 0xAA) 22 = Some buf \<and> length buf = 64)"
  using radio_reads_overrun [of "\<lambda>_. 0xAA" "[None, Some (\<lambda>_. 0xAA)]" fresh_board]
  by (simp add: BUFFER_SIZE_def fresh_board_def wt_static_def radio_static_def)

text \<open>An answer of 25 bytes or more leaves the buffer of the raw HID report before the part meant for a second report is split off.\<close>

lemma dfu_answer_overruns: "25 \<le> length data \<Longrightarrow> lkbt51_dfu_tx rsp data sn r = None"
  by (simp add: lkbt51_dfu_tx_def RAW_EPSIZE_def Let_def)

end
