(* ===== verification/Keycode_Laws.thy ===== *)
theory Keycode_Laws
  imports Keymap_Common
begin

text \<open>
  Laws of the keycode remapping and of the action codes: the swaps are undone by applying them twice, the
  remapping of modifiers agrees with the remapping of keycodes, and what the bit fields of an action
  code hold.
\<close>

section \<open>Remapped keycodes\<close>

lemmas config_bits = swap_control_capslock_def capslock_to_control_def swap_lalt_lgui_def swap_ralt_rgui_def no_gui_def
  swap_grave_esc_def swap_backslash_backspace_def nkro_def swap_lctl_lgui_def swap_rctl_rgui_def oneshot_enable_bit_def
  swap_escape_capslock_def

lemma kc_neq:
  "distinct [KC_CAPS_LOCK, KC_LOCKING_CAPS_LOCK, KC_LEFT_CTRL, KC_LEFT_ALT, KC_LEFT_GUI, KC_RIGHT_CTRL, KC_RIGHT_ALT,
     KC_RIGHT_GUI, KC_GRAVE, KC_ESCAPE, KC_BACKSLASH, KC_BACKSPACE, KC_NO, KC_LEFT_SHIFT, KC_RIGHT_SHIFT]"
  by (simp add: kc_defs)

lemma keycode_config_at:
  "keycode_config c KC_CAPS_LOCK = (if swap_control_capslock c \<or> capslock_to_control c then KC_LEFT_CTRL
     else if swap_escape_capslock c then KC_ESCAPE else KC_CAPS_LOCK)"
  "keycode_config c KC_LEFT_CTRL = (if swap_control_capslock c then KC_CAPS_LOCK
     else if swap_lctl_lgui c then (if no_gui c then KC_NO else KC_LEFT_GUI) else KC_LEFT_CTRL)"
  "keycode_config c KC_LEFT_ALT = (if swap_lalt_lgui c then (if no_gui c then KC_NO else KC_LEFT_GUI) else KC_LEFT_ALT)"
  "keycode_config c KC_LEFT_GUI = (if swap_lalt_lgui c then KC_LEFT_ALT else if swap_lctl_lgui c then KC_LEFT_CTRL
     else if no_gui c then KC_NO else KC_LEFT_GUI)"
  "keycode_config c KC_RIGHT_CTRL = (if swap_rctl_rgui c then (if no_gui c then KC_NO else KC_RIGHT_GUI) else KC_RIGHT_CTRL)"
  "keycode_config c KC_RIGHT_ALT = (if swap_ralt_rgui c then (if no_gui c then KC_NO else KC_RIGHT_GUI) else KC_RIGHT_ALT)"
  "keycode_config c KC_RIGHT_GUI = (if swap_ralt_rgui c then KC_RIGHT_ALT else if swap_rctl_rgui c then KC_RIGHT_CTRL
     else if no_gui c then KC_NO else KC_RIGHT_GUI)"
  "keycode_config c KC_GRAVE = (if swap_grave_esc c then KC_ESCAPE else KC_GRAVE)"
  "keycode_config c KC_ESCAPE = (if swap_grave_esc c then KC_GRAVE else if swap_escape_capslock c then KC_CAPS_LOCK else KC_ESCAPE)"
  "keycode_config c KC_BACKSLASH = (if swap_backslash_backspace c then KC_BACKSPACE else KC_BACKSLASH)"
  "keycode_config c KC_BACKSPACE = (if swap_backslash_backspace c then KC_BACKSLASH else KC_BACKSPACE)"
  "keycode_config c KC_LEFT_SHIFT = KC_LEFT_SHIFT"
  "keycode_config c KC_RIGHT_SHIFT = KC_RIGHT_SHIFT"
  using kc_neq by (simp_all add: keycode_config_def eq_commute)

lemma keycode_config_other:
  "kc \<notin> {KC_CAPS_LOCK, KC_LOCKING_CAPS_LOCK, KC_LEFT_CTRL, KC_LEFT_ALT, KC_LEFT_GUI, KC_RIGHT_CTRL, KC_RIGHT_ALT,
     KC_RIGHT_GUI, KC_GRAVE, KC_ESCAPE, KC_BACKSLASH, KC_BACKSPACE} \<Longrightarrow> keycode_config c kc = kc"
  by (simp add: keycode_config_def)

definition swaps_consistent :: "u16 \<Rightarrow> bool" where
  "swaps_consistent c \<longleftrightarrow> \<not> capslock_to_control c \<and> \<not> no_gui c \<and>
     \<not> (swap_lalt_lgui c \<and> swap_lctl_lgui c) \<and> \<not> (swap_ralt_rgui c \<and> swap_rctl_rgui c) \<and>
     \<not> (swap_control_capslock c \<and> (swap_lctl_lgui c \<or> swap_escape_capslock c)) \<and>
     \<not> (swap_grave_esc c \<and> swap_escape_capslock c)"

text \<open>
  With swaps that do not compete for a key, and the two one-way settings off, \<open>keycode_config\<close> is
  its own inverse on every keycode but the locking Caps Lock: no key is lost and none is doubled.
\<close>

theorem keycode_config_involution:
  assumes "swaps_consistent c" and "kc \<noteq> KC_LOCKING_CAPS_LOCK"
  shows "keycode_config c (keycode_config c kc) = kc"
proof (cases "kc \<in> {KC_CAPS_LOCK, KC_LEFT_CTRL, KC_LEFT_ALT, KC_LEFT_GUI, KC_RIGHT_CTRL, KC_RIGHT_ALT,
     KC_RIGHT_GUI, KC_GRAVE, KC_ESCAPE, KC_BACKSLASH, KC_BACKSPACE}")
  case True
  then show ?thesis using assms(1) unfolding swaps_consistent_def
    by (elim insertE emptyE) (simp_all add: keycode_config_at)
qed (use assms in \<open>simp add: keycode_config_other\<close>)

theorem keycode_config_involution_witness:
  "keycode_config 4 KC_LEFT_ALT = KC_LEFT_GUI \<and> keycode_config 4 (keycode_config 4 KC_LEFT_ALT) = KC_LEFT_ALT"
proof -
  have c: "swaps_consistent 4" "swap_lalt_lgui 4" "\<not> no_gui 4"
    by (simp_all add: swaps_consistent_def config_bits)
  have "KC_LEFT_ALT \<noteq> KC_LOCKING_CAPS_LOCK" by (simp add: kc_defs)
  then show ?thesis using keycode_config_involution [OF c(1), of KC_LEFT_ALT] c(2,3) by (simp add: keycode_config_at)
qed

section \<open>Remapped modifiers\<close>

lemma mod_swap_at:
  "mod_swap MOD_LGUI MOD_LALT MOD_RGUI MOD_RALT MOD_LCTL = MOD_LCTL"
  "mod_swap MOD_LGUI MOD_LALT MOD_RGUI MOD_RALT MOD_LSFT = MOD_LSFT"
  "mod_swap MOD_LGUI MOD_LALT MOD_RGUI MOD_RALT MOD_LALT = MOD_LGUI"
  "mod_swap MOD_LGUI MOD_LALT MOD_RGUI MOD_RALT MOD_LGUI = MOD_LALT"
  "mod_swap MOD_LGUI MOD_LALT MOD_RGUI MOD_RALT MOD_RCTL = MOD_RCTL"
  "mod_swap MOD_LGUI MOD_LALT MOD_RGUI MOD_RALT MOD_RSFT = MOD_RSFT"
  "mod_swap MOD_LGUI MOD_LALT MOD_RGUI MOD_RALT MOD_RALT = MOD_RALT"
  "mod_swap MOD_LGUI MOD_LALT MOD_RGUI MOD_RALT MOD_RGUI = MOD_RGUI"
  "mod_swap MOD_RGUI MOD_RALT MOD_RGUI MOD_RALT MOD_LCTL = MOD_LCTL"
  "mod_swap MOD_RGUI MOD_RALT MOD_RGUI MOD_RALT MOD_LSFT = MOD_LSFT"
  "mod_swap MOD_RGUI MOD_RALT MOD_RGUI MOD_RALT MOD_LALT = MOD_LALT"
  "mod_swap MOD_RGUI MOD_RALT MOD_RGUI MOD_RALT MOD_LGUI = MOD_LGUI"
  "mod_swap MOD_RGUI MOD_RALT MOD_RGUI MOD_RALT MOD_RCTL = MOD_RCTL"
  "mod_swap MOD_RGUI MOD_RALT MOD_RGUI MOD_RALT MOD_RSFT = MOD_RSFT"
  "mod_swap MOD_RGUI MOD_RALT MOD_RGUI MOD_RALT MOD_RALT = MOD_RGUI"
  "mod_swap MOD_RGUI MOD_RALT MOD_RGUI MOD_RALT MOD_RGUI = MOD_RALT"
  "mod_swap MOD_LGUI MOD_LCTL MOD_RGUI MOD_RCTL MOD_LCTL = MOD_LGUI"
  "mod_swap MOD_LGUI MOD_LCTL MOD_RGUI MOD_RCTL MOD_LSFT = MOD_LSFT"
  "mod_swap MOD_LGUI MOD_LCTL MOD_RGUI MOD_RCTL MOD_LALT = MOD_LALT"
  "mod_swap MOD_LGUI MOD_LCTL MOD_RGUI MOD_RCTL MOD_LGUI = MOD_LCTL"
  "mod_swap MOD_LGUI MOD_LCTL MOD_RGUI MOD_RCTL MOD_RCTL = MOD_RCTL"
  "mod_swap MOD_LGUI MOD_LCTL MOD_RGUI MOD_RCTL MOD_RSFT = MOD_RSFT"
  "mod_swap MOD_LGUI MOD_LCTL MOD_RGUI MOD_RCTL MOD_RALT = MOD_RALT"
  "mod_swap MOD_LGUI MOD_LCTL MOD_RGUI MOD_RCTL MOD_RGUI = MOD_RGUI"
  "mod_swap MOD_RGUI MOD_RCTL MOD_RGUI MOD_RCTL MOD_LCTL = MOD_LCTL"
  "mod_swap MOD_RGUI MOD_RCTL MOD_RGUI MOD_RCTL MOD_LSFT = MOD_LSFT"
  "mod_swap MOD_RGUI MOD_RCTL MOD_RGUI MOD_RCTL MOD_LALT = MOD_LALT"
  "mod_swap MOD_RGUI MOD_RCTL MOD_RGUI MOD_RCTL MOD_LGUI = MOD_LGUI"
  "mod_swap MOD_RGUI MOD_RCTL MOD_RGUI MOD_RCTL MOD_RCTL = MOD_RGUI"
  "mod_swap MOD_RGUI MOD_RCTL MOD_RGUI MOD_RCTL MOD_RSFT = MOD_RSFT"
  "mod_swap MOD_RGUI MOD_RCTL MOD_RGUI MOD_RCTL MOD_RALT = MOD_RALT"
  "mod_swap MOD_RGUI MOD_RCTL MOD_RGUI MOD_RCTL MOD_RGUI = MOD_RCTL"
  by (simp_all add: mod_swap_def mod_defs)

text \<open>The keycode of a single modifier.\<close>

definition mod_keycode :: "u8 \<Rightarrow> u16" where
  "mod_keycode m = 0xE0 + (if m AND 0x10 = 0 then 0 else 4) +
    (if m AND 1 \<noteq> 0 then 0 else if m AND 2 \<noteq> 0 then 1 else if m AND 4 \<noteq> 0 then 2 else 3)"

lemma mod_keycode_at:
  "mod_keycode MOD_LCTL = KC_LEFT_CTRL" "mod_keycode MOD_LSFT = KC_LEFT_SHIFT"
  "mod_keycode MOD_LALT = KC_LEFT_ALT" "mod_keycode MOD_LGUI = KC_LEFT_GUI"
  "mod_keycode MOD_RCTL = KC_RIGHT_CTRL" "mod_keycode MOD_RSFT = KC_RIGHT_SHIFT"
  "mod_keycode MOD_RALT = KC_RIGHT_ALT" "mod_keycode MOD_RGUI = KC_RIGHT_GUI"
  by (simp_all add: mod_keycode_def mod_defs kc_defs)

text \<open>
  While the GUI keys are enabled and the swaps are consistent, remapping a single modifier and
  taking its keycode gives the same key as remapping the keycode of the modifier.
\<close>

theorem mod_config_agrees:
  assumes "m \<in> {MOD_LCTL, MOD_LSFT, MOD_LALT, MOD_LGUI, MOD_RCTL, MOD_RSFT, MOD_RALT, MOD_RGUI}"
    and "\<not> no_gui c" and "\<not> (swap_lalt_lgui c \<and> swap_lctl_lgui c)" and "\<not> (swap_ralt_rgui c \<and> swap_rctl_rgui c)"
    and "\<not> swap_control_capslock c"
  shows "mod_keycode (mod_config c m) = keycode_config c (mod_keycode m)"
  using assms
  by (elim insertE emptyE) (simp_all add: mod_config_def mod_swap_at mod_keycode_at keycode_config_at)

theorem mod_config_agrees_witness:
  "mod_keycode (mod_config 4 MOD_LALT) = keycode_config 4 KC_LEFT_ALT"
  using mod_config_agrees [of MOD_LALT 4] by (simp add: config_bits mod_keycode_at)

text \<open>
  With the GUI keys disabled the two disagree: \<open>mod &= ~MOD_RGUI\<close> also clears the bit that marks
  a right-hand modifier, so a right Shift in a combination becomes a left Shift.
\<close>

theorem mod_config_no_gui:
  assumes "no_gui c" and "\<not> swap_ralt_rgui c" and "\<not> swap_rctl_rgui c"
  shows "mod_config c MOD_RSFT = MOD_LSFT \<and> keycode_config c KC_RIGHT_SHIFT = KC_RIGHT_SHIFT"
proof -
  have "mod_config c MOD_RSFT = (MOD_RSFT AND NOT MOD_LGUI) AND NOT MOD_RGUI"
    using assms by (simp add: mod_config_def mod_swap_at)
  then show ?thesis by (simp add: mod_defs keycode_config_at)
qed

theorem mod_config_no_gui_witness:
  "mod_config 0x10 MOD_RSFT = MOD_LSFT"
  using mod_config_no_gui [of "0x10"] by (simp add: config_bits)

section \<open>Action codes\<close>

lemma within_nat: "within a b (k :: u16) \<longleftrightarrow> unat a \<le> unat k \<and> unat k \<le> unat b"
  by (simp add: within_def word_le_nat_alt)

lemma unat_eq_u16: "k = (a :: u16) \<longleftrightarrow> unat k = unat a"
  by (simp add: word_unat_eq_iff)

lemma action_of_ranges:
  "within 0x04 0xA4 kc \<Longrightarrow> action_of c kc = ACTION_KEY kc"
  "within 0xE0 0xE7 kc \<Longrightarrow> action_of c kc = ACTION_KEY kc"
  "within 0x5000 0x51FF kc \<Longrightarrow> action_of c kc =
     (let m = ucast (mod_config c (ucast (kc AND 0x1F))) :: u16; layer = drop_bit 5 kc AND 0xF
      in ACTION_LAYER_MODS layer (if m AND 0x10 \<noteq> 0 then push_bit 4 m else m))"
  "within 0x5200 0x521F kc \<Longrightarrow> action_of c kc = ACTION_LAYER_GOTO (kc AND 0x1F)"
  "within 0x5220 0x523F kc \<Longrightarrow> action_of c kc = ACTION_LAYER_MOMENTARY (kc AND 0x1F)"
  "within 0x5240 0x525F kc \<Longrightarrow> action_of c kc = ACTION_DEFAULT_LAYER_SET (kc AND 0x1F)"
  "within 0x5260 0x527F kc \<Longrightarrow> action_of c kc = ACTION_LAYER_TOGGLE (kc AND 0x1F)"
  "within 0x5280 0x529F kc \<Longrightarrow> action_of c kc = ACTION_LAYER_ONESHOT (kc AND 0x1F)"
  "within 0x4000 0x4FFF kc \<Longrightarrow> action_of c kc = ACTION_LAYER_TAP (drop_bit 8 kc AND 0xF) (keycode_config c (kc AND 0xFF))"
  "within 0x2000 0x3FFF kc \<Longrightarrow> action_of c kc =
     ACTION_MODS_TAP_KEY (ucast (mod_config c (ucast (drop_bit 8 kc AND 0x1F)))) (keycode_config c (kc AND 0xFF))"
  "within 0x0100 0x1FFF kc \<Longrightarrow> action_of c kc =
       ACTION_MODS_KEY (ucast (mod_config c (ucast (drop_bit 8 kc AND 0x1F)))) (keycode_config c (kc AND 0xFF))"
  unfolding action_of_def within_nat unat_eq_u16 KC_LEFT_CTRL_def KC_RIGHT_GUI_def KC_TRNS_def
  by simp_all

lemma keycode_config_high: "0x100 \<le> unat kc \<Longrightarrow> keycode_config c kc = kc"
  unfolding keycode_config_def unat_eq_u16 kc_defs by simp

lemma action_for_layer_key:
  "within 0x5000 0x52DF kc \<Longrightarrow> action_for_keycode c kc = action_of c kc"
  by (simp add: action_for_keycode_def keycode_config_high within_nat)

definition narrow :: "nat \<Rightarrow> 'a::len word \<Rightarrow> bool" where
  "narrow k m \<longleftrightarrow> (\<forall>n. bit m n \<longrightarrow> n < k)"

lemma narrow_take_bit [simp]: "narrow k (take_bit k m)"
  by (simp add: narrow_def bit_take_bit_iff)

lemma narrow_iff: "narrow k m \<longleftrightarrow> take_bit k m = m"
  by (metis narrow_take_bit narrow_def bit_take_bit_iff bit_eqI)

lemma narrow_and_not: "narrow k m \<Longrightarrow> narrow k (m AND NOT a)"
  by (simp add: narrow_def bit_simps)

lemma narrow_swap: "narrow k m \<Longrightarrow> narrow k a \<Longrightarrow> narrow k b \<Longrightarrow> narrow k (mod_swap a b x y m)"
  by (auto simp: narrow_def mod_swap_def bit_simps)

lemma narrow_mods: "narrow 5 MOD_LGUI" "narrow 5 MOD_LALT" "narrow 5 MOD_LCTL" "narrow 5 MOD_RGUI" "narrow 5 MOD_RALT" "narrow 5 MOD_RCTL"
  by (simp_all add: narrow_iff mod_defs)

lemma within_layer_keys: "within 0x5000 0x51FF (kc :: u16) \<Longrightarrow> within 0x5000 0x52DF kc"
  by (simp add: within_nat)

lemma mod_config_narrow: "narrow 5 m \<Longrightarrow> narrow 5 (mod_config c m)"
  by (simp add: mod_config_def Let_def narrow_swap narrow_mods narrow_and_not)

lemma layer_mods_fields:
  fixes m l :: u16
  assumes "narrow 5 m" "narrow 4 l"
  defines "a \<equiv> ACTION_LAYER_MODS l (if m AND 0x10 \<noteq> 0 then push_bit 4 m else m)"
  shows "kind_id a = ACT_LAYER_MODS"
    "layer_mods_layer a = (if bit m 4 then l OR 1 else l)"
    "layer_mods_mods a = (if bit m 4 then push_bit 4 (take_bit 4 m) else m)"
proof -
  have m4: "m AND 0x10 \<noteq> 0 \<longleftrightarrow> bit m 4" using and_exp_eq_0_iff_not_bit [of m 4] by simp
  have mb: "bit m n \<Longrightarrow> n < 5" for n using assms(1) by (auto simp: narrow_def) 
  have lb: "bit l n \<Longrightarrow> n < 4" for n using assms(2) by (auto simp: narrow_def) 
  have "(9 :: u16) = push_bit 3 1 OR 1" by simp
  then have nine: "bit (9 :: u16) n \<longleftrightarrow> n = 0 \<or> n = 3" for n by (auto simp only: bit_simps) auto
  show "kind_id a = ACT_LAYER_MODS" 
    unfolding a_def m4 by (rule bit_eqI) (auto simp: field_defs action_defs act_defs bit_simps nine dest: mb lb)
  show "layer_mods_layer a = (if bit m 4 then l OR 1 else l)"
    unfolding a_def m4 by (rule bit_eqI) (auto simp: field_defs action_defs act_defs bit_simps nine dest: mb lb)
  show "layer_mods_mods a = (if bit m 4 then push_bit 4 (take_bit 4 m) else m)"
    unfolding a_def m4 by (rule bit_eqI) (auto simp: field_defs action_defs act_defs bit_simps nine dest: mb lb)
qed

text \<open>
  A layer-with-modifiers key names a layer and a set of modifiers.  With right-hand modifiers the
  shifted set has a ninth bit, which the action code adds to the layer: an even layer becomes the next
  odd one.
\<close>

theorem layer_mod_right_hand:
  fixes c kc :: u16
  assumes "within 0x5000 0x51FF kc"
  defines "a \<equiv> action_for_keycode c kc" and "d \<equiv> mod_config c (ucast (kc AND 0x1F))" and "l \<equiv> drop_bit 5 kc AND 0xF"
  shows "kind_id a = ACT_LAYER_MODS \<and> layer_mods_layer a = (if bit d 4 then l OR 1 else l) \<and>
    layer_mods_mods a = (if bit d 4 then push_bit 4 (take_bit 4 (ucast d)) else ucast d)"
proof -
  have a: "a = ACTION_LAYER_MODS l (if (ucast d :: u16) AND 0x10 \<noteq> 0 then push_bit 4 (ucast d) else ucast d)"
    unfolding a_def d_def l_def action_for_layer_key [OF within_layer_keys [OF assms(1)]]
    using action_of_ranges(3) [OF assms(1), of c] by (simp add: Let_def)
  have "kc AND 0x1F = take_bit 5 kc" by (simp add: take_bit_eq_mask mask_eq_exp_minus_1)
  then have "narrow 5 (ucast (kc AND 0x1F) :: u8)" by (auto simp: narrow_def bit_simps)
  then have d: "narrow 5 d" unfolding d_def by (rule mod_config_narrow)
  then have d16: "narrow 5 (ucast d :: u16)" by (auto simp: narrow_def bit_simps)
  have "drop_bit 5 kc AND 0xF = take_bit 4 (drop_bit 5 kc)" by (simp add: take_bit_eq_mask mask_eq_exp_minus_1)
  then have "narrow 4 l" by (simp add: l_def)
  moreover have "bit (ucast d :: u16) 4 = bit d 4" by (simp add: bit_simps)
  ultimately show ?thesis using layer_mods_fields [OF d16, of l] by (simp only: a)
qed

theorem layer_mod_right_hand_witness:
  "layer_mods_layer (action_for_keycode 0 0x5051) = 3"
proof -
  have "mod_config 0 0x11 = 0x11" by (simp add: mod_config_def config_bits)
  then show ?thesis using layer_mod_right_hand [of "0x5051" 0]
    by (simp add: within_nat bit_numeral_word_iff)
qed

end
