(* ===== verification/Action_Laws.thy ===== *)
theory Action_Laws
  imports Action Keycode_Laws
begin

text \<open>
  Laws of quantum/action.c: the depth of the recursion of \<open>process_record\<close>, what the layer keys do to the
  layers, and how the one-shot state is set and cleared.
\<close>

section \<open>The recursion ends\<close>

lemma action_switch_event: "event (fst (action_switch rec a s)) = event rec"
  by (simp add: action_switch_def action_mods_tap_def mods_tap_key_def Let_def)

lemma process_action_release:
  "\<not> ev_pressed (event rec) \<Longrightarrow> process_action f rec a s = process_action g rec a s"
  by (simp add: process_action_def ends_oneshot_layer_def split: prod.splits)

lemma release_depth:
  "\<not> ev_pressed (event rec) \<Longrightarrow> process_record_n (Suc n) ops h rec s = process_record_n (Suc 0) ops h rec s"
proof -
  assume "\<not> ev_pressed (event rec)"
  then have "process_action (process_record_n n ops h) rec = process_action (process_record_n 0 ops h) rec"
    by (intro ext process_action_release)
  then show ?thesis by (simp only: process_record_n.simps)
qed

lemma process_action_again:
  "(\<And>r t. \<not> ev_pressed (event r) \<Longrightarrow> f r t = g r t) \<Longrightarrow> process_action f rec a s = process_action g rec a s"
  by (simp add: process_action_def Let_def split_def)

text \<open>
  C26.  \<open>process_record\<close> calls itself at most once, for the release it makes up when a one-shot layer ends: two
  levels give the result of any greater depth.
\<close>

theorem process_record_depth:
  assumes "2 \<le> n"
  shows "process_record_n n ops h rec s = process_record ops h rec s"
proof -
  obtain m where n: "n = Suc (Suc m)" using assms by (metis Suc_le_D numeral_2_eq_2 Suc_le_mono)
  have "process_action (process_record_n (Suc m) ops h) r a t = process_action (process_record_n (Suc 0) ops h) r a t" for r a t
    by (rule process_action_again) (rule release_depth)
  then show ?thesis by (simp only: n process_record_def numeral_2_eq_2 process_record_n.simps(2) [of "Suc m"] process_record_n.simps(2) [of "Suc 0"])
qed

theorem process_record_depth_witness:
  "process_record_n 7 (transient_ops 2048 (\<lambda>b _. b))
     \<lparr>pre_process_record_quantum = \<lambda>_. Pair True, process_record_quantum = \<lambda>_. Pair True, post_process_record_quantum = \<lambda>_ s. s\<rparr>
     (no_record\<lparr>event := \<lparr>ev_key = \<lparr>key_row = 2, key_col = 3\<rparr>, ev_pressed = True, ev_time = 1\<rparr>\<rparr>) (kb_static None) =
   process_record (transient_ops 2048 (\<lambda>b _. b))
     \<lparr>pre_process_record_quantum = \<lambda>_. Pair True, process_record_quantum = \<lambda>_. Pair True, post_process_record_quantum = \<lambda>_ s. s\<rparr>
     (no_record\<lparr>event := \<lparr>ev_key = \<lparr>key_row = 2, key_col = 3\<rparr>, ev_pressed = True, ev_time = 1\<rparr>\<rparr>) (kb_static None)"
  by (rule process_record_depth) simp

section \<open>Layer keys\<close>

text \<open>The action codes of the layer keys of the four layers, and their fields.\<close>

lemma layer_key_codes:
  "action_for_keycode c 0x5220 = 0xA0F1"
  "action_for_keycode c 0x5260 = 0x8A01"
  "action_for_keycode c 0x5200 = 0x8D01"
  "action_for_keycode c 0x5240 = 0x8C01"
  "action_for_keycode c 0x5280 = 0xA0F4"
  "action_for_keycode c 0x5221 = 0xA1F1"
  "action_for_keycode c 0x5261 = 0x8A02"
  "action_for_keycode c 0x5201 = 0x8D02"
  "action_for_keycode c 0x5241 = 0x8C02"
  "action_for_keycode c 0x5281 = 0xA1F4"
  "action_for_keycode c 0x5222 = 0xA2F1"
  "action_for_keycode c 0x5262 = 0x8A04"
  "action_for_keycode c 0x5202 = 0x8D04"
  "action_for_keycode c 0x5242 = 0x8C04"
  "action_for_keycode c 0x5282 = 0xA2F4"
  "action_for_keycode c 0x5223 = 0xA3F1"
  "action_for_keycode c 0x5263 = 0x8A08"
  "action_for_keycode c 0x5203 = 0x8D08"
  "action_for_keycode c 0x5243 = 0x8C08"
  "action_for_keycode c 0x5283 = 0xA3F4"
  by (simp_all add: action_for_layer_key within_nat action_of_ranges action_defs act_defs op_defs)

lemma layer_key_fields:
  "kind_id 0x8A01 = 0x8"
  "bitop_on 0x8A01 = 0x2"
  "bitop_op 0x8A01 = 0x2"
  "bitop_value 0x8A01 = 0x1"
  "kind_id 0x8A02 = 0x8"
  "bitop_on 0x8A02 = 0x2"
  "bitop_op 0x8A02 = 0x2"
  "bitop_value 0x8A02 = 0x2"
  "kind_id 0x8A04 = 0x8"
  "bitop_on 0x8A04 = 0x2"
  "bitop_op 0x8A04 = 0x2"
  "bitop_value 0x8A04 = 0x4"
  "kind_id 0x8A08 = 0x8"
  "bitop_on 0x8A08 = 0x2"
  "bitop_op 0x8A08 = 0x2"
  "bitop_value 0x8A08 = 0x8"
  "kind_id 0x8C01 = 0x8"
  "bitop_on 0x8C01 = 0x0"
  "bitop_op 0x8C01 = 0x3"
  "bitop_value 0x8C01 = 0x1"
  "kind_id 0x8C02 = 0x8"
  "bitop_on 0x8C02 = 0x0"
  "bitop_op 0x8C02 = 0x3"
  "bitop_value 0x8C02 = 0x2"
  "kind_id 0x8C04 = 0x8"
  "bitop_on 0x8C04 = 0x0"
  "bitop_op 0x8C04 = 0x3"
  "bitop_value 0x8C04 = 0x4"
  "kind_id 0x8C08 = 0x8"
  "bitop_on 0x8C08 = 0x0"
  "bitop_op 0x8C08 = 0x3"
  "bitop_value 0x8C08 = 0x8"
  "kind_id 0x8D01 = 0x8"
  "bitop_on 0x8D01 = 0x1"
  "bitop_op 0x8D01 = 0x3"
  "bitop_value 0x8D01 = 0x1"
  "kind_id 0x8D02 = 0x8"
  "bitop_on 0x8D02 = 0x1"
  "bitop_op 0x8D02 = 0x3"
  "bitop_value 0x8D02 = 0x2"
  "kind_id 0x8D04 = 0x8"
  "bitop_on 0x8D04 = 0x1"
  "bitop_op 0x8D04 = 0x3"
  "bitop_value 0x8D04 = 0x4"
  "kind_id 0x8D08 = 0x8"
  "bitop_on 0x8D08 = 0x1"
  "bitop_op 0x8D08 = 0x3"
  "bitop_value 0x8D08 = 0x8"
  "kind_id 0xA0F1 = 0xA"
  "layer_tap_val 0xA0F1 = 0x0"
  "layer_tap_code 0xA0F1 = 0xF1"
  "kind_id 0xA0F4 = 0xA"
  "layer_tap_val 0xA0F4 = 0x0"
  "layer_tap_code 0xA0F4 = 0xF4"
  "kind_id 0xA1F1 = 0xA"
  "layer_tap_val 0xA1F1 = 0x1"
  "layer_tap_code 0xA1F1 = 0xF1"
  "kind_id 0xA1F4 = 0xA"
  "layer_tap_val 0xA1F4 = 0x1"
  "layer_tap_code 0xA1F4 = 0xF4"
  "kind_id 0xA2F1 = 0xA"
  "layer_tap_val 0xA2F1 = 0x2"
  "layer_tap_code 0xA2F1 = 0xF1"
  "kind_id 0xA2F4 = 0xA"
  "layer_tap_val 0xA2F4 = 0x2"
  "layer_tap_code 0xA2F4 = 0xF4"
  "kind_id 0xA3F1 = 0xA"
  "layer_tap_val 0xA3F1 = 0x3"
  "layer_tap_code 0xA3F1 = 0xF1"
  "kind_id 0xA3F4 = 0xA"
  "layer_tap_val 0xA3F4 = 0x3"
  "layer_tap_code 0xA3F4 = 0xF4"
  by (simp_all add: field_defs bitop_value_def Let_def)

lemma process_layer_action:
  assumes "\<not> is_oneshot_layer_active s" and "is_layer_action a"
  shows "layer_state (snd (process_action again rec a s)) = layer_state (snd (action_switch rec a s)) \<and>
    default_layer_state (snd (process_action again rec a s)) = default_layer_state (snd (action_switch rec a s)) \<and>
    oneshot_layer_data (snd (process_action again rec a s)) = oneshot_layer_data (snd (action_switch rec a s))"
  using assms by (simp add: process_action_def ends_oneshot_layer_def Let_def split_def emit_def)

lemmas layer_op_defs = layer_on_def layer_off_def layer_invert_def layer_move_def layer_xor_def default_layer_set_def
  default_layer_state_set_def layer_state_set_def layer_bit_def

text \<open>
  The layer keys do to the layers what their names say: a momentary key switches its layer on and off, a toggle key
  inverts it on release, a goto key makes it the only one on press, a default-layer key makes it the default one
  on release; each leaves everything else of the layer state alone.
\<close>

theorem layer_keys:
  fixes s :: "'e kb" and again :: "keyrecord \<Rightarrow> 'e kb \<Rightarrow> keyrecord \<times> 'e kb" and rec :: keyrecord and c :: u16 and l :: nat
  assumes "l < 4" and "\<not> is_oneshot_layer_active s"
  defines "after kc \<equiv> snd (process_action again rec (action_for_keycode c (kc + of_nat l)) s)"
    and "p \<equiv> ev_pressed (event rec)"
  shows "layer_state (after 0x5220) = (if p then layer_state s OR 2 ^ l else layer_state s AND NOT (2 ^ l)) \<and>
    layer_state (after 0x5260) = (if p then layer_state s else layer_state s XOR 2 ^ l) \<and>
    layer_state (after 0x5200) = (if p then 2 ^ l else layer_state s) \<and>
    default_layer_state (after 0x5240) = (if p then default_layer_state s else 2 ^ l) \<and>
    layer_state (after 0x5240) = layer_state s"
proof -
  have "l = 0 \<or> l = 1 \<or> l = 2 \<or> l = 3" using assms(1) by arith
  then show ?thesis
    using assms(2) by (elim disjE) (simp_all add: after_def p_def layer_key_codes process_layer_action is_layer_action_def
       layer_key_fields action_switch_def act_defs op_defs action_layer_tap_def action_layer_bitop_def layer_op_defs Let_def)
qed

theorem layer_keys_witness:
  "layer_state (snd (process_action Pair (no_record\<lparr>event := (event no_record)\<lparr>ev_pressed := True\<rparr>\<rparr>)
     (action_for_keycode 0 (0x5220 + 2)) (kb_static ()))) = 4"
  using layer_keys [of 2 "kb_static ()" Pair "no_record\<lparr>event := (event no_record)\<lparr>ev_pressed := True\<rparr>\<rparr>" 0]
  by (simp add: kb_static_def is_oneshot_layer_active_def get_oneshot_layer_state_def no_record_def)

section \<open>One-shot layers\<close>

text \<open>The eight bits of a one-shot layer below 16 and a three-bit state.\<close>

lemma oneshot_data:
  assumes "unat l < 16" and "narrow 3 k"
  shows "signed_drop_bit 3 (push_bit 3 l OR k :: u8) = l" and "(push_bit 3 l OR k :: u8) AND 7 = k"
proof -
  have lb: "bit l n \<Longrightarrow> n < 4" for n using low_bits [of l 4 n] assms(1) by simp
  have kb: "bit k n \<Longrightarrow> n < 3" for n using assms(2) by (simp add: narrow_def)
  show "signed_drop_bit 3 (push_bit 3 l OR k) = l"
    by (rule bit_word_eqI) (auto simp: bit_signed_drop_bit_iff bit_simps dest: lb kb)
  have "(7 :: u8) = mask 3" by (simp add: mask_eq_exp_minus_1)
  moreover have "(push_bit 3 l OR k) AND mask 3 = k"
    by (rule bit_word_eqI) (auto simp: bit_simps dest: kb)
  ultimately show "(push_bit 3 l OR k) AND 7 = k" by simp
qed

lemma oneshot_clear_bits:
  assumes "narrow 3 (k :: u8)"
  shows "(push_bit 3 l OR k) AND NOT j = (push_bit 3 l AND NOT j) OR (k AND NOT j)"
  by (rule bit_word_eqI) (auto simp: bit_simps)

lemma differ_signed: "x \<noteq> (y :: u8) \<Longrightarrow> uint x \<noteq> sint y"
proof
  assume ne: "x \<noteq> y" and "uint x = sint y"
  then have "(of_int (uint x) :: u8) = of_int (sint y)" by (simp only:)
  then show False using ne by simp
qed

lemma push_keeps: "narrow 3 (j :: u8) \<Longrightarrow> push_bit 3 l AND NOT j = push_bit 3 l"
  by (rule bit_word_eqI) (auto simp: bit_simps narrow_def)

lemma narrow_states: "narrow 3 (0 :: u8)" "narrow 3 (1 :: u8)" "narrow 3 (2 :: u8)" "narrow 3 (3 :: u8)"
  by (simp_all add: narrow_iff)

definition oneshot_is :: "u8 \<Rightarrow> u8 \<Rightarrow> 'e kb \<Rightarrow> bool" where
  "oneshot_is l k s \<longleftrightarrow> oneshot_layer_data s = push_bit 3 l OR k \<and> unat l < 16 \<and> narrow 3 k"

lemma oneshot_is_get:
  "oneshot_is l k s \<Longrightarrow> get_oneshot_layer s = l \<and> get_oneshot_layer_state s = k"
  by (simp add: oneshot_is_def get_oneshot_layer_def get_oneshot_layer_state_def oneshot_data)

lemma oneshot_is_clear:
  assumes "oneshot_is l k s" and "narrow 3 j" and "k \<noteq> 0"
  shows "clear_oneshot_layer_state j s =
    (if k AND NOT j = 0 \<and> oneshot_enable_bit (keymap_config s)
     then s\<lparr>oneshot_layer_data := 0, layer_state := layer_state s AND NOT (layer_bit l)\<rparr>
     else s\<lparr>oneshot_layer_data := push_bit 3 l OR (k AND NOT j)\<rparr>)"
proof -
  have k: "narrow 3 k" "unat l < 16" and d: "oneshot_layer_data s = push_bit 3 l OR k"
    using assms(1) by (simp_all add: oneshot_is_def)
  have kj: "narrow 3 (k AND NOT j)" by (rule narrow_and_not [OF k(1)])
  have d': "(push_bit 3 l OR k) AND NOT j = push_bit 3 l OR (k AND NOT j)"
    by (simp add: oneshot_clear_bits [OF k(1)] push_keeps [OF assms(2)])
  let ?d' = "push_bit 3 l OR (k AND NOT j)"
  have dat: "signed_drop_bit 3 ?d' = l" "?d' AND 7 = k AND NOT j" by (simp_all add: oneshot_data k(2) kj)
  have "k AND NOT j = 0 \<Longrightarrow> push_bit 3 l OR k \<noteq> ?d'"
    using oneshot_data(2) [OF k(2,1)] dat(2) assms(3) by metis
  then have sg: "k AND NOT j = 0 \<Longrightarrow> uint (push_bit 3 l OR k) \<noteq> sint ?d'" by (rule differ_signed)
  let ?t = "s\<lparr>oneshot_layer_data := ?d'\<rparr>"
  have t: "is_oneshot_layer_active ?t \<longleftrightarrow> k AND NOT j \<noteq> 0" "get_oneshot_layer ?t = l"
    using dat by (simp_all add: is_oneshot_layer_active_def get_oneshot_layer_state_def get_oneshot_layer_def)
  have "clear_oneshot_layer_state j s =
      (if \<not> is_oneshot_layer_active ?t \<and> uint (push_bit 3 l OR k) \<noteq> sint ?d' \<and> oneshot_enable_bit (keymap_config s)
       then reset_oneshot_layer (layer_off (get_oneshot_layer ?t) ?t) else ?t)"
    by (simp only: clear_oneshot_layer_state_def d d' Let_def) simp
  then show ?thesis
    by (simp only: t) (use sg in \<open>auto simp: reset_oneshot_layer_def layer_off_def layer_state_set_def\<close>)
qed

text \<open>
  Turning one-shot keys off while a one-shot layer waits for its key clears the one-shot state after the
  enabling bit, so the layer is not switched off, and no later event of the one-shot state will do it.
\<close>

theorem oneshot_disable_strands_layer:
  fixes ops :: "'e eeprom_ops" and s :: "'e kb"
  assumes "oneshot_enable_bit (keymap_config s)" and "oneshot_is l 2 s"
  defines "t \<equiv> oneshot_disable ops s"
  shows "layer_state t = layer_state s \<and> \<not> is_oneshot_layer_active t \<and>
    layer_state (clear_oneshot_layer_state k t) = layer_state s"
proof -
  have off: "\<not> oneshot_enable_bit (unset_bit 10 c)" for c by (simp add: oneshot_enable_bit_def bit_simps)
  let ?u = "s\<lparr>keymap_config := unset_bit 10 (keymap_config s),
      eeprom_state := eeconfig_update_keymap ops (unset_bit 10 (keymap_config s)) (eeprom_state s)\<rparr>"
  have u: "oneshot_is l 2 ?u" using assms(2) by (simp add: oneshot_is_def)
  have t: "t = ?u\<lparr>oneshot_layer_data := push_bit 3 l OR 0\<rparr>"
    using assms(1) oneshot_is_clear [OF u narrow_states(3)] off
    by (simp add: t_def oneshot_disable_def oneshot_set_def Let_def ONESHOT_OTHER_KEY_PRESSED_def)
  have "oneshot_is l 0 t" using assms(2) narrow_states(1) by (simp only: oneshot_is_def t) simp
  from oneshot_is_get [OF this] show ?thesis
    by (simp add: is_oneshot_layer_active_def clear_oneshot_layer_state_def Let_def) (simp add: t off)
qed

theorem oneshot_disable_strands_layer_witness:
  "layer_state (oneshot_disable (transient_ops 2048 (\<lambda>b _. b)) ((kb_static (Some (replicate 2048 0)))
     \<lparr>keymap_config := 0x400, oneshot_layer_data := push_bit 3 2 OR 2, layer_state := 4\<rparr>)) = 4"
  using oneshot_disable_strands_layer [of "(kb_static (Some (replicate 2048 0)))
     \<lparr>keymap_config := 0x400, oneshot_layer_data := push_bit 3 2 OR 2, layer_state := 4\<rparr>" 2 "transient_ops 2048 (\<lambda>b _. b)"]
  by (simp add: oneshot_enable_bit_def oneshot_is_def narrow_states)

end
