(* ===== verification/Action_Tapping.thy ===== *)
theory Action_Tapping
  imports Action_Laws Ring_Queue
begin

text \<open>
  quantum/action_tapping.c: the state machine that decides whether a dual-role key is tapped or held.  Its state is
  the key it is deciding on (\<open>tapping_key\<close>) and a ring of records that wait for the decision.  The build
  has a constant tapping term, and neither permissive hold, hold on other key press nor retro tapping, so
  those conditions of the code are false.

  \<open>process_tapping\<close> gets a pointer to a record, which it may change; it returns the changed record here, and
  its caller writes it back when the record is a slot of the waiting buffer.
\<close>

section \<open>State\<close>

definition TAPPING_TERM :: u16 where "TAPPING_TERM = 200"
definition QUICK_TAP_TERM :: u16 where "QUICK_TAP_TERM = TAPPING_TERM"
definition WAITING_BUFFER_SIZE :: nat where "WAITING_BUFFER_SIZE = 8"

record 'e tapping =
  core :: "'e kb"
  tapping_key :: keyrecord
  waiting_buffer :: "keyrecord list"
  waiting_buffer_head :: nat
  waiting_buffer_tail :: nat

definition tapping_static :: "'e kb \<Rightarrow> 'e tapping" where
  "tapping_static s = \<lparr>core = s, tapping_key = no_record, waiting_buffer = replicate WAITING_BUFFER_SIZE no_record,
     waiting_buffer_head = 0, waiting_buffer_tail = 0\<rparr>"

definition KEYEQ :: "keypos \<Rightarrow> keypos \<Rightarrow> bool" where
  "KEYEQ a b \<longleftrightarrow> key_row a = key_row b \<and> key_col a = key_col b"

definition IS_TAPPING :: "'e tapping \<Rightarrow> bool" where
  "IS_TAPPING t \<longleftrightarrow> \<not> IS_NOEVENT (event (tapping_key t))"
definition IS_TAPPING_PRESSED :: "'e tapping \<Rightarrow> bool" where
  "IS_TAPPING_PRESSED t \<longleftrightarrow> IS_TAPPING t \<and> ev_pressed (event (tapping_key t))"
definition IS_TAPPING_RELEASED :: "'e tapping \<Rightarrow> bool" where
  "IS_TAPPING_RELEASED t \<longleftrightarrow> IS_TAPPING t \<and> \<not> ev_pressed (event (tapping_key t))"
definition IS_TAPPING_KEY :: "keypos \<Rightarrow> 'e tapping \<Rightarrow> bool" where
  "IS_TAPPING_KEY k t \<longleftrightarrow> IS_TAPPING t \<and> KEYEQ (ev_key (event (tapping_key t))) k"
definition WITHIN_TAPPING_TERM :: "keyevent \<Rightarrow> 'e tapping \<Rightarrow> bool" where
  "WITHIN_TAPPING_TERM e t \<longleftrightarrow> timer_diff16 (ev_time e) (ev_time (event (tapping_key t))) < TAPPING_TERM"
definition WITHIN_QUICK_TAP_TERM :: "keyevent \<Rightarrow> 'e tapping \<Rightarrow> bool" where
  "WITHIN_QUICK_TAP_TERM e t \<longleftrightarrow> timer_diff16 (ev_time e) (ev_time (event (tapping_key t))) < QUICK_TAP_TERM"

section \<open>The waiting buffer\<close>

definition waiting_buffer_enq :: "keyrecord \<Rightarrow> 'e tapping \<Rightarrow> bool \<times> 'e tapping" where
  "waiting_buffer_enq rec t =
    (if IS_NOEVENT (event rec) then (True, t)
     else if (waiting_buffer_head t + 1) mod WAITING_BUFFER_SIZE = waiting_buffer_tail t then (False, t)
     else (True, t\<lparr>waiting_buffer := (waiting_buffer t)[waiting_buffer_head t := rec],
                  waiting_buffer_head := (waiting_buffer_head t + 1) mod WAITING_BUFFER_SIZE\<rparr>))"

definition waiting_buffer_clear :: "'e tapping \<Rightarrow> 'e tapping" where
  "waiting_buffer_clear t = t\<lparr>waiting_buffer_head := 0, waiting_buffer_tail := 0\<rparr>"

text \<open>The indices of the loops over the buffer, from tail to head.\<close>

definition waiting_indices :: "'e tapping \<Rightarrow> nat list" where
  "waiting_indices t = map (\<lambda>k. (waiting_buffer_tail t + k) mod WAITING_BUFFER_SIZE)
     [0..<ring_len WAITING_BUFFER_SIZE (waiting_buffer_head t) (waiting_buffer_tail t)]"

definition waiting_buffer_typed :: "keyevent \<Rightarrow> 'e tapping \<Rightarrow> bool" where
  "waiting_buffer_typed e t \<longleftrightarrow>
     list_ex (\<lambda>i. KEYEQ (ev_key e) (ev_key (event (waiting_buffer t ! i))) \<and>
                  ev_pressed e \<noteq> ev_pressed (event (waiting_buffer t ! i))) (waiting_indices t)"

definition waiting_buffer_has_anykey_pressed :: "'e tapping \<Rightarrow> bool" where
  "waiting_buffer_has_anykey_pressed t \<longleftrightarrow>
     list_ex (\<lambda>i. ev_pressed (event (waiting_buffer t ! i))) (waiting_indices t)"

text \<open>Processing the tapping key through its pointer.\<close>

definition process_tapping_key :: "'e eeprom_ops \<Rightarrow> 'e hooks \<Rightarrow> 'e tapping \<Rightarrow> 'e tapping" where
  "process_tapping_key ops h t =
    (let (rec, s) = process_record ops h (tapping_key t) (core t) in t\<lparr>tapping_key := rec, core := s\<rparr>)"

definition scan_hit :: "'e tapping \<Rightarrow> nat \<Rightarrow> bool" where
  "scan_hit t i \<longleftrightarrow>
     (let e = event (waiting_buffer t ! i)
      in IS_TAPPING_KEY (ev_key e) t \<and> \<not> ev_pressed e \<and> WITHIN_TAPPING_TERM e t)"

definition waiting_buffer_scan_tap :: "'e eeprom_ops \<Rightarrow> 'e hooks \<Rightarrow> 'e tapping \<Rightarrow> 'e tapping" where
  "waiting_buffer_scan_tap ops h t =
    (if tap_count (tapping_key t) > 0 then t
     else if \<not> ev_pressed (event (tapping_key t)) then t
     else (case find (scan_hit t) (waiting_indices t) of
             None \<Rightarrow> t
           | Some i \<Rightarrow> process_tapping_key ops h
               (t\<lparr>tapping_key := (tapping_key t)\<lparr>tap_count := 1\<rparr>,
                  waiting_buffer := (waiting_buffer t)[i := (waiting_buffer t ! i)\<lparr>tap_count := 1\<rparr>]\<rparr>)))"

section \<open>process_tapping\<close>

definition process_keyp :: "'e eeprom_ops \<Rightarrow> 'e hooks \<Rightarrow> keyrecord \<Rightarrow> 'e tapping \<Rightarrow> keyrecord \<times> 'e tapping" where
  "process_keyp ops h keyp t = (let (rec, s) = process_record ops h keyp (core t) in (rec, t\<lparr>core := s\<rparr>))"

definition is_tap_keyp :: "'e eeprom_ops \<Rightarrow> keyrecord \<Rightarrow> 'e tapping \<Rightarrow> bool \<times> 'e tapping" where
  "is_tap_keyp ops keyp t = (let (b, s) = is_tap_record ops keyp (core t) in (b, t\<lparr>core := s\<rparr>))"

text \<open>The release of a key pressed before the tapping started is kept back if it holds a modifier or a layer.\<close>

definition retained_action :: "action_t \<Rightarrow> keyrecord \<Rightarrow> bool" where
  "retained_action a keyp =
    (if kind_id a = ACT_LMODS \<or> kind_id a = ACT_RMODS then
       (key_mods a \<noteq> 0 \<and> key_code a = 0) \<or> IS_MODIFIER_KEYCODE (action_code a)
     else if kind_id a = ACT_LMODS_TAP \<or> kind_id a = ACT_RMODS_TAP then
       (key_mods a \<noteq> 0 \<and> tap_count keyp = 0) \<or> IS_MODIFIER_KEYCODE (action_code a)
     else if kind_id a = ACT_LAYER_TAP \<or> kind_id a = ACT_LAYER_TAP_EXT then
       layer_tap_code a < OP_TAP_TOGGLE \<or> layer_tap_code a \<in> {OP_ON_OFF, OP_OFF_ON, OP_SET_CLEAR}
     else False)"

text \<open>Within the tapping term of a pressed tapping key that is not settled.\<close>

definition tapping_unsettled :: "'e eeprom_ops \<Rightarrow> 'e hooks \<Rightarrow> keyrecord \<Rightarrow> 'e tapping \<Rightarrow> bool \<times> keyrecord \<times> 'e tapping" where
  "tapping_unsettled ops h keyp t =
    (let e = event keyp in
     if IS_TAPPING_KEY (ev_key e) t \<and> \<not> ev_pressed e then
       (let t = process_tapping_key ops h (t\<lparr>tapping_key := (tapping_key t)\<lparr>tap_count := 1\<rparr>\<rparr>)
        in (False, keyp\<lparr>tap_count := tap_count (tapping_key t), tap_interrupted := tap_interrupted (tapping_key t)\<rparr>, t))
     else if \<not> IS_NOEVENT e \<and> \<not> ev_pressed e \<and> \<not> waiting_buffer_typed e t then
       (let (a, s) = layer_switch_get_action ops (ev_key e) (core t); t = t\<lparr>core := s\<rparr>
        in if retained_action a keyp then (False, keyp, t)
           else let (keyp, t) = process_keyp ops h keyp t in (True, keyp, t))
     else if ev_pressed e then (False, keyp, t\<lparr>tapping_key := (tapping_key t)\<lparr>tap_interrupted := True\<rparr>\<rparr>)
     else (False, keyp, t))"

text \<open>A settled tapping key, in the term (the tapping key stays) or after it (it is forgotten).\<close>

definition tapping_settled ::
  "'e eeprom_ops \<Rightarrow> 'e hooks \<Rightarrow> bool \<Rightarrow> keyrecord \<Rightarrow> 'e tapping \<Rightarrow> bool \<times> keyrecord \<times> 'e tapping" where
  "tapping_settled ops h within_term keyp t =
    (let e = event keyp in
     if IS_TAPPING_KEY (ev_key e) t \<and> \<not> ev_pressed e then
       (let keyp = keyp\<lparr>tap_count := tap_count (tapping_key t), tap_interrupted := tap_interrupted (tapping_key t)\<rparr>;
            (keyp, t) = process_keyp ops h keyp t
        in (True, keyp, t\<lparr>tapping_key := (if within_term then keyp else no_record)\<rparr>))
     else
       (let (tap, t) = is_tap_keyp ops keyp t in
        if tap \<and> ev_pressed e then
          (let t = (if tap_count (tapping_key t) > 1
                    then snd (process_keyp ops h
                           ((tapping_key t)\<lparr>event := \<lparr>ev_key = ev_key (event (tapping_key t)), ev_pressed = False, ev_time = ev_time e\<rparr>\<rparr>) t)
                    else t)
           in (True, keyp, waiting_buffer_scan_tap ops h (t\<lparr>tapping_key := keyp\<rparr>)))
        else let (keyp, t) = process_keyp ops h keyp t in (True, keyp, t)))"

text \<open>Within the term after the release of the tapping key.\<close>

definition tapping_released :: "'e eeprom_ops \<Rightarrow> 'e hooks \<Rightarrow> keyrecord \<Rightarrow> 'e tapping \<Rightarrow> bool \<times> keyrecord \<times> 'e tapping" where
  "tapping_released ops h keyp t =
    (let e = event keyp in
     if ev_pressed e then
       (if IS_TAPPING_KEY (ev_key e) t then
          (if WITHIN_QUICK_TAP_TERM e t \<and> \<not> tap_interrupted (tapping_key t) \<and> tap_count (tapping_key t) > 0 then
             (let keyp = keyp\<lparr>tap_count := tap_count (tapping_key t), tap_interrupted := tap_interrupted (tapping_key t)\<rparr>;
                  keyp = (if tap_count keyp < 15 then keyp\<lparr>tap_count := tap_count keyp + 1\<rparr> else keyp);
                  (keyp, t) = process_keyp ops h keyp t
              in (True, keyp, t\<lparr>tapping_key := keyp\<rparr>))
           else (True, keyp, t\<lparr>tapping_key := keyp\<rparr>))
        else
          (let (tap, t) = is_tap_keyp ops keyp t in
           if tap then (True, keyp, waiting_buffer_scan_tap ops h (t\<lparr>tapping_key := keyp\<rparr>))
           else let (keyp, t) = process_keyp ops h keyp (t\<lparr>tapping_key := (tapping_key t)\<lparr>tap_interrupted := True\<rparr>\<rparr>)
                in (True, keyp, t)))
     else let (keyp, t) = process_keyp ops h keyp t in (True, keyp, t))"

text \<open>No tapping key.\<close>

definition not_tapping :: "'e eeprom_ops \<Rightarrow> 'e hooks \<Rightarrow> keyrecord \<Rightarrow> 'e tapping \<Rightarrow> bool \<times> keyrecord \<times> 'e tapping" where
  "not_tapping ops h keyp t =
    (let (tap, t) = (if ev_pressed (event keyp) then is_tap_keyp ops keyp t else (False, t)) in
     if ev_pressed (event keyp) \<and> tap then
       (let t = t\<lparr>tapping_key := keyp\<rparr>; t = t\<lparr>core := process_record_tap_hint ops keyp (core t)\<rparr>
        in (True, keyp, waiting_buffer_scan_tap ops h t))
     else let (keyp, t) = process_keyp ops h keyp t in (True, keyp, t))"

definition process_tapping :: "'e eeprom_ops \<Rightarrow> 'e hooks \<Rightarrow> keyrecord \<Rightarrow> 'e tapping \<Rightarrow> bool \<times> keyrecord \<times> 'e tapping" where
  "process_tapping ops h keyp t =
    (if IS_TAPPING_PRESSED t then
       (if WITHIN_TAPPING_TERM (event keyp) t then
          (if tap_count (tapping_key t) = 0 then tapping_unsettled ops h keyp t else tapping_settled ops h True keyp t)
        else if tap_count (tapping_key t) = 0 then
          (False, keyp, (process_tapping_key ops h t)\<lparr>tapping_key := no_record\<rparr>)
        else tapping_settled ops h False keyp t)
     else if IS_TAPPING_RELEASED t then
       (if WITHIN_TAPPING_TERM (event keyp) t then tapping_released ops h keyp t
        else (False, keyp, t\<lparr>tapping_key := no_record\<rparr>))
     else not_tapping ops h keyp t)"

section \<open>action_tapping_process\<close>

text \<open>The drain loop runs at most once per slot; the fuel is the number of slots.\<close>

fun drain :: "nat \<Rightarrow> 'e eeprom_ops \<Rightarrow> 'e hooks \<Rightarrow> 'e tapping \<Rightarrow> 'e tapping" where
  "drain 0 ops h t = t"
| "drain (Suc n) ops h t =
    (if waiting_buffer_tail t = waiting_buffer_head t then t
     else let i = waiting_buffer_tail t;
              (done, keyp, t) = process_tapping ops h (waiting_buffer t ! i) t;
              t = t\<lparr>waiting_buffer := (waiting_buffer t)[i := keyp]\<rparr>
          in if done then drain n ops h (t\<lparr>waiting_buffer_tail := (waiting_buffer_tail t + 1) mod WAITING_BUFFER_SIZE\<rparr>)
             else t)"

definition action_tapping_process :: "'e eeprom_ops \<Rightarrow> 'e hooks \<Rightarrow> keyrecord \<Rightarrow> 'e tapping \<Rightarrow> 'e tapping" where
  "action_tapping_process ops h rec t =
    (let (done, rec, t) = process_tapping ops h rec t;
         t = (if done then t
              else let (ok, t) = waiting_buffer_enq rec t
                   in if ok then t
                      else (waiting_buffer_clear (t\<lparr>core := clear_keyboard (core t)\<rparr>))\<lparr>tapping_key := no_record\<rparr>)
     in drain WAITING_BUFFER_SIZE ops h t)"

text \<open>action.c: the entry of the key processing.\<close>

definition action_exec :: "'e eeprom_ops \<Rightarrow> 'e hooks \<Rightarrow> keyevent \<Rightarrow> 'e tapping \<Rightarrow> 'e tapping" where
  "action_exec ops h e t =
    (let t = (if ev_pressed e then t\<lparr>core := clear_weak_mods (core t)\<rparr> else t);
         rec = \<lparr>event = e, tap_count = 0, tap_interrupted = False\<rparr>
     in if IS_NOEVENT e then action_tapping_process ops h rec t
        else let (go, s) = pre_process_record_quantum h rec (core t); t = t\<lparr>core := s\<rparr>
             in if go then action_tapping_process ops h rec t else t)"

end
