(* ===== verification/Tapping_Laws.thy ===== *)
theory Tapping_Laws
  imports Action_Tapping
begin

text \<open>
  What the tapping state machine guarantees: its waiting buffer stays a well-formed ring and the drain loop ends,
  and the decision between tap and hold, with the order in which the waiting keys are processed after it.
\<close>

section \<open>The waiting buffer and the drain loop\<close>

lemmas tapping_parts = process_tapping_key_def process_keyp_def is_tap_keyp_def Let_def split_def

definition same_ring :: "'e tapping \<Rightarrow> 'e tapping \<Rightarrow> bool" where
  "same_ring t t' \<longleftrightarrow> waiting_buffer_head t' = waiting_buffer_head t \<and> waiting_buffer_tail t' = waiting_buffer_tail t \<and>
     length (waiting_buffer t') = length (waiting_buffer t)"

lemma same_ring_refl [simp]: "same_ring t t" by (simp add: same_ring_def)

lemma same_ring_simps [simp]:
  "same_ring t (t'\<lparr>core := s\<rparr>) = same_ring t t'"
  "same_ring t (t'\<lparr>tapping_key := k\<rparr>) = same_ring t t'"
  "same_ring t (t'\<lparr>waiting_buffer := (waiting_buffer t')[i := x]\<rparr>) = same_ring t t'"
  "same_ring (t\<lparr>core := s\<rparr>) t' = same_ring t t'"
  "same_ring (t\<lparr>tapping_key := k\<rparr>) t' = same_ring t t'"
  by (simp_all add: same_ring_def)

lemma same_ring_key [simp]: "same_ring t (process_tapping_key ops h t') = same_ring t t'"
  by (simp add: process_tapping_key_def split_def Let_def)

lemma same_ring_scan [simp]: "same_ring t (waiting_buffer_scan_tap ops h t') = same_ring t t'"
  by (simp add: waiting_buffer_scan_tap_def same_ring_def process_tapping_key_def split_def Let_def split: option.splits)

lemma process_tapping_ring: "same_ring t (snd (snd (process_tapping ops h keyp t)))"
  by (simp add: process_tapping_def tapping_unsettled_def tapping_settled_def tapping_released_def not_tapping_def tapping_parts
    del: split_paired_All)

definition tapping_ok :: "'e tapping \<Rightarrow> bool" where
  "tapping_ok t \<longleftrightarrow> ring_ok WAITING_BUFFER_SIZE (waiting_buffer t) (waiting_buffer_head t) (waiting_buffer_tail t)"

lemma tapping_ok_same: "same_ring t t' \<Longrightarrow> tapping_ok t' = tapping_ok t"
  by (simp add: tapping_ok_def ring_ok_def same_ring_def)

lemma tapping_ok_process [inv_intros]: "tapping_ok t \<Longrightarrow> tapping_ok (snd (snd (process_tapping ops h keyp t)))"
  using tapping_ok_same [OF process_tapping_ring [of t ops h keyp]] by simp

definition waiting :: "'e tapping \<Rightarrow> nat" where
  "waiting t = ring_len WAITING_BUFFER_SIZE (waiting_buffer_head t) (waiting_buffer_tail t)"

lemma drain_step:
  assumes "tapping_ok t" and "waiting_buffer_tail t \<noteq> waiting_buffer_head t"
  obtains keyp t' where "process_tapping ops h (waiting_buffer t ! waiting_buffer_tail t) t =
      (fst (process_tapping ops h (waiting_buffer t ! waiting_buffer_tail t) t), keyp, t')"
    "same_ring t t'"
    "tapping_ok (t'\<lparr>waiting_buffer := (waiting_buffer t')[waiting_buffer_tail t := keyp],
        waiting_buffer_tail := (waiting_buffer_tail t' + 1) mod WAITING_BUFFER_SIZE\<rparr>)"
    "Suc (waiting (t'\<lparr>waiting_buffer := (waiting_buffer t')[waiting_buffer_tail t := keyp],
        waiting_buffer_tail := (waiting_buffer_tail t' + 1) mod WAITING_BUFFER_SIZE\<rparr>)) = waiting t"
proof -
  let ?p = "process_tapping ops h (waiting_buffer t ! waiting_buffer_tail t) t"
  have ring: "same_ring t (snd (snd ?p))" by (rule process_tapping_ring)
  have "tapping_ok (snd (snd ?p))" using tapping_ok_same [OF ring] assms(1) by simp
  then show thesis
    using ring assms ring_len_deq [of "waiting_buffer_head t" 8 "waiting_buffer_tail t"]
    by (intro that [of "fst (snd ?p)" "snd (snd ?p)"])
      (auto simp: same_ring_def tapping_ok_def ring_ok_def waiting_def WAITING_BUFFER_SIZE_def)
qed

lemma waiting_less: "tapping_ok t \<Longrightarrow> waiting t < WAITING_BUFFER_SIZE"
  by (simp add: tapping_ok_def ring_ok_def waiting_def ring_len_bound)

lemma tapping_ok_enq [inv_intros]: "tapping_ok t \<Longrightarrow> tapping_ok (snd (waiting_buffer_enq rec t))"
  by (auto simp: waiting_buffer_enq_def tapping_ok_def ring_ok_def WAITING_BUFFER_SIZE_def)

lemma tapping_ok_clear: "tapping_ok t \<Longrightarrow> tapping_ok ((waiting_buffer_clear (t\<lparr>core := s\<rparr>))\<lparr>tapping_key := k\<rparr>)"
  by (auto simp: waiting_buffer_clear_def tapping_ok_def ring_ok_def WAITING_BUFFER_SIZE_def)

lemma empty_ring: "tapping_ok t \<Longrightarrow> waiting t = 0 \<longleftrightarrow> waiting_buffer_head t = waiting_buffer_tail t"
  by (simp add: tapping_ok_def ring_ok_def waiting_def ring_empty_iff)

section \<open>The events in the buffer, and the loop of the code\<close>

text \<open>The records that wait, oldest first; no step changes which events they are.\<close>

lemma event_update: "event x = event (b ! i) \<Longrightarrow> map event (b[i := x]) = map event (b :: keyrecord list)"
  by (cases "i < length b") (simp_all add: map_update list_update_same_conv list_update_beyond)

lemma process_tapping_slots:
  "map event (waiting_buffer (snd (snd (process_tapping ops h keyp t)))) = map event (waiting_buffer t)"
proof -
  have upd': "event x = event (b ! i) \<Longrightarrow> map event (b[i := x]) = map event b" for b :: "keyrecord list" and i x
    by (rule event_update)
  have scan: "map event (waiting_buffer (waiting_buffer_scan_tap ops h u)) = map event (waiting_buffer u)" for u :: "'a tapping"
    by (simp add: waiting_buffer_scan_tap_def process_tapping_key_def split_def Let_def upd' split: option.splits)
  show ?thesis
    by (simp add: process_tapping_def tapping_unsettled_def tapping_settled_def tapping_released_def not_tapping_def tapping_parts scan
      del: split_paired_All)
qed

text \<open>A record that is kept back is the same event.\<close>

lemma tapping_taken:
  "fst (tapping_settled ops h w keyp t)" "fst (tapping_released ops h keyp t)" "fst (not_tapping ops h keyp t)"
  by (simp_all add: tapping_settled_def tapping_released_def not_tapping_def Let_def split_def)

lemma unsettled_kept:
  "\<not> fst (tapping_unsettled ops h keyp t) \<Longrightarrow> event (fst (snd (tapping_unsettled ops h keyp t))) = event keyp"
  by (auto simp: tapping_unsettled_def Let_def split_def split: if_split_asm)

lemma process_tapping_kept:
  "\<not> fst (process_tapping ops h keyp t) \<Longrightarrow> event (fst (snd (process_tapping ops h keyp t))) = event keyp"
  by (simp add: process_tapping_def tapping_taken unsettled_kept split: if_split_asm)

definition queue :: "'e tapping \<Rightarrow> keyrecord list" where
  "queue t = ring_list (waiting_buffer t) (waiting_buffer_head t) (waiting_buffer_tail t)"

definition waiting_events :: "'e tapping \<Rightarrow> keyevent list" where "waiting_events t = map event (queue t)"

lemma ring_list_map: "length b > 0 \<Longrightarrow> map f (ring_list b h t) = ring_list (map f b) h t"
  by (simp add: ring_list_def)

lemma waiting_events_slots: "tapping_ok t \<Longrightarrow> waiting_events t =
    ring_list (map event (waiting_buffer t)) (waiting_buffer_head t) (waiting_buffer_tail t)"
  by (simp add: waiting_events_def queue_def tapping_ok_def ring_ok_def ring_list_map WAITING_BUFFER_SIZE_def)

lemma waiting_events_process: "tapping_ok t \<Longrightarrow> waiting_events (snd (snd (process_tapping ops h keyp t))) = waiting_events t"
  using process_tapping_ring [of t ops h keyp] process_tapping_slots [of ops h keyp t]
  by (simp add: waiting_events_slots tapping_ok_process) (simp add: same_ring_def)

lemma waiting_events_write:
  assumes "tapping_ok t" and "event r = event (waiting_buffer t ! i)"
  shows "waiting_events (t\<lparr>waiting_buffer := (waiting_buffer t)[i := r]\<rparr>) = waiting_events t"
proof -
  have "map event ((waiting_buffer t)[i := r]) = map event (waiting_buffer t)"
    using assms(2) by (rule event_update)
  moreover have "tapping_ok (t\<lparr>waiting_buffer := (waiting_buffer t)[i := r]\<rparr>)" using assms(1)
    by (simp add: tapping_ok_def ring_ok_def)
  ultimately show ?thesis using assms(1) by (simp add: waiting_events_slots)
qed

text \<open>The loop of \<open>action_tapping_process\<close> with the events it takes off the buffer.\<close>

inductive drain_loop :: "'e eeprom_ops \<Rightarrow> 'e hooks \<Rightarrow> 'e tapping \<Rightarrow> keyevent list \<Rightarrow> 'e tapping \<Rightarrow> bool"
  for ops :: "'e eeprom_ops" and h :: "'e hooks" where
  empty: "waiting_buffer_tail t = waiting_buffer_head t \<Longrightarrow> drain_loop ops h t [] t"
| kept: "waiting_buffer_tail t \<noteq> waiting_buffer_head t \<Longrightarrow>
    process_tapping ops h (waiting_buffer t ! waiting_buffer_tail t) t = (False, r, u) \<Longrightarrow>
    drain_loop ops h t [] (u\<lparr>waiting_buffer := (waiting_buffer u)[waiting_buffer_tail t := r]\<rparr>)"
| taken: "waiting_buffer_tail t \<noteq> waiting_buffer_head t \<Longrightarrow>
    process_tapping ops h (waiting_buffer t ! waiting_buffer_tail t) t = (True, r, u) \<Longrightarrow>
    drain_loop ops h (u\<lparr>waiting_buffer := (waiting_buffer u)[waiting_buffer_tail t := r],
        waiting_buffer_tail := (waiting_buffer_tail u + 1) mod WAITING_BUFFER_SIZE\<rparr>) es v \<Longrightarrow>
    drain_loop ops h t (event (waiting_buffer t ! waiting_buffer_tail t) # es) v"

lemma drain_is_loop:
  "tapping_ok t \<Longrightarrow> waiting t \<le> n \<Longrightarrow> \<exists>es. drain_loop ops h t es (drain n ops h t)"
proof (induction n arbitrary: t)
  case 0
  then show ?case using empty_ring [of t] by (auto intro!: exI drain_loop.empty)
next
  case (Suc n)
  show ?case
  proof (cases "waiting_buffer_tail t = waiting_buffer_head t")
    case True
    then show ?thesis by (auto intro: drain_loop.empty)
  next
    case False
    let ?p = "process_tapping ops h (waiting_buffer t ! waiting_buffer_tail t) t"
    obtain r u where p: "?p = (fst ?p, r, u)"
      and ok: "tapping_ok (u\<lparr>waiting_buffer := (waiting_buffer u)[waiting_buffer_tail t := r],
          waiting_buffer_tail := (waiting_buffer_tail u + 1) mod WAITING_BUFFER_SIZE\<rparr>)"
      and less: "Suc (waiting (u\<lparr>waiting_buffer := (waiting_buffer u)[waiting_buffer_tail t := r],
          waiting_buffer_tail := (waiting_buffer_tail u + 1) mod WAITING_BUFFER_SIZE\<rparr>)) = waiting t"
      by (rule drain_step [OF Suc.prems(1) False, of ops h])
    show ?thesis
    proof (cases "fst ?p")
      case True
      then have p: "?p = (True, r, u)" using p by simp
      show ?thesis using Suc.IH [OF ok] drain_loop.taken [OF False p] less Suc.prems(2) False p by auto
    next
      case stuck: False
      then have p: "?p = (False, r, u)" using p by simp
      then show ?thesis using drain_loop.kept [OF False p] False by auto
    qed
  qed
qed

lemma ring_deq_write:
  assumes "ring_ok n b h t" and "t \<noteq> h"
  shows "ring_list (b[t := x]) h ((t + 1) mod n) = ring_list b h ((t + 1) mod n)"
proof -
  have len: "length b = n" "h < n" "t < n" using assms(1) by (auto simp: ring_ok_def)
  have "((t + 1) mod n + i) mod n \<noteq> t" if "i < ring_len n h ((t + 1) mod n)" for i
  proof
    assume eq: "((t + 1) mod n + i) mod n = t"
    have "Suc (ring_len n h ((t + 1) mod n)) < n"
      using ring_len_deq [OF len(2,3)] ring_len_bound [OF len(2,3)] assms(2) by simp
    then have i: "i + 1 < n" using that by simp
    show False
    proof (cases "t + 1 + i < n")
      case True
      then show False using eq len(3) by simp
    next
      case False
      then have "(t + 1 + i) mod n = t + 1 + i - n" using len(3) i by (simp add: le_mod_geq)
      moreover have "(t + 1 + i) mod n = t" using eq by (simp add: mod_simps)
      ultimately show False using i False by simp
    qed
  qed
  then have "b[t := x] ! (((t + 1) mod n + i) mod n) = b ! (((t + 1) mod n + i) mod n)" if "i < ring_len n h ((t + 1) mod n)" for i
    using that by (metis nth_list_update_neq)
  then show ?thesis using len by (simp add: ring_list_def)
qed

lemma queue_Cons:
  assumes "tapping_ok t" and "waiting_buffer_tail t \<noteq> waiting_buffer_head t"
  shows "queue t = waiting_buffer t ! waiting_buffer_tail t #
    queue (t\<lparr>waiting_buffer_tail := (waiting_buffer_tail t + 1) mod WAITING_BUFFER_SIZE\<rparr>)"
  using ring_deq [of WAITING_BUFFER_SIZE "waiting_buffer t" "waiting_buffer_head t" "waiting_buffer_tail t"] assms
  by (auto simp: queue_def tapping_ok_def ring_ok_def)

lemma drain_loop_events:
  "drain_loop ops h t es v \<Longrightarrow> tapping_ok t \<Longrightarrow> tapping_ok v \<and> waiting_events t = es @ waiting_events v"
proof (induction rule: drain_loop.induct)
  case (empty t)
  then show ?case by simp
next
  case (kept t r u)
  have u: "tapping_ok u" "waiting_events u = waiting_events t" "map event (waiting_buffer u) = map event (waiting_buffer t)"
    using tapping_ok_process [OF kept(3), of ops h] waiting_events_process [OF kept(3), of ops h]
      process_tapping_slots [of ops h "waiting_buffer t ! waiting_buffer_tail t" t]
    by (metis kept(2) snd_conv)+
  have "waiting_buffer_tail t < length (waiting_buffer t)" "length (waiting_buffer u) = length (waiting_buffer t)"
    using kept(3) u(1) by (auto simp: tapping_ok_def ring_ok_def)
  then have "event r = event (waiting_buffer u ! waiting_buffer_tail t)"
    using process_tapping_kept [of ops h "waiting_buffer t ! waiting_buffer_tail t" t] kept(2) u(3)
    by simp (metis nth_map)
  from waiting_events_write [OF u(1) this] u(1,2) show ?case
    by (simp add: tapping_ok_def ring_ok_def)
next
  case (taken t r u es v)
  have ring: "same_ring t u" and u: "tapping_ok u" "waiting_events u = waiting_events t" "map event (waiting_buffer u) = map event (waiting_buffer t)"
    using tapping_ok_process [OF taken(5), of ops h] waiting_events_process [OF taken(5), of ops h]
      process_tapping_slots [of ops h "waiting_buffer t ! waiting_buffer_tail t" t]
      process_tapping_ring [of t ops h "waiting_buffer t ! waiting_buffer_tail t"]
    by (metis taken(2) snd_conv)+
  let ?d = "u\<lparr>waiting_buffer := (waiting_buffer u)[waiting_buffer_tail t := r],
        waiting_buffer_tail := (waiting_buffer_tail u + 1) mod WAITING_BUFFER_SIZE\<rparr>"
  have d: "tapping_ok ?d" using u(1) by (auto simp: tapping_ok_def ring_ok_def WAITING_BUFFER_SIZE_def)
  have ne: "waiting_buffer_tail u = waiting_buffer_tail t" "waiting_buffer_tail u \<noteq> waiting_buffer_head u"
    using ring taken(1) by (simp_all add: same_ring_def)
  have ok: "ring_ok WAITING_BUFFER_SIZE (waiting_buffer u) (waiting_buffer_head u) (waiting_buffer_tail u)"
    using u(1) by (simp add: tapping_ok_def)
  have "waiting_buffer_tail t < length (waiting_buffer t)" using taken(5) by (auto simp: tapping_ok_def ring_ok_def)
  then have first: "event (waiting_buffer u ! waiting_buffer_tail u) = event (waiting_buffer t ! waiting_buffer_tail t)"
    using u(3) ne(1) by (metis length_map nth_map)
  have "queue ?d = queue (u\<lparr>waiting_buffer_tail := (waiting_buffer_tail u + 1) mod WAITING_BUFFER_SIZE\<rparr>)"
    using ring_deq_write [OF ok, of r] ne by (simp add: queue_def)
  then have "waiting_events u = event (waiting_buffer u ! waiting_buffer_tail u) # waiting_events ?d"
    using queue_Cons [OF u(1) ne(2)] by (simp add: waiting_events_def)
  then show ?case using taken(4) [OF d] u(2) first by simp
qed

text \<open>The state in which the loop starts: the new record is processed, or waits, or everything is given up.\<close>

definition admitted :: "'e eeprom_ops \<Rightarrow> 'e hooks \<Rightarrow> keyrecord \<Rightarrow> 'e tapping \<Rightarrow> 'e tapping" where
  "admitted ops h rec t =
    (let (done, rec, t) = process_tapping ops h rec t
     in if done then t
        else let (ok, t) = waiting_buffer_enq rec t
             in if ok then t else (waiting_buffer_clear (t\<lparr>core := clear_keyboard (core t)\<rparr>))\<lparr>tapping_key := no_record\<rparr>)"

lemma process_admitted: "action_tapping_process ops h rec t = drain WAITING_BUFFER_SIZE ops h (admitted ops h rec t)"
  by (simp add: action_tapping_process_def admitted_def split_def Let_def)

lemma queue_enq:
  assumes "tapping_ok t" and "\<not> IS_NOEVENT (event rec)" and "length (queue t) < 7"
  shows "\<exists>t'. waiting_buffer_enq rec t = (True, t') \<and> tapping_ok t' \<and> queue t' = queue t @ [rec] \<and>
    core t' = core t \<and> tapping_key t' = tapping_key t"
proof -
  have ok: "ring_ok WAITING_BUFFER_SIZE (waiting_buffer t) (waiting_buffer_head t) (waiting_buffer_tail t)"
    using assms(1) by (simp add: tapping_ok_def)
  then have ix: "waiting_buffer_head t < 8" "waiting_buffer_tail t < 8" "length (waiting_buffer t) = 8"
    by (auto simp: ring_ok_def WAITING_BUFFER_SIZE_def)
  have room: "(waiting_buffer_head t + 1) mod WAITING_BUFFER_SIZE \<noteq> waiting_buffer_tail t"
    using ring_full_iff [OF ix(1,2)] assms(3) ix(3) by (simp add: queue_def WAITING_BUFFER_SIZE_def)
  show ?thesis using ring_enq [OF ok room, of rec] ring_ok_enq [OF ok, of rec] assms(2) room
    by (simp add: waiting_buffer_enq_def queue_def tapping_ok_def)
qed

lemma queue_full:
  assumes "tapping_ok t" and "\<not> IS_NOEVENT (event rec)" and "length (queue t) = 7"
  shows "waiting_buffer_enq rec t = (False, t)"
proof -
  have "ring_ok WAITING_BUFFER_SIZE (waiting_buffer t) (waiting_buffer_head t) (waiting_buffer_tail t)"
    using assms(1) by (simp add: tapping_ok_def)
  then show ?thesis using ring_full_iff [of "waiting_buffer_head t" 8 "waiting_buffer_tail t"] assms(2,3)
    by (auto simp: waiting_buffer_enq_def queue_def ring_ok_def WAITING_BUFFER_SIZE_def)
qed

lemma queue_waiting: "tapping_ok t \<Longrightarrow> length (queue t) = waiting t" and queue_bound: "tapping_ok t \<Longrightarrow> length (queue t) \<le> 7"
  using waiting_less [of t] by (auto simp: queue_def waiting_def tapping_ok_def ring_ok_def WAITING_BUFFER_SIZE_def)

lemma queue_cleared: "queue ((waiting_buffer_clear t)\<lparr>tapping_key := k\<rparr>) = []"
  by (simp add: queue_def waiting_buffer_clear_def ring_list_def ring_len_def)

lemma admitted_ok:
  assumes "tapping_ok t"
  shows "tapping_ok (admitted ops h rec t)"
    and "waiting_events (admitted ops h rec t) =
      (if fst (process_tapping ops h rec t) \<or> IS_NOEVENT (event rec) then waiting_events t
       else if waiting t = 7 then [] else waiting_events t @ [event rec])"
proof -
  obtain d r u where p: "process_tapping ops h rec t = (d, r, u)" by (metis surj_pair)
  have u: "tapping_ok u" "waiting_events u = waiting_events t" "d \<or> event r = event rec"
    using tapping_ok_process [OF assms, of ops h rec] waiting_events_process [OF assms, of ops h rec] process_tapping_kept [of ops h rec t] p
    by auto
  have len: "length (queue u) = waiting t"
    using arg_cong [OF u(2), of length] queue_waiting [OF assms] by (simp add: waiting_events_def)
  have "tapping_ok (snd (waiting_buffer_enq r u))" by (rule tapping_ok_enq [OF u(1)])
  moreover have "\<not> fst (waiting_buffer_enq r u) \<Longrightarrow> snd (waiting_buffer_enq r u) = u"
    by (simp add: waiting_buffer_enq_def split: if_splits)
  ultimately show "tapping_ok (admitted ops h rec t)"
    using u(1) tapping_ok_clear [OF u(1)] by (auto simp: admitted_def p split_def Let_def)
  show "waiting_events (admitted ops h rec t) =
      (if fst (process_tapping ops h rec t) \<or> IS_NOEVENT (event rec) then waiting_events t
       else if waiting t = 7 then [] else waiting_events t @ [event rec])"
  proof (cases "d \<or> IS_NOEVENT (event rec)")
    case True
    then show ?thesis using u by (auto simp: admitted_def p waiting_buffer_enq_def)
  next
    case False
    then have r: "\<not> IS_NOEVENT (event r)" "event r = event rec" using u(3) by auto
    show ?thesis
    proof (cases "waiting t = 7")
      case True
      then show ?thesis using queue_full [OF u(1) r(1)] len False
        by (simp add: admitted_def p waiting_events_def queue_cleared)
    next
      case room: False
      then have "length (queue u) < 7" using queue_bound [OF u(1)] len by simp
      from queue_enq [OF u(1) r(1) this] obtain u' where "waiting_buffer_enq r u = (True, u')" "queue u' = queue u @ [r]" by auto
      then show ?thesis using room False r(2) u(2) by (simp add: admitted_def p waiting_events_def)
    qed
  qed
qed

text \<open>
  C22.  The waiting buffer stays a well-formed ring through every event.  A record that is not processed at once
  joins its end (when it is full everything is given up), and the model's drain loop, with its eight rounds, is the
  loop of the code, which ends: it takes events off the front in their order, each one processed, until the buffer
  is empty or the oldest event has to wait, and what still waits afterwards is the rest, none lost and none reordered.
\<close>

theorem action_exec_ring:
  fixes ops :: "'e eeprom_ops" and h :: "'e hooks" and t :: "'e tapping" and rec :: keyrecord
  assumes "tapping_ok t"
  defines "u \<equiv> admitted ops h rec t" and "v \<equiv> action_tapping_process ops h rec t"
  shows "tapping_ok (action_exec ops h e t) \<and>
    waiting_events u =
      (if fst (process_tapping ops h rec t) \<or> IS_NOEVENT (event rec) then waiting_events t
       else if waiting t = 7 then [] else waiting_events t @ [event rec]) \<and>
    (\<exists>es. drain_loop ops h u es v \<and> waiting_events u = es @ waiting_events v)"
proof -
  have ok: "tapping_ok s \<Longrightarrow> \<exists>es. drain_loop ops h (admitted ops h r s) es (action_tapping_process ops h r s)" for r s
    unfolding process_admitted by (intro drain_is_loop admitted_ok(1) less_imp_le [OF waiting_less])
  have run: "tapping_ok s \<Longrightarrow> tapping_ok (action_tapping_process ops h r s)" for r s
    using ok [of s r] drain_loop_events admitted_ok(1) [of s ops h r] by blast
  have "tapping_ok (t\<lparr>core := c\<rparr>)" for c using assms(1) by (simp add: tapping_ok_def)
  then have "tapping_ok (action_exec ops h e t)" using assms(1) by (simp add: action_exec_def Let_def split_def run)
  then show ?thesis
    using ok [OF assms(1), of rec] drain_loop_events admitted_ok [OF assms(1), of ops h rec] unfolding u_def v_def by blast
qed


section \<open>Tap or hold\<close>

definition idle :: "'e tapping \<Rightarrow> bool" where
  "idle t \<longleftrightarrow> \<not> IS_TAPPING t \<and> tapping_ok t \<and> waiting t = 0"

definition plain :: "keyevent \<Rightarrow> u8 \<Rightarrow> keyrecord" where
  "plain e n = \<lparr>event = e, tap_count = n, tap_interrupted = False\<rparr>"

text \<open>A hook that looks at every record and stops none, as the keyboard has it unless a keymap says otherwise.\<close>

definition passive_hooks :: "'e hooks \<Rightarrow> bool" where
  "passive_hooks h \<longleftrightarrow> (\<forall>rec s. pre_process_record_quantum h rec s = (True, s))"

lemma idle_empty: "idle t \<Longrightarrow> waiting_buffer_tail t = waiting_buffer_head t"
  using empty_ring [of t] by (simp add: idle_def)

lemma drain_empty: "waiting_buffer_tail t = waiting_buffer_head t \<Longrightarrow> drain n ops h t = t"
  by (cases n) simp_all

lemma scan_empty: "waiting_buffer_tail t = waiting_buffer_head t \<Longrightarrow> waiting_buffer_scan_tap ops h t = t"
  by (simp add: waiting_buffer_scan_tap_def waiting_indices_def ring_len_def)

lemmas tapping_tests = IS_TAPPING_PRESSED_def IS_TAPPING_RELEASED_def IS_TAPPING_def IS_TAPPING_KEY_def
  WITHIN_TAPPING_TERM_def

lemma exec_passive:
  assumes "passive_hooks h"
  shows "action_exec ops h e t = action_tapping_process ops h (plain e 0)
    (if ev_pressed e then t\<lparr>core := clear_weak_mods (core t)\<rparr> else t)"
  using assms by (simp add: action_exec_def Let_def plain_def passive_hooks_def)

lemma process_done:
  assumes "process_tapping ops h rec t = (True, r, t')" and "waiting_buffer_tail t' = waiting_buffer_head t'"
  shows "action_tapping_process ops h rec t = t'"
  using assms by (simp add: action_tapping_process_def drain_empty)

text \<open>A key that is no dual-role key goes straight through.\<close>

lemma idle_key:
  assumes "idle t" and "\<not> ev_pressed e \<or> \<not> fst (is_tap_record ops (plain e 0) (core t))"
  shows "action_tapping_process ops h (plain e 0) t =
    t\<lparr>core := snd (process_record ops h (plain e 0)
      (if ev_pressed e then snd (is_tap_record ops (plain e 0) (core t)) else core t))\<rparr>"
proof (rule process_done)
  show "process_tapping ops h (plain e 0) t = (True, fst (process_record ops h (plain e 0)
      (if ev_pressed e then snd (is_tap_record ops (plain e 0) (core t)) else core t)), t\<lparr>core := snd (process_record ops h (plain e 0)
      (if ev_pressed e then snd (is_tap_record ops (plain e 0) (core t)) else core t))\<rparr>)"
    using assms by (auto simp: process_tapping_def idle_def tapping_tests not_tapping_def tapping_parts plain_def)
qed (simp add: idle_empty [OF assms(1)])

text \<open>A dual-role key starts the decision.\<close>

lemma idle_tap_key:
  assumes "idle t" and "ev_pressed e" and "fst (is_tap_record ops (plain e 0) (core t))"
  shows "action_tapping_process ops h (plain e 0) t = t\<lparr>tapping_key := plain e 0,
    core := process_record_tap_hint ops (plain e 0) (snd (is_tap_record ops (plain e 0) (core t)))\<rparr>"
proof (rule process_done)
  show "process_tapping ops h (plain e 0) t = (True, plain e 0, t\<lparr>tapping_key := plain e 0,
    core := process_record_tap_hint ops (plain e 0) (snd (is_tap_record ops (plain e 0) (core t)))\<rparr>)"
    using assms by (simp add: process_tapping_def idle_def tapping_tests not_tapping_def tapping_parts plain_def scan_empty idle_empty [OF assms(1)])
qed (simp add: idle_empty [OF assms(1)])

section \<open>The open decision and its end\<close>

lemma drain_stuck:
  assumes "process_tapping ops h (waiting_buffer t ! waiting_buffer_tail t) t = (False, waiting_buffer t ! waiting_buffer_tail t, t)"
  shows "drain n ops h t = t"
  using assms by (cases n) (simp_all add: list_update_same_conv)

definition tap_rec :: "keyevent \<Rightarrow> u8 \<Rightarrow> bool \<Rightarrow> keyrecord" where
  "tap_rec e n i = \<lparr>event = e, tap_count = n, tap_interrupted = i\<rparr>"

lemma tap_rec_simps [simp]: "event (tap_rec e n i) = e" "tap_count (tap_rec e n i) = n" "tap_interrupted (tap_rec e n i) = i"
  "tap_rec e n i\<lparr>tap_count := m\<rparr> = tap_rec e m i" "tap_rec e n i\<lparr>tap_interrupted := j\<rparr> = tap_rec e n j"
  by (simp_all add: tap_rec_def)

lemma plain_tap_rec: "plain e n = tap_rec e n False" by (simp add: plain_def tap_rec_def)

text \<open>The tick the main loop executes when no key has changed.\<close>

definition is_tick :: "keyevent \<Rightarrow> bool" where
  "is_tick k \<longleftrightarrow> ev_key k = \<lparr>key_row = KEYLOC_TICK, key_col = KEYLOC_TICK\<rparr> \<and> \<not> ev_pressed k"

lemma tick_noevent: "is_tick k \<Longrightarrow> IS_NOEVENT k" by (simp add: is_tick_def IS_NOEVENT_def)

lemma tick_other_key: "is_tick k \<Longrightarrow> \<not> IS_NOEVENT p \<Longrightarrow> \<not> KEYEQ (ev_key p) (ev_key k)"
  by (auto simp: is_tick_def IS_NOEVENT_def KEYEQ_def)

definition in_term :: "keyevent \<Rightarrow> keyevent \<Rightarrow> bool" where
  "in_term p e \<longleftrightarrow> timer_diff16 (ev_time e) (ev_time p) < TAPPING_TERM"

text \<open>The events that wait for the decision on \<open>p\<close>: presses of other keys, and releases of keys whose press waits.\<close>

definition waits :: "keyevent \<Rightarrow> keyevent list \<Rightarrow> keyevent \<Rightarrow> bool" where
  "waits p qs e \<longleftrightarrow> \<not> IS_NOEVENT e \<and> \<not> KEYEQ (ev_key p) (ev_key e) \<and>
     (ev_pressed e \<or> (\<exists>q\<in>set qs. KEYEQ (ev_key e) (ev_key q) \<and> ev_pressed q))"

fun rolls :: "keyevent \<Rightarrow> keyevent list \<Rightarrow> keyevent list \<Rightarrow> bool" where
  "rolls p qs [] \<longleftrightarrow> True"
| "rolls p qs (e # es) \<longleftrightarrow> in_term p e \<and>
     (if is_tick e then rolls p qs es else waits p qs e \<and> rolls p (qs @ [e]) es)"

definition key_events :: "keyevent list \<Rightarrow> keyevent list" where "key_events es = filter (\<lambda>e. \<not> is_tick e) es"

lemma key_events_simps [simp]:
  "key_events [] = []" "key_events (e # es) = (if is_tick e then key_events es else e # key_events es)"
  by (simp_all add: key_events_def)

text \<open>The decision on \<open>p\<close> is open and \<open>qs\<close> wait for it.\<close>

definition holding :: "keyevent \<Rightarrow> keyevent list \<Rightarrow> 'e tapping \<Rightarrow> bool" where
  "holding p qs t \<longleftrightarrow> tapping_key t = tap_rec p 0 (qs \<noteq> []) \<and> \<not> IS_NOEVENT p \<and> ev_pressed p \<and> tapping_ok t \<and>
     queue t = map (\<lambda>q. plain q 0) qs \<and> (qs \<noteq> [] \<longrightarrow> ev_pressed (hd qs) \<and> in_term p (hd qs)) \<and>
     (\<forall>q\<in>set qs. in_term p q \<and> \<not> KEYEQ (ev_key p) (ev_key q))"

lemma holding_core [simp]: "holding p qs (t\<lparr>core := s\<rparr>) = holding p qs t"
  by (simp add: holding_def tapping_ok_def queue_def)

lemma queue_empty: "tapping_ok t \<Longrightarrow> queue t = [] \<longleftrightarrow> waiting_buffer_tail t = waiting_buffer_head t"
  using queue_waiting [of t] empty_ring [of t] by auto

lemma queue_head: "tapping_ok t \<Longrightarrow> queue t = r # rs \<Longrightarrow>
    waiting_buffer t ! waiting_buffer_tail t = r \<and> waiting_buffer_tail t \<noteq> waiting_buffer_head t"
  using queue_Cons [of t] queue_empty [of t] by auto

lemma holding_process:
  assumes "holding p qs t" and "in_term p e" and "waits p qs e"
  shows "process_tapping ops h (plain e 0) t = (False, plain e 0, t\<lparr>tapping_key := tap_rec p 0 (ev_pressed e \<or> qs \<noteq> [])\<rparr>)"
proof -
  have "waiting_buffer_typed e t" if rel: "\<not> ev_pressed e"
  proof -
    obtain q where q: "q \<in> set qs" "KEYEQ (ev_key e) (ev_key q)" "ev_pressed q" using assms(3) rel by (auto simp: waits_def)
    have "plain q 0 \<in> set (queue t)" using assms(1) q(1) by (auto simp: holding_def)
    moreover have "queue t = map (\<lambda>i. waiting_buffer t ! i) (waiting_indices t)" using assms(1)
      by (auto simp: queue_def ring_list_def waiting_indices_def holding_def tapping_ok_def ring_ok_def)
    ultimately obtain i where "i \<in> set (waiting_indices t)" "waiting_buffer t ! i = plain q 0" by (metis image_iff list.set_map)
    then show ?thesis using q rel by (auto simp: waiting_buffer_typed_def list_ex_iff plain_def intro!: bexI [of _ i])
  qed
  then have typed: "\<not> ev_pressed e \<longrightarrow> waiting_buffer_typed e t" by blast
  have key: "tapping_key t = tap_rec p 0 (qs \<noteq> [])" "\<not> IS_NOEVENT p" "ev_pressed p" using assms(1) by (simp_all add: holding_def)
  have tests: "IS_TAPPING_PRESSED t" "WITHIN_TAPPING_TERM e t" "\<not> IS_TAPPING_KEY (ev_key e) t" "tap_count (tapping_key t) = 0"
    using assms(2,3) by (simp_all add: tapping_tests key in_term_def waits_def)
  have wait: "\<not> ev_pressed e \<longrightarrow> qs \<noteq> []" using assms(3) by (auto simp: waits_def)
  have ev: "event (plain e 0) = e" by (simp add: plain_def)
  have "process_tapping ops h (plain e 0) t = tapping_unsettled ops h (plain e 0) t"
    using tests by (simp add: process_tapping_def ev)
  also have "\<dots> = (False, plain e 0, t\<lparr>tapping_key := tap_rec p 0 (ev_pressed e \<or> qs \<noteq> [])\<rparr>)"
  proof (cases "ev_pressed e")
    case True
    then show ?thesis using tests(3) by (simp add: tapping_unsettled_def ev key)
  next
    case False
    then show ?thesis using tests(3) typed wait key(1) by (simp add: tapping_unsettled_def ev tapping.equality)
  qed
  finally show ?thesis .
qed

lemma holding_drain: "holding p qs t \<Longrightarrow> drain n ops h t = t"
proof (cases qs)
  case Nil
  then show "holding p qs t \<Longrightarrow> drain n ops h t = t" using queue_empty [of t] by (simp add: holding_def drain_empty)
next
  case (Cons q rest)
  assume hold: "holding p qs t"
  have q: "ev_pressed q" "in_term p q" using hold Cons by (simp_all add: holding_def)
  have "process_tapping ops h (plain q 0) t = (False, plain q 0, t)"
    using hold q Cons by (simp add: process_tapping_def tapping_tests holding_def in_term_def tapping_unsettled_def)
      (simp add: plain_tap_rec tapping.equality)
  moreover have "waiting_buffer t ! waiting_buffer_tail t = plain q 0"
    using hold Cons queue_head [of t] by (simp add: holding_def)
  ultimately show ?thesis by (intro drain_stuck) simp
qed

lemma holding_tick:
  assumes "holding p qs t" and "is_tick k" and "in_term p k"
  shows "action_tapping_process ops h (plain k 0) t = t"
proof -
  have "\<not> KEYEQ (ev_key p) (ev_key k)" using tick_other_key [OF assms(2)] assms(1) by (simp add: holding_def)
  then have "process_tapping ops h (plain k 0) t = (False, plain k 0, t)"
    using assms tick_noevent [OF assms(2)]
    by (simp add: process_tapping_def tapping_tests holding_def in_term_def tapping_unsettled_def is_tick_def) (simp add: plain_def)
  then show ?thesis using tick_noevent [OF assms(2)]
    by (simp add: action_tapping_process_def waiting_buffer_enq_def plain_def holding_drain [OF assms(1)])
qed

lemma holding_event:
  assumes "holding p qs t" and "in_term p e" and "waits p qs e" and "length qs < 7"
  shows "holding p (qs @ [e]) (action_tapping_process ops h (plain e 0) t) \<and>
    core (action_tapping_process ops h (plain e 0) t) = core t"
proof -
  let ?t = "t\<lparr>tapping_key := tap_rec p 0 (ev_pressed e \<or> qs \<noteq> [])\<rparr>"
  have t: "tapping_ok ?t" "queue ?t = map (\<lambda>q. plain q 0) qs" using assms(1) by (simp_all add: holding_def tapping_ok_def queue_def)
  have "\<not> IS_NOEVENT (event (plain e 0))" "length (queue ?t) < 7" using assms(3,4) t(2) by (simp_all add: waits_def plain_def)
  from queue_enq [OF t(1) this] obtain u where u: "waiting_buffer_enq (plain e 0) ?t = (True, u)" "tapping_ok u"
    "queue u = queue ?t @ [plain e 0]" "core u = core ?t" "tapping_key u = tapping_key ?t" by auto
  have "qs = [] \<Longrightarrow> ev_pressed e" using assms(3) by (auto simp: waits_def)
  then have hold: "holding p (qs @ [e]) u" using assms(1-3) u t(2)
    by (cases qs) (auto simp: holding_def waits_def)
  have "action_tapping_process ops h (plain e 0) t = u"
    using holding_process [OF assms(1-3), of ops h] u(1) holding_drain [OF hold, of WAITING_BUFFER_SIZE ops h]
    by (simp add: action_tapping_process_def)
  then show ?thesis using hold u(4) by simp
qed

lemma clear_weak_twice [simp]: "clear_weak_mods (clear_weak_mods s) = clear_weak_mods s"
  by (simp add: clear_weak_mods_def)

lemma holding_run:
  assumes "passive_hooks h"
  shows "holding p qs t \<Longrightarrow> rolls p qs es \<Longrightarrow> length qs + length (key_events es) \<le> 7 \<Longrightarrow>
    holding p (qs @ key_events es) (fold (action_exec ops h) es t) \<and>
    core (fold (action_exec ops h) es t) = (if \<exists>e\<in>set es. ev_pressed e then clear_weak_mods (core t) else core t)"
proof (induction es arbitrary: qs t)
  case Nil
  then show ?case by simp
next
  case (Cons e es)
  show ?case
  proof (cases "is_tick e")
    case True
    then have "action_exec ops h e t = t" using holding_tick [OF Cons.prems(1) True, of ops h] Cons.prems(2) assms
      by (simp add: exec_passive is_tick_def)
    then show ?thesis using Cons.IH [OF Cons.prems(1)] Cons.prems(2,3) True by (simp add: is_tick_def)
  next
    case False
    let ?t = "if ev_pressed e then t\<lparr>core := clear_weak_mods (core t)\<rparr> else t"
    have "holding p qs ?t" using Cons.prems(1) by simp
    from holding_event [OF this, of e ops h] Cons.prems(2,3) False assms
    have "holding p (qs @ [e]) (action_exec ops h e t)" "core (action_exec ops h e t) = core ?t"
      by (simp_all add: exec_passive)
    then show ?thesis using Cons.IH [of "qs @ [e]" "action_exec ops h e t"] Cons.prems(2,3) False by (auto split: if_splits)
  qed
qed

text \<open>
  The waiting events when their turn comes, as ordinary keys: the machine looks up the action of a press (and, while
  the tap_rec key is still remembered, of a release too) to see whether it is a dual-role key.
\<close>

definition event_handled :: "'e eeprom_ops \<Rightarrow> 'e hooks \<Rightarrow> bool \<Rightarrow> keyevent \<Rightarrow> 'e kb \<Rightarrow> 'e kb" where
  "event_handled ops h always q s =
    snd (process_record ops h (plain q 0) (if always \<or> ev_pressed q then snd (is_tap_record ops (plain q 0) s) else s))"

fun none_dual :: "'e eeprom_ops \<Rightarrow> 'e hooks \<Rightarrow> bool \<Rightarrow> keyevent list \<Rightarrow> 'e kb \<Rightarrow> bool" where
  "none_dual ops h always [] s \<longleftrightarrow> True"
| "none_dual ops h always (q # qs) s \<longleftrightarrow>
     (ev_pressed q \<longrightarrow> \<not> fst (is_tap_record ops (plain q 0) s)) \<and> none_dual ops h always qs (event_handled ops h always q s)"

lemma drain_take:
  assumes "tapping_ok t" and "queue t = q # rest"
    and "process_tapping ops h q t = (True, r, t\<lparr>core := c, tapping_key := k\<rparr>)"
  shows "\<exists>u. drain (Suc n) ops h t = drain n ops h u \<and> tapping_ok u \<and> queue u = rest \<and> core u = c \<and> tapping_key u = k"
proof -
  have head: "waiting_buffer t ! waiting_buffer_tail t = q" "waiting_buffer_tail t \<noteq> waiting_buffer_head t"
    using queue_head [OF assms(1,2)] by auto
  let ?u = "t\<lparr>core := c, tapping_key := k, waiting_buffer := (waiting_buffer t)[waiting_buffer_tail t := r],
      waiting_buffer_tail := (waiting_buffer_tail t + 1) mod WAITING_BUFFER_SIZE\<rparr>"
  have ok: "ring_ok WAITING_BUFFER_SIZE (waiting_buffer t) (waiting_buffer_head t) (waiting_buffer_tail t)"
    using assms(1) by (simp add: tapping_ok_def)
  have "drain (Suc n) ops h t = drain n ops h ?u" using head assms(3) by (simp add: Let_def)
  moreover have "tapping_ok ?u" using assms(1) by (auto simp: tapping_ok_def ring_ok_def WAITING_BUFFER_SIZE_def)
  moreover have "queue ?u = rest"
    using queue_Cons [OF assms(1) head(2)] assms(2) ring_deq_write [OF ok head(2), of r] by (simp add: queue_def)
  ultimately show ?thesis by (intro exI [of _ ?u]) simp
qed

lemma drain_none_dual:
  "tapping_ok t \<Longrightarrow> \<not> IS_TAPPING t \<Longrightarrow> queue t = map (\<lambda>q. plain q 0) qs \<Longrightarrow> none_dual ops h False qs (core t) \<Longrightarrow>
   length qs \<le> n \<Longrightarrow> core (drain n ops h t) = fold (event_handled ops h False) qs (core t) \<and> idle (drain n ops h t)"
proof (induction qs arbitrary: n t)
  case Nil
  then have "waiting_buffer_tail t = waiting_buffer_head t" using queue_empty [of t] by simp
  then show ?case using Nil queue_waiting [of t] by (simp add: drain_empty idle_def)
next
  case (Cons q qs)
  obtain m where n: "n = Suc m" using Cons.prems(5) by (cases n) auto
  have ev: "event (plain q 0) = q" by (simp add: plain_def)
  let ?s = "if ev_pressed q then snd (is_tap_record ops (plain q 0) (core t)) else core t"
  have "process_tapping ops h (plain q 0) t = not_tapping ops h (plain q 0) t"
    using Cons.prems(2) by (simp add: process_tapping_def tapping_tests)
  also have "\<dots> = (True, fst (process_record ops h (plain q 0) ?s), t\<lparr>core := event_handled ops h False q (core t), tapping_key := tapping_key t\<rparr>)"
    using Cons.prems(4) by (cases "ev_pressed q") (simp_all add: not_tapping_def tapping_parts ev event_handled_def tapping.equality)
  finally have step: "process_tapping ops h (plain q 0) t = (True, fst (process_record ops h (plain q 0) ?s),
      t\<lparr>core := event_handled ops h False q (core t), tapping_key := tapping_key t\<rparr>)" .
  obtain u where u: "drain (Suc m) ops h t = drain m ops h u" "tapping_ok u" "queue u = map (\<lambda>q. plain q 0) qs"
      "core u = event_handled ops h False q (core t)" "tapping_key u = tapping_key t"
    using drain_take [OF Cons.prems(1) _ step, of "map (\<lambda>q. plain q 0) qs" m] Cons.prems(3) by auto
  have "\<not> IS_TAPPING u" using Cons.prems(2) u(5) by (simp add: IS_TAPPING_def)
  from Cons.IH [OF u(2) this u(3), of m] Cons.prems(4,5) u(1,4) n show ?case by simp
qed

lemma drain_settled:
  "tapping_ok t \<Longrightarrow> tapping_key t = tap_rec p 1 i \<Longrightarrow> \<not> IS_NOEVENT p \<Longrightarrow> ev_pressed p \<Longrightarrow>
   \<forall>q\<in>set qs. in_term p q \<and> \<not> KEYEQ (ev_key p) (ev_key q) \<Longrightarrow>
   \<not> ev_pressed r \<Longrightarrow> KEYEQ (ev_key p) (ev_key r) \<Longrightarrow> in_term p r \<Longrightarrow>
   queue t = map (\<lambda>q. plain q 0) qs @ [tap_rec r 1 i] \<Longrightarrow> none_dual ops h True qs (core t) \<Longrightarrow> length qs < n \<Longrightarrow>
   core (drain n ops h t) = snd (process_record ops h (tap_rec r 1 i) (fold (event_handled ops h True) qs (core t))) \<and>
   waiting_events (drain n ops h t) = []"
proof (induction qs arbitrary: n t)
  case Nil
  obtain m where n: "n = Suc m" using Nil.prems(11) by (cases n) auto
  let ?p = "process_record ops h (tap_rec r 1 i) (core t)"
  have "process_tapping ops h (tap_rec r 1 i) t = (True, fst ?p, t\<lparr>core := snd ?p, tapping_key := fst ?p\<rparr>)"
    using Nil.prems(2-4,6-8) by (simp add: process_tapping_def tapping_tests tapping_settled_def tapping_parts in_term_def)
  from drain_take [OF Nil.prems(1) _ this, of "[]" m] Nil.prems(9) obtain u where
    u: "drain (Suc m) ops h t = drain m ops h u" "tapping_ok u" "queue u = []" "core u = snd ?p" by auto
  then have "drain m ops h u = u" using queue_empty [of u] by (simp add: drain_empty)
  then show ?case using u n by (simp add: waiting_events_def)
next
  case (Cons q qs)
  obtain m where n: "n = Suc m" using Cons.prems(11) by (cases n) auto
  have ev: "event (plain q 0) = q" by (simp add: plain_def)
  let ?s = "snd (is_tap_record ops (plain q 0) (core t))"
  have "process_tapping ops h (plain q 0) t = tapping_settled ops h True (plain q 0) t"
    using Cons.prems(2-5) by (simp add: process_tapping_def tapping_tests in_term_def ev)
  also have "\<dots> = (True, fst (process_record ops h (plain q 0) ?s), t\<lparr>core := event_handled ops h True q (core t), tapping_key := tapping_key t\<rparr>)"
  proof -
    have "\<not> IS_TAPPING_KEY (ev_key q) t" using Cons.prems(2,5) by (simp add: tapping_tests)
    moreover have "\<not> (fst (is_tap_record ops (plain q 0) (core t)) \<and> ev_pressed q)" using Cons.prems(10) by auto
    ultimately show ?thesis
      by (auto simp: tapping_settled_def tapping_parts ev event_handled_def tapping.equality)
  qed
  finally have step: "process_tapping ops h (plain q 0) t = (True, fst (process_record ops h (plain q 0) ?s),
      t\<lparr>core := event_handled ops h True q (core t), tapping_key := tapping_key t\<rparr>)" .
  obtain u where u: "drain (Suc m) ops h t = drain m ops h u" "tapping_ok u" "queue u = map (\<lambda>q. plain q 0) qs @ [tap_rec r 1 i]"
      "core u = event_handled ops h True q (core t)" "tapping_key u = tapping_key t"
    using drain_take [OF Cons.prems(1) _ step, of "map (\<lambda>q. plain q 0) qs @ [tap_rec r 1 i]" m] Cons.prems(9) by auto
  from Cons.IH [OF u(2) _ Cons.prems(3,4) _ Cons.prems(6-8) u(3), of m] Cons.prems(2,5,10,11) u(1,4,5) n show ?case by simp
qed

text \<open>The end of the decision: the first event after the term, and the release within it.\<close>

lemma holding_timeout:
  fixes ops :: "'e eeprom_ops" and h :: "'e hooks" and t :: "'e tapping" and p e :: keyevent and qs :: "keyevent list"
  assumes "holding p qs t" and "\<not> in_term p e" and "\<not> ev_pressed e" and "length qs < 7"
  defines "s \<equiv> snd (process_record ops h (tap_rec p 0 (qs \<noteq> [])) (core t))"
    and "rs \<equiv> qs @ (if IS_NOEVENT e then [] else [e])"
  assumes "none_dual ops h False rs s"
  shows "core (action_tapping_process ops h (plain e 0) t) = fold (event_handled ops h False) rs s"
    and "idle (action_tapping_process ops h (plain e 0) t)"
proof -
  let ?t = "t\<lparr>core := s, tapping_key := no_record\<rparr>"
  have key: "tapping_key t = tap_rec p 0 (qs \<noteq> [])" "\<not> IS_NOEVENT p" "ev_pressed p" using assms(1) by (simp_all add: holding_def)
  have ev: "event (plain e 0) = e" by (simp add: plain_def)
  have first: "process_tapping ops h (plain e 0) t = (False, plain e 0, ?t)"
    using assms(2) key by (simp add: process_tapping_def tapping_tests in_term_def ev process_tapping_key_def split_def Let_def s_def)
  have t: "tapping_ok ?t" "queue ?t = map (\<lambda>q. plain q 0) qs" "\<not> IS_TAPPING ?t"
    using assms(1) by (simp_all add: holding_def tapping_ok_def queue_def IS_TAPPING_def no_record_def IS_NOEVENT_def)
  obtain u where u: "waiting_buffer_enq (plain e 0) ?t = (True, u)" "tapping_ok u" "queue u = map (\<lambda>q. plain q 0) rs"
      "core u = s" "tapping_key u = no_record"
  proof (cases "IS_NOEVENT e")
    case True
    then show thesis using that [of ?t] t by (simp add: waiting_buffer_enq_def ev rs_def)
  next
    case False
    with queue_enq [OF t(1), of "plain e 0"] assms(4) t(2) that show thesis by (auto simp: ev rs_def)
  qed
  have "\<not> IS_TAPPING u" using u(5) by (simp add: IS_TAPPING_def no_record_def IS_NOEVENT_def)
  moreover have "length rs \<le> WAITING_BUFFER_SIZE" using assms(4) by (simp add: rs_def WAITING_BUFFER_SIZE_def)
  ultimately have "core (drain WAITING_BUFFER_SIZE ops h u) = fold (event_handled ops h False) rs s \<and>
      idle (drain WAITING_BUFFER_SIZE ops h u)"
    using drain_none_dual [OF u(2) _ u(3)] assms(7) u(4) by simp
  then show "core (action_tapping_process ops h (plain e 0) t) = fold (event_handled ops h False) rs s"
    and "idle (action_tapping_process ops h (plain e 0) t)"
    using first u(1) by (simp_all add: action_tapping_process_def)
qed

lemma holding_tap:
  assumes "holding p qs t" and "in_term p r" and "\<not> ev_pressed r" and "KEYEQ (ev_key p) (ev_key r)" and "\<not> IS_NOEVENT r"
    and "length qs < 7"
    and "process_record ops h (tap_rec p 1 (qs \<noteq> [])) (core t) = (tap_rec p 1 (qs \<noteq> []), s)"
    and "none_dual ops h True qs s"
  shows "core (action_tapping_process ops h (plain r 0) t) =
      snd (process_record ops h (tap_rec r 1 (qs \<noteq> [])) (fold (event_handled ops h True) qs s))"
    and "waiting_events (action_tapping_process ops h (plain r 0) t) = []"
proof -
  let ?i = "qs \<noteq> []"
  let ?t = "t\<lparr>tapping_key := tap_rec p 1 ?i, core := s\<rparr>"
  have key: "tapping_key t = tap_rec p 0 ?i" "\<not> IS_NOEVENT p" "ev_pressed p"
    and others: "\<forall>q\<in>set qs. in_term p q \<and> \<not> KEYEQ (ev_key p) (ev_key q)" using assms(1) by (simp_all add: holding_def)
  have ev: "event (plain r 0) = r" by (simp add: plain_def)
  have "process_tapping ops h (plain r 0) t = tapping_unsettled ops h (plain r 0) t"
    using assms(2) key by (simp add: process_tapping_def tapping_tests in_term_def ev)
  also have "\<dots> = (False, tap_rec r 1 ?i, ?t)" using assms(3,4,7) key
    by (simp add: tapping_unsettled_def tapping_tests ev process_tapping_key_def Let_def plain_tap_rec)
  finally have first: "process_tapping ops h (plain r 0) t = (False, tap_rec r 1 ?i, ?t)" .
  have t: "tapping_ok ?t" "queue ?t = map (\<lambda>q. plain q 0) qs" using assms(1) by (simp_all add: holding_def tapping_ok_def queue_def)
  from queue_enq [OF t(1), of "tap_rec r 1 ?i"] assms(5,6) t(2) obtain u where
    u: "waiting_buffer_enq (tap_rec r 1 ?i) ?t = (True, u)" "tapping_ok u" "queue u = map (\<lambda>q. plain q 0) qs @ [tap_rec r 1 ?i]"
      "core u = s" "tapping_key u = tap_rec p 1 ?i" by auto
  have "length qs < WAITING_BUFFER_SIZE" using assms(6) by (simp add: WAITING_BUFFER_SIZE_def)
  then have "core (drain WAITING_BUFFER_SIZE ops h u) =
      snd (process_record ops h (tap_rec r 1 ?i) (fold (event_handled ops h True) qs s)) \<and>
      waiting_events (drain WAITING_BUFFER_SIZE ops h u) = []"
    using drain_settled [OF u(2,5) key(2,3) others assms(3,4,2) u(3)] assms(8) u(4) by simp
  then show "core (action_tapping_process ops h (plain r 0) t) =
      snd (process_record ops h (tap_rec r 1 ?i) (fold (event_handled ops h True) qs s))"
    and "waiting_events (action_tapping_process ops h (plain r 0) t) = []"
    using first u(1) by (simp_all add: action_tapping_process_def)
qed

section \<open>Whole gestures\<close>

text \<open>The state in which the press of a dual-role key leaves the keyboard: only the lookups of its action have been made.\<close>

definition looked_up :: "'e eeprom_ops \<Rightarrow> keyevent \<Rightarrow> 'e kb \<Rightarrow> 'e kb" where
  "looked_up ops p s = process_record_tap_hint ops (plain p 0) (snd (is_tap_record ops (plain p 0) (clear_weak_mods s)))"

lemma press_undecided:
  assumes "passive_hooks h" and "idle t" and "ev_pressed p" and "fst (is_tap_record ops (plain p 0) (clear_weak_mods (core t)))"
  shows "action_exec ops h p t = t\<lparr>tapping_key := plain p 0, core := looked_up ops p (core t)\<rparr>"
    and "holding p [] (action_exec ops h p t)"
proof -
  have "idle (t\<lparr>core := clear_weak_mods (core t)\<rparr>)"
    using assms(2) by (simp add: idle_def IS_TAPPING_def tapping_ok_def waiting_def)
  from idle_tap_key [OF this assms(3), of ops h] assms
  show exec: "action_exec ops h p t = t\<lparr>tapping_key := plain p 0, core := looked_up ops p (core t)\<rparr>"
    by (simp add: exec_passive looked_up_def)
  have "\<not> IS_NOEVENT p" using assms(4) by (auto simp: is_tap_record_def plain_def)
  moreover have "queue t = []" using queue_waiting [of t] assms(2) by (simp add: idle_def)
  ultimately show "holding p [] (action_exec ops h p t)" using assms(2,3) unfolding exec
    by (simp add: holding_def idle_def tapping_ok_def plain_tap_rec queue_def)
qed

text \<open>A tick does nothing when no decision is open.\<close>

lemma idle_tick:
  assumes "passive_hooks h" and "idle t" and "is_tick k"
  shows "action_exec ops h k t = t"
proof -
  have "process_record ops h (plain k 0) s = (plain k 0, s)" for s
    using tick_noevent [OF assms(3)] by (simp add: process_record_def numeral_2_eq_2 plain_def)
  then show ?thesis using idle_key [OF assms(2), of k ops h] assms(1,3) by (simp add: exec_passive is_tick_def)
qed

lemma idle_ticks: "passive_hooks h \<Longrightarrow> idle t \<Longrightarrow> \<forall>k\<in>set ks. is_tick k \<Longrightarrow> fold (action_exec ops h) ks t = t"
  by (induction ks) (simp_all add: idle_tick)

lemma ticks_roll: "\<forall>k\<in>set ks. is_tick k \<and> in_term p k \<Longrightarrow>
    rolls p qs ks \<and> key_events ks = [] \<and> \<not> (\<exists>e\<in>set ks. ev_pressed e)"
  by (induction ks) (auto simp: is_tick_def)

text \<open>The ticks of the tapping term leave the decision open.\<close>

lemma ticks_hold:
  assumes "passive_hooks h" and "idle t"
    and "ev_pressed p" and "fst (is_tap_record ops (plain p 0) (clear_weak_mods (core t)))"
    and "\<forall>k\<in>set ks. is_tick k \<and> in_term p k"
  shows "holding p [] (fold (action_exec ops h) ks (action_exec ops h p t))"
    and "core (fold (action_exec ops h) ks (action_exec ops h p t)) = looked_up ops p (core t)"
  using holding_run [OF assms(1) press_undecided(2) [OF assms(1-4)], of ks] ticks_roll [OF assms(5), of "[]"]
    press_undecided(1) [OF assms(1-4)] by auto

text \<open>
  C19.  A dual-role key that is pressed and released within the tapping term is a tap, through any number of the
  ticks that the main loop executes meanwhile: nothing but the lookup of its action happens until the release, and
  then the press and the release are processed, both with a tap count of one.
\<close>

theorem tap_within_term:
  fixes h :: "'e hooks" and t :: "'e tapping" and ops :: "'e eeprom_ops" and p r :: keyevent
  assumes "passive_hooks h" and "idle t"
    and "ev_pressed p" and "fst (is_tap_record ops (plain p 0) (clear_weak_mods (core t)))"
    and "\<forall>k\<in>set ks. is_tick k \<and> in_term p k"
    and "\<not> ev_pressed r" and "\<not> IS_NOEVENT r" and "KEYEQ (ev_key p) (ev_key r)" and "in_term p r"
    and "process_record ops h (plain p 1) (looked_up ops p (core t)) = (plain p 1, s)"
  defines "t1 \<equiv> fold (action_exec ops h) ks (action_exec ops h p t)"
  shows "core t1 = looked_up ops p (core t) \<and>
    core (action_exec ops h r t1) = snd (process_record ops h (plain r 1) s)"
proof -
  note hold = ticks_hold [OF assms(1-5), folded t1_def]
  from holding_tap [OF hold(1) assms(9,6,8,7), of ops h s] assms(1,6,10) hold(2) show ?thesis
    by (simp add: exec_passive plain_tap_rec)
qed

text \<open>
  C20.  A dual-role key that is still down when the tapping term is over is a hold: the ticks within the term leave it
  undecided, the first tick after the term processes its press with no tap, the ticks after that do nothing, and its
  release is processed as it comes, also with no tap.  When the release itself is the first event after the term, it
  processes the press as a hold before it is processed.
\<close>

theorem hold_after_term:
  fixes h :: "'e hooks" and t :: "'e tapping" and ops :: "'e eeprom_ops" and p r k :: keyevent
  assumes "passive_hooks h" and "idle t"
    and "ev_pressed p" and "fst (is_tap_record ops (plain p 0) (clear_weak_mods (core t)))"
    and "\<forall>k\<in>set ks. is_tick k \<and> in_term p k" and "is_tick k" and "\<not> in_term p k" and "\<forall>k\<in>set ms. is_tick k"
    and "\<not> ev_pressed r" and "\<not> IS_NOEVENT r" and "\<not> in_term p r"
  defines "t1 \<equiv> fold (action_exec ops h) ks (action_exec ops h p t)"
    and "s \<equiv> snd (process_record ops h (plain p 0) (looked_up ops p (core t)))"
  defines "t2 \<equiv> fold (action_exec ops h) ms (action_exec ops h k t1)"
  shows "core t1 = looked_up ops p (core t) \<and> core (action_exec ops h k t1) = s \<and> core t2 = s \<and>
    core (action_exec ops h r t2) = snd (process_record ops h (plain r 0) s) \<and>
    core (action_exec ops h r t1) = snd (process_record ops h (plain r 0) s)"
proof -
  note hold = ticks_hold [OF assms(1-5), folded t1_def]
  have k: "\<not> ev_pressed k" "IS_NOEVENT k" using assms(6) tick_noevent by (simp_all add: is_tick_def)
  have "core (action_exec ops h k t1) = s" "idle (action_exec ops h k t1)"
    using holding_timeout [OF hold(1) assms(7) k(1), of ops h] assms(1) hold(2) k
    by (simp_all add: exec_passive plain_tap_rec s_def)
  moreover from this have "t2 = action_exec ops h k t1" using idle_ticks [OF assms(1) _ assms(8)] by (simp add: t2_def)
  moreover have "core (action_exec ops h r u) = snd (process_record ops h (plain r 0) (core u))" if "idle u" for u
    using idle_key [OF that, of r ops h] assms(1,9) by (simp add: exec_passive)
  moreover have "core (action_exec ops h r t1) = snd (process_record ops h (plain r 0) s)"
    using holding_timeout [OF hold(1) assms(11,9), of ops h] assms(1,9,10) hold(2)
    by (simp add: exec_passive plain_tap_rec s_def event_handled_def)
  ultimately show ?thesis using hold(2) by simp
qed


section \<open>Concrete runs\<close>

text \<open>A keyboard whose memo holds the key LT(1, A) at row 2, column 3, and a keymap without code of its own.\<close>

definition run_key :: keypos where "run_key = \<lparr>key_row = 2, key_col = 3\<rparr>"
definition run_ops :: "u8 list option eeprom_ops" where "run_ops = transient_ops 2048 (\<lambda>b _. b)"
definition run_hooks :: "'e hooks" where
  "run_hooks = \<lparr>pre_process_record_quantum = \<lambda>_ s. (True, s), process_record_quantum = \<lambda>_ s. (True, s),
     post_process_record_quantum = \<lambda>_ s. s\<rparr>"
definition run_kb :: "u8 list option kb" where
  "run_kb = (kb_static (Some (replicate 2048 0)))\<lparr>layerTemp := 0, rowTemp := 2, colTemp := 3, keycodeTemp := 0x4104\<rparr>"
definition run_event :: "bool \<Rightarrow> u16 \<Rightarrow> keyevent" where
  "run_event pressed time = \<lparr>ev_key = run_key, ev_pressed = pressed, ev_time = time\<rparr>"

lemma run_remap: "keycode_config 0 0x4104 = 0x4104" "keycode_config 0 4 = 4"
  by (simp_all add: keycode_config_other kc_defs)

lemma run_action: "action_for_keycode 0 0x4104 = 0xA104"
  unfolding action_for_keycode_def run_remap
  by (simp add: action_of_def within_def kc_defs run_remap) (simp add: action_defs act_defs)

lemma run_matrix: "is_matrix_key run_key"
  by (simp add: run_key_def is_matrix_key_def MATRIX_ROWS_def MATRIX_COLS_def)

lemma run_lookup:
  assumes "layerTemp s = 0" "rowTemp s = 2" "colTemp s = 3" "keycodeTemp s = 0x4104" "keymap_config s = 0"
    and "layer_state s = 0" "default_layer_state s = 0"
  shows "layer_switch_get_layer ops run_key s = (0, s)" and "layer_switch_get_action ops run_key s = (0xA104, s)"
    and "action_for_key ops 0 run_key s = (0xA104, s)"
proof -
  have "layer_search ops 0 run_key n s = (0, s)" for n by (induction n) simp_all
  then show layer: "layer_switch_get_layer ops run_key s = (0, s)" using assms by (simp add: layer_switch_get_layer_def)
  show act: "action_for_key ops 0 run_key s = (0xA104, s)"
    using assms run_matrix by (simp add: action_for_key_def keymap_key_to_keycode_def run_action) (simp add: run_key_def run_action)
  show "layer_switch_get_action ops run_key s = (0xA104, s)" using layer act by (simp add: layer_switch_get_action_def)
qed

definition run_tapping :: "u8 list option tapping" where "run_tapping = tapping_static run_kb"

lemma run_fields:
  "layerTemp run_kb = 0" "rowTemp run_kb = 2" "colTemp run_kb = 3" "keycodeTemp run_kb = 0x4104" "keymap_config run_kb = 0"
  "layer_state run_kb = 0" "default_layer_state run_kb = 0" "clear_weak_mods run_kb = run_kb" "disable_action_cache run_kb = False"
  "oneshot_layer_data run_kb = 0"
  by (simp_all add: run_kb_def kb_static_def clear_weak_mods_def)

lemma run_event_simps:
  "ev_key (run_event b n) = run_key" "ev_pressed (run_event b n) = b" "ev_time (run_event b n) = n" "event (plain v m) = v"
  "tap_count (plain v m) = m" "tap_interrupted (plain v m) = False"
  by (simp_all add: run_event_def plain_def)

lemma run_is_event: "n \<noteq> 0 \<Longrightarrow> \<not> IS_NOEVENT (run_event b n)"
  by (simp add: IS_NOEVENT_def run_event_simps) (simp add: run_key_def KEYLOC_TICK_def)

lemma run_start: "passive_hooks run_hooks" "idle run_tapping" "core run_tapping = run_kb"
  by (simp_all add: passive_hooks_def run_hooks_def idle_def run_tapping_def tapping_static_def IS_TAPPING_def IS_NOEVENT_def no_record_def
    tapping_ok_def ring_ok_def waiting_def ring_len_def WAITING_BUFFER_SIZE_def)

lemma run_tap_record: "n \<noteq> 0 \<Longrightarrow> is_tap_record run_ops (plain (run_event b n) 0) run_kb = (True, run_kb)"
  using run_lookup [OF run_fields(1-7), of run_ops] run_is_event [of n b]
  by (simp add: is_tap_record_def run_event_simps is_tap_action_def field_defs act_defs within_def)

lemma run_looked_up: "n \<noteq> 0 \<Longrightarrow> looked_up run_ops (run_event True n) run_kb = run_kb"
  using run_lookup [OF run_fields(1-7), of run_ops]
  by (simp add: looked_up_def run_fields run_tap_record process_record_tap_hint_def run_event_simps)

lemma run_inactive: "oneshot_layer_data s = 0 \<Longrightarrow> \<not> is_oneshot_layer_active s"
  by (simp add: is_oneshot_layer_active_def get_oneshot_layer_state_def)

lemma process_record_two: "process_record ops h rec s = process_record_n (Suc (Suc 0)) ops h rec s"
  by (simp add: process_record_def numeral_2_eq_2)

lemma run_press:
  assumes "n \<noteq> 0"
  shows "fst (process_record run_ops run_hooks (tap_rec (run_event True n) k i) run_kb) = tap_rec (run_event True n) k i"
proof -
  let ?s = "update_source_layers_cache run_key 0 run_kb"
  have s: "layerTemp ?s = 0" "rowTemp ?s = 2" "colTemp ?s = 3" "keycodeTemp ?s = 0x4104" "keymap_config ?s = 0"
      "layer_state ?s = 0" "default_layer_state ?s = 0" "oneshot_layer_data ?s = 0"
    by (simp_all add: update_source_layers_cache_def run_fields)
  have "store_or_get_action run_ops True run_key run_kb = (0xA104, ?s)"
    using run_lookup [OF run_fields(1-7), of run_ops] run_lookup(3) [OF s(1-7), of run_ops]
    by (simp add: store_or_get_action_def run_fields)
  moreover have "fst (action_switch r 0xA104 s) = r" for r and s :: "u8 list option kb"
    by (simp add: action_switch_def field_defs act_defs)
  ultimately show ?thesis using run_inactive [OF s(8)] run_is_event [OF assms, of True]
    by (simp add: process_record_two run_event_simps run_hooks_def process_action_def ends_oneshot_layer_def split_def Let_def)
qed

theorem action_exec_ring_witness:
  "tapping_ok (action_exec run_ops run_hooks (run_event True 10) run_tapping) \<and>
   (\<exists>es. drain_loop run_ops run_hooks (admitted run_ops run_hooks (plain (run_event True 10) 0) run_tapping) es
     (action_tapping_process run_ops run_hooks (plain (run_event True 10) 0) run_tapping))"
  using action_exec_ring [of run_tapping run_ops run_hooks "run_event True 10" "plain (run_event True 10) 0"] run_start
  by (auto simp: idle_def)

definition run_tick :: "u16 \<Rightarrow> keyevent" where
  "run_tick time = \<lparr>ev_key = \<lparr>key_row = KEYLOC_TICK, key_col = KEYLOC_TICK\<rparr>, ev_pressed = False, ev_time = time\<rparr>"

lemma run_tick_simps: "is_tick (run_tick n)" "ev_pressed (run_tick n) = False" "ev_time (run_tick n) = n"
  by (simp_all add: run_tick_def is_tick_def)

lemma run_term: "in_term p e \<longleftrightarrow> timer_diff16 (ev_time e) (ev_time p) < 200"
  by (simp add: in_term_def TAPPING_TERM_def)

lemma run_dual: "n \<noteq> 0 \<Longrightarrow> fst (is_tap_record run_ops (plain (run_event True n) 0) (clear_weak_mods (core run_tapping)))"
  by (simp add: run_tap_record run_start run_fields)

theorem tap_within_term_witness:
  "core (action_exec run_ops run_hooks (run_event False 160) (fold (action_exec run_ops run_hooks) [run_tick 20, run_tick 159]
      (action_exec run_ops run_hooks (run_event True 10) run_tapping))) =
    snd (process_record run_ops run_hooks (plain (run_event False 160) 1)
      (snd (process_record run_ops run_hooks (plain (run_event True 10) 1) run_kb)))"
proof -
  let ?p = "process_record run_ops run_hooks (plain (run_event True 10) 1) run_kb"
  have s: "?p = (plain (run_event True 10) 1, snd ?p)"
    using run_press [of 10 1 False] by (simp add: prod_eq_iff plain_tap_rec)
  have ticks: "\<forall>k\<in>set [run_tick 20, run_tick 159]. is_tick k \<and> in_term (run_event True 10) k"
    by (simp add: run_tick_simps run_term run_event_simps timer_diff16_def)
  have "looked_up run_ops (run_event True 10) (core run_tapping) = run_kb" using run_looked_up [of 10] by (simp add: run_start)
  then show ?thesis
    using tap_within_term [OF run_start(1,2) _ _ ticks, of run_ops "run_event False 160" "snd ?p"] s run_is_event [of 160 False] run_dual [of 10]
    by (simp add: run_event_simps KEYEQ_def run_term timer_diff16_def)
qed

theorem hold_after_term_witness:
  "core (action_exec run_ops run_hooks (run_tick 210) (fold (action_exec run_ops run_hooks) [run_tick 209]
      (action_exec run_ops run_hooks (run_event True 10) run_tapping))) =
    snd (process_record run_ops run_hooks (plain (run_event True 10) 0) run_kb)"
proof -
  have ticks: "\<forall>k\<in>set [run_tick 209]. is_tick k \<and> in_term (run_event True 10) k"
    by (simp add: run_tick_simps run_term run_event_simps timer_diff16_def)
  show ?thesis
    using hold_after_term [OF run_start(1,2) _ _ ticks, of run_ops "run_tick 210" "[run_tick 211, run_tick 212]" "run_event False 500"]
      run_is_event [of 500 False] run_dual [of 10] run_looked_up [of 10]
    by (simp add: run_event_simps run_tick_simps run_term timer_diff16_def run_start)
qed






end
