(* ===== verification/Report_Sending.thy ===== *)
theory Report_Sending
  imports Action
begin

text \<open>
  What the host is told: the laws of \<open>send_keyboard_report\<close> in the boot view and in the NKRO view, and of the
  keycode operations built on it.
\<close>

section \<open>The last report sent\<close>

text \<open>The keyboard reports of a trace, newest first, and the one the host saw last.\<close>

fun keyboard_reports :: "host_event list \<Rightarrow> report_keyboard_t list" where
  "keyboard_reports [] = []"
| "keyboard_reports (Send_Keyboard r # es) = r # keyboard_reports es"
| "keyboard_reports (_ # es) = keyboard_reports es"

definition host_sees :: "'e kb \<Rightarrow> report_keyboard_t" where
  "host_sees s = (case keyboard_reports (sent s) of [] \<Rightarrow> replicate 32 0 | r # _ \<Rightarrow> r)"

definition boot_synced :: "'e kb \<Rightarrow> bool" where
  "boot_synced s \<longleftrightarrow> host_driver s \<and> \<not> nkro_active s \<and> report_ok (keyboard_report s) \<and> host_sees s = last_report s"

definition all_mods :: "'e kb \<Rightarrow> u8" where
  "all_mods s = real_mods s OR weak_mods s OR oneshot_mods s"

definition next_report :: "'e kb \<Rightarrow> report_keyboard_t" where
  "next_report s = (keyboard_report s)[0 := all_mods s]"

lemma has_anykey_mods: "has_anykey n (r[0 := m]) = has_anykey n r"
  by (simp add: has_anykey_def report_keys_def report_bits_def drop_update_cancel)

lemma nkro_active_simps [simp]:
  "nkro_active (s\<lparr>keyboard_report := r\<rparr>) = nkro_active s"
  "nkro_active (s\<lparr>last_report := r\<rparr>) = nkro_active s"
  "nkro_active (s\<lparr>oneshot_mods := m\<rparr>) = nkro_active s"
  "nkro_active (s\<lparr>real_mods := m\<rparr>) = nkro_active s"
  "nkro_active (s\<lparr>weak_mods := m\<rparr>) = nkro_active s"
  "nkro_active (s\<lparr>sent := x\<rparr>) = nkro_active s"
  by (simp_all add: nkro_active_def)

lemma prepare_report_eq:
  assumes "keyboard_report s \<noteq> []"
  shows "prepare_report s = s\<lparr>keyboard_report := next_report s,
    oneshot_mods := (if has_anykey (nkro_active s) (keyboard_report s) \<noteq> 0 then 0 else oneshot_mods s)\<rparr>"
  using assms
  by (simp add: prepare_report_def next_report_def all_mods_def Let_def has_anykey_mods clear_oneshot_mods_def or.assoc)

lemma boot_send:
  assumes "host_driver s" and "\<not> nkro_active s" and "keyboard_report s \<noteq> []"
  shows "send_keyboard_report s = s\<lparr>keyboard_report := next_report s, last_report := next_report s,
    oneshot_mods := (if has_anykey False (keyboard_report s) \<noteq> 0 then 0 else oneshot_mods s),
    sent := (if next_report s \<noteq> last_report s then Send_Keyboard (next_report s) # sent s else sent s)\<rparr>"
  using assms by (simp add: send_keyboard_report_def prepare_report_eq Let_def host_keyboard_send_def emit_def)

text \<open>
  In the boot view the host always knows the current report: after every call it has seen the keys of the
  report with all modifiers in the first byte; a report goes out exactly when that differs from what the
  host saw before; and one-shot modifiers are in the report and are used up once a key is with them.
\<close>

theorem boot_report_reaches_host:
  assumes "boot_synced s"
  defines "s' \<equiv> send_keyboard_report s"
  shows "boot_synced s' \<and> host_sees s' = (keyboard_report s)[0 := real_mods s OR weak_mods s OR oneshot_mods s] \<and>
    keyboard_report s' = host_sees s' \<and>
    sent s' = (if host_sees s' = host_sees s then sent s else Send_Keyboard (host_sees s') # sent s) \<and>
    oneshot_mods s' = (if has_anykey False (keyboard_report s) = 0 then oneshot_mods s else 0)"
proof -
  have s: "host_driver s" "\<not> nkro_active s" "report_ok (keyboard_report s)" "host_sees s = last_report s"
    using assms(1) by (simp_all add: boot_synced_def)
  then have "keyboard_report s \<noteq> []" by (auto simp: report_ok_def)
  note send = boot_send [OF s(1,2) this]
  show ?thesis using s
    by (auto simp: s'_def send boot_synced_def host_sees_def next_report_def all_mods_def report_ok_def)
qed

theorem boot_report_reaches_host_witness:
  "host_sees (send_keyboard_report ((kb_static ())\<lparr>host_driver := True, keyboard_protocol := 0, real_mods := 2,
      keyboard_report := (replicate 32 0)[2 := 4]\<rparr>)) = ((replicate 32 0)[2 := 4])[0 := 2]"
proof -
  let ?s = "(kb_static ())\<lparr>host_driver := True, keyboard_protocol := 0, real_mods := 2, keyboard_report := (replicate 32 0)[2 := 4]\<rparr>"
  have "boot_synced ?s"
    by (simp add: boot_synced_def kb_static_def nkro_active_def report_defs host_sees_def)
  from boot_report_reaches_host [OF this] show ?thesis by (simp add: kb_static_def)
qed

text \<open>
  In the NKRO view \<open>host_keyboard_send\<close> moves the modifiers to the second byte of the shared report after
  it was recorded as the last one.  So after a change of the modifiers the next call finds a difference
  and sends the same report again.
\<close>

theorem nkro_modifiers_sent_twice:
  assumes "host_driver s" and "nkro_active s" and "report_ok (keyboard_report s)" and "oneshot_mods s = 0"
    and "last_report s ! 0 \<noteq> real_mods s OR weak_mods s" and "keyboard_report s ! 1 \<noteq> real_mods s OR weak_mods s"
  defines "r \<equiv> ((keyboard_report s)[1 := real_mods s OR weak_mods s])[0 := REPORT_ID_NKRO]"
  shows "sent (send_keyboard_report s) = Send_Keyboard r # sent s \<and>
    sent (send_keyboard_report (send_keyboard_report s)) = Send_Keyboard r # Send_Keyboard r # sent s"
proof -
  let ?m = "real_mods s OR weak_mods s" and ?kr = "keyboard_report s"
  have len: "length ?kr = 32" using assms(3) by (simp add: report_defs)
  then have ne: "?kr \<noteq> []" by auto
  have nr: "next_report s = ?kr[0 := ?m]" using assms(4) by (simp add: next_report_def all_mods_def)
  have "?kr[0 := ?m] \<noteq> last_report s" using assms(5) len by (metis nth_list_update_eq zero_less_numeral)
  moreover have "(?kr[0 := ?m])[1 := ?m, 0 := REPORT_ID_NKRO] = r"
    using len by (simp add: r_def list_update_swap)
  ultimately have one: "send_keyboard_report s = s\<lparr>keyboard_report := r, last_report := ?kr[0 := ?m], sent := Send_Keyboard r # sent s\<rparr>"
    using assms(1,2,4) len
    by (simp add: send_keyboard_report_def prepare_report_eq [OF ne] nr Let_def host_keyboard_send_def emit_def)
  let ?s1 = "s\<lparr>keyboard_report := r, last_report := ?kr[0 := ?m], sent := Send_Keyboard r # sent s\<rparr>"
  have rne: "r \<noteq> []" and r0: "r[0 := ?m] = (?kr[0 := ?m])[1 := ?m]"
    using len by (auto simp: r_def list_update_swap)
  have nr1: "next_report ?s1 = (?kr[0 := ?m])[1 := ?m]"
    using assms(4) r0 by (simp add: next_report_def all_mods_def)
  have "(?kr[0 := ?m])[1 := ?m] ! 1 \<noteq> ?kr[0 := ?m] ! 1" using assms(6) len by simp
  then have diff: "(?kr[0 := ?m])[1 := ?m] \<noteq> ?kr[0 := ?m]" by metis
  have again: "((?kr[0 := ?m])[1 := ?m])[1 := ?m, 0 := REPORT_ID_NKRO] = r"
    using len by (simp add: r_def list_update_swap)
  have two: "sent (send_keyboard_report ?s1) = Send_Keyboard r # Send_Keyboard r # sent s"
    using assms(1,2,4) len diff again rne
    by (simp add: send_keyboard_report_def prepare_report_eq nr1 Let_def host_keyboard_send_def emit_def)
  show ?thesis using one two by simp
qed

theorem nkro_modifiers_sent_twice_witness:
  "sent (send_keyboard_report (send_keyboard_report ((kb_static ())\<lparr>host_driver := True, keymap_config := 0x80, real_mods := 2\<rparr>))) =
    replicate 2 (Send_Keyboard (REPORT_ID_NKRO # 2 # replicate 30 0))"
proof -
  let ?s = "(kb_static ())\<lparr>host_driver := True, keymap_config := 0x80, real_mods := 2\<rparr>"
  have "nkro_active ?s" by (simp add: nkro_active_def nkro_def kb_static_def)
  then show ?thesis using nkro_modifiers_sent_twice [of ?s]
    by (simp add: kb_static_def report_defs numeral_eq_Suc)
qed

section \<open>Keycodes up and down, as the host sees them\<close>

text \<open>The abstract keyboard: the keys that are down and the modifiers that are on.\<close>

datatype code_call = Register u8 | Unregister u8

fun code_step :: "code_call \<Rightarrow> 'e kb \<Rightarrow> 'e kb" where
  "code_step (Register k) s = register_code k s"
| "code_step (Unregister k) s = unregister_code k s"

fun abs_step :: "code_call \<Rightarrow> u8 set \<times> u8 \<Rightarrow> u8 set \<times> u8" where
  "abs_step (Register k) (K, M) = (if IS_MODIFIER_KEYCODE k then (K, M OR MOD_BIT k) else (insert k K, M))"
| "abs_step (Unregister k) (K, M) = (if IS_MODIFIER_KEYCODE k then (K, M AND NOT (MOD_BIT k)) else (K - {k}, M))"

text \<open>Every keycode is a basic one or a modifier, and there are never more than six keys down.\<close>

fun codes_fit :: "code_call list \<Rightarrow> u8 set \<times> u8 \<Rightarrow> bool" where
  "codes_fit [] KM = True"
| "codes_fit (c # cs) KM =
    ((case c of Register k \<Rightarrow> IS_BASIC_KEYCODE k \<or> IS_MODIFIER_KEYCODE k | Unregister k \<Rightarrow> IS_BASIC_KEYCODE k \<or> IS_MODIFIER_KEYCODE k) \<and>
     card (fst (abs_step c KM)) \<le> KEYBOARD_REPORT_KEYS \<and> codes_fit cs (abs_step c KM))"

definition keyboard_is :: "'e kb \<Rightarrow> u8 set \<times> u8 \<Rightarrow> bool" where
  "keyboard_is s KM \<longleftrightarrow> boot_synced s \<and> byte_ok (keyboard_report s) \<and> weak_mods s = 0 \<and> oneshot_mods s = 0 \<and>
     keyboard_report s = host_sees s \<and> byte_keys (host_sees s) = fst KM \<and> real_mods s = snd KM \<and> host_sees s ! 0 = snd KM"

lemma keyboard_isD:
  "keyboard_is s (K, M) \<Longrightarrow> host_driver s \<and> \<not> nkro_active s \<and> report_ok (keyboard_report s) \<and> byte_ok (keyboard_report s) \<and>
     weak_mods s = 0 \<and> oneshot_mods s = 0 \<and> last_report s = host_sees s \<and> keyboard_report s = host_sees s \<and>
     byte_keys (keyboard_report s) = K \<and> real_mods s = M \<and> keyboard_report s ! 0 = M"
  by (auto simp: keyboard_is_def boot_synced_def)

lemma byte_keys_mods [simp]: "byte_keys (r[0 := m]) = byte_keys r" "byte_ok (r[0 := m]) = byte_ok r"
  by (simp_all add: byte_keys_def byte_ok_def report_ok_def report_keys_def drop_update_cancel)

text \<open>Changing the report or the modifiers and sending keeps the correspondence.\<close>

lemma keyboard_is_send:
  assumes "boot_synced s" and "byte_ok (keyboard_report s)" and "weak_mods s = 0" and "oneshot_mods s = 0"
  shows "keyboard_is (send_keyboard_report s) (byte_keys (keyboard_report s), real_mods s)"
proof -
  have b: "host_driver s" "\<not> nkro_active s" "keyboard_report s \<noteq> []" "report_ok (keyboard_report s)"
    using assms(1) by (auto simp: boot_synced_def report_ok_def)
  note sync = boot_report_reaches_host [OF assms(1)] and send = boot_send [OF b(1-3)]
  have "keyboard_report (send_keyboard_report s) = (keyboard_report s)[0 := real_mods s]"
    using assms(3,4) by (simp add: send next_report_def all_mods_def)
  moreover have "weak_mods (send_keyboard_report s) = 0" "oneshot_mods (send_keyboard_report s) = 0"
      "real_mods (send_keyboard_report s) = real_mods s"
    using assms(3,4) by (simp_all add: send)
  ultimately show ?thesis using sync assms(2) b(3) by (simp add: keyboard_is_def)
qed

lemma boot_synced_change:
  "boot_synced s \<Longrightarrow> report_ok r \<Longrightarrow> boot_synced (s\<lparr>keyboard_report := r\<rparr>)"
  "boot_synced s \<Longrightarrow> boot_synced (s\<lparr>real_mods := m\<rparr>)"
  by (simp_all add: boot_synced_def host_sees_def)

lemma keyboard_is_add:
  assumes "keyboard_is s (K, M)" and "k \<noteq> 0" and "card (insert k K) \<le> KEYBOARD_REPORT_KEYS"
  shows "keyboard_is (send_keyboard_report (add_key k s)) (insert k K, M)"
proof -
  note s = keyboard_isD [OF assms(1)]
  let ?r = "add_key_byte (keyboard_report s) k"
  have a: "add_key k s = s\<lparr>keyboard_report := ?r\<rparr>" using s by (simp add: add_key_def add_key_to_report_def)
  have ok: "byte_ok ?r" and keys: "byte_keys ?r = insert k K"
    using boot.add_ok [of "keyboard_report s" k] boot.held_add [of "keyboard_report s" k] s assms(2,3) by auto
  have "boot_synced (add_key k s)"
    using assms(1) ok by (simp add: a boot_synced_change keyboard_is_def byte_ok_def)
  from keyboard_is_send [OF this] show ?thesis using s ok keys by (simp add: a)
qed

lemma keyboard_is_del:
  assumes "keyboard_is s (K, M)" and "k \<noteq> 0"
  shows "keyboard_is (send_keyboard_report (del_key k s)) (K - {k}, M)"
proof -
  note s = keyboard_isD [OF assms(1)]
  let ?r = "del_key_byte (keyboard_report s) k"
  have a: "del_key k s = s\<lparr>keyboard_report := ?r\<rparr>" using s by (simp add: del_key_def del_key_from_report_def)
  have ok: "byte_ok ?r" and keys: "byte_keys ?r = K - {k}"
    using boot.del_ok [of "keyboard_report s" k] boot.held_del [of "keyboard_report s" k] s assms(2) by auto
  have "boot_synced (del_key k s)"
    using assms(1) ok by (simp add: a boot_synced_change keyboard_is_def byte_ok_def)
  from keyboard_is_send [OF this] show ?thesis using s ok keys by (simp add: a)
qed

lemma keyboard_is_mods:
  assumes "keyboard_is s (K, M)"
  shows "keyboard_is (send_keyboard_report (s\<lparr>real_mods := m\<rparr>)) (K, m)"
proof -
  have "boot_synced (s\<lparr>real_mods := m\<rparr>)" using assms by (simp add: boot_synced_change keyboard_is_def)
  from keyboard_is_send [OF this] show ?thesis using keyboard_isD [OF assms] by auto
qed

lemma basic_not_modifier: "IS_BASIC_KEYCODE k \<Longrightarrow> \<not> IS_MODIFIER_KEYCODE k \<and> k \<noteq> 0"
  by (auto simp: IS_BASIC_KEYCODE_def IS_MODIFIER_KEYCODE_def within_def word_le_nat_alt)

lemma modifier_not_basic: "IS_MODIFIER_KEYCODE k \<Longrightarrow> \<not> IS_BASIC_KEYCODE k \<and> k \<noteq> 0"
  by (auto simp: IS_BASIC_KEYCODE_def IS_MODIFIER_KEYCODE_def within_def word_le_nat_alt)

lemma keyboard_is_register:
  assumes "keyboard_is s (K, M)" and "IS_BASIC_KEYCODE k" and "card (insert k K) \<le> KEYBOARD_REPORT_KEYS"
  shows "keyboard_is (register_code k s) (insert k K, M)"
proof -
  have k0: "k \<noteq> 0" using basic_not_modifier [OF assms(2)] by simp
  let ?t = "send_keyboard_report (del_key k s)"
  have t: "keyboard_is ?t (K - {k}, M)" by (rule keyboard_is_del [OF assms(1) k0])
  have "keyboard_is (send_keyboard_report (add_key k ?t)) (insert k K, M)"
    using keyboard_is_add [OF t k0] assms(3) by simp
  moreover have "keyboard_is (send_keyboard_report (add_key k s)) (insert k K, M)"
    by (rule keyboard_is_add [OF assms(1) k0 assms(3)])
  ultimately show ?thesis using assms(2) k0 by (simp add: register_code_def Let_def)
qed

lemma code_step_refines:
  assumes "keyboard_is s KM" and "codes_fit (c # cs) KM"
  shows "keyboard_is (code_step c s) (abs_step c KM)"
proof -
  obtain K M where KM: "KM = (K, M)" by (cases KM)
  show ?thesis
  proof (cases c)
    case (Register k)
    then consider "IS_BASIC_KEYCODE k" | "IS_MODIFIER_KEYCODE k" using assms(2) by auto
    then show ?thesis
    proof cases
      case 1
      then show ?thesis using assms basic_not_modifier [OF 1] Register keyboard_is_register [of s K M k] by (simp add: KM)
    next
      case 2
      then show ?thesis
        using assms(1) modifier_not_basic [OF 2] Register keyboard_is_mods [of s K M] keyboard_isD [of s K M]
        by (simp add: KM register_code_def add_mods_def)
    qed
  next
    case (Unregister k)
    then consider "IS_BASIC_KEYCODE k" | "IS_MODIFIER_KEYCODE k" using assms(2) by auto
    then show ?thesis
    proof cases
      case 1
      then show ?thesis using assms(1) basic_not_modifier [OF 1] Unregister keyboard_is_del [of s K M k]
        by (simp add: KM unregister_code_def)
    next
      case 2
      then show ?thesis
        using assms(1) modifier_not_basic [OF 2] Unregister keyboard_is_mods [of s K M] keyboard_isD [of s K M]
        by (simp add: KM unregister_code_def del_mods_def)
    qed
  qed
qed

text \<open>
  C24.  Registering and releasing basic keycodes and modifiers implements the abstract keyboard: after any
  run with at most six keys down, the last report the host received holds exactly the keys that are down
  and, in its first byte, the modifiers that are on.
\<close>

theorem codes_reach_host:
  assumes "keyboard_is s KM" and "codes_fit cs KM"
  shows "keyboard_is (fold code_step cs s) (fold abs_step cs KM)"
  using assms
proof (induction cs arbitrary: s KM)
  case (Cons c cs)
  have "keyboard_is (code_step c s) (abs_step c KM)" by (rule code_step_refines [OF Cons.prems])
  then show ?case using Cons.IH Cons.prems(2) by simp
qed simp

theorem codes_reach_host_witness:
  "keyboard_is (fold code_step [Register 0xE1, Register 4, Register 5, Unregister 4]
     ((kb_static ())\<lparr>host_driver := True, keyboard_protocol := 0\<rparr>)) ({5}, 2)"
proof -
  let ?s = "(kb_static ())\<lparr>host_driver := True, keyboard_protocol := 0\<rparr>"
  have "keyboard_is ?s ({}, 0)"
    by (auto simp: keyboard_is_def boot_synced_def kb_static_def nkro_active_def host_sees_def byte_ok_def byte_keys_def report_defs)
  moreover have "\<not> IS_MODIFIER_KEYCODE 4" "\<not> IS_MODIFIER_KEYCODE 5" "IS_MODIFIER_KEYCODE 0xE1" "IS_BASIC_KEYCODE 4" "IS_BASIC_KEYCODE 5"
      "MOD_BIT 0xE1 = 2"
    by (simp_all add: IS_MODIFIER_KEYCODE_def IS_BASIC_KEYCODE_def within_def MOD_BIT_def)
  moreover have "{4, 5} - {4 :: u8} = {5}" by auto
  ultimately show ?thesis
    using codes_reach_host [of ?s "({}, 0)" "[Register 0xE1, Register 4, Register 5, Unregister 4]"]
    by (simp add: KEYBOARD_REPORT_KEYS_def card_insert_if insert_commute)
qed

end
