(* ===== verification/Typing.thy ===== *)
theory Typing
  imports Tapping_Laws Report_Sending
begin

text \<open>
  From the switch to the host: typing on ordinary keys, through the tapping state machine, the layer lookup, the
  action processing and the reports, implements a set of keys that are down.
\<close>

section \<open>What the parts change\<close>

text \<open>A lookup changes the memo and the layer caches; sending changes the reports and the trace.\<close>

definition without_lookup :: "'e kb \<Rightarrow> 'e kb" where
  "without_lookup s = s\<lparr>source_layers_cache := [], encoder_source_layers_cache := [],
     layerTemp := 0, rowTemp := 0, colTemp := 0, keycodeTemp := 0\<rparr>"

definition without_output :: "'e kb \<Rightarrow> 'e kb" where
  "without_output s = s\<lparr>oneshot_mods := 0, keyboard_report := [], last_report := [], sent := []\<rparr>"

definition map_state :: "'e kb \<Rightarrow> 'e \<times> u16 \<times> u8 \<times> u8 \<times> u8" where
  "map_state s = (eeprom_state s, keymap_config s, layer_state s, default_layer_state s, oneshot_layer_data s)"

lemma memo_without_lookup: "memo_only s s' \<Longrightarrow> without_lookup s' = without_lookup s"
  by (auto simp: memo_only_def without_lookup_def)

lemma update_without_lookup: "without_lookup (update_source_layers_cache key l s) = without_lookup s"
  by (simp add: update_source_layers_cache_def without_lookup_def)

lemma lookup_only_fields:
  assumes "without_lookup s' = without_lookup s"
  shows "map_state s' = map_state s" and "keyboard_is s' KM = keyboard_is s KM"
    and "weak_mods s' = weak_mods s" and "oneshot_layer_data s' = oneshot_layer_data s" and "statics s' = statics s"
proof -
  obtain a b l r c k where "s' = s\<lparr>source_layers_cache := a, encoder_source_layers_cache := b,
      layerTemp := l, rowTemp := r, colTemp := c, keycodeTemp := k\<rparr>"
    using assms by (cases s; cases s') (simp add: without_lookup_def)
  then show "map_state s' = map_state s" and "keyboard_is s' KM = keyboard_is s KM"
    and "weak_mods s' = weak_mods s" and "oneshot_layer_data s' = oneshot_layer_data s" and "statics s' = statics s"
    by (simp_all add: map_state_def keyboard_is_def boot_synced_def host_sees_def nkro_active_def)
qed

lemma output_only_fields:
  assumes "without_output s' = without_output s"
  shows "map_state s' = map_state s" and "layers_ok ops s' = layers_ok ops s"
    and "read_source_layers_cache key s' = read_source_layers_cache key s" and "statics s' = statics s"
proof -
  obtain r l m x where "s' = s\<lparr>oneshot_mods := m, keyboard_report := r, last_report := l, sent := x\<rparr>"
    using assms by (cases s; cases s') (simp add: without_output_def)
  then show "map_state s' = map_state s" and "layers_ok ops s' = layers_ok ops s"
    and "read_source_layers_cache key s' = read_source_layers_cache key s" and "statics s' = statics s"
    by (simp_all add: map_state_def layers_ok_def memo_ok_def memo_key_def read_source_layers_cache_def)
qed

lemma store_without_lookup:
  assumes "layers_ok ops s" and "store_or_get_action ops pressed key s = (a, s')"
  shows "without_lookup s' = without_lookup s"
proof (cases pressed)
  case True
  obtain l t where g: "layer_switch_get_layer ops key s = (l, t)" by (cases "layer_switch_get_layer ops key s")
  have m: "memo_ok ops s" "\<not> disable_action_cache s" using assms(1) by (simp_all add: layers_ok_def)
  have t: "memo_ok ops t" "memo_only s t" using get_layer_topmost [OF m(1) g] by simp_all
  have "action_for_key ops l key (update_source_layers_cache key l t) = (a, s')"
    using assms(2) True m(2) by (simp add: store_or_get_action_def g)
  then have "memo_only (update_source_layers_cache key l t) s'"
    using action_lookup [of ops "update_source_layers_cache key l t" l key a s'] t by simp
  then show ?thesis using memo_without_lookup t(2) update_without_lookup by metis
next
  case False
  then show ?thesis using assms action_lookup [of ops s "read_source_layers_cache key s" key a s']
    by (simp add: store_or_get_action_def layers_ok_def memo_without_lookup)
qed

lemma without_output_simps:
  "without_output (s\<lparr>keyboard_report := r\<rparr>) = without_output s" "without_output (s\<lparr>last_report := r\<rparr>) = without_output s"
  "without_output (s\<lparr>oneshot_mods := m\<rparr>) = without_output s" "without_output (s\<lparr>sent := x\<rparr>) = without_output s"
  by (simp_all add: without_output_def)

lemma send_without_output: "without_output (send_keyboard_report s) = without_output s"
proof -
  have prep: "without_output (prepare_report u) = without_output u" for u :: "'a kb"
    by (simp add: without_output_simps prepare_report_def clear_oneshot_mods_def Let_def)
  have host: "without_output (snd (host_keyboard_send r u)) = without_output u" for r and u :: "'a kb"
    by (simp add: without_output_simps host_keyboard_send_def emit_def Let_def)
  show ?thesis by (simp add: without_output_simps send_keyboard_report_def Let_def split_def host prep)
qed

lemma basic_without_output:
  assumes "IS_BASIC_KEYCODE c"
  shows "without_output (register_code c s) = without_output s" and "without_output (unregister_code c s) = without_output s"
proof -
  have "without_output (add_key c u) = without_output u" "without_output (del_key c u) = without_output u" for u :: "'a kb"
    by (simp_all add: add_key_def del_key_def without_output_def)
  moreover have "c \<noteq> 0" using basic_not_modifier [OF assms] by simp
  ultimately show "without_output (register_code c s) = without_output s" and "without_output (unregister_code c s) = without_output s"
    using assms by (simp_all add: register_code_def unregister_code_def send_without_output Let_def)
qed

section \<open>An ordinary key\<close>

text \<open>The layer a key is looked up on, and a key that types one basic keycode there.\<close>

definition layer_of :: "'e eeprom_ops \<Rightarrow> keypos \<Rightarrow> 'e kb \<Rightarrow> u8" where
  "layer_of ops key s = of_nat (topmost {i. i < MAX_LAYER \<and> opaque ops (layer_state s OR default_layer_state s) key s i})"

definition types :: "'e eeprom_ops \<Rightarrow> 'e kb \<Rightarrow> keypos \<Rightarrow> u8 \<Rightarrow> bool" where
  "types ops s key c \<longleftrightarrow> is_matrix_key key \<and> IS_BASIC_KEYCODE c \<and> action_at ops (layer_of ops key s) key s = ACTION_KEY (ucast c)"

lemma map_state_lookup:
  assumes "map_state s' = map_state s"
  shows "action_at ops l key s' = action_at ops l key s" and "layer_of ops key s' = layer_of ops key s"
    and "types ops s' key c = types ops s key c"
  using assms by (simp_all add: map_state_def action_at_def layer_of_def opaque_def types_def)

lemma key_action_fields:
  "kind_id (ACTION_KEY (ucast (c :: u8))) = 0" "key_mods (ACTION_KEY (ucast c)) = 0" "action_code (ACTION_KEY (ucast c)) = c"
  unfolding action_defs act_defs action_code_def field_defs
  by (rule bit_word_eqI; auto simp: bit_simps dest: bit_imp_le_length)+

lemma not_tap_lookup:
  assumes "layers_ok ops s" and "types ops s (ev_key e) c"
  obtains s1 where "is_tap_record ops (plain e 0) s = (False, s1)" "layers_ok ops s1" "without_lookup s1 = without_lookup s"
    "\<And>k. read_source_layers_cache k s1 = read_source_layers_cache k s"
proof (cases "IS_NOEVENT e")
  case True
  then show ?thesis using that [of s] assms(1) by (simp add: is_tap_record_def plain_def)
next
  case False
  obtain l t where g: "layer_switch_get_layer ops (ev_key e) s = (l, t)" by (cases "layer_switch_get_layer ops (ev_key e) s")
  obtain a u where a: "action_for_key ops l (ev_key e) t = (a, u)" by (cases "action_for_key ops l (ev_key e) t")
  have m: "memo_ok ops s" using assms(1) by (simp add: layers_ok_def)
  note top = get_layer_topmost [OF m g]
  have t: "memo_ok ops t" "memo_only s t" "l = layer_of ops (ev_key e) s" using top by (simp_all add: layer_of_def)
  note look = action_lookup [OF t(1) a]
  have "a = ACTION_KEY (ucast c)"
    using look assms(2) t(3) memo_only_fields [OF t(2)] by (simp add: types_def action_at_def)
  moreover have "\<not> is_tap_action (ACTION_KEY (ucast c))" by (simp add: is_tap_action_def key_action_fields act_defs)
  ultimately have "is_tap_record ops (plain e 0) s = (False, u)"
    using False by (simp add: is_tap_record_def plain_def layer_switch_get_action_def g a)
  moreover have "memo_only s u" "memo_ok ops u" using look t(2) memo_only_trans by blast+
  ultimately show ?thesis
    using that [of u] memo_only_layers_ok [of s u] assms(1) memo_without_lookup [of s u] read_cache_memo [of s u] by simp
qed

text \<open>
  What a handler may do with an ordinary key: look it up and change the variables of the handlers, which satisfy \<open>Q\<close> before
  and after.  The last argument is the layer cache afterwards.
\<close>

definition handled :: "'e eeprom_ops \<Rightarrow> (quantum_statics \<Rightarrow> bool) \<Rightarrow> 'e kb \<Rightarrow> 'e kb \<Rightarrow> (keypos \<Rightarrow> u8) \<Rightarrow> bool" where
  "handled ops Q s s' lc \<longleftrightarrow> layers_ok ops s' \<and> Q (statics s') \<and> without_lookup s' = without_lookup (s\<lparr>statics := statics s'\<rparr>) \<and>
     (\<forall>k. is_matrix_key k \<longrightarrow> read_source_layers_cache k s' = lc k)"

text \<open>An event of a key in a state that looks like \<open>s0\<close>: a released key was cached with its layer.\<close>

definition key_event_ready :: "'e eeprom_ops \<Rightarrow> (quantum_statics \<Rightarrow> bool) \<Rightarrow> 'e kb \<Rightarrow> keyevent \<Rightarrow> 'e kb \<Rightarrow> bool" where
  "key_event_ready ops Q s0 e s \<longleftrightarrow> \<not> IS_NOEVENT e \<and> Q (statics s) \<and> layers_ok ops s \<and> map_state s = map_state s0 \<and>
     (ev_pressed e \<or> read_source_layers_cache (ev_key e) s = layer_of ops (ev_key e) s0)"

definition cache_after :: "'e eeprom_ops \<Rightarrow> 'e kb \<Rightarrow> keyevent \<Rightarrow> 'e kb \<Rightarrow> keypos \<Rightarrow> u8" where
  "cache_after ops s0 e s k = (if ev_pressed e \<and> k = ev_key e then layer_of ops k s0 else read_source_layers_cache k s)"

text \<open>Handlers that let the records of the keys in \<open>P\<close> pass.\<close>

definition typing_hooks :: "'e eeprom_ops \<Rightarrow> (quantum_statics \<Rightarrow> bool) \<Rightarrow> 'e kb \<Rightarrow> keypos set \<Rightarrow> 'e hooks \<Rightarrow> bool" where
  "typing_hooks ops Q s0 P h \<longleftrightarrow> passive_hooks h \<and>
     (\<forall>e s. ev_key e \<in> P \<and> key_event_ready ops Q s0 e s \<longrightarrow>
        (\<exists>s'. process_record_quantum h (plain e 0) s = (True, s') \<and>
           (handled ops Q s s' (cache_after ops s0 e s) \<or> handled ops Q s s' (\<lambda>k. read_source_layers_cache k s))) \<and>
        handled ops Q s (post_process_record_quantum h (plain e 0) s) (\<lambda>k. read_source_layers_cache k s))"

lemma handled_fields:
  assumes "handled ops Q s s' lc"
  shows "layers_ok ops s'" "Q (statics s')" "map_state s' = map_state s" "keyboard_is s' KM = keyboard_is s KM"
    "is_matrix_key k \<Longrightarrow> read_source_layers_cache k s' = lc k"
proof -
  note w = lookup_only_fields [of s' "s\<lparr>statics := statics s'\<rparr>"]
  have "without_lookup s' = without_lookup (s\<lparr>statics := statics s'\<rparr>)" using assms by (simp add: handled_def)
  from w(1,2) [OF this] show "map_state s' = map_state s" "keyboard_is s' KM = keyboard_is s KM"
    by (simp_all add: map_state_def keyboard_is_def boot_synced_def host_sees_def nkro_active_def)
qed (use assms in \<open>auto simp: handled_def\<close>)

lemma handled_trans:
  assumes "handled ops Q s t c1" and "handled ops Q t u c2"
  shows "handled ops Q s u c2"
proof -
  have t: "without_lookup t = without_lookup (s\<lparr>statics := statics t\<rparr>)" and u: "without_lookup u = without_lookup (t\<lparr>statics := statics u\<rparr>)"
    using assms by (simp_all add: handled_def)
  have st: "without_lookup (x\<lparr>statics := q\<rparr>) = (without_lookup x)\<lparr>statics := q\<rparr>" for x :: "'a kb" and q
    by (simp add: without_lookup_def)
  have "without_lookup u = without_lookup (s\<lparr>statics := statics u\<rparr>)"
    unfolding u st t by simp
  then show ?thesis using assms(2) by (simp add: handled_def)
qed

lemma looked_up_handled:
  assumes "layers_ok ops s'" and "Q (statics s)" and "without_lookup s' = without_lookup s"
    and "\<And>k. is_matrix_key k \<Longrightarrow> read_source_layers_cache k s' = lc k"
  shows "handled ops Q s s' lc"
  using assms lookup_only_fields(5) [OF assms(3)] by (simp add: handled_def)

lemma plain_action:
  assumes "\<not> is_oneshot_layer_active s"
  shows "process_action f rec (ACTION_KEY (ucast c)) s =
    (rec, if ev_pressed (event rec) then register_code c s else unregister_code c s)"
  using assms
  by (simp add: process_action_def ends_oneshot_layer_def action_switch_def is_layer_action_def key_action_fields act_defs mods_key_def side_mods_def)

lemma process_plain:
  assumes h: "typing_hooks ops Q s0 P h" and e: "ev_key e \<in> P" "key_event_ready ops Q s0 e s" and os: "oneshot_layer_data s0 = 0"
    and c: "types ops s0 (ev_key e) c"
  obtains s1 where "handled ops Q s s1 (cache_after ops s0 e s)"
    "handled ops Q (if ev_pressed e then register_code c s1 else unregister_code c s1)
       (snd (process_record ops h (plain e 0) s)) (cache_after ops s0 e s)"
proof -
  obtain s' where hook: "process_record_quantum h (plain e 0) s = (True, s')"
      and s': "handled ops Q s s' (cache_after ops s0 e s) \<or> handled ops Q s s' (\<lambda>k. read_source_layers_cache k s)"
    using h e unfolding typing_hooks_def by blast
  have key: "is_matrix_key (ev_key e)" "key_ok (ev_key e)" "IS_BASIC_KEYCODE c" using c by (simp_all add: types_def key_ok_def)
  have f: "layers_ok ops s'" "Q (statics s')" "map_state s' = map_state s0"
    using s' handled_fields(1-3) e(2) by (metis key_event_ready_def)+
  have cache: "read_source_layers_cache k s' = (if ev_pressed e \<and> k = ev_key e \<and> handled ops Q s s' (cache_after ops s0 e s)
      then layer_of ops k s0 else read_source_layers_cache k s)" if "is_matrix_key k" for k
  proof (cases "handled ops Q s s' (cache_after ops s0 e s)")
    case True
    then show ?thesis using handled_fields(5) [OF True that] by (simp add: cache_after_def)
  next
    case False
    then show ?thesis using s' handled_fields(5) [of ops Q s s' "\<lambda>k. read_source_layers_cache k s"] that by simp
  qed
  obtain a s1 where st: "store_or_get_action ops (ev_pressed e) (ev_key e) s' = (a, s1)"
    by (cases "store_or_get_action ops (ev_pressed e) (ev_key e) s'")
  have top: "of_nat (topmost {i. i < MAX_LAYER \<and> opaque ops (layer_state s' OR default_layer_state s') (ev_key e) s' i}) =
      layer_of ops (ev_key e) s0"
    using map_state_lookup(2) [OF f(3), of ops "ev_key e"] by (simp add: layer_of_def)
  obtain l where l: "a = action_at ops l (ev_key e) s'" "layers_ok ops s1" "l = layer_of ops (ev_key e) s0"
      "\<And>k. is_matrix_key k \<Longrightarrow> read_source_layers_cache k s1 = (if ev_pressed e \<and> ev_key e = k then l else read_source_layers_cache k s')"
    by (rule store_or_get [OF f(1) key(2) st], rule that)
      (use top e(2) cache [OF key(1)] in \<open>auto simp: key_event_ready_def split: if_splits\<close>)
  have look: "without_lookup s1 = without_lookup s'" by (rule store_without_lookup [OF f(1) st])
  have "handled ops Q s' s1 (cache_after ops s0 e s)"
    by (rule looked_up_handled [where Q = Q, OF l(2) f(2) look]) (use l(3,4) cache in \<open>auto simp: cache_after_def\<close>)
  then have s1: "handled ops Q s s1 (cache_after ops s0 e s)" using s' handled_trans by blast
  have a: "a = ACTION_KEY (ucast c)" using l(1,3) c map_state_lookup(1) [OF f(3)] by (simp add: types_def)
  have "oneshot_layer_data s1 = 0" using handled_fields(3) [OF s1] e(2) os by (simp add: map_state_def key_event_ready_def)
  then have inactive: "\<not> is_oneshot_layer_active s1" by (rule run_inactive)
  let ?u = "if ev_pressed e then register_code c s1 else unregister_code c s1"
  have out: "without_output ?u = without_output s1" by (simp add: basic_without_output [OF key(3)])
  note u = output_only_fields [OF out]
  have "key_event_ready ops Q s0 e ?u"
    using e(2) u(1,2,4) handled_fields(1-3) [OF s1] handled_fields(5) [OF s1 key(1)] u(3) [of "ev_key e"]
    by (auto simp: key_event_ready_def cache_after_def simp del: if_split)
  then have post: "handled ops Q ?u (post_process_record_quantum h (plain e 0) ?u) (\<lambda>k. read_source_layers_cache k ?u)"
    using h e(1) unfolding typing_hooks_def by blast
  have "snd (process_record ops h (plain e 0) s) = post_process_record_quantum h (plain e 0) ?u"
    using hook st a inactive e(2) by (simp add: process_record_two plain_def plain_action key_event_ready_def split_def)
  moreover have "handled ops Q ?u (post_process_record_quantum h (plain e 0) ?u) (cache_after ops s0 e s)"
    using post handled_fields(5) [OF s1] u(3) by (simp add: handled_def del: if_split)
  ultimately show thesis using that [OF s1] by simp
qed

section \<open>Typing\<close>

definition typing :: "'e eeprom_ops \<Rightarrow> (quantum_statics \<Rightarrow> bool) \<Rightarrow> (keypos \<Rightarrow> u8) \<Rightarrow> 'e kb \<Rightarrow> u8 \<Rightarrow> 'e tapping \<Rightarrow> keypos set \<Rightarrow> bool" where
  "typing ops Q code s0 M t H \<longleftrightarrow> idle t \<and> layers_ok ops (core t) \<and> Q (statics (core t)) \<and> map_state (core t) = map_state s0 \<and>
     keyboard_is (core t) (code ` H, M) \<and> (\<forall>key \<in> H. read_source_layers_cache key (core t) = layer_of ops key s0)"

lemma idle_core [simp]: "idle (t\<lparr>core := s\<rparr>) = idle t"
  by (simp add: idle_def IS_TAPPING_def tapping_ok_def waiting_def)

lemma keyboard_is_weak: "keyboard_is s KM \<Longrightarrow> clear_weak_mods s = s"
  by (simp add: keyboard_is_def clear_weak_mods_def)

text \<open>The keyboard after one event: what the lookups and handlers left of it, with the code up or down.\<close>

lemma exec_key:
  assumes "typing ops Q code s0 M t H" and "typing_hooks ops Q s0 P h" and "ev_key e \<in> P" and "\<not> IS_NOEVENT e"
    and "oneshot_layer_data s0 = 0" and "types ops s0 (ev_key e) c"
    and "ev_pressed e \<or> read_source_layers_cache (ev_key e) (core t) = layer_of ops (ev_key e) s0"
  obtains s u where "action_exec ops h e t = t\<lparr>core := u\<rparr>" "handled ops Q (core t) s (cache_after ops s0 e (core t))"
    "handled ops Q (if ev_pressed e then register_code c s else unregister_code c s) u (cache_after ops s0 e (core t))"
proof -
  have t: "idle t" "layers_ok ops (core t)" "Q (statics (core t))" "map_state (core t) = map_state s0" "clear_weak_mods (core t) = core t"
    using assms(1) keyboard_is_weak by (auto simp: typing_def)
  have c: "types ops (core t) (ev_key e) c" using assms(6) map_state_lookup [OF t(4)] by simp
  obtain s1 where s1: "is_tap_record ops (plain e 0) (core t) = (False, s1)" "layers_ok ops s1"
      "without_lookup s1 = without_lookup (core t)" "\<And>k. read_source_layers_cache k s1 = read_source_layers_cache k (core t)"
    by (rule not_tap_lookup [OF t(2) c]) (blast intro: that)
  define v where "v = (if ev_pressed e then s1 else core t)"
  have v: "handled ops Q (core t) v (\<lambda>k. read_source_layers_cache k (core t))"
    by (rule looked_up_handled) (use s1 t in \<open>simp_all add: v_def\<close>)
  have same: "cache_after ops s0 e v = cache_after ops s0 e (core t)"
    by (rule ext) (simp add: cache_after_def v_def s1(4))
  have "key_event_ready ops Q s0 e v"
    using v t(4) assms(4,7) handled_fields(1-3) [OF v] s1(4) by (auto simp: key_event_ready_def v_def)
  from process_plain [OF assms(2,3) this assms(5,6), unfolded same]
  obtain s where s: "handled ops Q v s (cache_after ops s0 e (core t))"
    "handled ops Q (if ev_pressed e then register_code c s else unregister_code c s)
       (snd (process_record ops h (plain e 0) v)) (cache_after ops s0 e (core t))" .
  have "action_exec ops h e t = action_tapping_process ops h (plain e 0) t"
    using assms(2) t(5) by (simp add: exec_passive typing_hooks_def)
  also have "\<dots> = t\<lparr>core := snd (process_record ops h (plain e 0) v)\<rparr>"
    using idle_key [OF t(1), of e ops h] s1(1) by (simp add: v_def split: if_splits)
  finally show thesis using that s handled_trans [OF v s(1)] by blast
qed

text \<open>The abstract keyboard of ordinary keys: the set of keys that are held.\<close>

definition hold_step :: "keyevent \<Rightarrow> keypos set \<Rightarrow> keypos set" where
  "hold_step e H = (if ev_pressed e then insert (ev_key e) H else H - {ev_key e})"

fun strokes_fit :: "keypos set \<Rightarrow> keyevent list \<Rightarrow> keypos set \<Rightarrow> bool" where
  "strokes_fit P [] H = True"
| "strokes_fit P (e # es) H =
    (\<not> IS_NOEVENT e \<and> ev_key e \<in> P \<and> (ev_pressed e \<longleftrightarrow> ev_key e \<notin> H) \<and>
     card (hold_step e H) \<le> KEYBOARD_REPORT_KEYS \<and> strokes_fit P es (hold_step e H))"

lemma typing_step:
  assumes inv: "typing ops Q code s0 M t H" and h: "typing_hooks ops Q s0 P h" and os: "oneshot_layer_data s0 = 0"
    and P: "\<And>key. key \<in> P \<Longrightarrow> types ops s0 key (code key)" and inj: "inj_on code P"
    and H: "H \<subseteq> P" "finite H" and e: "strokes_fit P (e # es) H"
  shows "typing ops Q code s0 M (action_exec ops h e t) (hold_step e H)"
proof -
  have key: "types ops s0 (ev_key e) (code (ev_key e))" "IS_BASIC_KEYCODE (code (ev_key e))" "ev_key e \<in> P" "\<not> IS_NOEVENT e"
    using P [of "ev_key e"] e by (auto simp: types_def)
  have cached: "ev_pressed e \<or> read_source_layers_cache (ev_key e) (core t) = layer_of ops (ev_key e) s0"
    using e inv by (auto simp: typing_def)
  obtain s u where s: "action_exec ops h e t = t\<lparr>core := u\<rparr>" "handled ops Q (core t) s (cache_after ops s0 e (core t))"
      and u: "handled ops Q (if ev_pressed e then register_code (code (ev_key e)) s else unregister_code (code (ev_key e)) s) u
        (cache_after ops s0 e (core t))"
    by (rule exec_key [OF inv h key(3,4) os key(1) cached])
  let ?r = "if ev_pressed e then register_code (code (ev_key e)) s else unregister_code (code (ev_key e)) s"
  have out: "without_output ?r = without_output s" by (simp add: basic_without_output [OF key(2)])
  have host: "keyboard_is s (code ` H, M)" and map: "map_state s = map_state s0"
    using inv handled_fields(3,4) [OF s(2)] by (simp_all add: typing_def)
  have "keyboard_is ?r (code ` hold_step e H, M)"
  proof (cases "ev_pressed e")
    case True
    have "inj_on code (insert (ev_key e) H)" using inj_on_subset [OF inj, of "insert (ev_key e) H"] e H(1) by auto
    then have "card (insert (code (ev_key e)) (code ` H)) = card (hold_step e H)"
      using True card_image [of code "insert (ev_key e) H"] by (simp add: hold_step_def)
    then show ?thesis using True e keyboard_is_register [OF host key(2)] by (simp add: hold_step_def)
  next
    case False
    have "code ` H - {code (ev_key e)} = code ` (H - {ev_key e})"
      using inj H(1) e by (auto simp: inj_on_def)
    then show ?thesis
      using False keyboard_is_del [OF host, of "code (ev_key e)"] basic_not_modifier [OF key(2)] key(2)
      by (simp add: hold_step_def unregister_code_def)
  qed
  moreover have "\<forall>k \<in> hold_step e H. read_source_layers_cache k u = layer_of ops k s0"
  proof
    fix k assume k: "k \<in> hold_step e H"
    then have "is_matrix_key k" using P [of k] H(1) e by (auto simp: hold_step_def types_def split: if_splits)
    then show "read_source_layers_cache k u = layer_of ops k s0"
      using k inv handled_fields(5) [OF u] by (auto simp: hold_step_def typing_def cache_after_def split: if_splits)
  qed
  moreover have "map_state u = map_state s0" using handled_fields(3) [OF u] output_only_fields(1) [OF out] map by simp
  ultimately show ?thesis using inv handled_fields(1,2,4) [OF u] by (simp add: typing_def s(1) del: if_split)
qed

lemma typing_run:
  assumes "typing ops Q code s0 M t H" and "typing_hooks ops Q s0 P h" and "oneshot_layer_data s0 = 0"
    and "\<And>key. key \<in> P \<Longrightarrow> types ops s0 key (code key)" and "inj_on code P"
    and "H \<subseteq> P" and "finite H" and "strokes_fit P es H"
  shows "typing ops Q code s0 M (fold (action_exec ops h) es t) (fold hold_step es H)"
  using assms(1,6-8)
proof (induction es arbitrary: t H)
  case (Cons e es)
  have "typing ops Q code s0 M (action_exec ops h e t) (hold_step e H)"
    by (rule typing_step [OF Cons.prems(1) assms(2,3,4,5) Cons.prems(2-4)])
  moreover have "hold_step e H \<subseteq> P" "finite (hold_step e H)" using Cons.prems by (auto simp: hold_step_def)
  ultimately show ?case using Cons.IH Cons.prems(4) by simp
qed simp

text \<open>
  C2.  Typing on ordinary keys reaches the host.  Take keys that each type their own basic keycode on the current
  layers, handlers that let them pass, and a keyboard with no one-shot layer in the boot protocol.  Whatever the order in which up to six of
  them go down and up, after every event the last report the host has received holds exactly the codes of the
  keys that are held, and the modifiers are unchanged.
\<close>

theorem typing_reaches_host:
  assumes "typing ops Q code s0 M t H" and "typing_hooks ops Q s0 P h" and "oneshot_layer_data s0 = 0"
    and "\<And>key. key \<in> P \<Longrightarrow> types ops s0 key (code key)" and "inj_on code P"
    and "H \<subseteq> P" and "finite H" and "strokes_fit P es H"
  defines "t' \<equiv> fold (action_exec ops h) es t"
  shows "byte_keys (host_sees (core t')) = code ` fold hold_step es H \<and> host_sees (core t') ! 0 = M \<and>
    typing ops Q code s0 M t' (fold hold_step es H)"
  using typing_run [OF assms(1-8)] by (auto simp: typing_def keyboard_is_def t'_def)

text \<open>A board with A and B on two keys of its base layer, in a RAM EEPROM.\<close>

definition ab_eeprom :: "u8 list option" where
  "ab_eeprom = dynamic_keymap_set_keycode run_ops 0 2 4 5 (dynamic_keymap_set_keycode run_ops 0 2 3 4 (Some (replicate 2048 0)))"
definition ab_kb :: "u8 list option kb" where
  "ab_kb = (kb_static ab_eeprom)\<lparr>host_driver := True, keyboard_protocol := 0\<rparr>"
definition ab_code :: "keypos \<Rightarrow> u8" where
  "ab_code k = (if key_col k = 3 then 4 else 5)"
definition ab_keys :: "keypos set" where
  "ab_keys = {\<lparr>key_row = 2, key_col = 3\<rparr>, \<lparr>key_row = 2, key_col = 4\<rparr>}"
definition ab_event :: "u8 \<Rightarrow> bool \<Rightarrow> u16 \<Rightarrow> keyevent" where
  "ab_event col pressed time = \<lparr>ev_key = \<lparr>key_row = 2, key_col = col\<rparr>, ev_pressed = pressed, ev_time = time\<rparr>"

lemma ab_keycodes:
  "dynamic_keymap_get_keycode run_ops 0 2 3 ab_eeprom = 4" "dynamic_keymap_get_keycode run_ops 0 2 4 ab_eeprom = 5"
  unfolding ab_eeprom_def run_ops_def
  by (simp_all add: p1_ram.get_set_keycode p1_ram.set_good keymap_sizes)

lemma ab_types: "key \<in> ab_keys \<Longrightarrow> types run_ops ab_kb key (ab_code key)"
proof -
  assume k: "key \<in> ab_keys"
  have layer: "layer_of run_ops key ab_kb = 0"
    by (simp add: layer_of_def opaque_def ab_kb_def kb_static_def topmost_def)
  have ab: "eeprom_state ab_kb = ab_eeprom" "keymap_config ab_kb = 0" by (simp_all add: ab_kb_def kb_static_def)
  have act: "action_for_keycode 0 4 = 4" "action_for_keycode 0 5 = 5"
    by (simp_all add: action_for_keycode_def keycode_config_other kc_defs) (simp_all add: action_of_def within_def kc_defs action_defs act_defs)
  from k show ?thesis using ab_keycodes act
    by (auto simp: types_def layer ab ab_keys_def ab_code_def action_at_def keycode_at_def keycode_at_keymap_location_def
      is_matrix_key_def MATRIX_ROWS_def MATRIX_COLS_def IS_BASIC_KEYCODE_def within_def action_defs act_defs DYNAMIC_KEYMAP_LAYER_COUNT_def)
qed

lemma passing_hooks:
  assumes "passive_hooks h" and "\<And>rec s. process_record_quantum h rec s = (True, s)" and "\<And>rec s. post_process_record_quantum h rec s = s"
  shows "typing_hooks ops Q s0 P h"
proof -
  have "handled ops Q s s (\<lambda>k. read_source_layers_cache k s)" if "key_event_ready ops Q s0 e s" for e s
    using that by (simp add: handled_def key_event_ready_def)
  then show ?thesis using assms by (auto simp: typing_hooks_def)
qed

lemma ab_start:
  "typing run_ops (\<lambda>_. True) ab_code ab_kb 0 (tapping_static ab_kb) {}" "typing_hooks run_ops (\<lambda>_. True) ab_kb ab_keys run_hooks"
  "oneshot_layer_data ab_kb = 0" "inj_on ab_code ab_keys"
proof -
  show "typing run_ops (\<lambda>_. True) ab_code ab_kb 0 (tapping_static ab_kb) {}"
    using run_start(2) layers_ok_static [of run_ops ab_eeprom]
    by (auto simp: typing_def ab_kb_def kb_static_def layers_ok_def memo_ok_def memo_key_def keyboard_is_def boot_synced_def nkro_active_def
      host_sees_def byte_ok_def byte_keys_def report_defs idle_def tapping_static_def run_tapping_def IS_TAPPING_def IS_NOEVENT_def no_record_def
      tapping_ok_def waiting_def)
  show "typing_hooks run_ops (\<lambda>_. True) ab_kb ab_keys run_hooks"
    by (rule passing_hooks) (simp_all add: passive_hooks_def run_hooks_def)
qed (simp_all add: ab_kb_def kb_static_def ab_keys_def ab_code_def)

theorem typing_reaches_host_witness:
  "byte_keys (host_sees (core (fold (action_exec run_ops run_hooks) [ab_event 3 True 10, ab_event 4 True 20, ab_event 3 False 30]
     (tapping_static ab_kb)))) = {5}"
proof -
  have fit: "strokes_fit ab_keys [ab_event 3 True 10, ab_event 4 True 20, ab_event 3 False 30] {}"
    by (simp add: ab_event_def ab_keys_def IS_NOEVENT_def KEYLOC_TICK_def hold_step_def KEYBOARD_REPORT_KEYS_def card_insert_if)
  have "ab_code ` fold hold_step [ab_event 3 True 10, ab_event 4 True 20, ab_event 3 False 30] {} = {5}"
    by (simp add: hold_step_def ab_event_def ab_code_def insert_commute insert_Diff_if)
  then show ?thesis using typing_reaches_host [OF ab_start(1-3) ab_types ab_start(4) _ _ fit] by simp
qed

end
