(* ===== verification/Matrix_Scan.thy ===== *)
theory Matrix_Scan
  imports Debounce
begin

text \<open>
  quantum/matrix.c and the parts of quantum/matrix\_common.c it uses, for a board whose diodes lead from the rows to
  the columns and whose pins are all connected: the scan selects one column after the other, reads the row pins, and hands the
  raw matrix to the debouncer of the P1 (\<open>sym_eager_pk\<close>).

  The levels of the row pins are an argument of the scan: \<open>pins col row\<close> is the level of the pin of a row while a column is
  driven low.  Configuring the pins and the waits for the signals to settle have no effect in the model.
\<close>

section \<open>State\<close>

record matrix_state =
  raw_matrix :: "matrix_row list"
  matrix :: "matrix_row list"
  debounce_state :: "u8 eager_counting"

type_synonym pins = "nat \<Rightarrow> nat \<Rightarrow> bool"

definition DEBOUNCE :: nat where "DEBOUNCE = 20"
definition MATRIX_INPUT_PRESSED_STATE :: bool where "MATRIX_INPUT_PRESSED_STATE = False"
definition MATRIX_ROW_SHIFTER :: matrix_row where "MATRIX_ROW_SHIFTER = 1"

definition matrix_init :: matrix_state where
  "matrix_init = \<lparr>raw_matrix = replicate MATRIX_ROWS 0, matrix = replicate MATRIX_ROWS 0,
     debounce_state = eager_counting_init (MATRIX_ROWS * MATRIX_COLS)\<rparr>"

section \<open>Scanning\<close>

definition readMatrixPin :: "bool \<Rightarrow> u8" where
  "readMatrixPin level = (if level = MATRIX_INPUT_PRESSED_STATE then 0 else 1)"

definition matrix_read_rows_on_col :: "pins \<Rightarrow> nat \<Rightarrow> matrix_row \<Rightarrow> matrix_row list \<Rightarrow> matrix_row list" where
  "matrix_read_rows_on_col pins current_col row_shifter =
    fold (\<lambda>row current_matrix.
      if readMatrixPin (pins current_col row) = 0
      then current_matrix[row := current_matrix ! row OR row_shifter]
      else current_matrix[row := current_matrix ! row AND NOT row_shifter]) [0..<MATRIX_ROWS]"

definition read_matrix :: "pins \<Rightarrow> matrix_row list" where
  "read_matrix pins = fst (fold (\<lambda>col (curr_matrix, row_shifter).
      (matrix_read_rows_on_col pins col row_shifter curr_matrix, push_bit 1 row_shifter))
    [0..<MATRIX_COLS] (replicate MATRIX_ROWS 0, MATRIX_ROW_SHIFTER))"

definition matrix_scan :: "u32 \<Rightarrow> pins \<Rightarrow> matrix_state \<Rightarrow> bool \<times> matrix_state" where
  "matrix_scan now pins m =
    (let curr_matrix = read_matrix pins;
         changed = (raw_matrix m \<noteq> curr_matrix);
         raw = (if changed then curr_matrix else raw_matrix m);
         (changed, st, cooked) = debounce_sym_eager_pk DEBOUNCE now raw MATRIX_ROWS changed (debounce_state m, matrix m)
     in (changed, m\<lparr>raw_matrix := raw, matrix := cooked, debounce_state := st\<rparr>))"

definition matrix_get_row :: "nat \<Rightarrow> matrix_state \<Rightarrow> matrix_row" where
  "matrix_get_row row m = matrix m ! row"

definition matrix_is_on :: "nat \<Rightarrow> nat \<Rightarrow> matrix_state \<Rightarrow> bool" where
  "matrix_is_on row col m \<longleftrightarrow> matrix m ! row AND push_bit col 1 \<noteq> 0"

definition peek_matrix :: "nat \<Rightarrow> nat \<Rightarrow> bool \<Rightarrow> matrix_state \<Rightarrow> bool" where
  "peek_matrix row col raw m \<longleftrightarrow> (if raw then raw_matrix m else matrix m) ! row AND push_bit col MATRIX_ROW_SHIFTER \<noteq> 0"

section \<open>The scan reads every switch\<close>

lemma length_read_rows [simp]: "length (matrix_read_rows_on_col pins col sh m) = length m"
proof -
  have "length (fold (\<lambda>row cm. if readMatrixPin (pins col row) = 0 then cm[row := cm ! row OR sh] else cm[row := cm ! row AND NOT sh]) rows m) =
      length m" for rows
    by (induction rows arbitrary: m) simp_all
  then show ?thesis by (simp add: matrix_read_rows_on_col_def)
qed

lemma read_rows_nth:
  assumes "row < MATRIX_ROWS" and "length m = MATRIX_ROWS"
  shows "matrix_read_rows_on_col pins col sh m ! row = (if pins col row then m ! row AND NOT sh else m ! row OR sh)"
proof -
  let ?step = "\<lambda>row cm. if readMatrixPin (pins col row) = 0 then cm[row := cm ! row OR sh] else cm[row := cm ! row AND NOT sh]"
  have "fold ?step [0..<n] m ! row = (if row < n then if pins col row then m ! row AND NOT sh else m ! row OR sh else m ! row) \<and>
      length (fold ?step [0..<n] m) = MATRIX_ROWS" if "n \<le> MATRIX_ROWS" for n
    using that assms by (induction n) (auto simp: readMatrixPin_def MATRIX_INPUT_PRESSED_STATE_def nth_list_update less_Suc_eq)
  from this [of MATRIX_ROWS] show ?thesis
    using assms(1) by (simp add: matrix_read_rows_on_col_def)
qed

lemma read_matrix_cols:
  assumes "n \<le> MATRIX_COLS"
  shows "\<exists>m. fold (\<lambda>col (m, sh). (matrix_read_rows_on_col pins col sh m, push_bit 1 sh)) [0..<n]
      (replicate MATRIX_ROWS 0, MATRIX_ROW_SHIFTER) = (m, push_bit n 1) \<and> length m = MATRIX_ROWS \<and>
    (\<forall>row < MATRIX_ROWS. \<forall>c. bit (m ! row) c \<longleftrightarrow> c < n \<and> \<not> pins c row)"
  using assms
proof (induction n)
  case (Suc n)
  then obtain m where m: "fold (\<lambda>col (m, sh). (matrix_read_rows_on_col pins col sh m, push_bit 1 sh)) [0..<n]
      (replicate MATRIX_ROWS 0, MATRIX_ROW_SHIFTER) = (m, push_bit n 1)" "length m = MATRIX_ROWS"
    "\<forall>row < MATRIX_ROWS. \<forall>c. bit (m ! row) c \<longleftrightarrow> c < n \<and> \<not> pins c row"
    by auto
  have n: "n < 16"
    using Suc.prems by (simp add: MATRIX_COLS_def)
  have "bit (matrix_read_rows_on_col pins n (push_bit n 1) m ! row) c \<longleftrightarrow> c < Suc n \<and> \<not> pins c row" if "row < MATRIX_ROWS" for row c
    using that m(2,3) n by (auto simp: read_rows_nth bit_simps less_Suc_eq)
  then show ?case
    using m by (simp add: push_bit_push_bit)
qed (simp add: MATRIX_ROW_SHIFTER_def)

lemma read_matrix_bits:
  "length (read_matrix pins) = MATRIX_ROWS"
  "row < MATRIX_ROWS \<Longrightarrow> bit (read_matrix pins ! row) col \<longleftrightarrow> col < MATRIX_COLS \<and> \<not> pins col row"
  using read_matrix_cols [of MATRIX_COLS pins] by (auto simp: read_matrix_def)

end
