(* ===== verification/Mousekey.thy ===== *)
theory Mousekey
  imports Keyboard
begin

text \<open>
  quantum/mousekey.c in its default mode (accelerated, without inertia, kinetic speed or the three fixed speeds): the report
  the mouse keys build up, the repetition of movements by \<open>mousekey_task\<close>, and the acceleration.  The fields of a report are C
  \<open>int8_t\<close>: they are integers here, and \<open>int8\<close> is the conversion to the type.  The reports handed to
  \<open>host_mouse_send\<close> are appended to the trace \<open>mouse_sent\<close>, newest first.
\<close>

section \<open>State\<close>

definition int8 :: "int \<Rightarrow> int" where
  "int8 i = signed_take_bit 7 i"

record mouse_report =
  buttons :: u8
  mouse_x :: int
  mouse_y :: int
  mouse_v :: int
  mouse_h :: int

record mousekey =
  mouse_report :: mouse_report
  mousekey_accel :: u8
  mousekey_repeat :: u8
  mousekey_wheel_repeat :: u8
  last_timer_c :: u16
  last_timer_w :: u16
  mouse_sent :: "mouse_report list"

definition no_mouse_report :: mouse_report where
  "no_mouse_report = \<lparr>buttons = 0, mouse_x = 0, mouse_y = 0, mouse_v = 0, mouse_h = 0\<rparr>"

definition mousekey_static :: mousekey where
  "mousekey_static = \<lparr>mouse_report = no_mouse_report, mousekey_accel = 0, mousekey_repeat = 0, mousekey_wheel_repeat = 0,
     last_timer_c = 0, last_timer_w = 0, mouse_sent = []\<rparr>"

definition MOUSEKEY_MOVE_MAX :: nat where "MOUSEKEY_MOVE_MAX = 127"
definition MOUSEKEY_WHEEL_MAX :: nat where "MOUSEKEY_WHEEL_MAX = 127"
definition MOUSEKEY_MOVE_DELTA :: nat where "MOUSEKEY_MOVE_DELTA = 8"
definition MOUSEKEY_WHEEL_DELTA :: nat where "MOUSEKEY_WHEEL_DELTA = 1"
definition mk_delay :: nat where "mk_delay = 10 div 10"
definition mk_interval :: nat where "mk_interval = 20"
definition mk_max_speed :: nat where "mk_max_speed = 10"
definition mk_time_to_max :: nat where "mk_time_to_max = 30"
definition mk_wheel_delay :: nat where "mk_wheel_delay = 10 div 10"
definition mk_wheel_interval :: nat where "mk_wheel_interval = 80"
definition mk_wheel_max_speed :: nat where "mk_wheel_max_speed = 8"
definition mk_wheel_time_to_max :: nat where "mk_wheel_time_to_max = 40"

definition KC_MS_UP :: u8 where "KC_MS_UP = 0xCD"
definition KC_MS_DOWN :: u8 where "KC_MS_DOWN = 0xCE"
definition KC_MS_LEFT :: u8 where "KC_MS_LEFT = 0xCF"
definition KC_MS_RIGHT :: u8 where "KC_MS_RIGHT = 0xD0"
definition KC_MS_BTN1 :: u8 where "KC_MS_BTN1 = 0xD1"
definition KC_MS_BTN8 :: u8 where "KC_MS_BTN8 = 0xD8"
definition KC_MS_WH_UP :: u8 where "KC_MS_WH_UP = 0xD9"
definition KC_MS_WH_DOWN :: u8 where "KC_MS_WH_DOWN = 0xDA"
definition KC_MS_WH_LEFT :: u8 where "KC_MS_WH_LEFT = 0xDB"
definition KC_MS_WH_RIGHT :: u8 where "KC_MS_WH_RIGHT = 0xDC"
definition KC_MS_ACCEL0 :: u8 where "KC_MS_ACCEL0 = 0xDD"
definition KC_MS_ACCEL1 :: u8 where "KC_MS_ACCEL1 = 0xDE"
definition KC_MS_ACCEL2 :: u8 where "KC_MS_ACCEL2 = 0xDF"

definition IS_MOUSEKEY_BUTTON :: "u8 \<Rightarrow> bool" where
  "IS_MOUSEKEY_BUTTON code \<longleftrightarrow> KC_MS_BTN1 \<le> code \<and> code \<le> KC_MS_BTN8"

lemmas mouse_consts = MOUSEKEY_MOVE_MAX_def MOUSEKEY_WHEEL_MAX_def MOUSEKEY_MOVE_DELTA_def MOUSEKEY_WHEEL_DELTA_def
  mk_delay_def mk_interval_def mk_max_speed_def mk_time_to_max_def mk_wheel_delay_def mk_wheel_interval_def
  mk_wheel_max_speed_def mk_wheel_time_to_max_def

lemmas mouse_codes = KC_MS_UP_def KC_MS_DOWN_def KC_MS_LEFT_def KC_MS_RIGHT_def KC_MS_BTN1_def KC_MS_BTN8_def KC_MS_WH_UP_def
  KC_MS_WH_DOWN_def KC_MS_WH_LEFT_def KC_MS_WH_RIGHT_def KC_MS_ACCEL0_def KC_MS_ACCEL1_def KC_MS_ACCEL2_def

section \<open>Speed\<close>

definition times_inv_sqrt2 :: "int \<Rightarrow> int" where
  "times_inv_sqrt2 x = int8 (drop_bit 8 (x * 181))"

text \<open>The unit is a \<open>uint16_t\<close>; the arithmetic in front of the assignment is in C \<open>int\<close>.\<close>

definition clamp_unit :: "nat \<Rightarrow> nat \<Rightarrow> nat" where
  "clamp_unit limit unit = (let unit = unit mod 2 ^ 16 in if unit > limit then limit else if unit = 0 then 1 else unit)"

definition move_unit :: "mousekey \<Rightarrow> nat" where
  "move_unit m = clamp_unit MOUSEKEY_MOVE_MAX
    (if bit (mousekey_accel m) 0 then MOUSEKEY_MOVE_DELTA * mk_max_speed div 4
     else if bit (mousekey_accel m) 1 then MOUSEKEY_MOVE_DELTA * mk_max_speed div 2
     else if bit (mousekey_accel m) 2 then MOUSEKEY_MOVE_DELTA * mk_max_speed
     else if mousekey_repeat m = 0 then MOUSEKEY_MOVE_DELTA
     else if unat (mousekey_repeat m) \<ge> mk_time_to_max then MOUSEKEY_MOVE_DELTA * mk_max_speed
     else MOUSEKEY_MOVE_DELTA * mk_max_speed * unat (mousekey_repeat m) div mk_time_to_max)"

definition wheel_unit :: "mousekey \<Rightarrow> nat" where
  "wheel_unit m = clamp_unit MOUSEKEY_WHEEL_MAX
    (if bit (mousekey_accel m) 0 then MOUSEKEY_WHEEL_DELTA * mk_wheel_max_speed div 4
     else if bit (mousekey_accel m) 1 then MOUSEKEY_WHEEL_DELTA * mk_wheel_max_speed div 2
     else if bit (mousekey_accel m) 2 then MOUSEKEY_WHEEL_DELTA * mk_wheel_max_speed
     else if mousekey_wheel_repeat m = 0 then MOUSEKEY_WHEEL_DELTA
     else if unat (mousekey_wheel_repeat m) \<ge> mk_wheel_time_to_max then MOUSEKEY_WHEEL_DELTA * mk_wheel_max_speed
     else MOUSEKEY_WHEEL_DELTA * mk_wheel_max_speed * unat (mousekey_wheel_repeat m) div mk_wheel_time_to_max)"

section \<open>Sending and clearing\<close>

definition mousekey_send :: "u16 \<Rightarrow> mousekey \<Rightarrow> mousekey" where
  "mousekey_send time m =
    (let r = mouse_report m;
         m = (if mouse_x r \<noteq> 0 \<or> mouse_y r \<noteq> 0 then m\<lparr>last_timer_c := time\<rparr> else m);
         m = (if mouse_v r \<noteq> 0 \<or> mouse_h r \<noteq> 0 then m\<lparr>last_timer_w := time\<rparr> else m)
     in m\<lparr>mouse_sent := r # mouse_sent m\<rparr>)"

definition mousekey_clear :: "mousekey \<Rightarrow> mousekey" where
  "mousekey_clear m = m\<lparr>mouse_report := no_mouse_report, mousekey_repeat := 0, mousekey_wheel_repeat := 0, mousekey_accel := 0\<rparr>"

definition should_mousekey_report_send :: "mouse_report \<Rightarrow> bool" where
  "should_mousekey_report_send r \<longleftrightarrow> mouse_x r \<noteq> 0 \<or> mouse_y r \<noteq> 0 \<or> mouse_v r \<noteq> 0 \<or> mouse_h r \<noteq> 0"

definition has_mouse_report_changed :: "mouse_report \<Rightarrow> mouse_report \<Rightarrow> bool" where
  "has_mouse_report_changed new old \<longleftrightarrow> new \<noteq> old"

section \<open>Keys\<close>

definition mousekey_on :: "u8 \<Rightarrow> mousekey \<Rightarrow> mousekey" where
  "mousekey_on code m =
    (let r = mouse_report m in
     if code = KC_MS_UP then m\<lparr>mouse_report := r\<lparr>mouse_y := int8 (int (move_unit m) * -1)\<rparr>\<rparr>
     else if code = KC_MS_DOWN then m\<lparr>mouse_report := r\<lparr>mouse_y := int8 (int (move_unit m))\<rparr>\<rparr>
     else if code = KC_MS_LEFT then m\<lparr>mouse_report := r\<lparr>mouse_x := int8 (int (move_unit m) * -1)\<rparr>\<rparr>
     else if code = KC_MS_RIGHT then m\<lparr>mouse_report := r\<lparr>mouse_x := int8 (int (move_unit m))\<rparr>\<rparr>
     else if code = KC_MS_WH_UP then m\<lparr>mouse_report := r\<lparr>mouse_v := int8 (int (wheel_unit m))\<rparr>\<rparr>
     else if code = KC_MS_WH_DOWN then m\<lparr>mouse_report := r\<lparr>mouse_v := int8 (int (wheel_unit m) * -1)\<rparr>\<rparr>
     else if code = KC_MS_WH_LEFT then m\<lparr>mouse_report := r\<lparr>mouse_h := int8 (int (wheel_unit m) * -1)\<rparr>\<rparr>
     else if code = KC_MS_WH_RIGHT then m\<lparr>mouse_report := r\<lparr>mouse_h := int8 (int (wheel_unit m))\<rparr>\<rparr>
     else if IS_MOUSEKEY_BUTTON code
     then m\<lparr>mouse_report := r\<lparr>buttons := buttons r OR push_bit (unat (code - KC_MS_BTN1)) 1\<rparr>\<rparr>
     else if code = KC_MS_ACCEL0 then m\<lparr>mousekey_accel := set_bit 0 (mousekey_accel m)\<rparr>
     else if code = KC_MS_ACCEL1 then m\<lparr>mousekey_accel := set_bit 1 (mousekey_accel m)\<rparr>
     else if code = KC_MS_ACCEL2 then m\<lparr>mousekey_accel := set_bit 2 (mousekey_accel m)\<rparr>
     else m)"

definition mousekey_off :: "u8 \<Rightarrow> mousekey \<Rightarrow> mousekey" where
  "mousekey_off code m =
    (let r = mouse_report m;
         m = (if code = KC_MS_UP \<and> mouse_y r < 0 then m\<lparr>mouse_report := r\<lparr>mouse_y := 0\<rparr>\<rparr>
              else if code = KC_MS_DOWN \<and> mouse_y r > 0 then m\<lparr>mouse_report := r\<lparr>mouse_y := 0\<rparr>\<rparr>
              else if code = KC_MS_LEFT \<and> mouse_x r < 0 then m\<lparr>mouse_report := r\<lparr>mouse_x := 0\<rparr>\<rparr>
              else if code = KC_MS_RIGHT \<and> mouse_x r > 0 then m\<lparr>mouse_report := r\<lparr>mouse_x := 0\<rparr>\<rparr>
              else if code = KC_MS_WH_UP \<and> mouse_v r > 0 then m\<lparr>mouse_report := r\<lparr>mouse_v := 0\<rparr>\<rparr>
              else if code = KC_MS_WH_DOWN \<and> mouse_v r < 0 then m\<lparr>mouse_report := r\<lparr>mouse_v := 0\<rparr>\<rparr>
              else if code = KC_MS_WH_LEFT \<and> mouse_h r < 0 then m\<lparr>mouse_report := r\<lparr>mouse_h := 0\<rparr>\<rparr>
              else if code = KC_MS_WH_RIGHT \<and> mouse_h r > 0 then m\<lparr>mouse_report := r\<lparr>mouse_h := 0\<rparr>\<rparr>
              else if IS_MOUSEKEY_BUTTON code
              then m\<lparr>mouse_report := r\<lparr>buttons := buttons r AND NOT (push_bit (unat (code - KC_MS_BTN1)) 1)\<rparr>\<rparr>
              else if code = KC_MS_ACCEL0 then m\<lparr>mousekey_accel := unset_bit 0 (mousekey_accel m)\<rparr>
              else if code = KC_MS_ACCEL1 then m\<lparr>mousekey_accel := unset_bit 1 (mousekey_accel m)\<rparr>
              else if code = KC_MS_ACCEL2 then m\<lparr>mousekey_accel := unset_bit 2 (mousekey_accel m)\<rparr>
              else m);
         m = (if mouse_x (mouse_report m) = 0 \<and> mouse_y (mouse_report m) = 0 then m\<lparr>mousekey_repeat := 0\<rparr> else m)
     in if mouse_v (mouse_report m) = 0 \<and> mouse_h (mouse_report m) = 0 then m\<lparr>mousekey_wheel_repeat := 0\<rparr> else m)"

section \<open>The task\<close>

text \<open>One axis of a repeated movement, and the correction of a diagonal one.\<close>

definition axis_unit :: "nat \<Rightarrow> int \<Rightarrow> int" where
  "axis_unit unit held = (if held \<noteq> 0 then int8 (int unit * (if held > 0 then 1 else -1)) else 0)"

definition diagonal :: "int \<Rightarrow> int" where
  "diagonal d = (let d = times_inv_sqrt2 d in if d = 0 then 1 else d)"

definition both_axes :: "int \<times> int \<Rightarrow> int \<times> int" where
  "both_axes = (\<lambda>(a, b). if a \<noteq> 0 \<and> b \<noteq> 0 then (diagonal a, diagonal b) else (a, b))"

definition repeat_up :: "u8 \<Rightarrow> u8" where
  "repeat_up n = (if n \<noteq> 255 then n + 1 else n)"

definition repeat_move :: "u16 \<Rightarrow> mouse_report \<Rightarrow> mousekey \<Rightarrow> mousekey" where
  "repeat_move now tmpmr m =
    (if (mouse_x tmpmr \<noteq> 0 \<or> mouse_y tmpmr \<noteq> 0) \<and>
        unat (timer_diff16 now (last_timer_c m)) > (if mousekey_repeat m \<noteq> 0 then mk_interval else mk_delay * 10)
     then let m = m\<lparr>mousekey_repeat := repeat_up (mousekey_repeat m)\<rparr>;
              (x, y) = both_axes (axis_unit (move_unit m) (mouse_x tmpmr), axis_unit (move_unit m) (mouse_y tmpmr))
          in m\<lparr>mouse_report := (mouse_report m)\<lparr>mouse_x := x, mouse_y := y\<rparr>\<rparr>
     else m)"

definition repeat_wheel :: "u16 \<Rightarrow> mouse_report \<Rightarrow> mousekey \<Rightarrow> mousekey" where
  "repeat_wheel now tmpmr m =
    (if (mouse_v tmpmr \<noteq> 0 \<or> mouse_h tmpmr \<noteq> 0) \<and>
        unat (timer_diff16 now (last_timer_w m)) > (if mousekey_wheel_repeat m \<noteq> 0 then mk_wheel_interval else mk_wheel_delay * 10)
     then let m = m\<lparr>mousekey_wheel_repeat := repeat_up (mousekey_wheel_repeat m)\<rparr>;
              (v, h) = both_axes (axis_unit (wheel_unit m) (mouse_v tmpmr), axis_unit (wheel_unit m) (mouse_h tmpmr))
          in m\<lparr>mouse_report := (mouse_report m)\<lparr>mouse_v := v, mouse_h := h\<rparr>\<rparr>
     else m)"

definition mousekey_task :: "u16 \<Rightarrow> mousekey \<Rightarrow> mousekey" where
  "mousekey_task now m =
    (let tmpmr = mouse_report m;
         m = m\<lparr>mouse_report := tmpmr\<lparr>mouse_x := 0, mouse_y := 0, mouse_v := 0, mouse_h := 0\<rparr>\<rparr>;
         m = repeat_wheel now tmpmr (repeat_move now tmpmr m);
         m = (if has_mouse_report_changed (mouse_report m) tmpmr \<or> should_mousekey_report_send (mouse_report m)
              then mousekey_send now m else m)
     in m\<lparr>mouse_report := tmpmr\<rparr>)"

section \<open>The pointer moves only while a key is held\<close>

text \<open>What a report may show while the mouse keys in \<open>H\<close> are down.\<close>

definition axis_ok :: "u8 \<Rightarrow> u8 \<Rightarrow> u8 set \<Rightarrow> int \<Rightarrow> bool" where
  "axis_ok neg pos H d \<longleftrightarrow> \<bar>d\<bar> \<le> 127 \<and> (d < 0 \<longrightarrow> neg \<in> H) \<and> (d > 0 \<longrightarrow> pos \<in> H)"

definition shows_held :: "u8 set \<Rightarrow> mouse_report \<Rightarrow> bool" where
  "shows_held H r \<longleftrightarrow> axis_ok KC_MS_LEFT KC_MS_RIGHT H (mouse_x r) \<and> axis_ok KC_MS_UP KC_MS_DOWN H (mouse_y r) \<and>
     axis_ok KC_MS_WH_DOWN KC_MS_WH_UP H (mouse_v r) \<and> axis_ok KC_MS_WH_LEFT KC_MS_WH_RIGHT H (mouse_h r) \<and>
     (\<forall>i < 8. bit (buttons r) i \<longleftrightarrow> KC_MS_BTN1 + of_nat i \<in> H)"

datatype mouse_call = Mouse_On u8 | Mouse_Off u8 | Mouse_Clear | Mouse_Send u16 | Mouse_Task u16

fun mouse_step :: "mouse_call \<Rightarrow> mousekey \<Rightarrow> mousekey" where
  "mouse_step (Mouse_On code) m = mousekey_on code m"
| "mouse_step (Mouse_Off code) m = mousekey_off code m"
| "mouse_step Mouse_Clear m = mousekey_clear m"
| "mouse_step (Mouse_Send now) m = mousekey_send now m"
| "mouse_step (Mouse_Task now) m = mousekey_task now m"

text \<open>The keys that went down since the last call of \<open>mousekey_clear\<close>, which forgets them, and are still down.\<close>

fun held_step :: "mouse_call \<Rightarrow> u8 set \<Rightarrow> u8 set" where
  "held_step (Mouse_On code) H = insert code H"
| "held_step (Mouse_Off code) H = H - {code}"
| "held_step Mouse_Clear H = {}"
| "held_step (Mouse_Send now) H = H"
| "held_step (Mouse_Task now) H = H"

lemma int8_id: "- 128 \<le> i \<Longrightarrow> i \<le> 127 \<Longrightarrow> int8 i = i"
  by (simp add: int8_def signed_take_bit_int_eq_self)

lemma clamp_unit_range: "0 < limit \<Longrightarrow> 0 < clamp_unit limit u \<and> clamp_unit limit u \<le> limit"
  by (auto simp: clamp_unit_def Let_def)

lemma unit_range:
  "0 < move_unit m" "move_unit m \<le> 127" "0 < wheel_unit m" "wheel_unit m \<le> 127"
  using clamp_unit_range [of 127] by (simp_all add: move_unit_def wheel_unit_def MOUSEKEY_MOVE_MAX_def MOUSEKEY_WHEEL_MAX_def)

lemma diagonal_range:
  assumes "\<bar>d\<bar> \<le> 127" and "d \<noteq> 0"
  shows "\<bar>diagonal d\<bar> \<le> 127 \<and> sgn (diagonal d) = sgn d"
proof -
  have t: "times_inv_sqrt2 d = d * 181 div 256"
    using assms(1) by (simp add: times_inv_sqrt2_def drop_bit_eq_div int8_id)
  show ?thesis
  proof (cases "d > 0")
    case True
    then have "0 \<le> d * 181 div 256" "d * 181 div 256 \<le> 127"
      using assms(1) by simp_all
    then show ?thesis using True by (simp add: diagonal_def t Let_def)
  next
    case False
    then have "d * 181 div 256 < 0" "- 127 \<le> d * 181 div 256"
      using assms by simp_all
    then show ?thesis using False assms(2) by (simp add: diagonal_def t Let_def)
  qed
qed

lemma axis_unit_range:
  assumes "0 < u" "u \<le> 127"
  shows "\<bar>axis_unit u d\<bar> \<le> 127 \<and> sgn (axis_unit u d) = sgn d"
  using assms by (auto simp: axis_unit_def int8_id)

lemma axis_ok_sgn: "axis_ok neg pos H d \<Longrightarrow> \<bar>d'\<bar> \<le> 127 \<Longrightarrow> sgn d' = sgn d \<or> d' = 0 \<Longrightarrow> axis_ok neg pos H d'"
  by (auto simp: axis_ok_def sgn_if split: if_splits)

lemma both_axes_range:
  assumes "0 < u" "u \<le> 127" and "both_axes (axis_unit u d, axis_unit u e) = (a, b)"
  shows "\<bar>a\<bar> \<le> 127 \<and> sgn a = sgn d" and "\<bar>b\<bar> \<le> 127 \<and> sgn b = sgn e"
  using assms(3) axis_unit_range [OF assms(1,2)] diagonal_range [of "axis_unit u d"] diagonal_range [of "axis_unit u e"]
  by (auto simp: both_axes_def split: if_splits)

lemma button_index:
  assumes "IS_MOUSEKEY_BUTTON code"
  shows "unat (code - KC_MS_BTN1) < 8" and "i < 8 \<Longrightarrow> code = KC_MS_BTN1 + of_nat i \<longleftrightarrow> unat (code - KC_MS_BTN1) = i"
proof -
  have range: "unat code \<ge> 0xD1" "unat code \<le> 0xD8"
    using assms by (simp_all add: IS_MOUSEKEY_BUTTON_def KC_MS_BTN1_def KC_MS_BTN8_def word_le_nat_alt)
  then have d: "unat (code - KC_MS_BTN1) = unat code - 0xD1"
    by (simp add: KC_MS_BTN1_def unat_sub word_le_nat_alt)
  then show "unat (code - KC_MS_BTN1) < 8"
    using range by simp
  show "code = KC_MS_BTN1 + of_nat i \<longleftrightarrow> unat (code - KC_MS_BTN1) = i" if "i < 8"
  proof
    assume "code = KC_MS_BTN1 + of_nat i"
    then show "unat (code - KC_MS_BTN1) = i"
      using that by (simp add: unat_of_nat_u8)
  next
    assume "unat (code - KC_MS_BTN1) = i"
    then have "of_nat i = code - KC_MS_BTN1"
      by auto
    then show "code = KC_MS_BTN1 + of_nat i"
      by simp
  qed
qed

lemma not_button:
  assumes "\<not> IS_MOUSEKEY_BUTTON code" and "i < 8"
  shows "code \<noteq> KC_MS_BTN1 + of_nat i"
proof
  assume "code = KC_MS_BTN1 + of_nat i"
  moreover have "unat (KC_MS_BTN1 + of_nat i :: u8) = 0xD1 + i"
    using assms(2) by (simp add: KC_MS_BTN1_def unat_word_ariths unat_of_nat_u8)
  ultimately show False
    using assms by (simp add: IS_MOUSEKEY_BUTTON_def KC_MS_BTN1_def KC_MS_BTN8_def word_le_nat_alt)
qed

text \<open>The codes of movements are no buttons, and they differ.\<close>

lemma movement_codes [simp]:
  "\<not> IS_MOUSEKEY_BUTTON KC_MS_UP" "\<not> IS_MOUSEKEY_BUTTON KC_MS_DOWN" "\<not> IS_MOUSEKEY_BUTTON KC_MS_LEFT" "\<not> IS_MOUSEKEY_BUTTON KC_MS_RIGHT"
  "\<not> IS_MOUSEKEY_BUTTON KC_MS_WH_UP" "\<not> IS_MOUSEKEY_BUTTON KC_MS_WH_DOWN" "\<not> IS_MOUSEKEY_BUTTON KC_MS_WH_LEFT"
  "\<not> IS_MOUSEKEY_BUTTON KC_MS_WH_RIGHT" "\<not> IS_MOUSEKEY_BUTTON KC_MS_ACCEL0" "\<not> IS_MOUSEKEY_BUTTON KC_MS_ACCEL1"
  "\<not> IS_MOUSEKEY_BUTTON KC_MS_ACCEL2"
  by (simp_all add: IS_MOUSEKEY_BUTTON_def mouse_codes)

lemma codes_differ:
  "KC_MS_UP \<noteq> KC_MS_DOWN" "KC_MS_UP \<noteq> KC_MS_LEFT" "KC_MS_UP \<noteq> KC_MS_RIGHT" "KC_MS_UP \<noteq> KC_MS_WH_UP"
  "KC_MS_UP \<noteq> KC_MS_WH_DOWN" "KC_MS_UP \<noteq> KC_MS_WH_LEFT" "KC_MS_UP \<noteq> KC_MS_WH_RIGHT" "KC_MS_UP \<noteq> KC_MS_ACCEL0"
  "KC_MS_UP \<noteq> KC_MS_ACCEL1" "KC_MS_UP \<noteq> KC_MS_ACCEL2" "KC_MS_DOWN \<noteq> KC_MS_LEFT" "KC_MS_DOWN \<noteq> KC_MS_RIGHT"
  "KC_MS_DOWN \<noteq> KC_MS_WH_UP" "KC_MS_DOWN \<noteq> KC_MS_WH_DOWN" "KC_MS_DOWN \<noteq> KC_MS_WH_LEFT" "KC_MS_DOWN \<noteq> KC_MS_WH_RIGHT"
  "KC_MS_DOWN \<noteq> KC_MS_ACCEL0" "KC_MS_DOWN \<noteq> KC_MS_ACCEL1" "KC_MS_DOWN \<noteq> KC_MS_ACCEL2" "KC_MS_LEFT \<noteq> KC_MS_RIGHT"
  "KC_MS_LEFT \<noteq> KC_MS_WH_UP" "KC_MS_LEFT \<noteq> KC_MS_WH_DOWN" "KC_MS_LEFT \<noteq> KC_MS_WH_LEFT" "KC_MS_LEFT \<noteq> KC_MS_WH_RIGHT"
  "KC_MS_LEFT \<noteq> KC_MS_ACCEL0" "KC_MS_LEFT \<noteq> KC_MS_ACCEL1" "KC_MS_LEFT \<noteq> KC_MS_ACCEL2" "KC_MS_RIGHT \<noteq> KC_MS_WH_UP"
  "KC_MS_RIGHT \<noteq> KC_MS_WH_DOWN" "KC_MS_RIGHT \<noteq> KC_MS_WH_LEFT" "KC_MS_RIGHT \<noteq> KC_MS_WH_RIGHT" "KC_MS_RIGHT \<noteq> KC_MS_ACCEL0"
  "KC_MS_RIGHT \<noteq> KC_MS_ACCEL1" "KC_MS_RIGHT \<noteq> KC_MS_ACCEL2" "KC_MS_WH_UP \<noteq> KC_MS_WH_DOWN" "KC_MS_WH_UP \<noteq> KC_MS_WH_LEFT"
  "KC_MS_WH_UP \<noteq> KC_MS_WH_RIGHT" "KC_MS_WH_UP \<noteq> KC_MS_ACCEL0" "KC_MS_WH_UP \<noteq> KC_MS_ACCEL1" "KC_MS_WH_UP \<noteq> KC_MS_ACCEL2"
  "KC_MS_WH_DOWN \<noteq> KC_MS_WH_LEFT" "KC_MS_WH_DOWN \<noteq> KC_MS_WH_RIGHT" "KC_MS_WH_DOWN \<noteq> KC_MS_ACCEL0" "KC_MS_WH_DOWN \<noteq> KC_MS_ACCEL1"
  "KC_MS_WH_DOWN \<noteq> KC_MS_ACCEL2" "KC_MS_WH_LEFT \<noteq> KC_MS_WH_RIGHT" "KC_MS_WH_LEFT \<noteq> KC_MS_ACCEL0" "KC_MS_WH_LEFT \<noteq> KC_MS_ACCEL1"
  "KC_MS_WH_LEFT \<noteq> KC_MS_ACCEL2" "KC_MS_WH_RIGHT \<noteq> KC_MS_ACCEL0" "KC_MS_WH_RIGHT \<noteq> KC_MS_ACCEL1" "KC_MS_WH_RIGHT \<noteq> KC_MS_ACCEL2"
  "KC_MS_ACCEL0 \<noteq> KC_MS_ACCEL1" "KC_MS_ACCEL0 \<noteq> KC_MS_ACCEL2" "KC_MS_ACCEL1 \<noteq> KC_MS_ACCEL2"
  by (simp_all add: mouse_codes)

lemmas codes_neq [simp] = codes_differ codes_differ [symmetric]

definition buttons_ok :: "u8 set \<Rightarrow> u8 \<Rightarrow> bool" where
  "buttons_ok H b \<longleftrightarrow> (\<forall>i < 8. bit b i \<longleftrightarrow> KC_MS_BTN1 + of_nat i \<in> H)"

lemma buttons_ok_step:
  assumes "buttons_ok H b"
  shows "IS_MOUSEKEY_BUTTON code \<Longrightarrow> buttons_ok (insert code H) (b OR push_bit (unat (code - KC_MS_BTN1)) 1)"
    and "IS_MOUSEKEY_BUTTON code \<Longrightarrow> buttons_ok (H - {code}) (b AND NOT (push_bit (unat (code - KC_MS_BTN1)) 1))"
    and "\<not> IS_MOUSEKEY_BUTTON code \<Longrightarrow> buttons_ok (insert code H) b"
    and "\<not> IS_MOUSEKEY_BUTTON code \<Longrightarrow> buttons_ok (H - {code}) b"
  using assms not_button [of code] button_index [of code]
  by (auto simp: buttons_ok_def bit_simps eq_commute [of "KC_MS_BTN1 + of_nat _" code])

lemma axis_ok_insert: "axis_ok neg pos H d \<Longrightarrow> axis_ok neg pos (insert code H) d"
  by (auto simp: axis_ok_def)

lemma axis_ok_remove: "axis_ok neg pos H d \<Longrightarrow> (code = neg \<longrightarrow> 0 \<le> d) \<Longrightarrow> (code = pos \<longrightarrow> d \<le> 0) \<Longrightarrow> axis_ok neg pos (H - {code}) d"
  by (auto simp: axis_ok_def)

lemma axis_ok_zero [simp]: "axis_ok neg pos H 0"
  by (simp add: axis_ok_def)

lemma axis_ok_unit [simp]:
  "0 < u \<Longrightarrow> u \<le> 127 \<Longrightarrow> axis_ok neg pos (insert pos H) (int8 (int u))"
  "0 < u \<Longrightarrow> u \<le> 127 \<Longrightarrow> axis_ok neg pos (insert neg H) (int8 (- int u))"
  by (simp_all add: axis_ok_def int8_id)

lemma shows_held_alt: "shows_held H r \<longleftrightarrow> axis_ok KC_MS_LEFT KC_MS_RIGHT H (mouse_x r) \<and> axis_ok KC_MS_UP KC_MS_DOWN H (mouse_y r) \<and>
     axis_ok KC_MS_WH_DOWN KC_MS_WH_UP H (mouse_v r) \<and> axis_ok KC_MS_WH_LEFT KC_MS_WH_RIGHT H (mouse_h r) \<and> buttons_ok H (buttons r)"
  by (simp add: shows_held_def buttons_ok_def)

lemma if_intro: "(b \<Longrightarrow> P x) \<Longrightarrow> (\<not> b \<Longrightarrow> P y) \<Longrightarrow> P (if b then x else y)"
  by simp

lemma mousekey_on_shows:
  assumes "shows_held H (mouse_report m)"
  shows "shows_held (insert code H) (mouse_report (mousekey_on code m))" and "mouse_sent (mousekey_on code m) = mouse_sent m"
proof -
  show "shows_held (insert code H) (mouse_report (mousekey_on code m))"
    unfolding mousekey_on_def Let_def
    by (intro if_intro [where P = "\<lambda>m'. shows_held (insert code H) (mouse_report m')"])
      (use assms unit_range [of m] in \<open>simp_all add: shows_held_alt buttons_ok_step axis_ok_insert del: push_bit_of_1\<close>)
  show "mouse_sent (mousekey_on code m) = mouse_sent m"
    by (simp add: mousekey_on_def Let_def)
qed

lemma report_frame [simp]:
  "mouse_report (if b then m\<lparr>mousekey_repeat := n\<rparr> else m) = mouse_report m"
  "mouse_report (if b then m\<lparr>mousekey_wheel_repeat := n\<rparr> else m) = mouse_report m"
  by simp_all

lemma mousekey_off_shows:
  assumes "shows_held H (mouse_report m)"
  shows "shows_held (H - {code}) (mouse_report (mousekey_off code m))" and "mouse_sent (mousekey_off code m) = mouse_sent m"
proof -
  show "shows_held (H - {code}) (mouse_report (mousekey_off code m))"
  proof (cases "code \<in> {KC_MS_UP, KC_MS_DOWN, KC_MS_LEFT, KC_MS_RIGHT, KC_MS_WH_UP, KC_MS_WH_DOWN, KC_MS_WH_LEFT, KC_MS_WH_RIGHT}")
    case True
    then show ?thesis
      by (elim insertE emptyE)
        (use assms in \<open>simp_all add: mousekey_off_def Let_def shows_held_alt buttons_ok_step axis_ok_remove not_less\<close>)
  next
    case False
    then show ?thesis
      using assms by (simp add: mousekey_off_def Let_def shows_held_alt buttons_ok_step axis_ok_remove not_less del: push_bit_of_1)
  qed
  show "mouse_sent (mousekey_off code m) = mouse_sent m"
    by (simp add: mousekey_off_def Let_def)
qed

lemma repeat_shows:
  assumes "shows_held H tmp" and "shows_held H (mouse_report m)"
  shows "shows_held H (mouse_report (repeat_move now tmp m))" "mouse_sent (repeat_move now tmp m) = mouse_sent m"
    and "shows_held H (mouse_report (repeat_wheel now tmp m))" "mouse_sent (repeat_wheel now tmp m) = mouse_sent m"
proof -
  have axes: "axis_ok n1 p1 H a \<and> axis_ok n2 p2 H b"
    if "both_axes (axis_unit u d, axis_unit u e) = (a, b)" "0 < u" "u \<le> 127" "axis_ok n1 p1 H d" "axis_ok n2 p2 H e" for u d e a b n1 p1 n2 p2
    using both_axes_range [OF that(2,3,1)] that(4,5) axis_ok_sgn by blast
  show "shows_held H (mouse_report (repeat_move now tmp m))"
    using assms axes [OF _ unit_range(1,2)] by (auto simp: repeat_move_def Let_def shows_held_alt split: prod.split)
  show "shows_held H (mouse_report (repeat_wheel now tmp m))"
    using assms axes [OF _ unit_range(3,4)] by (auto simp: repeat_wheel_def Let_def shows_held_alt split: prod.split)
  show "mouse_sent (repeat_move now tmp m) = mouse_sent m" "mouse_sent (repeat_wheel now tmp m) = mouse_sent m"
    by (simp_all add: repeat_move_def repeat_wheel_def Let_def split: prod.split)
qed

lemma mousekey_task_shows:
  assumes "shows_held H (mouse_report m)"
  shows "mouse_report (mousekey_task now m) = mouse_report m"
    and "\<exists>rs. mouse_sent (mousekey_task now m) = rs @ mouse_sent m \<and> (\<forall>r \<in> set rs. shows_held H r)"
proof -
  let ?tmp = "mouse_report m"
  let ?m = "m\<lparr>mouse_report := ?tmp\<lparr>mouse_x := 0, mouse_y := 0, mouse_v := 0, mouse_h := 0\<rparr>\<rparr>"
  have "shows_held H (mouse_report ?m)"
    using assms by (simp add: shows_held_alt)
  note r = repeat_shows [OF assms this, of now] 
  note w = repeat_shows [OF assms r(1), of now]
  show "mouse_report (mousekey_task now m) = mouse_report m"
    by (simp add: mousekey_task_def Let_def)
  show "\<exists>rs. mouse_sent (mousekey_task now m) = rs @ mouse_sent m \<and> (\<forall>r \<in> set rs. shows_held H r)"
    using r(2) w(3,4) by (simp add: mousekey_task_def Let_def mousekey_send_def)
qed
lemma nothing_held: "shows_held {} no_mouse_report"
  by (simp add: shows_held_def no_mouse_report_def)

lemma mouse_step_shows:
  assumes "shows_held H (mouse_report m)"
  shows "shows_held (held_step c H) (mouse_report (mouse_step c m))"
    and "\<exists>rs. mouse_sent (mouse_step c m) = rs @ mouse_sent m \<and> (\<forall>r \<in> set rs. shows_held (held_step c H) r)"
proof -
  show "shows_held (held_step c H) (mouse_report (mouse_step c m))"
    using assms nothing_held
    by (cases c) (simp_all add: mousekey_on_shows mousekey_off_shows mousekey_task_shows mousekey_send_def mousekey_clear_def Let_def)
  show "\<exists>rs. mouse_sent (mouse_step c m) = rs @ mouse_sent m \<and> (\<forall>r \<in> set rs. shows_held (held_step c H) r)"
    using mousekey_task_shows(2) [OF assms] assms
    by (cases c) (simp_all add: mousekey_on_shows mousekey_off_shows mousekey_send_def mousekey_clear_def Let_def)
qed

lemma mouse_run_shows:
  "shows_held H (mouse_report m) \<Longrightarrow> shows_held (fold held_step cs H) (mouse_report (fold mouse_step cs m))"
  by (induction cs arbitrary: H m) (simp_all add: mouse_step_shows)

text \<open>
  C32.  The pointer and the wheel move only in the direction of a key that is held.  After any calls of the functions of
  mousekey.c (a key on or off, the clearing of all keys, a sending, the task), whatever their times, every report that a further call
  sends has its fields within 127, moves along an axis only towards a mouse key that is held, and has exactly the
  buttons that are held; held is a key that went down after the last clearing and has not come up.
\<close>

theorem mouse_moves_only_while_held:
  "\<exists>rs. mouse_sent (fold mouse_step (cs @ [c]) mousekey_static) = rs @ mouse_sent (fold mouse_step cs mousekey_static) \<and>
    (\<forall>r \<in> set rs. shows_held (fold held_step (cs @ [c]) {}) r)"
proof -
  have "shows_held {} (mouse_report mousekey_static)"
    by (simp add: mousekey_static_def nothing_held)
  then show ?thesis
    using mouse_step_shows(2) [OF mouse_run_shows] by simp
qed

text \<open>Button 1 is held, everything is cleared as \<open>clear_keyboard\<close> does it, and the report sent then has no button.\<close>

theorem mouse_moves_only_while_held_witness:
  "\<exists>r. mouse_sent (fold mouse_step [Mouse_On KC_MS_BTN1, Mouse_Send 5, Mouse_Clear, Mouse_Send 9] mousekey_static) =
      r # mouse_sent (fold mouse_step [Mouse_On KC_MS_BTN1, Mouse_Send 5, Mouse_Clear] mousekey_static) \<and> shows_held {} r"
proof -
  let ?cs = "[Mouse_On KC_MS_BTN1, Mouse_Send 5, Mouse_Clear]"
  obtain rs where rs: "mouse_sent (fold mouse_step (?cs @ [Mouse_Send 9]) mousekey_static) = rs @ mouse_sent (fold mouse_step ?cs mousekey_static)"
    "\<forall>r \<in> set rs. shows_held {} r"
    using mouse_moves_only_while_held [of ?cs "Mouse_Send 9"] by auto
  have "length (mouse_sent (fold mouse_step (?cs @ [Mouse_Send 9]) mousekey_static)) = Suc (length (mouse_sent (fold mouse_step ?cs mousekey_static)))"
    by (simp add: mousekey_send_def Let_def)
  with rs(1) have "length rs = 1" by simp
  then obtain r where "rs = [r]" by (cases rs) auto
  with rs show ?thesis by auto
qed

section \<open>Between two reports\<close>

text \<open>While a movement waits for its next repetition, every call of the task still sends a report, with no movement in it.\<close>

lemma mouse_empty_reports:
  assumes "mouse_x (mouse_report m) \<noteq> 0" and "mouse_v (mouse_report m) = 0" and "mouse_h (mouse_report m) = 0"
    and "unat (timer_diff16 now (last_timer_c m)) \<le> mk_delay * 10"
  shows "mouse_sent (mousekey_task now m) =
    (mouse_report m)\<lparr>mouse_x := 0, mouse_y := 0, mouse_v := 0, mouse_h := 0\<rparr> # mouse_sent m"
proof -
  let ?t = "(mouse_report m)\<lparr>mouse_x := 0, mouse_y := 0, mouse_v := 0, mouse_h := 0\<rparr>"
  have "?t \<noteq> mouse_report m" using assms(1) by (cases "mouse_report m") simp
  moreover have "\<not> unat (timer_diff16 now (last_timer_c m)) > (if mousekey_repeat m \<noteq> 0 then mk_interval else mk_delay * 10)"
    using assms(4) by (auto simp: mk_interval_def mk_delay_def)
  ultimately show ?thesis
    using assms(2,3) by (simp add: mousekey_task_def repeat_move_def repeat_wheel_def has_mouse_report_changed_def mousekey_send_def Let_def)
qed

end
