(* ===== verification/Main_Loop.thy ===== *)
theory Main_Loop
  imports Typing Matrix_Scan Mousekey
begin

text \<open>
  quantum/keyboard.c and quantum/encoder.c: the task that the main loop calls as fast as possible, for a board with one
  encoder, and the composition of the parts it calls: the matrix scan, the tapping state machine (through \<open>action_exec\<close>),
  the mouse keys and the indicator LEDs of led.c.  The tasks of the RGB lighting are left out; nothing of \<open>quantum_task\<close> is
  compiled in on this board.

  The timer is the field \<open>clock\<close>, which stands still during a task except for the waits the firmware asks for.
  The core reports its calls into the mouse keys in its trace \<open>sent\<close>; \<open>exec\<close> replays what an event added to the trace
  on the state of the mouse keys.
\<close>

section \<open>State\<close>

record 'e board =
  clock :: u32
  keyboard_core :: "'e tapping"
  scanner :: matrix_state
  mouse_keys :: mousekey
  matrix_previous :: "matrix_row list"
  last_tick :: u16
  last_input_modification_time :: u32
  last_matrix_modification_time :: u32
  last_encoder_modification_time :: u32
  encoder_state :: "u8 list"
  encoder_pulses :: "int list"
  encoder_value :: "u8 list"
  encoder_interrupt_update :: "bool list"
  last_led_status :: u8
  last_led_modification_time :: u32
  switches :: "(nat \<times> nat \<times> bool) list"

type_synonym pads = "nat \<Rightarrow> bool \<times> bool"

definition timer_read :: "'e board \<Rightarrow> u16" where
  "timer_read b = ucast (clock b)"

definition board_static :: "'e tapping \<Rightarrow> 'e board" where
  "board_static t = \<lparr>clock = 0, keyboard_core = t, scanner = matrix_init, mouse_keys = mousekey_static,
     matrix_previous = replicate MATRIX_ROWS 0, last_tick = 0, last_input_modification_time = 0,
     last_matrix_modification_time = 0, last_encoder_modification_time = 0,
     encoder_state = replicate NUM_ENCODERS 0, encoder_pulses = replicate NUM_ENCODERS 0,
     encoder_value = replicate NUM_ENCODERS 0, encoder_interrupt_update = replicate NUM_ENCODERS False,
     last_led_status = 0, last_led_modification_time = 0, switches = []\<rparr>"

section \<open>Events\<close>

definition MAKE_KEYEVENT :: "u8 \<Rightarrow> u8 \<Rightarrow> bool \<Rightarrow> 'e board \<Rightarrow> keyevent" where
  "MAKE_KEYEVENT row col press b = \<lparr>ev_key = \<lparr>key_row = row, key_col = col\<rparr>, ev_pressed = press, ev_time = timer_read b OR 1\<rparr>"

definition TICK_EVENT :: "'e board \<Rightarrow> keyevent" where
  "TICK_EVENT b = MAKE_KEYEVENT KEYLOC_TICK KEYLOC_TICK False b"

definition ENCODER_CW_EVENT :: "nat \<Rightarrow> bool \<Rightarrow> 'e board \<Rightarrow> keyevent" where
  "ENCODER_CW_EVENT enc_id press b = MAKE_KEYEVENT KEYLOC_ENCODER_CW (of_nat enc_id) press b"

definition ENCODER_CCW_EVENT :: "nat \<Rightarrow> bool \<Rightarrow> 'e board \<Rightarrow> keyevent" where
  "ENCODER_CCW_EVENT enc_id press b = MAKE_KEYEVENT KEYLOC_ENCODER_CCW (of_nat enc_id) press b"

definition drive :: "host_event \<Rightarrow> 'e board \<Rightarrow> 'e board" where
  "drive ev b =
    (case ev of
       Mousekey_On code \<Rightarrow> b\<lparr>mouse_keys := mousekey_on code (mouse_keys b)\<rparr>
     | Mousekey_Off code \<Rightarrow> b\<lparr>mouse_keys := mousekey_off code (mouse_keys b)\<rparr>
     | Mousekey_Send \<Rightarrow> b\<lparr>mouse_keys := mousekey_send (timer_read b) (mouse_keys b)\<rparr>
     | Mousekey_Clear \<Rightarrow> b\<lparr>mouse_keys := mousekey_clear (mouse_keys b)\<rparr>
     | Wait_Ms n \<Rightarrow> b\<lparr>clock := clock b + of_nat n\<rparr>
     | _ \<Rightarrow> b)"

definition new_events :: "'e tapping \<Rightarrow> 'e tapping \<Rightarrow> host_event list" where
  "new_events t t' = rev (take (length (sent (core t')) - length (sent (core t))) (sent (core t')))"

definition with_core :: "('e tapping \<Rightarrow> 'e tapping) \<Rightarrow> 'e board \<Rightarrow> 'e board" where
  "with_core f b =
    (let t = f (keyboard_core b)
     in fold drive (new_events (keyboard_core b) t) (b\<lparr>keyboard_core := t\<rparr>))"

definition exec :: "'e eeprom_ops \<Rightarrow> 'e hooks \<Rightarrow> keyevent \<Rightarrow> 'e board \<Rightarrow> 'e board" where
  "exec ops h e = with_core (action_exec ops h e)"

definition board_wait :: "nat \<Rightarrow> 'e board \<Rightarrow> 'e board" where
  "board_wait n = with_core (\<lambda>t. t\<lparr>core := wait_ms n (core t)\<rparr>)"

section \<open>Activity timestamps\<close>

definition last_input_activity_time :: "'e board \<Rightarrow> u32" where
  "last_input_activity_time b = last_input_modification_time b"
definition last_input_activity_elapsed :: "'e board \<Rightarrow> u32" where
  "last_input_activity_elapsed b = timer_diff32 (clock b) (last_input_modification_time b)"
definition last_matrix_activity_time :: "'e board \<Rightarrow> u32" where
  "last_matrix_activity_time b = last_matrix_modification_time b"
definition last_matrix_activity_elapsed :: "'e board \<Rightarrow> u32" where
  "last_matrix_activity_elapsed b = timer_diff32 (clock b) (last_matrix_modification_time b)"
definition last_encoder_activity_time :: "'e board \<Rightarrow> u32" where
  "last_encoder_activity_time b = last_encoder_modification_time b"
definition last_encoder_activity_elapsed :: "'e board \<Rightarrow> u32" where
  "last_encoder_activity_elapsed b = timer_diff32 (clock b) (last_encoder_modification_time b)"

definition last_matrix_activity_trigger :: "'e board \<Rightarrow> 'e board" where
  "last_matrix_activity_trigger b = b\<lparr>last_input_modification_time := clock b, last_matrix_modification_time := clock b\<rparr>"
definition last_encoder_activity_trigger :: "'e board \<Rightarrow> 'e board" where
  "last_encoder_activity_trigger b = b\<lparr>last_input_modification_time := clock b, last_encoder_modification_time := clock b\<rparr>"

section \<open>The matrix task\<close>

definition switch_events :: "nat \<Rightarrow> nat \<Rightarrow> bool \<Rightarrow> 'e board \<Rightarrow> 'e board" where
  "switch_events row col pressed b = b\<lparr>switches := (row, col, pressed) # switches b\<rparr>"

definition generate_tick_event :: "'e eeprom_ops \<Rightarrow> 'e hooks \<Rightarrow> 'e board \<Rightarrow> 'e board" where
  "generate_tick_event ops h b =
    (let now = timer_read b
     in if timer_diff16 now (last_tick b) \<noteq> 0 then (exec ops h (TICK_EVENT b) b)\<lparr>last_tick := now\<rparr> else b)"

definition matrix_can_read :: bool where "matrix_can_read = True"
definition is_keyboard_master :: bool where "is_keyboard_master = True"
definition should_process_keypress :: bool where "should_process_keypress = is_keyboard_master"
definition has_ghost_in_row :: "nat \<Rightarrow> matrix_row \<Rightarrow> bool" where "has_ghost_in_row row rowdata = False"

definition task_col :: "'e eeprom_ops \<Rightarrow> 'e hooks \<Rightarrow> bool \<Rightarrow> nat \<Rightarrow> matrix_row \<Rightarrow> matrix_row \<Rightarrow> nat \<Rightarrow> 'e board \<Rightarrow> 'e board" where
  "task_col ops h process_keypress row current_row row_changes col b =
    (if row_changes AND col_mask col \<noteq> 0 then
       let key_pressed = (current_row AND col_mask col \<noteq> 0);
           b = (if process_keypress then exec ops h (MAKE_KEYEVENT (of_nat row) (of_nat col) key_pressed b) b else b)
       in switch_events row col key_pressed b
     else b)"

definition task_row :: "'e eeprom_ops \<Rightarrow> 'e hooks \<Rightarrow> bool \<Rightarrow> nat \<Rightarrow> 'e board \<Rightarrow> 'e board" where
  "task_row ops h process_keypress row b =
    (let current_row = matrix_get_row row (scanner b);
         row_changes = current_row XOR matrix_previous b ! row
     in if row_changes = 0 \<or> has_ghost_in_row row current_row then b
        else let b = fold (task_col ops h process_keypress row current_row row_changes) [0..<MATRIX_COLS] b
             in b\<lparr>matrix_previous := (matrix_previous b)[row := current_row]\<rparr>)"

definition matrix_task :: "'e eeprom_ops \<Rightarrow> 'e hooks \<Rightarrow> pins \<Rightarrow> 'e board \<Rightarrow> bool \<times> 'e board" where
  "matrix_task ops h pins b =
    (if \<not> matrix_can_read then (False, generate_tick_event ops h b)
     else let b = b\<lparr>scanner := snd (matrix_scan (clock b) pins (scanner b))\<rparr>;
              changed = list_ex (\<lambda>row. matrix_previous b ! row XOR matrix_get_row row (scanner b) \<noteq> 0) [0..<MATRIX_ROWS]
          in if \<not> changed then (changed, generate_tick_event ops h b)
             else (changed, fold (task_row ops h should_process_keypress) [0..<MATRIX_ROWS] b))"

section \<open>The encoder\<close>

definition ENCODER_RESOLUTION :: int where "ENCODER_RESOLUTION = 4"
definition ENCODER_DEFAULT_POS :: u8 where "ENCODER_DEFAULT_POS = 3"
definition ENCODER_MAP_KEY_DELAY :: nat where "ENCODER_MAP_KEY_DELAY = 2"
definition ENCODER_CLOCKWISE :: bool where "ENCODER_CLOCKWISE = True"
definition ENCODER_COUNTER_CLOCKWISE :: bool where "ENCODER_COUNTER_CLOCKWISE = False"
definition encoder_LUT :: "int list" where
  "encoder_LUT = [0, -1, 1, 0, 1, 0, 0, -1, -1, 0, 0, 1, 0, 1, -1, 0]"

definition pad_status :: "bool \<times> bool \<Rightarrow> u8" where
  "pad_status = (\<lambda>(a, b). push_bit 0 (of_bool a) OR push_bit 1 (of_bool b))"

definition encoder_init :: "pads \<Rightarrow> 'e board \<Rightarrow> 'e board" where
  "encoder_init pads b = b\<lparr>encoder_state := map (\<lambda>i. pad_status (pads i)) [0..<NUM_ENCODERS]\<rparr>"

definition encoder_exec_mapping :: "'e eeprom_ops \<Rightarrow> 'e hooks \<Rightarrow> nat \<Rightarrow> bool \<Rightarrow> 'e board \<Rightarrow> 'e board" where
  "encoder_exec_mapping ops h index clockwise b =
    (let b = exec ops h (if clockwise then ENCODER_CW_EVENT index True b else ENCODER_CCW_EVENT index True b) b;
         b = board_wait ENCODER_MAP_KEY_DELAY b;
         b = exec ops h (if clockwise then ENCODER_CW_EVENT index False b else ENCODER_CCW_EVENT index False b) b
     in board_wait ENCODER_MAP_KEY_DELAY b)"

text \<open>The remainder of the pulses that the code computes is overwritten at once.\<close>

definition encoder_update :: "'e eeprom_ops \<Rightarrow> 'e hooks \<Rightarrow> nat \<Rightarrow> u8 \<Rightarrow> 'e board \<Rightarrow> bool \<times> 'e board" where
  "encoder_update ops h i state b =
    (let pulses = int8 (encoder_pulses b ! i + encoder_LUT ! unat (state AND 0xF));
         b = b\<lparr>encoder_pulses := (encoder_pulses b)[i := pulses]\<rparr>
     in if pulses \<ge> ENCODER_RESOLUTION \<or> pulses \<le> - ENCODER_RESOLUTION \<or> state AND 3 = ENCODER_DEFAULT_POS then
          let b' = (if pulses \<ge> 1
                    then encoder_exec_mapping ops h i ENCODER_COUNTER_CLOCKWISE
                           (b\<lparr>encoder_value := (encoder_value b)[i := encoder_value b ! i + 1]\<rparr>)
                    else b);
              b' = (if pulses \<le> -1
                    then encoder_exec_mapping ops h i ENCODER_CLOCKWISE
                           (b'\<lparr>encoder_value := (encoder_value b')[i := encoder_value b' ! i - 1]\<rparr>)
                    else b')
          in (pulses \<ge> 1 \<or> pulses \<le> -1, b'\<lparr>encoder_pulses := (encoder_pulses b')[i := 0]\<rparr>)
        else (False, b))"

definition encoder_read_one :: "'e eeprom_ops \<Rightarrow> 'e hooks \<Rightarrow> pads \<Rightarrow> nat \<Rightarrow> bool \<times> 'e board \<Rightarrow> bool \<times> 'e board" where
  "encoder_read_one ops h pads i = (\<lambda>(changed, b).
    let new_status = pad_status (pads i)
    in if encoder_state b ! i AND 3 \<noteq> new_status \<or> encoder_interrupt_update b ! i then
         let state = push_bit 2 (encoder_state b ! i) OR new_status;
             (c, b) = encoder_update ops h i state (b\<lparr>encoder_state := (encoder_state b)[i := state]\<rparr>)
         in (changed \<or> c, b\<lparr>encoder_interrupt_update := (encoder_interrupt_update b)[i := False]\<rparr>)
       else (changed, b))"

definition encoder_read :: "'e eeprom_ops \<Rightarrow> 'e hooks \<Rightarrow> pads \<Rightarrow> 'e board \<Rightarrow> bool \<times> 'e board" where
  "encoder_read ops h pads b = fold (encoder_read_one ops h pads) [0..<NUM_ENCODERS] (False, b)"

text \<open>The handler of the edges of the encoder pins; lemokey\_common.c installs it for both of them.\<close>

definition encoder_inerrupt_read :: "pads \<Rightarrow> nat \<Rightarrow> 'e board \<Rightarrow> 'e board" where
  "encoder_inerrupt_read pads i b =
    (let state = push_bit 2 (encoder_state b ! i) OR pad_status (pads i)
     in b\<lparr>encoder_state := (encoder_state b)[i := state],
          encoder_pulses := (encoder_pulses b)[i := int8 (encoder_pulses b ! i + encoder_LUT ! unat (state AND 0xF))],
          encoder_interrupt_update := (encoder_interrupt_update b)[i := True]\<rparr>)"

section \<open>The keyboard task\<close>

text \<open>No lock LED of this board is on a pin, so setting them is an event of the trace only.\<close>

definition led_task :: "'e board \<Rightarrow> 'e board" where
  "led_task b =
    (let led_status = host_keyboard_leds (core (keyboard_core b))
     in if last_led_status b \<noteq> led_status
        then with_core (\<lambda>t. t\<lparr>core := emit (Led_Set led_status) (core t)\<rparr>)
               (b\<lparr>last_led_status := led_status, last_led_modification_time := clock b\<rparr>)
        else b)"

definition keyboard_task :: "'e eeprom_ops \<Rightarrow> 'e hooks \<Rightarrow> pins \<Rightarrow> pads \<Rightarrow> 'e board \<Rightarrow> 'e board" where
  "keyboard_task ops h pins pads b =
    (let (changed, b) = matrix_task ops h pins b;
         b = (if changed then last_matrix_activity_trigger b else b);
         (changed, b) = encoder_read ops h pads b;
         b = (if changed then last_encoder_activity_trigger b else b);
         b = b\<lparr>mouse_keys := mousekey_task (timer_read b) (mouse_keys b)\<rparr>
     in led_task b)"

end
