(* ===== verification/Main_Loop_Laws.thy ===== *)
theory Main_Loop_Laws
  imports Main_Loop Debounce_Laws
begin

text \<open>
  The keyboard task: each changed key of the debounced matrix is one event of the core, and, with the laws of the debouncer and
  of typing, the switches reach the host.
\<close>

section \<open>What an event leaves alone\<close>

lemma drive_frame:
  "keyboard_core (drive ev b) = keyboard_core b" "scanner (drive ev b) = scanner b"
  "matrix_previous (drive ev b) = matrix_previous b" "encoder_state (drive ev b) = encoder_state b"
  "encoder_pulses (drive ev b) = encoder_pulses b" "encoder_value (drive ev b) = encoder_value b"
  "encoder_interrupt_update (drive ev b) = encoder_interrupt_update b" "switches (drive ev b) = switches b"
  by (simp_all add: drive_def split: host_event.split)

lemma with_core_frame [simp]:
  "keyboard_core (with_core f b) = f (keyboard_core b)" "scanner (with_core f b) = scanner b"
  "matrix_previous (with_core f b) = matrix_previous b" "encoder_state (with_core f b) = encoder_state b"
  "encoder_pulses (with_core f b) = encoder_pulses b" "encoder_value (with_core f b) = encoder_value b"
  "encoder_interrupt_update (with_core f b) = encoder_interrupt_update b" "switches (with_core f b) = switches b"
  by (simp_all add: with_core_def Let_def fold_frame drive_frame)

lemma exec_frame [simp]:
  "keyboard_core (exec ops h e b) = action_exec ops h e (keyboard_core b)" "scanner (exec ops h e b) = scanner b"
  "matrix_previous (exec ops h e b) = matrix_previous b" "encoder_state (exec ops h e b) = encoder_state b"
  "encoder_pulses (exec ops h e b) = encoder_pulses b" "encoder_value (exec ops h e b) = encoder_value b"
  "encoder_interrupt_update (exec ops h e b) = encoder_interrupt_update b" "switches (exec ops h e b) = switches b"
  by (simp_all add: exec_def)

section \<open>One event per changed key\<close>

text \<open>A stroke is an event without its time; the strokes between two matrices, row by row.\<close>

definition stroke :: "keyevent \<Rightarrow> keypos \<times> bool" where
  "stroke e = (ev_key e, ev_pressed e)"

definition keypos_of :: "nat \<Rightarrow> nat \<Rightarrow> keypos" where
  "keypos_of row col = \<lparr>key_row = of_nat row, key_col = of_nat col\<rparr>"

definition changed_cols :: "matrix_row \<Rightarrow> matrix_row \<Rightarrow> nat list" where
  "changed_cols prev cur = filter (\<lambda>col. bit prev col \<noteq> bit cur col) [0..<MATRIX_COLS]"

definition changes :: "matrix_row list \<Rightarrow> matrix_row list \<Rightarrow> (nat \<times> nat \<times> bool) list" where
  "changes prev cur =
    concat (map (\<lambda>row. map (\<lambda>col. (row, col, bit (cur ! row) col)) (changed_cols (prev ! row) (cur ! row))) [0..<MATRIX_ROWS])"

definition stroke_of :: "nat \<times> nat \<times> bool \<Rightarrow> keypos \<times> bool" where
  "stroke_of = (\<lambda>(row, col, pressed). (keypos_of row col, pressed))"

text \<open>What the part of a task has executed on the board.\<close>

definition executes :: "'e eeprom_ops \<Rightarrow> 'e hooks \<Rightarrow> (nat \<times> nat \<times> bool) list \<Rightarrow> 'e board \<Rightarrow> 'e board \<Rightarrow> bool" where
  "executes ops h cs b b' \<longleftrightarrow> switches b' = rev cs @ switches b \<and>
    (\<exists>es. keyboard_core b' = fold (action_exec ops h) es (keyboard_core b) \<and> map stroke es = map stroke_of cs \<and>
      (\<forall>e \<in> set es. ev_time e \<noteq> 0))"

lemma executes_nil [simp]: "executes ops h [] b b' \<longleftrightarrow> switches b' = switches b \<and> keyboard_core b' = keyboard_core b"
  by (auto simp: executes_def)

lemma executes_one:
  assumes "switches b' = (row, col, p) # switches b" and "keyboard_core b' = action_exec ops h e (keyboard_core b)"
    and "stroke e = stroke_of (row, col, p)" and "ev_time e \<noteq> 0"
  shows "executes ops h [(row, col, p)] b b'"
  unfolding executes_def using assms by (intro conjI exI [of _ "[e]"]) simp_all

lemma executes_append:
  assumes "executes ops h cs b b1" and "executes ops h ds b1 b2"
  shows "executes ops h (cs @ ds) b b2"
proof -
  obtain es fs where es: "keyboard_core b1 = fold (action_exec ops h) es (keyboard_core b)" "map stroke es = map stroke_of cs"
      "\<forall>e \<in> set es. ev_time e \<noteq> 0"
    and fs: "keyboard_core b2 = fold (action_exec ops h) fs (keyboard_core b1)" "map stroke fs = map stroke_of ds"
      "\<forall>e \<in> set fs. ev_time e \<noteq> 0"
    using assms by (auto simp: executes_def)
  have "keyboard_core b2 = fold (action_exec ops h) (es @ fs) (keyboard_core b)"
    "map stroke (es @ fs) = map stroke_of (cs @ ds)" "\<forall>e \<in> set (es @ fs). ev_time e \<noteq> 0"
    using es fs by auto
  moreover have "switches b2 = rev (cs @ ds) @ switches b"
    using assms by (simp add: executes_def)
  ultimately show ?thesis unfolding executes_def by blast
qed

lemma odd_time: "timer_read b OR 1 \<noteq> 0"
proof
  assume "timer_read b OR 1 = 0"
  then have "bit (timer_read b OR 1) 0 = bit (0 :: u16) 0" by simp
  then show False by (simp add: bit_simps)
qed

lemma task_col_executes:
  assumes "col < MATRIX_COLS"
  shows "executes ops h (if bit prev col \<noteq> bit cur col then [(row, col, bit cur col)] else []) b
      (task_col ops h should_process_keypress row cur (cur XOR prev) col b)"
    and "scanner (task_col ops h p row cur rc col b) = scanner b"
    and "matrix_previous (task_col ops h p row cur rc col b) = matrix_previous b"
proof -
  let ?e = "MAKE_KEYEVENT (of_nat row) (of_nat col) (bit cur col) b"
  have "stroke ?e = stroke_of (row, col, bit cur col)" "ev_time ?e \<noteq> 0"
    by (simp_all add: MAKE_KEYEVENT_def stroke_def stroke_of_def keypos_of_def odd_time)
  then have "executes ops h [(row, col, bit cur col)] b (switch_events row col (bit cur col) (exec ops h ?e b))"
    by (intro executes_one [where e = ?e]) (simp_all add: switch_events_def)
  then show "executes ops h (if bit prev col \<noteq> bit cur col then [(row, col, bit cur col)] else []) b
      (task_col ops h should_process_keypress row cur (cur XOR prev) col b)"
    using assms by (cases "bit cur col"; cases "bit prev col")
      (simp_all add: task_col_def and_col_mask bit_xor_iff Let_def should_process_keypress_def is_keyboard_master_def)
  show "scanner (task_col ops h p row cur rc col b) = scanner b"
    "matrix_previous (task_col ops h p row cur rc col b) = matrix_previous b"
    by (simp_all add: task_col_def Let_def switch_events_def)
qed

lemma task_cols_execute:
  assumes "set cols \<subseteq> {..<MATRIX_COLS}"
  shows "executes ops h (map (\<lambda>col. (row, col, bit cur col)) (filter (\<lambda>col. bit prev col \<noteq> bit cur col) cols)) b
      (fold (task_col ops h should_process_keypress row cur (cur XOR prev)) cols b)"
  using assms
proof (induction cols arbitrary: b)
  case (Cons col cols)
  show ?case
    using executes_append [OF task_col_executes(1) [of col ops h prev cur row b] Cons.IH] Cons.prems
    by (simp split: if_splits)
qed simp

lemma task_row_executes:
  shows "executes ops h (map (\<lambda>col. (row, col, bit (matrix (scanner b) ! row) col))
        (changed_cols (matrix_previous b ! row) (matrix (scanner b) ! row))) b (task_row ops h should_process_keypress row b)"
    and "scanner (task_row ops h should_process_keypress row b) = scanner b"
    and "matrix_previous (task_row ops h should_process_keypress row b) = (matrix_previous b)[row := matrix (scanner b) ! row]"
proof -
  let ?cur = "matrix (scanner b) ! row" and ?prev = "matrix_previous b ! row"
  let ?cols = "\<lambda>b. fold (task_col ops h should_process_keypress row ?cur (?cur XOR ?prev)) [0..<MATRIX_COLS] b"
  have frame: "scanner (?cols b) = scanner b" "matrix_previous (?cols b) = matrix_previous b"
    by (simp_all add: fold_frame task_col_executes(2,3) task_col_def Let_def switch_events_def)
  have same: "?cur XOR ?prev = 0 \<Longrightarrow> ?cur = ?prev"
    by (metis xor.right_neutral xor_self_eq xor.assoc)
  have prev: "executes ops h cs b b1 \<Longrightarrow> executes ops h cs b (b1\<lparr>matrix_previous := m\<rparr>)" for cs b1 m
    by (simp add: executes_def)
  have row: "task_row ops h should_process_keypress row b =
      (if ?cur = ?prev then b else (?cols b)\<lparr>matrix_previous := (matrix_previous b)[row := ?cur]\<rparr>)"
    using frame same by (auto simp: task_row_def Let_def matrix_get_row_def has_ghost_in_row_def)
  show "executes ops h (map (\<lambda>col. (row, col, bit ?cur col)) (changed_cols ?prev ?cur)) b (task_row ops h should_process_keypress row b)"
    using prev [OF task_cols_execute [of "[0..<MATRIX_COLS]" ops h row ?cur ?prev b]]
    by (simp add: row changed_cols_def lessThan_atLeast0)
  show "scanner (task_row ops h should_process_keypress row b) = scanner b"
    using frame by (simp add: row)
  show "matrix_previous (task_row ops h should_process_keypress row b) = (matrix_previous b)[row := ?cur]"
    by (auto simp: row list_update_same_conv list_update_id)
qed
lemma task_rows_execute:
  fixes ops :: "'e eeprom_ops" and h :: "'e hooks" and b :: "'e board"
  assumes "n \<le> MATRIX_ROWS" and "length (matrix_previous b) = MATRIX_ROWS"
  defines "b' \<equiv> fold (task_row ops h should_process_keypress) [0..<n] b"
  shows "executes ops h (concat (map (\<lambda>row. map (\<lambda>col. (row, col, bit (matrix (scanner b) ! row) col))
        (changed_cols (matrix_previous b ! row) (matrix (scanner b) ! row))) [0..<n])) b b' \<and> scanner b' = scanner b \<and>
    length (matrix_previous b') = MATRIX_ROWS \<and>
    (\<forall>row. matrix_previous b' ! row = (if row < n then matrix (scanner b) ! row else matrix_previous b ! row))"
  using assms(1,2) unfolding b'_def
proof (induction n)
  case (Suc n)
  let ?b = "fold (task_row ops h should_process_keypress) [0..<n] b"
  note IH = Suc.IH [OF Suc_leD [OF Suc.prems(1)] Suc.prems(2)]
  note row = task_row_executes [of ops h n ?b]
  show ?case
    using IH row(2,3) executes_append [OF conjunct1 [OF IH] row(1)] Suc.prems(1) by (auto simp: nth_list_update less_Suc_eq)
qed simp

definition board_ok :: "'e board \<Rightarrow> bool" where
  "board_ok b \<longleftrightarrow> length (matrix_previous b) = MATRIX_ROWS \<and> length (matrix (scanner b)) = MATRIX_ROWS"

lemma changed_cols_same [simp]: "changed_cols r r = []"
  by (simp add: changed_cols_def)

lemma changes_same [simp]: "changes m m = []"
  by (simp add: changes_def)

lemma rows_equal:
  fixes m m' :: "matrix_row list"
  assumes "length m = MATRIX_ROWS" and "length m' = MATRIX_ROWS"
  shows "list_ex (\<lambda>row. m ! row XOR m' ! row \<noteq> 0) [0..<MATRIX_ROWS] \<longleftrightarrow> m \<noteq> m'"
proof -
  have "w XOR v = 0 \<longleftrightarrow> w = v" for w v :: matrix_row
    by (metis xor.right_neutral xor_self_eq xor.assoc)
  then show ?thesis
    using assms by (auto simp: list_ex_iff list_eq_iff_nth_eq Bex_def)
qed

lemma tick_executes:
  "\<exists>es. keyboard_core (generate_tick_event ops h b) = fold (action_exec ops h) es (keyboard_core b) \<and> set es \<subseteq> {TICK_EVENT b}"
  "scanner (generate_tick_event ops h b) = scanner b" "matrix_previous (generate_tick_event ops h b) = matrix_previous b"
  "switches (generate_tick_event ops h b) = switches b"
proof -
  show "\<exists>es. keyboard_core (generate_tick_event ops h b) = fold (action_exec ops h) es (keyboard_core b) \<and> set es \<subseteq> {TICK_EVENT b}"
  proof (cases "timer_diff16 (timer_read b) (last_tick b) = 0")
    case True
    then show ?thesis by (intro exI [of _ "[]"]) (simp add: generate_tick_event_def)
  next
    case False
    then show ?thesis by (intro exI [of _ "[TICK_EVENT b]"]) (simp add: generate_tick_event_def Let_def)
  qed
qed (simp_all add: generate_tick_event_def Let_def)

lemma matrix_task_changed:
  assumes "board_ok (b\<lparr>scanner := snd (matrix_scan (clock b) pins (scanner b))\<rparr>)"
    and "matrix_task ops h pins b = (changed, b')"
  defines "cur \<equiv> matrix (snd (matrix_scan (clock b) pins (scanner b)))"
  shows "scanner b' = snd (matrix_scan (clock b) pins (scanner b)) \<and> matrix_previous b' = cur \<and>
    (changed \<longleftrightarrow> matrix_previous b \<noteq> cur) \<and>
    (if changed then executes ops h (changes (matrix_previous b) cur) b b'
     else switches b' = switches b \<and> (\<exists>es. keyboard_core b' = fold (action_exec ops h) es (keyboard_core b) \<and> set es \<subseteq> {TICK_EVENT b}))"
proof -
  let ?b = "b\<lparr>scanner := snd (matrix_scan (clock b) pins (scanner b))\<rparr>"
  have ok: "length (matrix_previous b) = MATRIX_ROWS" "length cur = MATRIX_ROWS" "matrix (scanner ?b) = cur"
    using assms(1) by (simp_all add: board_ok_def cur_def)
  have c: "changed \<longleftrightarrow> matrix_previous b \<noteq> cur"
    using assms(2) rows_equal [OF ok(1,2)]
    by (auto simp: matrix_task_def matrix_can_read_def matrix_get_row_def cur_def Let_def split: if_splits)
  show ?thesis
  proof (cases changed)
    case True
    then have b': "b' = fold (task_row ops h should_process_keypress) [0..<MATRIX_ROWS] ?b"
      using assms(2) by (auto simp: matrix_task_def matrix_can_read_def Let_def split: if_splits)
    note rows = task_rows_execute [of MATRIX_ROWS ?b ops h, folded b', OF order.refl]
    have "executes ops h (changes (matrix_previous b) cur) ?b b'" "scanner b' = scanner ?b" "matrix_previous b' = cur"
      using rows ok by (auto simp: changes_def cur_def intro!: nth_equalityI)
    then show ?thesis
      using True c by (simp add: executes_def)
  next
    case False
    then have b': "b' = generate_tick_event ops h ?b"
      using assms(2) by (auto simp: matrix_task_def matrix_can_read_def Let_def split: if_splits)
    have "TICK_EVENT ?b = TICK_EVENT b"
      by (simp add: TICK_EVENT_def MAKE_KEYEVENT_def timer_read_def)
    then show ?thesis
      using False c tick_executes [of ops h ?b] by (simp add: b')
  qed
qed
text \<open>
  C13.  The matrix task executes one event per key whose debounced state changed, in row-major order, each with the state the key
  now has, and then remembers the debounced matrix; when nothing changed it executes at most a tick.  Nothing else
  reaches the core, and the lighting hears of the same switches.
\<close>

theorem one_event_per_changed_key:
  assumes "length (matrix_previous b) = MATRIX_ROWS" and "length (matrix (snd (matrix_scan (clock b) pins (scanner b)))) = MATRIX_ROWS"
    and "matrix_task ops h pins b = (changed, b')"
  shows "scanner b' = snd (matrix_scan (clock b) pins (scanner b)) \<and> matrix_previous b' = matrix (scanner b') \<and>
    (\<exists>es. keyboard_core b' = fold (action_exec ops h) es (keyboard_core b) \<and>
      (if changed then map stroke es = map stroke_of (changes (matrix_previous b) (matrix (scanner b'))) \<and> (\<forall>e \<in> set es. ev_time e \<noteq> 0) \<and>
         switches b' = rev (changes (matrix_previous b) (matrix (scanner b'))) @ switches b
       else matrix_previous b' = matrix_previous b \<and> set es \<subseteq> {TICK_EVENT b} \<and> switches b' = switches b))"
proof -
  have "board_ok (b\<lparr>scanner := snd (matrix_scan (clock b) pins (scanner b))\<rparr>)"
    using assms(1,2) by (simp add: board_ok_def)
  from matrix_task_changed [OF this assms(3)] show ?thesis
    by (cases changed) (auto simp: executes_def)
qed

section \<open>Strokes and the keys that are held\<close>

definition held :: "matrix_row list \<Rightarrow> keypos set" where
  "held m = (\<lambda>(row, col). keypos_of row col) ` {x \<in> keys MATRIX_ROWS. key_bit x m}"

text \<open>The changes in one list: the keys in row-major order, filtered.\<close>

lemma changes_product:
  "changes prev cur = map (\<lambda>(row, col). (row, col, bit (cur ! row) col))
     (filter (\<lambda>(row, col). bit (prev ! row) col \<noteq> bit (cur ! row) col) (List.product [0..<MATRIX_ROWS] [0..<MATRIX_COLS]))"
proof -
  have "concat (map (\<lambda>row. map (\<lambda>col. (row, col, bit (cur ! row) col)) (filter (\<lambda>col. bit (prev ! row) col \<noteq> bit (cur ! row) col) cols)) rows) =
      map (\<lambda>(row, col). (row, col, bit (cur ! row) col))
        (filter (\<lambda>(row, col). bit (prev ! row) col \<noteq> bit (cur ! row) col) (List.product rows cols))" for rows cols
    by (induction rows) (simp_all add: filter_map comp_def)
  then show ?thesis by (simp add: changes_def changed_cols_def)
qed

lemma changes_props:
  shows "distinct (map (\<lambda>(row, col, p). (row, col)) (changes prev cur))"
    and "(row, col, p) \<in> set (changes prev cur) \<longleftrightarrow>
      (row, col) \<in> keys MATRIX_ROWS \<and> p = key_bit (row, col) cur \<and> key_bit (row, col) prev \<noteq> p"
proof -
  have "map ((\<lambda>(row, col, p). (row, col)) \<circ> (\<lambda>(row, col). (row, col, bit (cur ! row) col))) xs = xs" for xs
    by (induction xs) auto
  then show "distinct (map (\<lambda>(row, col, p). (row, col)) (changes prev cur))"
    by (simp add: changes_product distinct_product)
  show "(row, col, p) \<in> set (changes prev cur) \<longleftrightarrow>
      (row, col) \<in> keys MATRIX_ROWS \<and> p = key_bit (row, col) cur \<and> key_bit (row, col) prev \<noteq> p"
    by (auto simp: changes_product keys_def key_bit_def)
qed

lemma keypos_inj:
  assumes "x \<in> keys MATRIX_ROWS" and "y \<in> keys MATRIX_ROWS"
  shows "(\<lambda>(row, col). keypos_of row col) x = (\<lambda>(row, col). keypos_of row col) y \<longleftrightarrow> x = y"
proof -
  have "(of_nat a :: u8) = of_nat b \<longleftrightarrow> a = b" if "a < 256" "b < 256" for a b
    using that by (metis unat_of_nat_u8)
  then show ?thesis
    using assms by (cases x; cases y) (auto simp: keys_def keypos_of_def MATRIX_ROWS_def MATRIX_COLS_def)
qed

lemma held_iff: "(row, col) \<in> keys MATRIX_ROWS \<Longrightarrow> keypos_of row col \<in> held m \<longleftrightarrow> key_bit (row, col) m"
  using keypos_inj [of "(row, col)"] by (auto simp: held_def)

definition toggle :: "nat \<times> nat \<times> bool \<Rightarrow> keypos set \<Rightarrow> keypos set" where
  "toggle = (\<lambda>(row, col, p) H. if p then insert (keypos_of row col) H else H - {keypos_of row col})"

lemma toggle_stroke: "stroke e = stroke_of c \<Longrightarrow> hold_step e H = toggle c H"
  by (auto simp: stroke_def stroke_of_def hold_step_def toggle_def split: prod.splits)

lemma fold_toggle:
  assumes "map stroke es = map stroke_of cs"
  shows "fold hold_step es H = fold toggle cs H"
  using assms by (induction es arbitrary: cs H) (auto simp: toggle_stroke)

lemma toggles_held:
  assumes "\<forall>(row, col, p) \<in> set cs. p \<longleftrightarrow> keypos_of row col \<in> G"
  shows "k \<in> fold toggle cs H \<longleftrightarrow> (if k \<in> (\<lambda>(row, col, p). keypos_of row col) ` set cs then k \<in> G else k \<in> H)"
  using assms by (induction cs arbitrary: H) (auto simp: toggle_def split: if_splits prod.splits)

lemma changed_key:
  assumes "(row, col) \<in> keys MATRIX_ROWS"
  shows "keypos_of row col \<in> (\<lambda>(row, col, p). keypos_of row col) ` set (changes prev cur) \<longleftrightarrow>
    key_bit (row, col) prev \<noteq> key_bit (row, col) cur"
proof
  assume "keypos_of row col \<in> (\<lambda>(row, col, p). keypos_of row col) ` set (changes prev cur)"
  then obtain r c p where rc: "(r, c, p) \<in> set (changes prev cur)" "keypos_of row col = keypos_of r c" by auto
  moreover from this have "(r, c) = (row, col)"
    using keypos_inj [OF assms, of "(r, c)"] by (simp add: changes_props)
  ultimately show "key_bit (row, col) prev \<noteq> key_bit (row, col) cur" by (simp add: changes_props)
next
  assume "key_bit (row, col) prev \<noteq> key_bit (row, col) cur"
  then have "(row, col, key_bit (row, col) cur) \<in> set (changes prev cur)"
    using assms by (simp add: changes_props)
  then show "keypos_of row col \<in> (\<lambda>(row, col, p). keypos_of row col) ` set (changes prev cur)" by force
qed

lemma toggle_changes:
  "fold toggle (changes prev cur) (held prev) = held cur"
proof (intro set_eqI)
  fix k
  have "\<forall>(row, col, p) \<in> set (changes prev cur). p \<longleftrightarrow> keypos_of row col \<in> held cur"
    by (auto simp: changes_props held_iff)
  note fold = toggles_held [OF this, of k "held prev"]
  show "k \<in> fold toggle (changes prev cur) (held prev) \<longleftrightarrow> k \<in> held cur"
  proof (cases "k \<in> (\<lambda>(row, col). keypos_of row col) ` keys MATRIX_ROWS")
    case True
    then obtain row col where k: "k = keypos_of row col" "(row, col) \<in> keys MATRIX_ROWS" by auto
    then show ?thesis using fold changed_key [OF k(2), of prev cur] by (simp add: held_iff)
  next
    case False
    then have "k \<notin> (\<lambda>(row, col, p). keypos_of row col) ` set (changes prev cur)" "k \<notin> held prev" "k \<notin> held cur"
      by (auto simp: changes_props held_def image_iff)
    then show ?thesis using fold by simp
  qed
qed

lemma strokes_of_changes_fit:
  assumes "map stroke es = map stroke_of cs" and "\<forall>e \<in> set es. ev_time e \<noteq> 0"
    and "distinct (map (\<lambda>(row, col, p). (row, col)) cs)"
    and "\<forall>(row, col, p) \<in> set cs. (row, col) \<in> keys MATRIX_ROWS \<and> keypos_of row col \<in> P \<and> (p \<longleftrightarrow> keypos_of row col \<notin> H)"
    and "H \<subseteq> P" and "finite P" and "card P \<le> KEYBOARD_REPORT_KEYS"
  shows "strokes_fit P es H"
  using assms(1-5)
proof (induction es arbitrary: cs H)
  case (Cons e es)
  obtain row col p ds where cs: "cs = (row, col, p) # ds" and e: "ev_key e = keypos_of row col" "ev_pressed e = p"
    and rest: "map stroke es = map stroke_of ds"
  proof -
    obtain c ds where c: "cs = c # ds" "stroke e = stroke_of c" "map stroke es = map stroke_of ds"
      using Cons.prems(1) by (cases cs) simp_all
    show thesis
      by (rule that [of "fst c" "fst (snd c)" "snd (snd c)" ds]) (use c in \<open>simp_all add: stroke_def stroke_of_def split_def\<close>)
  qed
  have key: "(row, col) \<in> keys MATRIX_ROWS" "keypos_of row col \<in> P" "p \<longleftrightarrow> keypos_of row col \<notin> H"
    using Cons.prems(4) by (simp_all add: cs)
  then have "key_row (ev_key e) \<noteq> KEYLOC_TICK"
    using e by (auto simp: keys_def keypos_of_def KEYLOC_TICK_def MATRIX_ROWS_def word_unat_eq_iff unat_of_nat_u8)
  then have real: "\<not> IS_NOEVENT e"
    using Cons.prems(2) by (simp add: IS_NOEVENT_def)
  have sub: "hold_step e H \<subseteq> P"
    using Cons.prems(5) key e by (auto simp: hold_step_def)
  have "keypos_of r c \<noteq> keypos_of row col" if "(r, c, q) \<in> set ds" for r c q
    using keypos_inj [of "(r, c)" "(row, col)"] that Cons.prems(3,4) by (force simp: cs)
  then have "\<forall>(r, c, q) \<in> set ds. (r, c) \<in> keys MATRIX_ROWS \<and> keypos_of r c \<in> P \<and> (q \<longleftrightarrow> keypos_of r c \<notin> hold_step e H)"
    using Cons.prems(4) e by (auto simp: cs hold_step_def)
  then have "strokes_fit P es (hold_step e H)"
    using Cons.IH [OF rest _ _ _ sub] Cons.prems(2,3) by (simp add: cs)
  moreover have "card (hold_step e H) \<le> KEYBOARD_REPORT_KEYS"
    using card_mono [OF assms(6) sub] assms(7) by simp
  ultimately show ?case
    using real key e by simp
qed simp

lemma changes_type:
  assumes "typing ops Q code s0 M (keyboard_core b) (held prev)" and "typing_hooks ops Q s0 P h" and "oneshot_layer_data s0 = 0"
    and "\<And>key. key \<in> P \<Longrightarrow> types ops s0 key (code key)" and "inj_on code P"
    and "held prev \<subseteq> P" and "held cur \<subseteq> P" and "finite P" and "card P \<le> KEYBOARD_REPORT_KEYS"
    and "executes ops h (changes prev cur) b b'"
  shows "typing ops Q code s0 M (keyboard_core b') (held cur)"
proof -
  obtain es where es: "keyboard_core b' = fold (action_exec ops h) es (keyboard_core b)"
      "map stroke es = map stroke_of (changes prev cur)" "\<forall>e \<in> set es. ev_time e \<noteq> 0"
    using assms(10) by (auto simp: executes_def)
  have "\<forall>(row, col, p) \<in> set (changes prev cur). (row, col) \<in> keys MATRIX_ROWS \<and> keypos_of row col \<in> P \<and>
      (p \<longleftrightarrow> keypos_of row col \<notin> held prev)"
  proof clarify
    fix row col p assume "(row, col, p) \<in> set (changes prev cur)"
    then have k: "(row, col) \<in> keys MATRIX_ROWS" "p = key_bit (row, col) cur" "key_bit (row, col) prev \<noteq> p"
      by (simp_all add: changes_props)
    then have "keypos_of row col \<in> held prev \<or> keypos_of row col \<in> held cur" by (auto simp: held_iff)
    then have "keypos_of row col \<in> P" using assms(6,7) by blast
    then show "(row, col) \<in> keys MATRIX_ROWS \<and> keypos_of row col \<in> P \<and> (p \<longleftrightarrow> keypos_of row col \<notin> held prev)"
      using k by (simp add: held_iff)
  qed
  then have "strokes_fit P es (held prev)"
    using strokes_of_changes_fit [OF es(2,3) changes_props(1)] assms(6,8,9) by blast
  from typing_run [OF assms(1-6) finite_subset [OF assms(6,8)] this] show ?thesis
    by (simp add: es fold_toggle toggle_changes)
qed
section \<open>The scanner as the debouncer sees it\<close>

text \<open>The keys whose switch is closed, as the row pins show it.\<close>

definition closed :: "pins \<Rightarrow> keypos set" where
  "closed pins = (\<lambda>(row, col). keypos_of row col) ` {(row, col) \<in> keys MATRIX_ROWS. \<not> pins col row}"

lemma held_read_matrix: "held (read_matrix pins) = closed pins"
proof -
  have "{x \<in> keys MATRIX_ROWS. key_bit x (read_matrix pins)} = {(row, col) \<in> keys MATRIX_ROWS. \<not> pins col row}"
    by (auto simp: keys_def key_bit_def read_matrix_bits)
  then show ?thesis by (simp add: held_def closed_def)
qed

definition debouncing_of :: "matrix_state \<Rightarrow> u8 eager_counting \<times> matrix_row list" where
  "debouncing_of m = (debounce_state m, matrix m)"

lemma matrix_scan_parts:
  "raw_matrix (snd (matrix_scan now pins m)) = read_matrix pins"
  "debouncing_of (snd (matrix_scan now pins m)) =
    snd (debounce_sym_eager_pk DEBOUNCE now (read_matrix pins) MATRIX_ROWS (raw_matrix m \<noteq> read_matrix pins) (debouncing_of m))"
  by (auto simp: matrix_scan_def debouncing_of_def Let_def split: prod.split)

definition scanning :: "u32 \<Rightarrow> keypos set \<Rightarrow> matrix_state \<Rightarrow> bool" where
  "scanning prev P m \<longleftrightarrow> eager_pk_inv DEBOUNCE MATRIX_ROWS prev (raw_matrix m) (debouncing_of m) \<and> held (matrix m) \<subseteq> P"

lemma scanning_init: "scanning prev P matrix_init"
proof -
  have "debouncing_of matrix_init = eager_pk_reset MATRIX_ROWS" "raw_matrix matrix_init = replicate MATRIX_ROWS 0"
    by (simp_all add: debouncing_of_def matrix_init_def eager_pk_reset_def)
  moreover have "held (matrix matrix_init) = {}"
    by (auto simp: held_def matrix_init_def key_bit_def keys_def)
  ultimately show ?thesis
    using eager_pk_reset_inv [of DEBOUNCE MATRIX_ROWS prev] by (simp add: scanning_def)
qed

lemma scanning_step:
  assumes "scanning prev P m" and "closed pins \<subseteq> P"
  shows "scanning now P (snd (matrix_scan now pins m))" and "length (matrix (snd (matrix_scan now pins m))) = MATRIX_ROWS"
proof -
  let ?m = "snd (matrix_scan now pins m)"
  obtain r s' where call: "debounce_sym_eager_pk DEBOUNCE now (read_matrix pins) MATRIX_ROWS (raw_matrix m \<noteq> read_matrix pins) (debouncing_of m) = (r, s')"
    by (rule prod.exhaust)
  then have s': "debouncing_of ?m = s'" by (simp add: matrix_scan_parts)
  have D: "0 < DEBOUNCE" by (simp add: DEBOUNCE_def)
  have inv: "eager_pk_inv DEBOUNCE MATRIX_ROWS prev (raw_matrix m) (debouncing_of m)" using assms(1) by (simp add: scanning_def)
  note step = eager_pk_call [OF D inv _ call]
  have inv': "eager_pk_inv DEBOUNCE MATRIX_ROWS now (read_matrix pins) s'" by (rule step(1)) simp
  have "key_bit x (matrix ?m) \<Longrightarrow> key_bit x (read_matrix pins) \<or> key_bit x (matrix m)" if "x \<in> keys MATRIX_ROWS" for x
  proof -
    have "key_state x s' = eager_key (DEBOUNCE_NAT 255 DEBOUNCE) (unat (elapsed_time now prev)) (key_bit x (read_matrix pins)) (key_state x (debouncing_of m))"
      by (rule step(2)) (simp_all add: that)
    moreover have "matrix ?m = snd s'" "matrix m = snd (debouncing_of m)" by (simp_all add: s' [symmetric] debouncing_of_def)
    ultimately show "key_bit x (matrix ?m) \<Longrightarrow> key_bit x (read_matrix pins) \<or> key_bit x (matrix m)"
      by (cases "key_state x (debouncing_of m)") (auto simp: key_bit_state eager_key_def split: if_splits)
  qed
  then have "held (matrix ?m) \<subseteq> held (read_matrix pins) \<union> held (matrix m)" by (auto simp: held_def)
  then show "scanning now P ?m"
    using inv' assms by (auto simp: scanning_def s' matrix_scan_parts(1) held_read_matrix)
  have "length (snd s') = MATRIX_ROWS" using inv' by (simp add: eager_pk_inv_def counters_ok_def sized2_def)
  then show "length (matrix ?m) = MATRIX_ROWS" by (simp add: s' [symmetric] debouncing_of_def)
qed

section \<open>Ticks, lamps and an idle encoder\<close>

lemma tick_idle:
  assumes "idle t" and "passive_hooks h" and "e = TICK_EVENT b"
  shows "action_exec ops h e t = t"
proof -
  have "IS_NOEVENT e" "\<not> ev_pressed e"
    by (simp_all add: assms(3) TICK_EVENT_def MAKE_KEYEVENT_def IS_NOEVENT_def)
  then show ?thesis
    using idle_key [OF assms(1), of e ops h] by (simp add: exec_passive [OF assms(2)] process_record_two plain_def)
qed

lemma typing_led: "typing ops Q code s0 M (t\<lparr>core := emit (Led_Set n) (core t)\<rparr>) H = typing ops Q code s0 M t H"
proof -
  have "read_source_layers_cache key (emit ev s) = read_source_layers_cache key s" for key ev and s :: "'a kb"
    by (simp add: emit_def read_source_layers_cache_def)
  then show ?thesis
    by (simp add: typing_def layers_ok_def memo_ok_def memo_key_def map_state_def keyboard_is_def boot_synced_def host_sees_def
        nkro_active_def emit_def)
qed

definition encoder_idle :: "pads \<Rightarrow> 'e board \<Rightarrow> bool" where
  "encoder_idle pads b \<longleftrightarrow> (\<forall>i < NUM_ENCODERS. encoder_state b ! i AND 3 = pad_status (pads i) \<and> \<not> encoder_interrupt_update b ! i)"

lemma encoder_idle_read: "encoder_idle pads b \<Longrightarrow> encoder_read ops h pads b = (False, b)"
proof -
  assume "encoder_idle pads b"
  then have "fold (encoder_read_one ops h pads) is (False, b) = (False, b)" if "set is \<subseteq> {..<NUM_ENCODERS}" for "is"
    using that by (induction "is") (auto simp: encoder_read_one_def encoder_idle_def)
  then show ?thesis by (simp add: encoder_read_def lessThan_atLeast0)
qed
section \<open>From the switches to the host\<close>

lemma task_encoder_frame:
  "encoder_state (snd (matrix_task ops h pins b)) = encoder_state b"
  "encoder_interrupt_update (snd (matrix_task ops h pins b)) = encoder_interrupt_update b"
proof -
  have col: "encoder_state (task_col ops h p row cur rc col b) = encoder_state b"
    "encoder_interrupt_update (task_col ops h p row cur rc col b) = encoder_interrupt_update b" for p row cur rc col and b :: "'a board"
    by (simp_all add: task_col_def switch_events_def Let_def)
  have row: "encoder_state (task_row ops h p row b) = encoder_state b"
    "encoder_interrupt_update (task_row ops h p row b) = encoder_interrupt_update b" for p row and b :: "'a board"
    by (simp_all add: task_row_def Let_def fold_frame col)
  show "encoder_state (snd (matrix_task ops h pins b)) = encoder_state b"
    "encoder_interrupt_update (snd (matrix_task ops h pins b)) = encoder_interrupt_update b"
    by (simp_all add: matrix_task_def Let_def fold_frame row generate_tick_event_def)
qed

lemma led_task_frame:
  "scanner (led_task b) = scanner b" "matrix_previous (led_task b) = matrix_previous b"
  "encoder_state (led_task b) = encoder_state b" "encoder_interrupt_update (led_task b) = encoder_interrupt_update b"
  "typing ops Q code s0 M (keyboard_core (led_task b)) H = typing ops Q code s0 M (keyboard_core b) H"
  by (simp_all add: led_task_def Let_def typing_led)

lemma keyboard_task_idle_encoder:
  fixes ops :: "'e eeprom_ops" and h :: "'e hooks" and pins :: pins
  assumes "encoder_idle pads b"
  defines "b1 \<equiv> snd (matrix_task ops h pins b)" and "b' \<equiv> keyboard_task ops h pins pads b"
  shows "scanner b' = scanner b1" and "matrix_previous b' = matrix_previous b1" and "encoder_idle pads b'"
    and "typing ops Q code s0 M (keyboard_core b') H = typing ops Q code s0 M (keyboard_core b1) H"
proof -
  obtain changed where task: "matrix_task ops h pins b = (changed, b1)" unfolding b1_def by (metis prod.collapse)
  let ?b2 = "if changed then last_matrix_activity_trigger b1 else b1"
  have "encoder_idle pads ?b2"
    using assms(1) task_encoder_frame [of ops h pins b] by (simp add: encoder_idle_def task last_matrix_activity_trigger_def)
  then have b': "b' = led_task (?b2\<lparr>mouse_keys := mousekey_task (timer_read ?b2) (mouse_keys ?b2)\<rparr>)" and "encoder_idle pads ?b2"
    by (simp_all add: b'_def keyboard_task_def task encoder_idle_read del: if_split)
  then show "scanner b' = scanner b1" "matrix_previous b' = matrix_previous b1" "encoder_idle pads b'"
    "typing ops Q code s0 M (keyboard_core b') H = typing ops Q code s0 M (keyboard_core b1) H"
    by (auto simp: led_task_frame last_matrix_activity_trigger_def encoder_idle_def)
qed

text \<open>Typing at the level of the board: the last matrix is the debounced one, and the host has its keys.\<close>

definition board_typing ::
  "'e eeprom_ops \<Rightarrow> (quantum_statics \<Rightarrow> bool) \<Rightarrow> (keypos \<Rightarrow> u8) \<Rightarrow> 'e kb \<Rightarrow> u8 \<Rightarrow> keypos set \<Rightarrow> pads \<Rightarrow> u32 \<Rightarrow> 'e board \<Rightarrow> bool" where
  "board_typing ops Q code s0 M P pads prev b \<longleftrightarrow> scanning prev P (scanner b) \<and> length (matrix (scanner b)) = MATRIX_ROWS \<and>
     matrix_previous b = matrix (scanner b) \<and> encoder_idle pads b \<and> typing ops Q code s0 M (keyboard_core b) (held (matrix_previous b))"

text \<open>One round of the task; the handlers may read the clock.\<close>

definition board_step :: "'e eeprom_ops \<Rightarrow> (u32 \<Rightarrow> 'e hooks) \<Rightarrow> pads \<Rightarrow> u32 \<times> pins \<Rightarrow> 'e board \<Rightarrow> 'e board" where
  "board_step ops h pads = (\<lambda>(now, pins) b. keyboard_task ops (h now) pins pads (b\<lparr>clock := now\<rparr>))"

lemma board_typing_step:
  fixes now :: u32 and pins :: pins
  assumes b: "board_typing ops Q code s0 M P pads prev b" and pins: "closed pins \<subseteq> P"
    and h: "typing_hooks ops Q s0 P (h now)" and os: "oneshot_layer_data s0 = 0" and P: "\<And>key. key \<in> P \<Longrightarrow> types ops s0 key (code key)"
    and inj: "inj_on code P" and fin: "finite P" and few: "card P \<le> KEYBOARD_REPORT_KEYS"
  defines "b' \<equiv> board_step ops h pads (now, pins) b"
  shows "board_typing ops Q code s0 M P pads now b'" and "scanner b' = snd (matrix_scan now pins (scanner b))"
proof -
  let ?b = "b\<lparr>clock := now\<rparr>" and ?m = "snd (matrix_scan now pins (scanner b))"
  obtain changed b1 where task: "matrix_task ops (h now) pins ?b = (changed, b1)" by (rule prod.exhaust)
  have b': "b' = keyboard_task ops (h now) pins pads ?b" by (simp add: b'_def board_step_def)
  have inv: "scanning prev P (scanner b)" "matrix_previous b = matrix (scanner b)" "length (matrix_previous b) = MATRIX_ROWS"
      "encoder_idle pads ?b" "typing ops Q code s0 M (keyboard_core b) (held (matrix_previous b))"
    using b by (auto simp: board_typing_def encoder_idle_def)
  note m = scanning_step [OF inv(1) pins]
  have ok: "board_ok (?b\<lparr>scanner := snd (matrix_scan (clock ?b) pins (scanner ?b))\<rparr>)"
    using inv m by (simp add: board_ok_def)
  have t: "scanner b1 = ?m" "matrix_previous b1 = matrix ?m" "changed \<longleftrightarrow> matrix_previous b \<noteq> matrix ?m"
      "if changed then executes ops (h now) (changes (matrix_previous b) (matrix ?m)) ?b b1
       else \<exists>es. keyboard_core b1 = fold (action_exec ops (h now)) es (keyboard_core b) \<and> set es \<subseteq> {TICK_EVENT ?b}"
    using matrix_task_changed [OF ok task] by (auto split: if_splits)
  have "typing ops Q code s0 M (keyboard_core b1) (held (matrix ?m))"
  proof (cases changed)
    case True
    show ?thesis
      by (rule changes_type [of ops Q code s0 M ?b "matrix_previous b" P "h now"]) (use True t inv m h os P inj fin few in \<open>auto simp: scanning_def\<close>)
  next
    case False
    then obtain es where es: "keyboard_core b1 = fold (action_exec ops (h now)) es (keyboard_core b)" "set es \<subseteq> {TICK_EVENT ?b}"
      using t(4) by auto
    have "fold (action_exec ops (h now)) es (keyboard_core b) = keyboard_core b"
      using es(2) inv(5) h by (induction es) (auto simp: tick_idle typing_def typing_hooks_def)
    then show ?thesis using False t inv es(1) by simp
  qed
  then show "board_typing ops Q code s0 M P pads now b'" and "scanner b' = ?m"
    using keyboard_task_idle_encoder [OF inv(4), where ops = ops and h = "h now" and pins = pins] t m by (simp_all add: b' task board_typing_def)
qed

text \<open>The scans of the debouncer during a run, and the time that the readings count, each capped as the code does.\<close>

fun scans_of :: "matrix_row list \<Rightarrow> (u32 \<times> pins) list \<Rightarrow> scan list" where
  "scans_of raw [] = []"
| "scans_of raw ((now, pins) # rs) = (now, read_matrix pins, raw \<noteq> read_matrix pins) # scans_of (read_matrix pins) rs"

fun waited :: "u32 \<Rightarrow> (u32 \<times> pins) list \<Rightarrow> nat" where
  "waited prev [] = 0"
| "waited prev ((now, pins) # rs) = unat (elapsed_time now prev) + waited now rs"

lemma scans_of_gaps: "sum_list (gaps prev (scans_of raw rs)) = waited prev rs"
  by (induction raw rs arbitrary: prev rule: scans_of.induct) auto

lemma scans_of_reported: "reported n raw (scans_of raw rs)"
  by (induction raw rs rule: scans_of.induct) auto

lemma scans_of_append: "scans_of raw (rs @ qs) = scans_of raw rs @ scans_of (if rs = [] then raw else read_matrix (snd (last rs))) qs"
  by (induction raw rs rule: scans_of.induct) auto

lemma scans_of_last: "fst (last_scan (prev, raw0) (scans_of raw rs)) = (if rs = [] then prev else fst (last rs))"
  by (induction raw rs arbitrary: prev raw0 rule: scans_of.induct) auto

lemma board_run:
  assumes "\<And>now. typing_hooks ops Q s0 P (h now)" and "oneshot_layer_data s0 = 0" and "\<And>key. key \<in> P \<Longrightarrow> types ops s0 key (code key)"
    and "inj_on code P" and "finite P" and "card P \<le> KEYBOARD_REPORT_KEYS"
  shows "board_typing ops Q code s0 M P pads prev b \<Longrightarrow> \<forall>r \<in> set rs. closed (snd r) \<subseteq> P \<Longrightarrow>
    (\<exists>prev. board_typing ops Q code s0 M P pads prev (fold (board_step ops h pads) rs b)) \<and>
    debouncing_of (scanner (fold (board_step ops h pads) rs b)) =
      eager_pk_run DEBOUNCE MATRIX_ROWS (scans_of (raw_matrix (scanner b)) rs) (debouncing_of (scanner b))"
proof (induction rs arbitrary: b prev)
  case (Cons r rs)
  obtain now pins where r: "r = (now, pins)" by (cases r)
  have "closed pins \<subseteq> P" using Cons.prems(2) by (simp add: r)
  note step = board_typing_step [OF Cons.prems(1) this assms]
  show ?case
    using Cons.IH [OF step(1)] Cons.prems(2) by (simp add: r step(2) matrix_scan_parts eager_pk_run_def)
qed (auto simp: eager_pk_run_def)
text \<open>
  The switches reach the host.  A board starts with every key up and its encoder at rest, in the boot protocol; the keys
  in \<open>P\<close>, at most six, each type their own basic keycode and are let pass by the handlers, and only their switches ever close.  Whatever the switches and their
  bounces do meanwhile, once the readings of the row pins have not changed for 20 ms of readings, the last report
  the host has received holds exactly the codes of the closed switches, and the modifiers are unchanged.
\<close>

theorem switches_reach_host:
  fixes pads :: pads
  assumes "typing ops Q code s0 M t {}" and "\<And>now. typing_hooks ops Q s0 P (h now)" and "oneshot_layer_data s0 = 0"
    and "\<And>key. key \<in> P \<Longrightarrow> types ops s0 key (code key)" and "inj_on code P"
    and "finite P" and "card P \<le> KEYBOARD_REPORT_KEYS" and "\<forall>r \<in> set (pre @ quiet). closed (snd r) \<subseteq> P"
    and "quiet \<noteq> []" and "\<forall>r \<in> set quiet. snd r = pins"
    and "DEBOUNCE \<le> waited (if pre = [] then 0 else fst (last pre)) quiet"
  defines "b \<equiv> fold (board_step ops h pads) (pre @ quiet) (encoder_init pads (board_static t))"
  shows "byte_keys (host_sees (core (keyboard_core b))) = code ` closed pins \<and> host_sees (core (keyboard_core b)) ! 0 = M"
proof -
  let ?b0 = "encoder_init pads (board_static t)" and ?scans = "scans_of (replicate MATRIX_ROWS 0)"
  have b0: "scanner ?b0 = matrix_init" "matrix_previous ?b0 = replicate MATRIX_ROWS 0" "keyboard_core ?b0 = t"
    "raw_matrix matrix_init = replicate MATRIX_ROWS 0" "matrix matrix_init = replicate MATRIX_ROWS 0"
    "debouncing_of matrix_init = eager_pk_reset MATRIX_ROWS"
    by (simp_all add: encoder_init_def board_static_def matrix_init_def debouncing_of_def eager_pk_reset_def)
  have "pad_status p AND 3 = pad_status p" for p
    by (cases p) (auto simp: pad_status_def)
  then have "encoder_idle pads ?b0"
    by (simp add: encoder_idle_def encoder_init_def board_static_def)
  moreover have "held (replicate MATRIX_ROWS 0) = {}"
    by (auto simp: held_def key_bit_def keys_def)
  ultimately have start: "board_typing ops Q code s0 M P pads 0 ?b0"
    using assms(1) scanning_init by (simp add: board_typing_def b0)
  obtain prev where b: "board_typing ops Q code s0 M P pads prev b"
      and run: "debouncing_of (scanner b) = eager_pk_run DEBOUNCE MATRIX_ROWS (?scans (pre @ quiet)) (eager_pk_reset MATRIX_ROWS)"
    using board_run [where h = h, OF assms(2-7) start assms(8)] by (auto simp: b_def b0)
  obtain raw where split: "?scans (pre @ quiet) = ?scans pre @ scans_of raw quiet" using scans_of_append by blast
  have "fst (snd scan) = read_matrix pins" if "scan \<in> set (scans_of raw quiet)" for scan
    using that assms(10) by (induction raw quiet rule: scans_of.induct) auto
  moreover have "scans_of raw quiet \<noteq> []" using assms(9) by (cases quiet) auto
  ultimately have settled: "key_bit x (snd (debouncing_of (scanner b))) = key_bit x (read_matrix pins)" if "x \<in> keys MATRIX_ROWS" for x
    using eager_pk_settles [of DEBOUNCE MATRIX_ROWS "?scans pre" "scans_of raw quiet" x "read_matrix pins"] that assms(11)
      scans_of_reported [of MATRIX_ROWS "replicate MATRIX_ROWS 0" "pre @ quiet"]
    by (simp add: run split scans_of_gaps scans_of_last DEBOUNCE_def)
  then have "held (matrix (scanner b)) = held (read_matrix pins)"
    by (auto simp: held_def debouncing_of_def)
  then show ?thesis
    using b by (auto simp: board_typing_def typing_def keyboard_is_def held_read_matrix)
qed
text \<open>The first of the two keys goes down at 10 and is read again at 20 and 31.\<close>

definition ab_pins :: pins where
  "ab_pins col row \<longleftrightarrow> \<not> (row = 2 \<and> col = 3)"

lemma ab_closed: "closed ab_pins = {\<lparr>key_row = 2, key_col = 3\<rparr>}"
proof -
  have "{(row, col) \<in> keys MATRIX_ROWS. \<not> ab_pins col row} = {(2, 3)}"
    by (auto simp: ab_pins_def keys_def MATRIX_ROWS_def MATRIX_COLS_def)
  then show ?thesis by (simp add: closed_def keypos_of_def)
qed

theorem switches_reach_host_witness:
  "byte_keys (host_sees (core (keyboard_core (fold (board_step run_ops (\<lambda>_. run_hooks) (\<lambda>_. (True, True)))
      ([(10, ab_pins)] @ [(20, ab_pins), (31, ab_pins)])
      (encoder_init (\<lambda>_. (True, True)) (board_static (tapping_static ab_kb))))))) = {4}"
proof -
  have sub: "\<forall>r \<in> set ([(10, ab_pins)] @ [(20, ab_pins), (31, ab_pins)]). closed (snd r) \<subseteq> ab_keys"
    by (simp add: ab_closed ab_keys_def)
  have keys: "finite ab_keys" "card ab_keys \<le> KEYBOARD_REPORT_KEYS"
    by (simp_all add: ab_keys_def KEYBOARD_REPORT_KEYS_def card_insert_if)
  have time: "DEBOUNCE \<le> waited (if [(10 :: u32, ab_pins)] = [] then 0 else fst (last [(10, ab_pins)])) [(20, ab_pins), (31, ab_pins)]"
    by (simp add: DEBOUNCE_def elapsed_time_def timer_diff32_def)
  have "ab_code ` closed ab_pins = {4}"
    by (simp add: ab_closed ab_code_def)
  then show ?thesis
    using switches_reach_host [OF ab_start(1-3) ab_types ab_start(4) keys sub _ _ time, of ab_pins "\<lambda>_. (True, True)"] by simp
qed

theorem one_event_per_changed_key_witness:
  "matrix_previous (snd (matrix_task run_ops run_hooks ab_pins (board_static (tapping_static ab_kb)))) =
    matrix (scanner (snd (matrix_task run_ops run_hooks ab_pins (board_static (tapping_static ab_kb)))))"
proof -
  let ?b = "board_static (tapping_static ab_kb)"
  have "length (matrix_previous ?b) = MATRIX_ROWS" "scanner ?b = matrix_init" by (simp_all add: board_static_def)
  moreover have "length (matrix (snd (matrix_scan (clock ?b) ab_pins matrix_init))) = MATRIX_ROWS"
    by (rule scanning_step(2) [OF scanning_init, of _ "closed ab_pins"]) simp
  ultimately show ?thesis
    using one_event_per_changed_key [of ?b ab_pins run_ops run_hooks, OF _ _ prod.collapse [symmetric]] by simp
qed

end
