(* ===== verification/Encoder_Laws.thy ===== *)
theory Encoder_Laws
  imports Main_Loop_Laws
begin

text \<open>
  The rotary encoder, sampled by the main loop and by the handler of its pins' edges: it taps its key once per detent and
  direction, whatever the shaft does between the detents, as long as it is sampled in time.
\<close>

section \<open>The shaft\<close>

text \<open>The pads with the shaft at a position counted in quarter steps; a detent is a multiple of four.\<close>

definition pads_at :: "int \<Rightarrow> pads" where
  "pads_at q i = [(True, True), (True, False), (False, False), (False, True)] ! nat (q mod 4)"

fun readings :: "int \<Rightarrow> int list \<Rightarrow> pads list" where
  "readings q [] = []"
| "readings q (d # ds) = pads_at (q + d) # readings (q + d) ds"

lemma quarter_cases:
  obtains "q mod 4 = 0" | "q mod 4 = 1" | "q mod 4 = 2" | "q mod 4 = (3 :: int)"
  by linarith

definition gray :: "int \<Rightarrow> u8" where
  "gray k = (if k = 0 then 3 else if k = 1 then 1 else if k = 2 then 0 else 2)"

lemma status_at: "pad_status (pads_at q i) = gray (q mod 4)"
  by (rule quarter_cases [of q]) (simp_all add: pads_at_def pad_status_def gray_def)

lemma gray_step:
  assumes "d \<in> {- 1, 0, 1}"
  shows "encoder_LUT ! unat (push_bit 2 (gray (q mod 4)) OR gray ((q + d) mod 4)) = d"
    and "gray ((q + d) mod 4) = gray (q mod 4) \<longleftrightarrow> d = 0" and "gray (q mod 4) = 3 \<longleftrightarrow> q mod 4 = 0"
proof -
  have "q mod 4 \<in> {0, 1, 2, 3}" by (rule quarter_cases [of q]) simp_all
  moreover have "(q + d) mod 4 = (q mod 4 + d) mod 4" by (simp add: mod_simps)
  moreover have "\<forall>k \<in> {0, 1, 2, 3}. \<forall>d \<in> {- 1, 0, 1}. encoder_LUT ! unat (push_bit 2 (gray k) OR gray ((k + d) mod 4)) = d \<and>
      (gray ((k + d) mod 4) = gray k \<longleftrightarrow> d = 0) \<and> (gray k = 3 \<longleftrightarrow> k = 0)"
    by (simp add: encoder_LUT_def gray_def)
  ultimately show "encoder_LUT ! unat (push_bit 2 (gray (q mod 4)) OR gray ((q + d) mod 4)) = d"
    and "gray ((q + d) mod 4) = gray (q mod 4) \<longleftrightarrow> d = 0" and "gray (q mod 4) = 3 \<longleftrightarrow> q mod 4 = 0"
    using assms by (metis (no_types, lifting))+
qed

lemma state_bits:
  fixes st s :: u8
  assumes "s AND 3 = s"
  shows "(push_bit 2 st OR s) AND 3 = s" and "(push_bit 2 st OR s) AND 0xF = push_bit 2 (st AND 3) OR s"
proof -
  have m: "(3 :: u8) = mask 2" "(15 :: u8) = mask 4" by (simp_all add: mask_eq_exp_minus_1)
  have s: "bit s n \<Longrightarrow> n < 2" for n
    using assms unfolding m by (metis bit_and_iff bit_mask_iff)
  show "(push_bit 2 st OR s) AND 3 = s"
    unfolding m by (rule bit_word_eqI) (auto simp: bit_simps dest: s)
  show "(push_bit 2 st OR s) AND 0xF = push_bit 2 (st AND 3) OR s"
    unfolding m by (rule bit_word_eqI) (auto simp: bit_simps dest: s)
qed

lemma status_small: "pad_status p AND 3 = pad_status p"
  by (cases p) (auto simp: pad_status_def)

text \<open>The table is the difference of two neighbouring positions.\<close>

lemma LUT_step:
  assumes "st AND 3 = pad_status (pads_at q i)" and "d \<in> {- 1, 0, 1}"
  shows "encoder_LUT ! unat ((push_bit 2 st OR pad_status (pads_at (q + d) i)) AND 0xF) = d"
  unfolding state_bits(2) [OF status_small]
  unfolding assms(1)
  unfolding status_at by (rule gray_step(1) [OF assms(2)])

section \<open>Taps of the encoder's keys\<close>

definition encoder_event :: "bool \<Rightarrow> bool \<Rightarrow> u16 \<Rightarrow> keyevent" where
  "encoder_event cw pressed time =
    \<lparr>ev_key = \<lparr>key_row = if cw then KEYLOC_ENCODER_CW else KEYLOC_ENCODER_CCW, key_col = 0\<rparr>, ev_pressed = pressed, ev_time = time\<rparr>"

definition pause :: "'e tapping \<Rightarrow> 'e tapping" where
  "pause t = t\<lparr>core := wait_ms ENCODER_MAP_KEY_DELAY (core t)\<rparr>"

text \<open>The core after the taps, each with a pause after its press and after its release.\<close>

fun tapped :: "'e eeprom_ops \<Rightarrow> 'e hooks \<Rightarrow> bool list \<Rightarrow> 'e tapping \<Rightarrow> 'e tapping \<Rightarrow> bool" where
  "tapped ops h [] t t' \<longleftrightarrow> t' = t"
| "tapped ops h (cw # cws) t t' \<longleftrightarrow> (\<exists>n m. n \<noteq> 0 \<and> m \<noteq> 0 \<and>
     tapped ops h cws (pause (action_exec ops h (encoder_event cw False m) (pause (action_exec ops h (encoder_event cw True n) t)))) t')"


lemma mapping_taps:
  "tapped ops h [cw] (keyboard_core b) (keyboard_core (encoder_exec_mapping ops h 0 cw b))"
  "encoder_state (encoder_exec_mapping ops h 0 cw b) = encoder_state b"
  "encoder_pulses (encoder_exec_mapping ops h 0 cw b) = encoder_pulses b"
  "encoder_value (encoder_exec_mapping ops h 0 cw b) = encoder_value b"
  "encoder_interrupt_update (encoder_exec_mapping ops h 0 cw b) = encoder_interrupt_update b"
proof -
  have press: "ENCODER_CW_EVENT 0 p b = encoder_event True p (timer_read b OR 1)"
    "ENCODER_CCW_EVENT 0 p b = encoder_event False p (timer_read b OR 1)" for p and b :: "'a board"
    by (simp_all add: ENCODER_CW_EVENT_def ENCODER_CCW_EVENT_def MAKE_KEYEVENT_def encoder_event_def)
  show "tapped ops h [cw] (keyboard_core b) (keyboard_core (encoder_exec_mapping ops h 0 cw b))"
  proof -
    let ?b1 = "board_wait ENCODER_MAP_KEY_DELAY (exec ops h (encoder_event cw True (timer_read b OR 1)) b)"
    have "keyboard_core (encoder_exec_mapping ops h 0 cw b) = pause (action_exec ops h (encoder_event cw False (timer_read ?b1 OR 1))
        (pause (action_exec ops h (encoder_event cw True (timer_read b OR 1)) (keyboard_core b))))"
      by (cases cw) (simp_all add: encoder_exec_mapping_def board_wait_def press pause_def Let_def)
    then show ?thesis
      using odd_time [of b] odd_time [of ?b1] unfolding tapped.simps by blast
  qed
qed (simp_all add: encoder_exec_mapping_def board_wait_def Let_def)

section \<open>Refinement of the shaft\<close>



definition net :: "bool list \<Rightarrow> int" where
  "net cws = sum_list (map (\<lambda>cw. if cw then - 1 else 1) cws)"

lemma net_append [simp]: "net (as @ bs) = net as + net bs" "net [] = 0"
  by (simp_all add: net_def)







section \<open>Runs\<close>










section \<open>Interrupts between two readings\<close>

text \<open>
  The interrupt handler only counts the pulses; a reading taps once, however many detents have been counted since the last one, and
  forgets the rest.
\<close>

lemma interrupts_count:
  assumes "encoder_state b ! 0 AND 3 = pad_status (pads_at q 0)" and "set ds \<subseteq> {- 1, 0, 1}" and "length (encoder_state b) = 1"
    and "encoder_pulses b = [p]" and "- 128 \<le> p - int (length ds)" and "p + int (length ds) \<le> 127"
  defines "b' \<equiv> fold (\<lambda>pads. encoder_inerrupt_read pads 0) (readings q ds) b"
  shows "encoder_pulses b' = [p + sum_list ds] \<and> encoder_value b' = encoder_value b \<and> length (encoder_state b') = 1 \<and>
    encoder_state b' ! 0 AND 3 = pad_status (pads_at (q + sum_list ds) 0)"
  using assms(1-6) unfolding b'_def
proof (induction ds arbitrary: b q p)
  case (Cons d ds)
  let ?b = "encoder_inerrupt_read (pads_at (q + d)) 0 b"
  have d: "d \<in> {- 1, 0, 1}" and ds: "set ds \<subseteq> {- 1, 0, 1}" using Cons.prems(2) by auto
  have "int8 (p + d) = p + d" using Cons.prems(5,6) d by (auto intro!: int8_id)
  then have "encoder_pulses ?b = [p + d]" "encoder_value ?b = encoder_value b" "length (encoder_state ?b) = 1"
    "encoder_state ?b ! 0 AND 3 = pad_status (pads_at (q + d) 0)"
    using LUT_step [OF Cons.prems(1) d] Cons.prems(3,4) state_bits(1) [OF status_small]
    by (simp_all add: encoder_inerrupt_read_def Let_def)
  with Cons.IH [of ?b "q + d" "p + d", OF _ ds] Cons.prems(5,6) d show ?case
    by (auto simp: add.assoc)
qed simp

lemma detents_merged:
  fixes ops :: "'e eeprom_ops" and h :: "'e hooks" and t :: "'e tapping"
  defines "b \<equiv> fold (\<lambda>pads. encoder_inerrupt_read pads 0) (readings 0 (replicate 8 1)) (encoder_init (pads_at 0) (board_static t))"
  shows "encoder_pulses b = [8]"
    and "tapped ops h [False] t (keyboard_core (snd (encoder_read ops h (pads_at 8) b)))"
    and "encoder_pulses (snd (encoder_read ops h (pads_at 8) b)) = [0]" and "encoder_value (snd (encoder_read ops h (pads_at 8) b)) = [1]"
proof -
  let ?b0 = "encoder_init (pads_at 0) (board_static t)"
  have b0: "encoder_state ?b0 = [3]" "encoder_pulses ?b0 = [0]" "encoder_value ?b0 = [0]" "encoder_interrupt_update ?b0 = [False]"
    "keyboard_core ?b0 = t"
    by (simp_all add: encoder_init_def board_static_def NUM_ENCODERS_def status_at gray_def)
  have fields: "length (encoder_interrupt_update (encoder_inerrupt_read pads 0 b)) = length (encoder_interrupt_update b)"
    "keyboard_core (encoder_inerrupt_read pads 0 b) = keyboard_core b"
    "length (encoder_interrupt_update b) = 1 \<Longrightarrow> encoder_interrupt_update (encoder_inerrupt_read pads 0 b) ! 0" for pads and b :: "'e board"
    by (simp_all add: encoder_inerrupt_read_def Let_def)
  have count: "encoder_pulses b = [0 + 8] \<and> encoder_value b = encoder_value ?b0 \<and> length (encoder_state b) = 1 \<and>
    encoder_state b ! 0 AND 3 = pad_status (pads_at (0 + 8) 0)"
    using interrupts_count [of ?b0 0 "replicate 8 1" 0] by (simp add: b_def b0 status_at gray_def numeral_eq_Suc)
  then have b: "encoder_pulses b = [8]" "encoder_value b = [0]" "length (encoder_state b) = 1" by (simp_all add: b0)
  have i: "keyboard_core b = t" "length (encoder_interrupt_update b) = 1" "encoder_interrupt_update b ! 0"
    by (simp_all add: b_def fields b0 numeral_eq_Suc)
  have one: "xs[0 := x] = [x]" if "length xs = 1" for xs and x :: 'x
    using that by (cases xs) simp_all
  have st: "encoder_state b ! 0 AND 3 = 3" "pad_status (pads_at 8 0) = 3"
    using conjunct2 [OF conjunct2 [OF conjunct2 [OF count]]] by (simp_all add: status_at gray_def)
  let ?state = "push_bit 2 (encoder_state b ! 0) OR 3"
  have state: "?state AND 3 = 3" "?state AND 0xF = 15"
    using state_bits [of 3 "encoder_state b ! 0"] st(1) by simp_all
  let ?b = "b\<lparr>encoder_state := [?state], encoder_pulses := [8], encoder_value := [1]\<rparr>"
  have read: "snd (encoder_read ops h (pads_at 8) b) =
      (encoder_exec_mapping ops h 0 False ?b)\<lparr>encoder_pulses := [0], encoder_interrupt_update := [False]\<rparr>"
    using mapping_taps [of ops h False ?b] i b state
    by (simp add: encoder_read_def encoder_read_one_def NUM_ENCODERS_def st one [OF b(3)] encoder_update_def Let_def split_def
        ENCODER_RESOLUTION_def ENCODER_DEFAULT_POS_def ENCODER_COUNTER_CLOCKWISE_def encoder_LUT_def int8_id one [OF i(2)])
  show "encoder_pulses b = [8]" by (rule b(1))
  show "tapped ops h [False] t (keyboard_core (snd (encoder_read ops h (pads_at 8) b)))"
    using mapping_taps(1) [of ops h False ?b] i(1) by (simp add: read del: tapped.simps)
  show "encoder_pulses (snd (encoder_read ops h (pads_at 8) b)) = [0]" "encoder_value (snd (encoder_read ops h (pads_at 8) b)) = [1]"
    using mapping_taps(4) [of ops h False ?b] by (simp_all add: read)
qed

end
