(* ===== verification/Send_String.thy ===== *)
theory Send_String
  imports Report_Sending
begin

text \<open>
  quantum/send_string/send_string.c: strings typed by the keyboard.  A character goes through three bit tables (shift,
  AltGr, dead key) and one table of keycodes to register_code, tap_code and unregister_code; the byte SS_QMK_PREFIX starts
  an element that taps, presses or releases a keycode or waits.  The array a string lives in is the list of its bytes
  including the terminator; None is a read behind it, an index behind a table or a delay that overflows an int.
\<close>

section \<open>The tables\<close>

definition KCLUT_ENTRY :: "bool list \<Rightarrow> u8" where
  "KCLUT_ENTRY bs = horner_sum of_bool 2 bs"

definition ascii_to_shift_lut :: "u8 list" where
  "ascii_to_shift_lut = map KCLUT_ENTRY [
     [False, False, False, False, False, False, False, False],
     [False, False, False, False, False, False, False, False],
     [False, False, False, False, False, False, False, False],
     [False, False, False, False, False, False, False, False],
     [False, True, True, True, True, True, True, False],
     [True, True, True, True, False, False, False, False],
     [False, False, False, False, False, False, False, False],
     [False, False, True, False, True, False, True, True],
     [True, True, True, True, True, True, True, True],
     [True, True, True, True, True, True, True, True],
     [True, True, True, True, True, True, True, True],
     [True, True, True, False, False, False, True, True],
     [False, False, False, False, False, False, False, False],
     [False, False, False, False, False, False, False, False],
     [False, False, False, False, False, False, False, False],
     [False, False, False, True, True, True, True, False]]"

definition ascii_to_altgr_lut :: "u8 list" where
  "ascii_to_altgr_lut = replicate 16 (KCLUT_ENTRY (replicate 8 False))"

definition ascii_to_dead_lut :: "u8 list" where
  "ascii_to_dead_lut = replicate 16 (KCLUT_ENTRY (replicate 8 False))"

definition ascii_to_keycode_lut :: "u8 list" where
  "ascii_to_keycode_lut = [
     0, 0, 0, 0, 0, 0, 0, 0,
     42, 43, 40, 0, 0, 0, 0, 0,
     0, 0, 0, 0, 0, 0, 0, 0,
     0, 0, 0, 41, 0, 0, 0, 0,
     44, 30, 52, 32, 33, 34, 36, 52,
     38, 39, 37, 46, 54, 45, 55, 56,
     39, 30, 31, 32, 33, 34, 35, 36,
     37, 38, 51, 51, 54, 46, 55, 56,
     31, 4, 5, 6, 7, 8, 9, 10,
     11, 12, 13, 14, 15, 16, 17, 18,
     19, 20, 21, 22, 23, 24, 25, 26,
     27, 28, 29, 47, 49, 48, 35, 45,
     53, 4, 5, 6, 7, 8, 9, 10,
     11, 12, 13, 14, 15, 16, 17, 18,
     19, 20, 21, 22, 23, 24, 25, 26,
     27, 28, 29, 47, 49, 48, 53, 76]"

definition PGM_LOADBIT :: "u8 list \<Rightarrow> u8 \<Rightarrow> bool" where
  "PGM_LOADBIT mem pos = bit (mem ! (unat pos div 8)) (unat pos mod 8)"

section \<open>Characters and numbers\<close>

definition when_do :: "bool \<Rightarrow> ('a \<Rightarrow> 'a) \<Rightarrow> 'a \<Rightarrow> 'a" where
  "when_do b f s = (if b then f s else s)"

definition send_char :: "u8 \<Rightarrow> 'e kb \<Rightarrow> 'e kb option" where
  "send_char ascii_code s =
    (if 128 \<le> ascii_code then None
     else
       let keycode = ascii_to_keycode_lut ! unat ascii_code;
           is_shifted = PGM_LOADBIT ascii_to_shift_lut ascii_code;
           is_altgred = PGM_LOADBIT ascii_to_altgr_lut ascii_code;
           is_dead = PGM_LOADBIT ascii_to_dead_lut ascii_code;
           s = when_do is_shifted (register_code 0xE1) s;
           s = when_do is_altgred (register_code 0xE6) s;
           s = tap_code keycode s;
           s = when_do is_altgred (unregister_code 0xE6) s;
           s = when_do is_shifted (unregister_code 0xE1) s
       in Some (when_do is_dead (tap_code 0x2C) s))"

definition send_nibble :: "u8 \<Rightarrow> 'e kb \<Rightarrow> 'e kb option" where
  "send_nibble number s = (if number AND 0xF \<le> 9 then send_char (number + 48) s else send_char (number - 10 + 97) s)"

definition send_byte :: "u8 \<Rightarrow> 'e kb \<Rightarrow> 'e kb option" where
  "send_byte number s = Option.bind (send_nibble (drop_bit 4 number) s) (send_nibble (number AND 0xF))"

definition send_word :: "u16 \<Rightarrow> 'e kb \<Rightarrow> 'e kb option" where
  "send_word number s = Option.bind (send_byte (ucast (drop_bit 8 number)) s) (send_byte (ucast (number AND 0xFF)))"

definition send_dword :: "u32 \<Rightarrow> 'e kb \<Rightarrow> 'e kb option" where
  "send_dword number s = Option.bind (send_word (ucast (drop_bit 16 number)) s) (send_word (ucast (number AND 0xFFFF)))"

text \<open>A random character of base 64; the argument is what the library's rand returned.\<close>

definition tap_random_base64 :: "nat \<Rightarrow> 'e kb \<Rightarrow> 'e kb option" where
  "tap_random_base64 rand s =
    (let key = of_nat (rand mod 64) :: u8 in
     if key \<le> 25 then send_char (key + 65) s
     else if key \<le> 51 then send_char (key - 26 + 97) s
     else if key = 52 then send_char 48 s
     else if key \<le> 61 then send_char (key - 53 + 49) s
     else if key = 62 then send_char 43 s
     else send_char 47 s)"

section \<open>Strings\<close>

definition isdigit :: "u8 \<Rightarrow> bool" where
  "isdigit c = (48 \<le> c \<and> c \<le> 57)"

text \<open>The digits of a delay: the number and the string from the first byte that is not a digit.\<close>

fun delay_digits :: "u8 list \<Rightarrow> int \<Rightarrow> (nat \<times> u8 list) option" where
  "delay_digits [] ms = None"
| "delay_digits (k # ks) ms =
    (if isdigit k then
       (let ms1 = ms * 10 + (uint k - 48) in if 2 ^ 31 \<le> ms1 then None else delay_digits ks ms1)
     else Some (nat ms, k # ks))"

text \<open>One element of a string, and the string behind it.\<close>

definition send_element :: "u8 list \<Rightarrow> 'e kb \<Rightarrow> ('e kb \<times> u8 list) option" where
  "send_element string s =
    (case string of
       [] \<Rightarrow> None
     | c # cs \<Rightarrow>
        if c = SS_QMK_PREFIX then
          (case cs of
             [] \<Rightarrow> None
           | d # ds \<Rightarrow>
              if d = SS_TAP_CODE then (case ds of [] \<Rightarrow> None | k # ks \<Rightarrow> Some (tap_code k s, ks))
              else if d = SS_DOWN_CODE then (case ds of [] \<Rightarrow> None | k # ks \<Rightarrow> Some (register_code k s, ks))
              else if d = SS_UP_CODE then (case ds of [] \<Rightarrow> None | k # ks \<Rightarrow> Some (unregister_code k s, ks))
              else if d = SS_DELAY_CODE then
                (case delay_digits ds 0 of None \<Rightarrow> None | Some (ms, ks) \<Rightarrow> Some ((wait_ms 1 ^^ ms) s, tl ks))
              else Some (s, ds))
        else map_option (\<lambda>s. (s, cs)) (send_char c s))"

lemma delay_digits_length: "delay_digits ks ms = Some (n, r) \<Longrightarrow> length r \<le> length ks"
  by (induction ks ms rule: delay_digits.induct) (auto simp: Let_def split: if_splits)

lemma send_element_length: "send_element string s = Some (t, rest) \<Longrightarrow> length rest < length string"
  by (auto simp: send_element_def split: list.splits if_splits option.splits prod.splits dest!: delay_digits_length)

function send_string_with_delay :: "u8 list \<Rightarrow> u8 \<Rightarrow> 'e kb \<Rightarrow> 'e kb option" where
  "send_string_with_delay string interval s =
    (case string of
       [] \<Rightarrow> None
     | c # _ \<Rightarrow>
        if c = 0 then Some s
        else case send_element string s of
          None \<Rightarrow> None
        | Some (t, rest) \<Rightarrow> send_string_with_delay rest interval ((wait_ms 1 ^^ unat interval) t))"
  by auto
termination
  by (relation "measure (\<lambda>(string, _, _). length string)") (auto dest: send_element_length)

declare send_string_with_delay.simps [simp del]

definition send_string :: "u8 list \<Rightarrow> 'e kb \<Rightarrow> 'e kb option" where
  "send_string string s = send_string_with_delay string 0 s"

text \<open>
  The macro of dynamic_keymap.c: its eight-byte buffers are sent one by one.
\<close>

definition DYNAMIC_KEYMAP_MACRO_DELAY :: nat where "DYNAMIC_KEYMAP_MACRO_DELAY = TAP_CODE_DELAY"

fun send_chunks :: "u8 list list \<Rightarrow> 'e kb \<Rightarrow> 'e kb option" where
  "send_chunks [] s = Some s"
| "send_chunks (d # ds) s =
    Option.bind (send_string_with_delay d (of_nat DYNAMIC_KEYMAP_MACRO_DELAY) s) (send_chunks ds)"

definition macro_play :: "'e eeprom_ops \<Rightarrow> nat \<Rightarrow> nat \<Rightarrow> 'e kb \<Rightarrow> 'e kb option" where
  "macro_play ops fuel macro_id s =
    (let (chunks, ended) = dynamic_keymap_macro_send ops fuel macro_id (eeprom_state s) in
     if ended then send_chunks chunks s else None)"

end
