(* ===== verification/Quantum.thy ===== *)
theory Quantum
  imports Send_String Factory_Test Action_Tapping
begin

text \<open>
  quantum/quantum.c and the handlers of quantum/process_keycode that the P1 build has: what happens to a key record before
  the action code sees it.  The handlers run in a chain that ends at the first one that answers false.  Their static
  variables are the field \<open>statics\<close> of the keyboard state.  The clock and the handlers of the radio link and of the RGB
  matrix are parameters (\<open>quantum_env\<close>).  \<open>quantum_hooks\<close> packs the chain into the hooks of the action code.
\<close>

section \<open>Keycodes with modifiers\<close>

definition QK_MODS :: u16 where "QK_MODS = 0x0100"
definition QK_MODS_MAX :: u16 where "QK_MODS_MAX = 0x1FFF"
definition QK_LCTL :: u16 where "QK_LCTL = 0x0100"
definition QK_LSFT :: u16 where "QK_LSFT = 0x0200"
definition QK_LALT :: u16 where "QK_LALT = 0x0400"
definition QK_LGUI :: u16 where "QK_LGUI = 0x0800"
definition QK_RMODS_MIN :: u16 where "QK_RMODS_MIN = 0x1000"

definition extract_mod_bits :: "u16 \<Rightarrow> u8" where
  "extract_mod_bits code =
    (if within QK_MODS QK_MODS_MAX code then
       (let on = (\<lambda>flag key. if code AND flag \<noteq> 0 then MOD_BIT key else 0) in
        if code AND QK_RMODS_MIN \<noteq> 0
        then on QK_LCTL 0xE4 OR on QK_LSFT 0xE5 OR on QK_LALT 0xE6 OR on QK_LGUI 0xE7
        else on QK_LCTL 0xE0 OR on QK_LSFT 0xE1 OR on QK_LALT 0xE2 OR on QK_LGUI 0xE3)
     else 0)"

definition do_code16 :: "u16 \<Rightarrow> (u8 \<Rightarrow> 'e kb \<Rightarrow> 'e kb) \<Rightarrow> 'e kb \<Rightarrow> 'e kb" where
  "do_code16 code f = f (extract_mod_bits code)"

definition register_code16 :: "u16 \<Rightarrow> 'e kb \<Rightarrow> 'e kb" where
  "register_code16 code s =
     register_code (ucast code)
       (do_code16 code (if within 0xE0 0xE7 code \<or> code = KC_NO then register_mods else register_weak_mods) s)"

definition unregister_code16 :: "u16 \<Rightarrow> 'e kb \<Rightarrow> 'e kb" where
  "unregister_code16 code s =
     do_code16 code (if within 0xE0 0xE7 code \<or> code = KC_NO then unregister_mods else unregister_weak_mods)
       (unregister_code (ucast code) s)"

definition tap_code16_delay :: "u16 \<Rightarrow> u16 \<Rightarrow> 'e kb \<Rightarrow> 'e kb" where
  "tap_code16_delay code delay s = unregister_code16 code ((wait_ms 1 ^^ unat delay) (register_code16 code s))"

definition tap_code16 :: "u16 \<Rightarrow> 'e kb \<Rightarrow> 'e kb" where
  "tap_code16 code s =
     tap_code16_delay code (of_nat (if code = KC_CAPS_LOCK then TAP_HOLD_CAPS_DELAY else TAP_CODE_DELAY)) s"

section \<open>Leaving the program\<close>

text \<open>
  After \<open>Bootloader_Jump\<close> and \<open>Mcu_Reset\<close> nothing of the program runs; what the model computes after them has no
  counterpart.
\<close>

definition shutdown_quantum :: "'e kb \<Rightarrow> 'e kb" where
  "shutdown_quantum s = wait_ms 250 (clear_keyboard s)"

definition reset_keyboard :: "'e kb \<Rightarrow> 'e kb" where
  "reset_keyboard s = emit Bootloader_Jump (shutdown_quantum s)"

definition soft_reset_keyboard :: "'e kb \<Rightarrow> 'e kb" where
  "soft_reset_keyboard s = emit Mcu_Reset (shutdown_quantum s)"

section \<open>The keycode of an event\<close>

definition get_event_keycode :: "'e eeprom_ops \<Rightarrow> keyevent \<Rightarrow> bool \<Rightarrow> 'e kb \<Rightarrow> u16 \<times> 'e kb" where
  "get_event_keycode ops e update_layer_cache s =
    (if \<not> disable_action_cache s then
       (let (layer, s) =
          (if ev_pressed e \<and> update_layer_cache then
             (let (layer, s) = layer_switch_get_layer ops (ev_key e) s in (layer, update_source_layers_cache (ev_key e) layer s))
           else (read_source_layers_cache (ev_key e) s, s))
        in keymap_key_to_keycode ops layer (ev_key e) s)
     else
       (let (layer, s) = layer_switch_get_layer ops (ev_key e) s in keymap_key_to_keycode ops layer (ev_key e) s))"

definition get_record_keycode :: "'e eeprom_ops \<Rightarrow> keyrecord \<Rightarrow> bool \<Rightarrow> 'e kb \<Rightarrow> u16 \<times> 'e kb" where
  "get_record_keycode ops rec update_layer_cache s = get_event_keycode ops (event rec) update_layer_cache s"

section \<open>Macro keys\<close>

definition QK_MACRO :: u16 where "QK_MACRO = 0x7700"
definition QK_MACRO_MAX :: u16 where "QK_MACRO_MAX = 0x777F"

text \<open>A macro cannot have more elements than its area has bytes; a macro whose playing is undefined has an unspecified effect.\<close>

definition process_record_via :: "'e eeprom_ops \<Rightarrow> u16 \<Rightarrow> keyrecord \<Rightarrow> 'e kb \<Rightarrow> bool \<times> 'e kb" where
  "process_record_via ops keycode rec s =
    (if ev_pressed (event rec) \<and> within QK_MACRO QK_MACRO_MAX keycode
     then (False, the (macro_play ops (Suc DYNAMIC_KEYMAP_MACRO_EEPROM_SIZE) (unat (ucast (keycode - QK_MACRO) :: u8)) s))
     else (True, s))"

section \<open>The keys of the manufacturer\<close>

definition KC_LOPTN :: u16 where "KC_LOPTN = 0x7E00"
definition KC_RCMMD :: u16 where "KC_RCMMD = 0x7E03"
definition KC_MCTRL :: u16 where "KC_MCTRL = 0x7E04"
definition KC_LNPAD :: u16 where "KC_LNPAD = 0x7E05"
definition KC_TASK :: u16 where "KC_TASK = 0x7E06"
definition KC_CTANA :: u16 where "KC_CTANA = 0x7E09"
definition KC_SIRI :: u16 where "KC_SIRI = 0x7E0A"

definition mac_keycode :: "u8 list" where "mac_keycode = [0xE2, 0xE6, 0xE3, 0xE7]"

definition key_comb_list :: "u8 list list" where
  "key_comb_list = [[0xE3, 0x2B], [0xE3, 0x08], [0xE1, 0xE3, 0x21], [0xE3, 0x06]]"

definition key_updown :: "bool \<Rightarrow> u8 \<Rightarrow> 'e kb \<Rightarrow> 'e kb" where
  "key_updown press code s = (if press then register_code code s else unregister_code code s)"

definition process_record_lemokey_common :: "u32 \<Rightarrow> u16 \<Rightarrow> keyrecord \<Rightarrow> 'e kb \<Rightarrow> bool \<times> 'e kb" where
  "process_record_lemokey_common now keycode rec s =
    (let press = ev_pressed (event rec) in
     if keycode = KC_MCTRL then (False, key_updown press 0xC1 s)
     else if keycode = KC_LNPAD then (False, key_updown press 0xC2 s)
     else if within KC_LOPTN KC_RCMMD keycode then (False, key_updown press (mac_keycode ! unat (keycode - KC_LOPTN)) s)
     else if keycode = KC_SIRI then
       (False,
        if press then
          (let s = (if \<not> is_siri_active (statics s) then
                      register_code 0x2C (register_code 0xE3 (s\<lparr>statics := (statics s)\<lparr>is_siri_active := True\<rparr>\<rparr>))
                    else s)
           in s\<lparr>statics := (statics s)\<lparr>siri_timer := now\<rparr>\<rparr>)
        else s)
     else if within KC_TASK KC_CTANA keycode then
       (False, fold (key_updown press) (key_comb_list ! unat (keycode - KC_TASK)) s)
     else (True, s))"

definition lemokey_common_task :: "u32 \<Rightarrow> 'e kb \<Rightarrow> 'e kb" where
  "lemokey_common_task now s =
    (if is_siri_active (statics s) \<and> 500 < timer_diff32 now (siri_timer (statics s)) then
       (let s = unregister_code 0x2C (unregister_code 0xE3 s)
        in s\<lparr>statics := (statics s)\<lparr>is_siri_active := False, siri_timer := 0\<rparr>\<rparr>)
     else s)"

section \<open>Magic keycodes\<close>

definition QK_MAGIC_SWAP_CONTROL_CAPS_LOCK :: u16 where "QK_MAGIC_SWAP_CONTROL_CAPS_LOCK = 0x7000"
definition QK_MAGIC_UNSWAP_CONTROL_CAPS_LOCK :: u16 where "QK_MAGIC_UNSWAP_CONTROL_CAPS_LOCK = 0x7001"
definition QK_MAGIC_TOGGLE_CONTROL_CAPS_LOCK :: u16 where "QK_MAGIC_TOGGLE_CONTROL_CAPS_LOCK = 0x7002"
definition QK_MAGIC_CAPS_LOCK_AS_CONTROL_OFF :: u16 where "QK_MAGIC_CAPS_LOCK_AS_CONTROL_OFF = 0x7003"
definition QK_MAGIC_CAPS_LOCK_AS_CONTROL_ON :: u16 where "QK_MAGIC_CAPS_LOCK_AS_CONTROL_ON = 0x7004"
definition QK_MAGIC_SWAP_LALT_LGUI :: u16 where "QK_MAGIC_SWAP_LALT_LGUI = 0x7005"
definition QK_MAGIC_UNSWAP_LALT_LGUI :: u16 where "QK_MAGIC_UNSWAP_LALT_LGUI = 0x7006"
definition QK_MAGIC_SWAP_RALT_RGUI :: u16 where "QK_MAGIC_SWAP_RALT_RGUI = 0x7007"
definition QK_MAGIC_UNSWAP_RALT_RGUI :: u16 where "QK_MAGIC_UNSWAP_RALT_RGUI = 0x7008"
definition QK_MAGIC_GUI_ON :: u16 where "QK_MAGIC_GUI_ON = 0x7009"
definition QK_MAGIC_GUI_OFF :: u16 where "QK_MAGIC_GUI_OFF = 0x700A"
definition QK_MAGIC_TOGGLE_GUI :: u16 where "QK_MAGIC_TOGGLE_GUI = 0x700B"
definition QK_MAGIC_SWAP_GRAVE_ESC :: u16 where "QK_MAGIC_SWAP_GRAVE_ESC = 0x700C"
definition QK_MAGIC_UNSWAP_GRAVE_ESC :: u16 where "QK_MAGIC_UNSWAP_GRAVE_ESC = 0x700D"
definition QK_MAGIC_SWAP_BACKSLASH_BACKSPACE :: u16 where "QK_MAGIC_SWAP_BACKSLASH_BACKSPACE = 0x700E"
definition QK_MAGIC_UNSWAP_BACKSLASH_BACKSPACE :: u16 where "QK_MAGIC_UNSWAP_BACKSLASH_BACKSPACE = 0x700F"
definition QK_MAGIC_TOGGLE_BACKSLASH_BACKSPACE :: u16 where "QK_MAGIC_TOGGLE_BACKSLASH_BACKSPACE = 0x7010"
definition QK_MAGIC_NKRO_ON :: u16 where "QK_MAGIC_NKRO_ON = 0x7011"
definition QK_MAGIC_NKRO_OFF :: u16 where "QK_MAGIC_NKRO_OFF = 0x7012"
definition QK_MAGIC_TOGGLE_NKRO :: u16 where "QK_MAGIC_TOGGLE_NKRO = 0x7013"
definition QK_MAGIC_SWAP_ALT_GUI :: u16 where "QK_MAGIC_SWAP_ALT_GUI = 0x7014"
definition QK_MAGIC_UNSWAP_ALT_GUI :: u16 where "QK_MAGIC_UNSWAP_ALT_GUI = 0x7015"
definition QK_MAGIC_TOGGLE_ALT_GUI :: u16 where "QK_MAGIC_TOGGLE_ALT_GUI = 0x7016"
definition QK_MAGIC_SWAP_LCTL_LGUI :: u16 where "QK_MAGIC_SWAP_LCTL_LGUI = 0x7017"
definition QK_MAGIC_UNSWAP_LCTL_LGUI :: u16 where "QK_MAGIC_UNSWAP_LCTL_LGUI = 0x7018"
definition QK_MAGIC_SWAP_RCTL_RGUI :: u16 where "QK_MAGIC_SWAP_RCTL_RGUI = 0x7019"
definition QK_MAGIC_UNSWAP_RCTL_RGUI :: u16 where "QK_MAGIC_UNSWAP_RCTL_RGUI = 0x701A"
definition QK_MAGIC_SWAP_CTL_GUI :: u16 where "QK_MAGIC_SWAP_CTL_GUI = 0x701B"
definition QK_MAGIC_UNSWAP_CTL_GUI :: u16 where "QK_MAGIC_UNSWAP_CTL_GUI = 0x701C"
definition QK_MAGIC_TOGGLE_CTL_GUI :: u16 where "QK_MAGIC_TOGGLE_CTL_GUI = 0x701D"
definition QK_MAGIC_EE_HANDS_LEFT :: u16 where "QK_MAGIC_EE_HANDS_LEFT = 0x701E"
definition QK_MAGIC_EE_HANDS_RIGHT :: u16 where "QK_MAGIC_EE_HANDS_RIGHT = 0x701F"
definition QK_MAGIC_SWAP_ESCAPE_CAPS_LOCK :: u16 where "QK_MAGIC_SWAP_ESCAPE_CAPS_LOCK = 0x7020"
definition QK_MAGIC_UNSWAP_ESCAPE_CAPS_LOCK :: u16 where "QK_MAGIC_UNSWAP_ESCAPE_CAPS_LOCK = 0x7021"
definition QK_MAGIC_TOGGLE_ESCAPE_CAPS_LOCK :: u16 where "QK_MAGIC_TOGGLE_ESCAPE_CAPS_LOCK = 0x7022"

lemmas magic_codes = QK_MAGIC_SWAP_CONTROL_CAPS_LOCK_def QK_MAGIC_UNSWAP_CONTROL_CAPS_LOCK_def
  QK_MAGIC_TOGGLE_CONTROL_CAPS_LOCK_def QK_MAGIC_CAPS_LOCK_AS_CONTROL_OFF_def QK_MAGIC_CAPS_LOCK_AS_CONTROL_ON_def
  QK_MAGIC_SWAP_LALT_LGUI_def QK_MAGIC_UNSWAP_LALT_LGUI_def QK_MAGIC_SWAP_RALT_RGUI_def QK_MAGIC_UNSWAP_RALT_RGUI_def
  QK_MAGIC_GUI_ON_def QK_MAGIC_GUI_OFF_def QK_MAGIC_TOGGLE_GUI_def QK_MAGIC_SWAP_GRAVE_ESC_def
  QK_MAGIC_UNSWAP_GRAVE_ESC_def QK_MAGIC_SWAP_BACKSLASH_BACKSPACE_def QK_MAGIC_UNSWAP_BACKSLASH_BACKSPACE_def
  QK_MAGIC_TOGGLE_BACKSLASH_BACKSPACE_def QK_MAGIC_NKRO_ON_def QK_MAGIC_NKRO_OFF_def QK_MAGIC_TOGGLE_NKRO_def
  QK_MAGIC_SWAP_ALT_GUI_def QK_MAGIC_UNSWAP_ALT_GUI_def QK_MAGIC_TOGGLE_ALT_GUI_def QK_MAGIC_SWAP_LCTL_LGUI_def
  QK_MAGIC_UNSWAP_LCTL_LGUI_def QK_MAGIC_SWAP_RCTL_RGUI_def QK_MAGIC_UNSWAP_RCTL_RGUI_def QK_MAGIC_SWAP_CTL_GUI_def
  QK_MAGIC_UNSWAP_CTL_GUI_def QK_MAGIC_TOGGLE_CTL_GUI_def QK_MAGIC_EE_HANDS_LEFT_def QK_MAGIC_EE_HANDS_RIGHT_def
  QK_MAGIC_SWAP_ESCAPE_CAPS_LOCK_def QK_MAGIC_UNSWAP_ESCAPE_CAPS_LOCK_def QK_MAGIC_TOGGLE_ESCAPE_CAPS_LOCK_def

text \<open>The bits of the configuration a magic keycode assigns, with their new values.\<close>

definition magic_flags :: "u16 \<Rightarrow> u16 \<Rightarrow> (nat \<times> bool) list" where
  "magic_flags keycode c =
    (if keycode = QK_MAGIC_SWAP_CONTROL_CAPS_LOCK then [(0, True)]
     else if keycode = QK_MAGIC_SWAP_ESCAPE_CAPS_LOCK then [(11, True)]
     else if keycode = QK_MAGIC_CAPS_LOCK_AS_CONTROL_ON then [(1, True)]
     else if keycode = QK_MAGIC_SWAP_LALT_LGUI then [(2, True)]
     else if keycode = QK_MAGIC_SWAP_RALT_RGUI then [(3, True)]
     else if keycode = QK_MAGIC_SWAP_LCTL_LGUI then [(8, True)]
     else if keycode = QK_MAGIC_SWAP_RCTL_RGUI then [(9, True)]
     else if keycode = QK_MAGIC_GUI_OFF then [(4, True)]
     else if keycode = QK_MAGIC_SWAP_GRAVE_ESC then [(5, True)]
     else if keycode = QK_MAGIC_SWAP_BACKSLASH_BACKSPACE then [(6, True)]
     else if keycode = QK_MAGIC_NKRO_ON then [(7, True)]
     else if keycode = QK_MAGIC_SWAP_ALT_GUI then [(3, True), (2, True)]
     else if keycode = QK_MAGIC_SWAP_CTL_GUI then [(9, True), (8, True)]
     else if keycode = QK_MAGIC_UNSWAP_CONTROL_CAPS_LOCK then [(0, False)]
     else if keycode = QK_MAGIC_UNSWAP_ESCAPE_CAPS_LOCK then [(11, False)]
     else if keycode = QK_MAGIC_CAPS_LOCK_AS_CONTROL_OFF then [(1, False)]
     else if keycode = QK_MAGIC_UNSWAP_LALT_LGUI then [(2, False)]
     else if keycode = QK_MAGIC_UNSWAP_RALT_RGUI then [(3, False)]
     else if keycode = QK_MAGIC_UNSWAP_LCTL_LGUI then [(8, False)]
     else if keycode = QK_MAGIC_UNSWAP_RCTL_RGUI then [(9, False)]
     else if keycode = QK_MAGIC_GUI_ON then [(4, False)]
     else if keycode = QK_MAGIC_UNSWAP_GRAVE_ESC then [(5, False)]
     else if keycode = QK_MAGIC_UNSWAP_BACKSLASH_BACKSPACE then [(6, False)]
     else if keycode = QK_MAGIC_NKRO_OFF then [(7, False)]
     else if keycode = QK_MAGIC_UNSWAP_ALT_GUI then [(3, False), (2, False)]
     else if keycode = QK_MAGIC_UNSWAP_CTL_GUI then [(9, False), (8, False)]
     else if keycode = QK_MAGIC_TOGGLE_ALT_GUI then [(2, \<not> swap_lalt_lgui c), (3, \<not> swap_lalt_lgui c)]
     else if keycode = QK_MAGIC_TOGGLE_CTL_GUI then [(8, \<not> swap_lctl_lgui c), (9, \<not> swap_lctl_lgui c)]
     else if keycode = QK_MAGIC_TOGGLE_BACKSLASH_BACKSPACE then [(6, \<not> swap_backslash_backspace c)]
     else if keycode = QK_MAGIC_TOGGLE_NKRO then [(7, \<not> nkro c)]
     else if keycode = QK_MAGIC_TOGGLE_CONTROL_CAPS_LOCK then [(0, \<not> swap_control_capslock c)]
     else if keycode = QK_MAGIC_TOGGLE_ESCAPE_CAPS_LOCK then [(11, \<not> swap_escape_capslock c)]
     else [])"

definition put_bit :: "nat \<Rightarrow> bool \<Rightarrow> u16 \<Rightarrow> u16" where
  "put_bit n b c = (if b then set_bit n c else unset_bit n c)"

definition magic_config :: "u16 \<Rightarrow> u16 \<Rightarrow> u16" where
  "magic_config keycode c = fold (\<lambda>(n, b). put_bit n b) (magic_flags keycode c) c"

definition IS_MAGIC_KEYCODE :: "u16 \<Rightarrow> bool" where "IS_MAGIC_KEYCODE code = within 0x7000 0x7022 code"

definition is_nkro_magic :: "u16 \<Rightarrow> bool" where
  "is_nkro_magic keycode = (keycode = QK_MAGIC_NKRO_ON \<or> keycode = QK_MAGIC_NKRO_OFF \<or> keycode = QK_MAGIC_TOGGLE_NKRO)"

text \<open>QK_MAGIC_TOGGLE_GUI (0x700B) changes nothing here: with a win-lock LED the radio link toggles it after a long press.\<close>

definition process_magic :: "'e eeprom_ops \<Rightarrow> u16 \<Rightarrow> keyrecord \<Rightarrow> 'e kb \<Rightarrow> bool \<times> 'e kb" where
  "process_magic ops keycode rec s =
    (if ev_pressed (event rec) \<and> IS_MAGIC_KEYCODE keycode then
       (let s = s\<lparr>keymap_config := eeconfig_read_keymap ops (eeprom_state s)\<rparr>;
            s = (if is_nkro_magic keycode then clear_keyboard s else s);
            s = s\<lparr>keymap_config := magic_config keycode (keymap_config s)\<rparr>;
            s = (if keycode = QK_MAGIC_EE_HANDS_LEFT \<or> keycode = QK_MAGIC_EE_HANDS_RIGHT
                 then s\<lparr>eeprom_state := eeconfig_update_handedness ops (keycode = QK_MAGIC_EE_HANDS_LEFT) (eeprom_state s)\<rparr> else s);
            s = s\<lparr>eeprom_state := eeconfig_update_keymap ops (keymap_config s) (eeprom_state s)\<rparr>
        in (False, clear_keyboard s))
     else (True, s))"

section \<open>Space cadet, grave escape, tri layer\<close>

definition when_modifier :: "u8 \<Rightarrow> (u8 \<Rightarrow> 'e kb \<Rightarrow> 'e kb) \<Rightarrow> 'e kb \<Rightarrow> 'e kb" where
  "when_modifier code f s = (if IS_MODIFIER_KEYCODE code then f (MOD_BIT code) s else s)"

definition perform_space_cadet :: "u16 \<Rightarrow> keyrecord \<Rightarrow> u8 \<Rightarrow> u8 \<Rightarrow> u8 \<Rightarrow> 'e kb \<Rightarrow> 'e kb" where
  "perform_space_cadet now rec holdMod tapMod keycode s =
    (if ev_pressed (event rec) then
       when_modifier holdMod register_mods (s\<lparr>statics := (statics s)\<lparr>sc_last := holdMod, sc_timer := now\<rparr>\<rparr>)
     else if sc_last (statics s) = holdMod \<and> timer_diff16 now (sc_timer (statics s)) < TAPPING_TERM then
       (let s = (if holdMod \<noteq> tapMod
                 then when_modifier tapMod register_mods (when_modifier holdMod unregister_mods s) else s)
        in when_modifier tapMod unregister_mods (tap_code keycode s))
     else when_modifier holdMod unregister_mods s)"

definition process_space_cadet :: "u16 \<Rightarrow> u16 \<Rightarrow> keyrecord \<Rightarrow> 'e kb \<Rightarrow> bool \<times> 'e kb" where
  "process_space_cadet now keycode rec s =
    (if keycode = 0x7C1A then (False, perform_space_cadet now rec 0xE1 0xE1 0x26 s)
     else if keycode = 0x7C1B then (False, perform_space_cadet now rec 0xE5 0xE5 0x27 s)
     else if keycode = 0x7C18 then (False, perform_space_cadet now rec 0xE0 0xE1 0x26 s)
     else if keycode = 0x7C19 then (False, perform_space_cadet now rec 0xE4 0xE5 0x27 s)
     else if keycode = 0x7C1C then (False, perform_space_cadet now rec 0xE2 0xE1 0x26 s)
     else if keycode = 0x7C1D then (False, perform_space_cadet now rec 0xE6 0xE5 0x27 s)
     else if keycode = 0x7C1E then (False, perform_space_cadet now rec 0xE5 0x01 0x28 s)
     else (True, if ev_pressed (event rec) then s\<lparr>statics := (statics s)\<lparr>sc_last := 0\<rparr>\<rparr> else s))"

definition QK_GRAVE_ESCAPE :: u16 where "QK_GRAVE_ESCAPE = 0x7C16"
definition MOD_MASK_SG :: u8 where "MOD_MASK_SG = 0xAA"

definition process_grave_esc :: "u16 \<Rightarrow> keyrecord \<Rightarrow> 'e kb \<Rightarrow> bool \<times> 'e kb" where
  "process_grave_esc keycode rec s =
    (if keycode = QK_GRAVE_ESCAPE then
       (let shifted = real_mods s AND MOD_MASK_SG \<noteq> 0;
            s = (if ev_pressed (event rec)
                 then add_key (if shifted then 0x35 else 0x29) (s\<lparr>statics := (statics s)\<lparr>grave_esc_was_shifted := shifted\<rparr>\<rparr>)
                 else del_key (if grave_esc_was_shifted (statics s) then 0x35 else 0x29) s)
        in (False, send_keyboard_report s))
     else (True, s))"

definition QK_TRI_LAYER_LOWER :: u16 where "QK_TRI_LAYER_LOWER = 0x7C77"
definition QK_TRI_LAYER_UPPER :: u16 where "QK_TRI_LAYER_UPPER = 0x7C78"
definition TRI_LAYER_LOWER_LAYER :: u8 where "TRI_LAYER_LOWER_LAYER = 1"
definition TRI_LAYER_UPPER_LAYER :: u8 where "TRI_LAYER_UPPER_LAYER = 2"
definition TRI_LAYER_ADJUST_LAYER :: u8 where "TRI_LAYER_ADJUST_LAYER = 3"

text \<open>Nothing in the build changes the three layers, so they are the initial ones.\<close>

definition process_tri_layer :: "u16 \<Rightarrow> keyrecord \<Rightarrow> 'e kb \<Rightarrow> bool \<times> 'e kb" where
  "process_tri_layer keycode rec s =
    (if keycode = QK_TRI_LAYER_LOWER \<or> keycode = QK_TRI_LAYER_UPPER then
       (let layer = (if keycode = QK_TRI_LAYER_LOWER then TRI_LAYER_LOWER_LAYER else TRI_LAYER_UPPER_LAYER)
        in (False, update_tri_layer TRI_LAYER_LOWER_LAYER TRI_LAYER_UPPER_LAYER TRI_LAYER_ADJUST_LAYER
                     (if ev_pressed (event rec) then layer_on layer s else layer_off layer s)))
     else (True, s))"

section \<open>The chain\<close>

record 'e quantum_env =
  qe_now :: u32
  qe_wireless :: "u16 \<Rightarrow> keyrecord \<Rightarrow> 'e kb \<Rightarrow> bool \<times> 'e kb"
  qe_rgb :: "u16 \<Rightarrow> keyrecord \<Rightarrow> 'e kb \<Rightarrow> bool \<times> 'e kb"

definition and_then :: "bool \<times> 's \<Rightarrow> ('s \<Rightarrow> bool \<times> 's) \<Rightarrow> bool \<times> 's" where
  "and_then r f = (if fst r then f (snd r) else r)"

definition factory_record :: "u32 \<Rightarrow> u16 \<Rightarrow> keyrecord \<Rightarrow> 'e kb \<Rightarrow> bool \<times> 'e kb" where
  "factory_record now keycode rec s =
    (let (go, q) = process_record_factory_test keycode (ev_pressed (event rec)) now (statics s) in (go, s\<lparr>statics := q\<rparr>))"

definition process_record_lemokey :: "'e quantum_env \<Rightarrow> u16 \<Rightarrow> keyrecord \<Rightarrow> 'e kb \<Rightarrow> bool \<times> 'e kb" where
  "process_record_lemokey env keycode rec s =
     and_then (qe_wireless env keycode rec s) (factory_record (qe_now env) keycode rec)"

definition process_record_kb :: "'e quantum_env \<Rightarrow> u16 \<Rightarrow> keyrecord \<Rightarrow> 'e kb \<Rightarrow> bool \<times> 'e kb" where
  "process_record_kb env keycode rec s =
     and_then (process_record_lemokey_common (qe_now env) keycode rec s) (process_record_lemokey env keycode rec)"

definition QK_BOOTLOADER :: u16 where "QK_BOOTLOADER = 0x7C00"
definition QK_REBOOT :: u16 where "QK_REBOOT = 0x7C01"
definition QK_DEBUG_TOGGLE :: u16 where "QK_DEBUG_TOGGLE = 0x7C02"
definition QK_CLEAR_EEPROM :: u16 where "QK_CLEAR_EEPROM = 0x7C03"
definition QK_ONE_SHOT_ON :: u16 where "QK_ONE_SHOT_ON = 0x7C5A"
definition QK_ONE_SHOT_OFF :: u16 where "QK_ONE_SHOT_OFF = 0x7C5B"
definition QK_ONE_SHOT_TOGGLE :: u16 where "QK_ONE_SHOT_TOGGLE = 0x7C5C"

definition quantum_keys :: "'e eeprom_ops \<Rightarrow> u16 \<Rightarrow> keyrecord \<Rightarrow> 'e kb \<Rightarrow> bool \<times> 'e kb" where
  "quantum_keys ops keycode rec s =
    (if \<not> ev_pressed (event rec) then (True, s)
     else if keycode = QK_BOOTLOADER then (False, reset_keyboard s)
     else if keycode = QK_REBOOT then (False, soft_reset_keyboard s)
     else if keycode = QK_DEBUG_TOGGLE then (False, s\<lparr>statics := (statics s)\<lparr>debug_enable := \<not> debug_enable (statics s)\<rparr>\<rparr>)
     else if keycode = QK_CLEAR_EEPROM then
       (False, soft_reset_keyboard (s\<lparr>eeprom_state := eeconfig_disable ops (eeprom_state s)\<rparr>))
     else if keycode = QK_ONE_SHOT_TOGGLE then (True, oneshot_toggle ops s)
     else if keycode = QK_ONE_SHOT_ON then (True, oneshot_enable ops s)
     else if keycode = QK_ONE_SHOT_OFF then (True, oneshot_disable ops s)
     else (True, s))"

definition quantum_process_record :: "'e eeprom_ops \<Rightarrow> 'e quantum_env \<Rightarrow> keyrecord \<Rightarrow> 'e kb \<Rightarrow> bool \<times> 'e kb" where
  "quantum_process_record ops env rec s =
    (let (keycode, s) = get_record_keycode ops rec True s;
         r = process_record_via ops keycode rec s;
         r = and_then r (process_record_kb env keycode rec);
         r = and_then r (process_space_cadet (ucast (qe_now env)) keycode rec);
         r = and_then r (process_magic ops keycode rec);
         r = and_then r (process_grave_esc keycode rec);
         r = and_then r (qe_rgb env keycode rec);
         r = and_then r (process_tri_layer keycode rec)
     in and_then r (quantum_keys ops keycode rec))"

text \<open>The hooks: nothing runs before, and after a record its keycode is looked up once more and given to an empty function.\<close>

definition quantum_hooks :: "'e eeprom_ops \<Rightarrow> 'e quantum_env \<Rightarrow> 'e hooks" where
  "quantum_hooks ops env = \<lparr>pre_process_record_quantum = \<lambda>rec s. (True, s),
     process_record_quantum = quantum_process_record ops env,
     post_process_record_quantum = \<lambda>rec s. snd (get_record_keycode ops rec False s)\<rparr>"

end
