(* ===== verification/Send_String_Laws.thy ===== *)
theory Send_String_Laws
  imports Send_String
begin

text \<open>
  What the host makes of the strings: the keystrokes it reads off the keyboard reports, the characters they are on the US
  layout, and the theorems that a string and a macro arrive as they are written.
\<close>

section \<open>What a host types\<close>

text \<open>A host types, for every key of a report that was not in the report before, the key with the modifiers.\<close>

definition new_strokes :: "report_keyboard_t \<Rightarrow> report_keyboard_t \<Rightarrow> (u8 \<times> u8) list" where
  "new_strokes p r = map (\<lambda>k. (r ! 0, k)) (filter (\<lambda>k. k \<noteq> 0 \<and> k \<notin> set (report_keys p)) (report_keys r))"

fun strokes :: "report_keyboard_t \<Rightarrow> report_keyboard_t list \<Rightarrow> (u8 \<times> u8) list" where
  "strokes p [] = []"
| "strokes p (r # rs) = new_strokes p r @ strokes r rs"

definition host_strokes :: "'e kb \<Rightarrow> (u8 \<times> u8) list" where
  "host_strokes s = strokes (replicate 32 0) (rev (keyboard_reports (sent s)))"

text \<open>The US layout: the character of a key without and with shift.\<close>

definition us_plain :: "u8 list" where
  "us_plain = map (\<lambda>i. 97 + of_nat i) [0..<26] @ [49, 50, 51, 52, 53, 54, 55, 56, 57, 48, 10, 27, 8, 9, 32,
     45, 61, 91, 93, 92, 92, 59, 39, 96, 44, 46, 47]"

definition us_shifted :: "u8 list" where
  "us_shifted = map (\<lambda>i. 65 + of_nat i) [0..<26] @ [33, 64, 35, 36, 37, 94, 38, 42, 40, 41, 10, 27, 8, 9, 32,
     95, 43, 123, 125, 124, 124, 58, 34, 126, 60, 62, 63]"

definition us_layout :: "u8 \<times> u8 \<Rightarrow> u8 option" where
  "us_layout mk = (case mk of (m, k) \<Rightarrow>
     if 4 \<le> k \<and> k \<le> 56 then Some ((if m AND 0x22 \<noteq> 0 then us_shifted else us_plain) ! (unat k - 4))
     else if k = 76 then Some 127 else None)"

definition host_text :: "'e kb \<Rightarrow> u8 option list" where
  "host_text s = map us_layout (host_strokes s)"

lemma strokes_append: "strokes p (rs @ rs') = strokes p rs @ strokes (last (p # rs)) rs'"
  by (induction rs arbitrary: p) auto

lemma host_sees_last: "host_sees s = last (replicate 32 0 # rev (keyboard_reports (sent s)))"
  by (auto simp: host_sees_def last_rev split: list.split)

lemma host_strokes_sent: "sent t = sent s \<Longrightarrow> host_strokes t = host_strokes s"
  by (simp add: host_strokes_def)

lemma host_strokes_report:
  "sent t = Send_Keyboard r # sent s \<Longrightarrow> host_strokes t = host_strokes s @ new_strokes (host_sees s) r"
  by (simp add: host_strokes_def host_sees_last strokes_append)

lemma new_strokes_same: "new_strokes r r = []"
  by (simp add: new_strokes_def filter_empty_conv)

lemma host_strokes_send:
  assumes "boot_synced s"
  shows "host_strokes (send_keyboard_report s) = host_strokes s @ new_strokes (host_sees s) (host_sees (send_keyboard_report s))"
  using boot_report_reaches_host [OF assms] host_strokes_report [of "send_keyboard_report s" _ s] host_strokes_sent
  by (auto simp: new_strokes_same split: if_splits)

text \<open>In terms of the abstract keyboard: a new key is one keystroke, other changes are none.\<close>

lemma new_strokes_none: "byte_keys r \<subseteq> byte_keys p \<Longrightarrow> new_strokes p r = []"
  by (auto simp: new_strokes_def byte_keys_def filter_empty_conv)

lemma distinct_single: "distinct ys \<Longrightarrow> set ys = {k} \<Longrightarrow> ys = [k]"
  by (cases ys; cases "tl ys") auto

lemma new_strokes_one:
  assumes "byte_ok r" and "byte_keys r = insert k (byte_keys p)" and "k \<notin> byte_keys p"
  shows "new_strokes p r = [(r ! 0, k)]"
proof -
  let ?P = "\<lambda>x. x \<noteq> 0 \<and> x \<notin> set (report_keys p)"
  have "filter ?P (report_keys r) = filter (\<lambda>x. x \<notin> set (report_keys p)) (filter (\<lambda>k. k \<noteq> 0) (report_keys r))"
    by (simp add: conj_commute)
  then have "distinct (filter ?P (report_keys r))" using assms(1) distinct_filter by (metis byte_ok_def)
  moreover have "set (filter ?P (report_keys r)) = {k}" using assms(2,3) by (auto simp: byte_keys_def)
  ultimately have "filter ?P (report_keys r) = [k]" by (rule distinct_single)
  then show ?thesis by (simp add: new_strokes_def)
qed

section \<open>The keystrokes of the keycode operations\<close>

lemma send_strokes:
  assumes "keyboard_is s (K, M)" and "boot_synced u" and "sent u = sent s"
    and "keyboard_is (send_keyboard_report u) (K', M')"
  shows "K' \<subseteq> K \<Longrightarrow> host_strokes (send_keyboard_report u) = host_strokes s"
    and "K' = insert k K \<Longrightarrow> k \<notin> K \<Longrightarrow> host_strokes (send_keyboard_report u) = host_strokes s @ [(M', k)]"
proof -
  have h: "host_strokes u = host_strokes s" "host_sees u = host_sees s"
    using assms(3) by (simp_all add: host_strokes_def host_sees_def)
  note send = host_strokes_send [OF assms(2), unfolded h]
  have k: "byte_keys (host_sees s) = K" "byte_keys (host_sees (send_keyboard_report u)) = K'"
      "byte_ok (host_sees (send_keyboard_report u))" "host_sees (send_keyboard_report u) ! 0 = M'"
    using assms(1,4) by (auto simp: keyboard_is_def)
  show "K' \<subseteq> K \<Longrightarrow> host_strokes (send_keyboard_report u) = host_strokes s"
    using send k new_strokes_none by simp
  show "K' = insert k K \<Longrightarrow> k \<notin> K \<Longrightarrow> host_strokes (send_keyboard_report u) = host_strokes s @ [(M', k)]"
    using send k new_strokes_one [of "host_sees (send_keyboard_report u)" k "host_sees s"] by simp
qed

lemma boot_synced_add:
  assumes "keyboard_is s (K, M)" and "k \<noteq> 0" and "card (insert k K) \<le> KEYBOARD_REPORT_KEYS"
  shows "boot_synced (add_key k s)" "sent (add_key k s) = sent s"
proof -
  note s = keyboard_isD [OF assms(1)]
  have "byte_ok (add_key_byte (keyboard_report s) k)"
    using boot.add_ok [of "keyboard_report s" k] s assms(2,3) by auto
  then show "boot_synced (add_key k s)"
    using assms(1) s by (simp add: add_key_def add_key_to_report_def boot_synced_change keyboard_is_def byte_ok_def)
  show "sent (add_key k s) = sent s" by (simp add: add_key_def)
qed

lemma boot_synced_del:
  assumes "keyboard_is s (K, M)" and "k \<noteq> 0"
  shows "boot_synced (del_key k s)" "sent (del_key k s) = sent s"
proof -
  note s = keyboard_isD [OF assms(1)]
  have "byte_ok (del_key_byte (keyboard_report s) k)"
    using boot.del_ok [of "keyboard_report s" k] s assms(2) by auto
  then show "boot_synced (del_key k s)"
    using assms(1) s by (simp add: del_key_def del_key_from_report_def boot_synced_change keyboard_is_def byte_ok_def)
  show "sent (del_key k s) = sent s" by (simp add: del_key_def)
qed

lemma strokes_register:
  assumes "keyboard_is s (K, M)" and "IS_BASIC_KEYCODE k" and "k \<notin> K" and "card (insert k K) \<le> KEYBOARD_REPORT_KEYS"
  shows "keyboard_is (register_code k s) (insert k K, M) \<and> host_strokes (register_code k s) = host_strokes s @ [(M, k)]"
proof -
  have k0: "k \<noteq> 0" using basic_not_modifier [OF assms(2)] by simp
  have add: "host_strokes (send_keyboard_report (add_key k t)) = host_strokes t @ [(M, k)]" if "keyboard_is t (K, M)" for t
    using send_strokes(2) [OF that boot_synced_add [OF that k0 assms(4)] keyboard_is_add [OF that k0 assms(4)] refl assms(3)] .
  let ?t = "send_keyboard_report (del_key k s)"
  have t: "keyboard_is ?t (K, M)" using keyboard_is_del [OF assms(1) k0] assms(3) by simp
  have "host_strokes ?t = host_strokes s"
    using send_strokes(1) [OF assms(1) boot_synced_del [OF assms(1) k0] t] by simp
  then show ?thesis
    using add [OF t] add [OF assms(1)] keyboard_is_register [OF assms(1,2,4)] k0 assms(2)
    by (simp add: register_code_def Let_def)
qed

lemma strokes_unregister:
  assumes "keyboard_is s (K, M)" and "IS_BASIC_KEYCODE k"
  shows "keyboard_is (unregister_code k s) (K - {k}, M) \<and> host_strokes (unregister_code k s) = host_strokes s"
proof -
  have k0: "k \<noteq> 0" using basic_not_modifier [OF assms(2)] by simp
  note t = keyboard_is_del [OF assms(1) k0]
  have "host_strokes (send_keyboard_report (del_key k s)) = host_strokes s"
    using send_strokes(1) [OF assms(1) boot_synced_del [OF assms(1) k0] t] by blast
  then show ?thesis using t k0 assms(2) by (simp add: unregister_code_def)
qed

lemma strokes_modifier:
  assumes "keyboard_is s (K, M)" and "IS_MODIFIER_KEYCODE k"
  shows "keyboard_is (register_code k s) (K, M OR MOD_BIT k) \<and> host_strokes (register_code k s) = host_strokes s"
    "keyboard_is (unregister_code k s) (K, M AND NOT (MOD_BIT k)) \<and> host_strokes (unregister_code k s) = host_strokes s"
proof -
  note k = modifier_not_basic [OF assms(2)] and mods = keyboard_is_mods [OF assms(1)]
  have send: "host_strokes (send_keyboard_report (s\<lparr>real_mods := m\<rparr>)) = host_strokes s" for m
  proof -
    have "boot_synced (s\<lparr>real_mods := m\<rparr>)" using assms(1) by (simp add: boot_synced_change keyboard_is_def)
    from send_strokes(1) [OF assms(1) this _ mods] show ?thesis by simp
  qed
  have m: "real_mods s = M" using keyboard_isD [OF assms(1)] by simp
  show "keyboard_is (register_code k s) (K, M OR MOD_BIT k) \<and> host_strokes (register_code k s) = host_strokes s"
    using k m assms(2) send mods by (simp add: register_code_def add_mods_def)
  show "keyboard_is (unregister_code k s) (K, M AND NOT (MOD_BIT k)) \<and> host_strokes (unregister_code k s) = host_strokes s"
    using k m assms(2) send mods by (simp add: unregister_code_def del_mods_def)
qed

section \<open>Characters\<close>

text \<open>The characters the tables know: backspace, tab, line feed, escape, the printable ones and delete.\<close>

definition typable :: "u8 \<Rightarrow> bool" where
  "typable c \<longleftrightarrow> c \<in> {8, 9, 10, 27} \<or> (32 \<le> c \<and> c < 128)"

definition char_ok :: "u8 \<Rightarrow> bool" where
  "char_ok c \<longleftrightarrow> (let k = ascii_to_keycode_lut ! unat c; sh = PGM_LOADBIT ascii_to_shift_lut c in
     \<not> PGM_LOADBIT ascii_to_altgr_lut c \<and> \<not> PGM_LOADBIT ascii_to_dead_lut c \<and>
     (if typable c then IS_BASIC_KEYCODE k \<and> k \<noteq> 0x39 \<and> us_layout (if sh then 2 else 0, k) = Some c else k = 0 \<and> \<not> sh))"

lemma char_tables: "list_all (\<lambda>n. char_ok (of_nat n)) [0..<128]"
  by code_simp

lemma char_table:
  assumes "c < 128"
  shows "char_ok c"
proof -
  have "unat c < 128" using assms by (simp add: word_less_nat_alt)
  then show ?thesis using char_tables by (auto simp: list_all_iff dest: bspec [of _ _ "unat c"])
qed

definition at_rest :: "'e kb \<Rightarrow> bool" where
  "at_rest s \<longleftrightarrow> keyboard_is s ({}, 0)"

lemma tap_strokes:
  assumes "keyboard_is s ({}, M)" and "IS_BASIC_KEYCODE k" and "k \<noteq> 0x39"
  shows "keyboard_is (tap_code k s) ({}, M) \<and> host_strokes (tap_code k s) = host_strokes s @ [(M, k)]"
  using strokes_register [OF assms(1,2)] strokes_unregister [of "register_code k s" "{k}" M k] assms(2,3)
  by (simp add: tap_code_def tap_code_delay_def TAP_CODE_DELAY_def KEYBOARD_REPORT_KEYS_def)

lemma send_char_types:
  assumes "at_rest s" and "c < 128"
  obtains t where "send_char c s = Some t" "at_rest t" "host_text t = host_text s @ (if typable c then [Some c] else [])"
proof -
  define k where "k = ascii_to_keycode_lut ! unat c"
  define sh where "sh = PGM_LOADBIT ascii_to_shift_lut c"
  note table = char_table [OF assms(2), unfolded char_ok_def Let_def, folded k_def sh_def]
  let ?t = "when_do sh (unregister_code 0xE1) (tap_code k (when_do sh (register_code 0xE1) s))"
  have sent: "send_char c s = Some ?t"
    using table assms(2) by (simp add: send_char_def Let_def when_do_def k_def sh_def not_le)
  show thesis
  proof (cases "typable c")
    case True
    then have key: "IS_BASIC_KEYCODE k" "k \<noteq> 0x39" and us: "us_layout (if sh then 2 else 0, k) = Some c" using table by auto
    have shift: "IS_MODIFIER_KEYCODE 0xE1" "MOD_BIT 0xE1 = 2"
      by (simp_all add: IS_MODIFIER_KEYCODE_def within_def MOD_BIT_def)
    have up: "keyboard_is (when_do sh (register_code 0xE1) s) ({}, if sh then 2 else 0) \<and>
        host_strokes (when_do sh (register_code 0xE1) s) = host_strokes s"
      using strokes_modifier(1) [OF _ shift(1), of s "{}" 0] assms(1) shift(2) by (simp add: when_do_def at_rest_def)
    note tap = tap_strokes [OF conjunct1 [OF up] key]
    have "keyboard_is ?t ({}, 0) \<and> host_strokes ?t = host_strokes s @ [(if sh then 2 else 0, k)]"
      using strokes_modifier(2) [OF conjunct1 [OF tap] shift(1)] up tap shift(2) by (cases sh) (simp_all add: when_do_def)
    then show thesis using that [OF sent] us True by (simp add: at_rest_def host_text_def)
  next
    case False
    then have "?t = s" using table
      by (simp add: when_do_def tap_code_def tap_code_delay_def TAP_CODE_DELAY_def register_code_def unregister_code_def)
    then show thesis using that [OF sent] assms(1) False by simp
  qed
qed

lemma wait_keeps: "at_rest (wait_ms n s) = at_rest s" "host_text (wait_ms n s) = host_text s"
    "host_strokes (wait_ms n s) = host_strokes s"
  by (simp_all add: at_rest_def host_text_def wait_ms_def emit_def keyboard_is_def boot_synced_def host_sees_def nkro_active_def
      host_strokes_def)

lemma waits_keep: "at_rest ((wait_ms m ^^ n) s) = at_rest s" "host_text ((wait_ms m ^^ n) s) = host_text s"
  by (induction n) (simp_all add: wait_keeps)

lemma string_typed:
  assumes "at_rest s" and "\<forall>c \<in> set str. c < 128 \<and> c \<notin> {0, SS_QMK_PREFIX}"
  shows "\<exists>t. send_string_with_delay (str @ 0 # rest) ms s = Some t \<and> at_rest t \<and>
    host_text t = host_text s @ map Some (filter typable str)"
  using assms
proof (induction str arbitrary: s)
  case Nil
  then show ?case by (simp add: send_string_with_delay.simps)
next
  case (Cons c str)
  obtain t where t: "send_char c s = Some t" "at_rest t" "host_text t = host_text s @ (if typable c then [Some c] else [])"
    using send_char_types [OF Cons.prems(1)] Cons.prems(2) by auto
  let ?t = "(wait_ms 1 ^^ unat ms) t"
  have step: "send_string_with_delay ((c # str) @ 0 # rest) ms s = send_string_with_delay (str @ 0 # rest) ms ?t"
    using Cons.prems(2) t(1) by (subst send_string_with_delay.simps) (simp add: send_element_def)
  show ?case unfolding step using Cons.IH [of ?t] Cons.prems(2) t(2,3) by (cases "typable c") (simp_all add: waits_keep)
qed

text \<open>
  C14.  A string of ASCII characters is typed as it is written: in the boot view, from a keyboard on which nothing is held,
  send_string presses and releases its keys so that a host with the US layout reads exactly the characters of the string
  off the reports (those that have a key; the control characters but backspace, tab, line feed and escape are left
  out), and afterwards nothing is held.
\<close>

theorem string_arrives:
  assumes "at_rest s" and "\<forall>c \<in> set str. c < 128 \<and> c \<notin> {0, SS_QMK_PREFIX}"
  shows "\<exists>t. send_string (str @ [0]) s = Some t \<and> at_rest t \<and> host_text t = host_text s @ map Some (filter typable str)"
  using string_typed [OF assms, of "[]" 0] by (simp add: send_string_def)

theorem string_arrives_witness:
  "\<exists>t. send_string ([72, 105, 33, 10] @ [0]) ((kb_static ())\<lparr>host_driver := True, keyboard_protocol := 0\<rparr>) = Some t \<and>
    at_rest t \<and> host_text t = map Some [72, 105, 33, 10]"
proof -
  let ?s = "(kb_static ())\<lparr>host_driver := True, keyboard_protocol := 0\<rparr>"
  have "at_rest ?s"
    by (auto simp: at_rest_def keyboard_is_def boot_synced_def kb_static_def nkro_active_def host_sees_def byte_ok_def byte_keys_def report_defs)
  moreover have "host_text ?s = []" by (simp add: host_text_def host_strokes_def kb_static_def)
  ultimately show ?thesis
    using string_arrives [of ?s "[72, 105, 33, 10]"] by (simp add: SS_QMK_PREFIX_def typable_def)
qed

end
