(* ===== verification/Macro_Laws.thy ===== *)
theory Macro_Laws
  imports Send_String_Laws
begin

text \<open>
  The macros that VIA stores: what the items of a macro are as bytes of the macro area, and the theorem that a stored macro
  plays its items in order, whatever stands around it.
\<close>

section \<open>The items of a macro\<close>

datatype macro_item = Item_Char u8 | Item_Tap u8 | Item_Down u8 | Item_Up u8 | Item_Delay "u8 list"

fun item_bytes :: "macro_item \<Rightarrow> u8 list" where
  "item_bytes (Item_Char c) = [c]"
| "item_bytes (Item_Tap k) = [SS_QMK_PREFIX, SS_TAP_CODE, k]"
| "item_bytes (Item_Down k) = [SS_QMK_PREFIX, SS_DOWN_CODE, k]"
| "item_bytes (Item_Up k) = [SS_QMK_PREFIX, SS_UP_CODE, k]"
| "item_bytes (Item_Delay ds) = [SS_QMK_PREFIX, SS_DELAY_CODE] @ ds @ [124]"

text \<open>Characters are ASCII, keycodes are not null, delays have at most four digits.\<close>

fun item_ok :: "macro_item \<Rightarrow> bool" where
  "item_ok (Item_Char c) = (c < 128 \<and> c \<noteq> 0 \<and> c \<noteq> SS_QMK_PREFIX)"
| "item_ok (Item_Tap k) = (k \<noteq> 0)"
| "item_ok (Item_Down k) = (k \<noteq> 0)"
| "item_ok (Item_Up k) = (k \<noteq> 0)"
| "item_ok (Item_Delay ds) = (length ds \<le> 4 \<and> list_all isdigit ds)"

definition decimal :: "u8 list \<Rightarrow> nat" where
  "decimal ds = foldl (\<lambda>n d. n * 10 + (unat d - 48)) 0 ds"

fun item_step :: "macro_item \<Rightarrow> 'e kb \<Rightarrow> 'e kb" where
  "item_step (Item_Char c) s = the (send_char c s)"
| "item_step (Item_Tap k) s = tap_code k s"
| "item_step (Item_Down k) s = register_code k s"
| "item_step (Item_Up k) s = unregister_code k s"
| "item_step (Item_Delay ds) s = (wait_ms 1 ^^ decimal ds) s"

definition macro_bytes :: "macro_item list \<Rightarrow> u8 list" where
  "macro_bytes its = concat (map item_bytes its) @ [0]"

definition macro_image :: "macro_item list list \<Rightarrow> u8 list" where
  "macro_image ms = concat (map macro_bytes ms)"

section \<open>Sending one item\<close>

lemma ss_codes [simp]: "SS_QMK_PREFIX = 1" "SS_TAP_CODE = 1" "SS_DOWN_CODE = 2" "SS_UP_CODE = 3" "SS_DELAY_CODE = 4"
  by (simp_all add: SS_QMK_PREFIX_def SS_TAP_CODE_def SS_DOWN_CODE_def SS_UP_CODE_def SS_DELAY_CODE_def)

lemma digit_range: "isdigit d \<Longrightarrow> 48 \<le> unat d \<and> unat d \<le> 57"
  by (simp add: isdigit_def word_le_nat_alt)

lemma delay_digits_decimal:
  assumes "list_all isdigit ds" and "(int n + 1) * 10 ^ length ds \<le> 2 ^ 31" and "\<not> isdigit c"
  shows "delay_digits (ds @ c # rest) (int n) = Some (foldl (\<lambda>n d. n * 10 + (unat d - 48)) n ds, c # rest)"
  using assms(1,2)
proof (induction ds arbitrary: n)
  case Nil
  then show ?case using assms(3) by simp
next
  case (Cons d ds)
  let ?n = "n * 10 + (unat d - 48)"
  have d: "48 \<le> unat d" "unat d \<le> 57" using Cons.prems(1) digit_range by auto
  have n: "int n * 10 + (uint d - 48) = int ?n" using d(1) by (simp add: of_nat_diff)
  have "?n + 1 \<le> (n + 1) * 10" using d(2) by simp
  then have "int (?n + 1) \<le> int ((n + 1) * 10)" by (simp only: of_nat_le_iff)
  then have "int ?n + 1 \<le> (int n + 1) * 10" by simp
  then have "(int ?n + 1) * 10 ^ length ds \<le> ((int n + 1) * 10) * 10 ^ length ds"
    by (rule mult_right_mono) simp
  also have "\<dots> = (int n + 1) * 10 ^ length (d # ds)" by simp
  finally have bound: "(int ?n + 1) * 10 ^ length ds \<le> 2 ^ 31" using Cons.prems(2) by (rule order_trans)
  have "int ?n + 1 \<le> (int ?n + 1) * 10 ^ length ds" by (simp add: mult_le_cancel_left1)
  then have small: "int ?n < 2 ^ 31" using bound by linarith
  have "delay_digits ((d # ds) @ c # rest) (int n) = delay_digits (ds @ c # rest) (int ?n)"
    using Cons.prems(1) small n by (simp add: Let_def)
  then show ?case using Cons.IH [OF _ bound] Cons.prems(1) by simp
qed

lemma char_sent: "c < 128 \<Longrightarrow> \<exists>t. send_char c s = Some t"
  by (simp add: send_char_def Let_def not_le)

lemma element_sent:
  assumes "item_ok it"
  shows "send_element (item_bytes it @ rest) s = Some (item_step it s, rest)"
proof (cases it)
  case (Item_Char c)
  then show ?thesis using assms char_sent [of c s] by (auto simp: send_element_def)
next
  case (Item_Delay ds)
  have "(int 0 + 1) * 10 ^ length ds \<le> (10 :: int) ^ 4" using assms Item_Delay power_increasing [of "length ds" 4 "10 :: int"] by simp
  then have "delay_digits (ds @ 124 # rest) (int 0) = Some (decimal ds, 124 # rest)"
    unfolding decimal_def using assms Item_Delay by (intro delay_digits_decimal) (simp_all add: isdigit_def)
  then show ?thesis using Item_Delay by (simp add: send_element_def)
qed (use assms in \<open>simp_all add: send_element_def\<close>)

lemma buffer_sent:
  assumes "item_ok it" and "take (Suc (length (item_bytes it))) data = item_bytes it @ [0]"
  shows "send_string_with_delay data 0 s = Some (item_step it s)"
proof -
  have d: "data = item_bytes it @ 0 # drop (Suc (length (item_bytes it))) data"
    using append_take_drop_id [of "Suc (length (item_bytes it))" data] unfolding assms(2) by simp
  have "item_bytes it \<noteq> []" "hd (item_bytes it) \<noteq> 0" using assms(1) by (cases it; simp)+
  then show ?thesis
    by (subst d, subst send_string_with_delay.simps)
      (auto simp: element_sent [OF assms(1)] send_string_with_delay.simps split: list.split simp: neq_Nil_conv)
qed

section \<open>Reading the items from the EEPROM\<close>

fun holds_at :: "'e eeprom_ops \<Rightarrow> 'e \<Rightarrow> nat \<Rightarrow> u8 list \<Rightarrow> bool" where
  "holds_at ops e p [] = True"
| "holds_at ops e p (b # bs) = (eeprom_read_byte ops p e = b \<and> holds_at ops e (p + 1) bs)"

lemma holds_append: "holds_at ops e p (bs @ cs) = (holds_at ops e p bs \<and> holds_at ops e (p + length bs) cs)"
  by (induction bs arbitrary: p) auto

lemma holds_nth: "(\<And>j. j < length bs \<Longrightarrow> eeprom_read_byte ops (p + j) e = bs ! j) \<Longrightarrow> holds_at ops e p bs"
proof (induction bs arbitrary: p)
  case (Cons b bs)
  then show ?case using Cons.prems [of 0] Cons.prems [of "Suc _"] by fastforce
qed simp

lemma take_update_last: "i < length xs \<Longrightarrow> take (Suc i) (xs[i := x]) = take i xs @ [x]"
  by (simp add: take_Suc_conv_app_nth)

lemma macro_delay_reads:
  assumes "holds_at ops e p (ds @ [124])" and "list_all isdigit ds" and "length ds < fuel" and "i + length ds \<le> 6"
    and "length data = 8"
  shows "\<exists>data'. macro_delay ops fuel i p data e = Some (p + length ds + 1, data') \<and> length data' = 8 \<and>
    take (i + length ds + 2) data' = take i data @ ds @ [124, 0]"
  using assms
proof (induction ds arbitrary: fuel i p data)
  case Nil
  then obtain n where n: "fuel = Suc n" by (cases fuel) auto
  have "take (Suc (Suc i)) (data[i := 124, Suc i := 0]) = take i data @ [124, 0]"
    using Nil.prems by (simp add: take_Suc_conv_app_nth [of "Suc i"] take_Suc_conv_app_nth [of i])
  then show ?case using Nil.prems by (auto simp: n Let_def)
next
  case (Cons d ds)
  then obtain n where n: "fuel = Suc n" by (cases fuel) auto
  have d: "eeprom_read_byte ops p e = d" "d \<noteq> 0" "d \<noteq> 124" "i \<noteq> 6"
    using Cons.prems by (auto simp: isdigit_def)
  have step: "macro_delay ops fuel i p data e = macro_delay ops n (i + 1) (p + 1) (data[i := d]) e"
    using d by (simp add: n Let_def)
  obtain data' where "macro_delay ops n (i + 1) (p + 1) (data[i := d]) e = Some (p + 1 + length ds + 1, data')"
      "length data' = 8" "take (i + 1 + length ds + 2) data' = take (i + 1) (data[i := d]) @ ds @ [124, 0]"
    using Cons.IH [of "p + 1" n "i + 1" "data[i := d]"] Cons.prems n by auto
  then show ?case unfolding step using Cons.prems(4,5) by (simp add: take_update_last)
qed

lemma take_two: "length data = 8 \<Longrightarrow> take 2 (data[0 := a, 1 := b]) = [a, b]"
    "length data = 8 \<Longrightarrow> take (Suc (Suc (Suc (Suc 0)))) (data[0 := a, Suc 0 := b, 2 := c, 3 := d]) = [a, b, c, d]"
  by (auto simp: length_Suc_conv eval_nat_numeral)

lemma element_read:
  assumes "holds_at ops e p (item_bytes it)" and "item_ok it" and "length data = 8"
  shows "\<exists>data'. macro_element ops p data e = Some (p + length (item_bytes it), data') \<and> length data' = 8 \<and>
    take (Suc (length (item_bytes it))) data' = item_bytes it @ [0]"
proof (cases it)
  case (Item_Char c)
  then show ?thesis using assms take_two(1) [OF assms(3), of c 0] by (simp add: macro_element_def Let_def numeral_2_eq_2)
next
  case (Item_Delay ds)
  let ?data = "data[0 := 1, 1 := 4]"
  have h: "eeprom_read_byte ops p e = 1" "eeprom_read_byte ops (p + 1) e = 4" "holds_at ops e (p + 2) (ds @ [124])"
    using assms(1) Item_Delay by simp_all
  have "macro_element ops p data e = macro_delay ops 5 2 (p + 2) ?data e"
    using h by (simp add: macro_element_def Let_def)
  moreover have "length ds < 5" "2 + length ds \<le> 6" "list_all isdigit ds" "length ?data = 8"
    using assms(2,3) Item_Delay by auto
  then obtain data' where "macro_delay ops 5 2 (p + 2) ?data e = Some (p + 2 + length ds + 1, data')" "length data' = 8"
      "take (2 + length ds + 2) data' = take 2 ?data @ ds @ [124, 0]"
    using macro_delay_reads [OF h(3), of 5 2 ?data] by blast
  ultimately show ?thesis using Item_Delay take_two(1) [OF assms(3), of 1 4] by simp
next
  case (Item_Tap k)
  then show ?thesis using assms take_two(2) [OF assms(3), of 1 1 k 0] by (simp add: macro_element_def Let_def numeral_3_eq_3 [symmetric])
next
  case (Item_Down k)
  then show ?thesis using assms take_two(2) [OF assms(3), of 1 2 k 0] by (simp add: macro_element_def Let_def numeral_3_eq_3 [symmetric])
next
  case (Item_Up k)
  then show ?thesis using assms take_two(2) [OF assms(3), of 1 3 k 0] by (simp add: macro_element_def Let_def numeral_3_eq_3 [symmetric])
qed

lemma macro_loop_plays:
  assumes "holds_at ops e p (macro_bytes its)" and "list_all item_ok its" and "length its < fuel" and "length data = 8"
  shows "\<exists>chunks. macro_send_loop ops fuel p data e = (chunks, True) \<and>
    (\<forall>s :: 'f kb. send_chunks chunks s = Some (fold item_step its s))"
  using assms
proof (induction its arbitrary: fuel p data)
  case Nil
  then obtain n where n: "fuel = Suc n" by (cases fuel) auto
  then show ?case using Nil.prems(1) by (simp add: macro_bytes_def macro_element_def Let_def)
next
  case (Cons it its)
  then obtain n where n: "fuel = Suc n" by (cases fuel) auto
  have h: "holds_at ops e p (item_bytes it)" "holds_at ops e (p + length (item_bytes it)) (macro_bytes its)"
    using Cons.prems(1) by (simp_all add: macro_bytes_def holds_append)
  obtain data' where d: "macro_element ops p data e = Some (p + length (item_bytes it), data')" "length data' = 8"
      "take (Suc (length (item_bytes it))) data' = item_bytes it @ [0]"
    using element_read [OF h(1)] Cons.prems(2,4) by auto
  obtain chunks where c: "macro_send_loop ops n (p + length (item_bytes it)) data' e = (chunks, True)"
      "\<forall>s :: 'f kb. send_chunks chunks s = Some (fold item_step its s)"
    using Cons.IH [OF h(2), of n data'] Cons.prems(2,3) d(2) n by auto
  have "send_chunks (data' # chunks) s = Some (fold item_step (it # its) s)" for s :: "'f kb"
    using buffer_sent [OF _ d(3), of s] Cons.prems(2) c(2) by (simp add: DYNAMIC_KEYMAP_MACRO_DELAY_def TAP_CODE_DELAY_def)
  then show ?case using c(1) d(1) by (simp add: n)
qed

section \<open>Finding the macro\<close>

lemma item_bytes_nonzero: "item_ok it \<Longrightarrow> 0 \<notin> set (item_bytes it)"
  by (cases it) (auto simp: list_all_iff isdigit_def)

lemma skip_string:
  assumes "holds_at ops e p (bs @ [0])" and "0 \<notin> set bs" and "p + length bs < the_end"
  shows "macro_skip ops [p..<the_end] the_end (Suc n) e = macro_skip ops [p + length bs + 1..<the_end] the_end n e"
  using assms
proof (induction bs arbitrary: p)
  case (Cons b bs)
  then show ?case using Cons.IH [of "p + 1"] by (auto simp: upt_conv_Cons)
qed (simp add: upt_conv_Cons)

lemma length_macro_image: "i < length ms \<Longrightarrow>
    length (macro_image (take i ms)) + length (macro_bytes (ms ! i)) \<le> length (macro_image ms)"
  by (subst id_take_nth_drop [of i ms]) (simp_all add: macro_image_def del: append_take_drop_id)

lemma skip_macros:
  assumes "holds_at ops e p (macro_image ms)" and "list_all (list_all item_ok) ms" and "p + length (macro_image ms) \<le> the_end"
    and "i < length ms"
  shows "\<exists>q. macro_skip ops [p..<the_end] the_end i e = Some q \<and> holds_at ops e q (macro_bytes (ms ! i))"
  using assms
proof (induction ms arbitrary: p i)
  case (Cons m ms)
  have h: "holds_at ops e p (macro_bytes m)" "holds_at ops e (p + length (macro_bytes m)) (macro_image ms)"
    using Cons.prems(1) by (simp_all add: macro_image_def holds_append)
  have len: "0 < length (macro_bytes m)" "p + length (macro_bytes m) + length (macro_image ms) \<le> the_end"
    using Cons.prems(3) by (simp_all add: macro_image_def macro_bytes_def)
  show ?case
  proof (cases i)
    case 0
    moreover have "p < the_end" using len by linarith
    ultimately show ?thesis using h(1) by (simp add: upt_conv_Cons)
  next
    case (Suc n)
    have "0 \<notin> set (concat (map item_bytes m))"
      using Cons.prems(2) item_bytes_nonzero by (fastforce simp: list_all_iff)
    then have "macro_skip ops [p..<the_end] the_end i e = macro_skip ops [p + length (macro_bytes m)..<the_end] the_end n e"
      using skip_string [of ops e p "concat (map item_bytes m)" the_end n] h(1) len(2) Suc by (simp add: macro_bytes_def)
    then show ?thesis using Cons.IH [OF h(2)] Cons.prems(2,4) len(2) Suc by simp
  qed
qed simp

section \<open>Macros in any EEPROM\<close>

context keymap_eeprom
begin

lemma macro_area_written:
  assumes "good e" and "length bs \<le> DYNAMIC_KEYMAP_MACRO_EEPROM_SIZE"
  defines "e' \<equiv> dynamic_keymap_macro_set_buffer ops 0 bs (dynamic_keymap_macro_reset ops e)"
  shows "good e'"
    "j < DYNAMIC_KEYMAP_MACRO_EEPROM_SIZE \<Longrightarrow>
      eeprom_read_byte ops (DYNAMIC_KEYMAP_MACRO_EEPROM_ADDR + j) e' = (if j < length bs then bs ! j else 0)"
proof -
  note fits = keymap_fits(2)
  have in_range: "list_all (\<lambda>a. a < N)
      [DYNAMIC_KEYMAP_MACRO_EEPROM_ADDR..<DYNAMIC_KEYMAP_MACRO_EEPROM_ADDR + DYNAMIC_KEYMAP_MACRO_EEPROM_SIZE]"
    using fits by (auto simp: list_all_iff)
  note reset = clear_bytes [OF assms(1) in_range, folded dynamic_keymap_macro_reset_def]
  note set = area_set_contents [OF conjunct1 [OF reset] fits, of 0 bs, folded dynamic_keymap_macro_set_buffer_def e'_def]
  show good: "good e'" using set by blast
  assume j: "j < DYNAMIC_KEYMAP_MACRO_EEPROM_SIZE"
  then have jN: "DYNAMIC_KEYMAP_MACRO_EEPROM_ADDR + j < N" using fits by simp
  have "contents (dynamic_keymap_macro_reset ops e) ! (DYNAMIC_KEYMAP_MACRO_EEPROM_ADDR + j) = 0"
    using reset j jN by simp
  then show "eeprom_read_byte ops (DYNAMIC_KEYMAP_MACRO_EEPROM_ADDR + j) e' = (if j < length bs then bs ! j else 0)"
    using read_byte [OF good jN] set fits assms(2) length_contents [OF conjunct1 [OF reset]] jN
    by (simp add: nth_patch)
qed

lemma macro_reset_leaves_keys:
  assumes "good e" "l < DYNAMIC_KEYMAP_LAYER_COUNT" "r < MATRIX_ROWS" "k < MATRIX_COLS"
  shows "good (dynamic_keymap_macro_reset ops e) \<and>
    dynamic_keymap_get_keycode ops l r k (dynamic_keymap_macro_reset ops e) = dynamic_keymap_get_keycode ops l r k e"
proof -
  have in_range: "list_all (\<lambda>a. a < N)
      [DYNAMIC_KEYMAP_MACRO_EEPROM_ADDR..<DYNAMIC_KEYMAP_MACRO_EEPROM_ADDR + DYNAMIC_KEYMAP_MACRO_EEPROM_SIZE]"
    using keymap_fits(2) by (auto simp: list_all_iff)
  note reset = clear_bytes [OF assms(1) in_range, folded dynamic_keymap_macro_reset_def]
  have "dynamic_keymap_key_to_eeprom_address l r k + 1 < DYNAMIC_KEYMAP_MACRO_EEPROM_ADDR"
    using key_room [OF assms(2-4)] by (simp add: areas)
  then show ?thesis
    using get_keycode [OF assms] get_keycode [OF conjunct1 [OF reset] assms(2-4)] reset keymap_fits(2) by (simp add: be16_def)
qed

lemma macro_played:
  fixes s :: "'e kb"
  assumes "good e" and "list_all (list_all item_ok) ms" and "length (macro_image ms) \<le> DYNAMIC_KEYMAP_MACRO_EEPROM_SIZE"
    and "i < length ms" and "i < DYNAMIC_KEYMAP_MACRO_COUNT" and "length (ms ! i) < fuel"
    and "eeprom_state s = dynamic_keymap_macro_set_buffer ops 0 (macro_image ms) (dynamic_keymap_macro_reset ops e)"
  shows "macro_play ops fuel i s = Some (fold item_step (ms ! i) s)"
proof -
  let ?e = "eeprom_state s" and ?base = DYNAMIC_KEYMAP_MACRO_EEPROM_ADDR and ?size = DYNAMIC_KEYMAP_MACRO_EEPROM_SIZE
  note read = macro_area_written(2) [OF assms(1,3), folded assms(7)]
  have size: "0 < ?size" by (simp add: keymap_layout)
  have image: "holds_at ops ?e ?base (macro_image ms)"
    by (rule holds_nth) (use read assms(3) in auto)
  have last: "last (macro_image ms) = 0" "macro_image ms \<noteq> []"
    using assms(4) by (cases ms rule: rev_cases; simp add: macro_image_def macro_bytes_def)+
  have "length (macro_image ms) = ?size" if "?size - 1 < length (macro_image ms)" using that assms(3) by linarith
  then have "eeprom_read_byte ops (?base + (?size - 1)) ?e = 0"
    using read [of "?size - 1"] size last by (cases "?size - 1 < length (macro_image ms)") (simp_all add: last_conv_nth)
  moreover obtain q where q: "macro_skip ops [?base..<?base + ?size] (?base + ?size) i ?e = Some q"
      "holds_at ops ?e q (macro_bytes (ms ! i))"
    using skip_macros [OF image assms(2) _ assms(4), of "?base + ?size"] assms(3) by auto
  moreover have "list_all item_ok (ms ! i)" using assms(2,4) by (simp add: list_all_length)
  then obtain chunks where "macro_send_loop ops fuel q (replicate 8 0) ?e = (chunks, True)"
      "\<forall>s :: 'e kb. send_chunks chunks s = Some (fold item_step (ms ! i) s)"
    using macro_loop_plays [OF q(2) _ assms(6), of "replicate 8 0"] by auto
  ultimately show ?thesis using assms(5) size by (simp add: macro_play_def dynamic_keymap_macro_send_def Let_def)
qed

end

section \<open>Stored macros\<close>

text \<open>
  A macro that VIA has stored plays its items in order: when the macro area was reset and then written with
  the bytes of any macros that fit in it, the macro of every number below the limit of 16 sends its characters, taps, presses,
  releases and delays one after the other, and nothing of its neighbours.  One round more than the macro has items is enough.
\<close>

theorem stored_macro_plays:
  fixes s :: "'e kb"
  assumes "keymap_eeprom ops contents good N" and "good e"
    and "list_all (list_all item_ok) ms" and "length (macro_image ms) \<le> DYNAMIC_KEYMAP_MACRO_EEPROM_SIZE"
    and "i < length ms" and "i < DYNAMIC_KEYMAP_MACRO_COUNT" and "length (ms ! i) < fuel"
    and "eeprom_state s = dynamic_keymap_macro_set_buffer ops 0 (macro_image ms) (dynamic_keymap_macro_reset ops e)"
  shows "macro_play ops fuel i s = Some (fold item_step (ms ! i) s)"
  by (rule keymap_eeprom.macro_played [OF assms])

theorem stored_macro_plays_witness:
  "macro_play (transient_ops 2048 (\<lambda>buf a. buf)) 4 1 (kb_static (dynamic_keymap_macro_set_buffer (transient_ops 2048 (\<lambda>buf a. buf)) 0
     (macro_image [[Item_Char 65], [Item_Down 0xE1, Item_Delay [53, 48], Item_Up 0xE1]])
     (dynamic_keymap_macro_reset (transient_ops 2048 (\<lambda>buf a. buf)) (Some (replicate 2048 0))))) =
   Some (fold item_step [Item_Down 0xE1, Item_Delay [53, 48], Item_Up 0xE1] (kb_static (dynamic_keymap_macro_set_buffer
     (transient_ops 2048 (\<lambda>buf a. buf)) 0 (macro_image [[Item_Char 65], [Item_Down 0xE1, Item_Delay [53, 48], Item_Up 0xE1]])
     (dynamic_keymap_macro_reset (transient_ops 2048 (\<lambda>buf a. buf)) (Some (replicate 2048 0))))))"
  using stored_macro_plays [OF p1_ram.keymap_eeprom_axioms, of "Some (replicate 2048 0)"
      "[[Item_Char 65], [Item_Down 0xE1, Item_Delay [53, 48], Item_Up 0xE1]]" 1 4 "kb_static _"]
  by (simp add: isdigit_def macro_image_def macro_bytes_def keymap_layout DYNAMIC_KEYMAP_MACRO_COUNT_def kb_static_def)

end
