(* ===== verification/Quantum_Laws.thy ===== *)
theory Quantum_Laws
  imports Quantum Macro_Laws Main_Loop_Laws Wireless_Tasks
begin

text \<open>
  What the handlers of quantum.c do with a key: ordinary keys go through all of them to the action code, so that typing
  reaches the host through the real handlers; the keys of the handlers do what they are for; and one combination of
  ordinary keys is not ordinary.
\<close>

section \<open>The lookup of the handlers\<close>

lemma record_keycode:
  assumes "layers_ok ops s" and "is_matrix_key (ev_key (event rec))"
  defines "key \<equiv> ev_key (event rec)"
  obtains kc s' where "get_record_keycode ops rec upd s = (kc, s')" "layers_ok ops s'" "without_lookup s' = without_lookup s"
    "kc = keycode_at ops (if ev_pressed (event rec) \<and> upd then layer_of ops key s else read_source_layers_cache key s) key (eeprom_state s)"
    "\<And>k. is_matrix_key k \<Longrightarrow> read_source_layers_cache k s' =
       (if ev_pressed (event rec) \<and> upd \<and> k = key then layer_of ops k s else read_source_layers_cache k s)"
proof -
  have cfg: "\<not> disable_action_cache s" "memo_ok ops s" using assms(1) by (simp_all add: layers_ok_def)
  have key: "is_matrix_key key" "key_ok key" using assms(2) by (simp_all add: key_def key_ok_def)
  show thesis
  proof (cases "ev_pressed (event rec) \<and> upd")
    case True
    obtain l t where g: "layer_switch_get_layer ops key s = (l, t)" by (cases "layer_switch_get_layer ops key s")
    let ?u = "update_source_layers_cache key l t"
    obtain kc s' where kc: "keymap_key_to_keycode ops l key ?u = (kc, s')" by (cases "keymap_key_to_keycode ops l key ?u")
    note top = get_layer_topmost [OF cfg(2) g]
    have l: "l = layer_of ops key s" "take_bit 3 l = l"
      using top get_layer_less [OF cfg(2) g] by (simp_all add: layer_of_def take_bit3 MAX_LAYER_def DYNAMIC_KEYMAP_LAYER_COUNT_def)
    have t: "layers_ok ops t" using memo_only_layers_ok [of s t] top assms(1) by simp
    then have u: "layers_ok ops ?u" using key(2) by (rule update_layers_ok)
    have look: "kc = keycode_at ops l key (eeprom_state ?u)" "memo_ok ops s'" "memo_only ?u s'"
      using keymap_lookup [OF _ kc] u by (auto simp: layers_ok_def)
    have e: "eeprom_state ?u = eeprom_state s"
      using memo_only_fields [of s t] top by (simp add: update_source_layers_cache_def)
    show thesis
    proof (rule that [of kc s'])
      show "get_record_keycode ops rec upd s = (kc, s')"
        using True cfg(1) g kc by (simp add: get_record_keycode_def get_event_keycode_def key_def)
      show "layers_ok ops s'" using memo_only_layers_ok [OF look(3,2) u] .
      show "without_lookup s' = without_lookup s"
        using memo_without_lookup [OF look(3)] update_without_lookup memo_without_lookup [of s t] top by metis
      show "read_source_layers_cache k s' = (if ev_pressed (event rec) \<and> upd \<and> k = key then layer_of ops k s else read_source_layers_cache k s)"
        if "is_matrix_key k" for k
        using True l read_update_cache [OF t that key(2), of l] read_cache_memo [OF look(3)] read_cache_memo [of s t] top by auto
    qed (use True l look(1) e in simp)
  next
    case False
    let ?l = "read_source_layers_cache key s"
    obtain kc s' where kc: "keymap_key_to_keycode ops ?l key s = (kc, s')" by (cases "keymap_key_to_keycode ops ?l key s")
    note look = keymap_lookup [OF cfg(2) kc]
    have r: "get_record_keycode ops rec upd s = (kc, s')"
      using False cfg(1) kc by (auto simp: get_record_keycode_def get_event_keycode_def key_def)
    show thesis
      by (rule that [OF r])
        (use False look memo_only_layers_ok [of s s'] memo_without_lookup [of s s'] read_cache_memo [of s s'] assms(1) in auto)
  qed
qed

section \<open>Ordinary keys pass\<close>

text \<open>Letters, digits, punctuation, function and editing keys: the basic keycodes below the system keys.\<close>

definition ordinary :: "u16 \<Rightarrow> bool" where
  "ordinary kc = within 0x04 0xA4 kc"

text \<open>The handlers of the radio link and of the RGB matrix let ordinary keys pass.\<close>

definition env_passes :: "'e quantum_env \<Rightarrow> bool" where
  "env_passes env \<longleftrightarrow> (\<forall>kc rec s. ordinary kc \<longrightarrow> qe_wireless env kc rec s = (True, s) \<and> qe_rgb env kc rec s = (True, s))"

definition fn_up :: "quantum_statics \<Rightarrow> bool" where
  "fn_up q \<longleftrightarrow> factory_reset_state q AND KEY_PRESS_FN = 0"

lemma ordinary_range: "ordinary kc \<Longrightarrow> unat kc \<le> 0xA4"
  by (simp add: ordinary_def within_def word_le_nat_alt)

lemma ordinary_not: "ordinary kc \<Longrightarrow> 0xA4 < unat a \<Longrightarrow> kc \<noteq> a"
  using ordinary_range by fastforce

lemma ordinary_not_within:
  assumes "ordinary kc" and "0xA4 < unat a"
  shows "\<not> within a b kc"
  using ordinary_range [OF assms(1)] assms(2) by (simp add: within_def word_le_nat_alt)

lemma fn_bit: "fn_up q \<longleftrightarrow> \<not> bit (factory_reset_state q) 0"
  by (simp add: fn_up_def KEY_PRESS_FN_def and_one_eq bit_0 even_iff_mod_2_eq_zero)

lemma fn_up_down: "fn_up (factory_key_down k c now q) \<longleftrightarrow> fn_up q \<and> \<not> bit k 0"
  by (auto simp: fn_bit factory_key_down_def factory_timer_start_def Let_def bit_or_iff)

lemma fn_up_up: "fn_up q \<Longrightarrow> fn_up (factory_key_up k q)"
  by (simp add: fn_bit factory_key_up_def bit_and_iff)

lemma combination_bits: "\<not> bit KEY_PRESS_J 0" "\<not> bit KEY_PRESS_Z 0" "\<not> bit KEY_PRESS_BL_KEY1 0" "\<not> bit KEY_PRESS_BL_KEY2 0"
  by (simp_all add: key_press_defs bit_0)

lemma fn_up_test_mode [simp]: "fn_up (q\<lparr>backlight_test_mode := m\<rparr>) = fn_up q"
  by (simp add: fn_up_def)

lemma factory_passes:
  assumes "fn_up q" and "kc \<noteq> FN_KEY_1" and "kc \<noteq> FN_KEY_2"
  shows "\<exists>q'. process_record_factory_test kc press now q = (True, q') \<and> fn_up q'"
proof -
  have down: "factory_reset_state (factory_key_down k c now q) AND KEY_PRESS_FN = 0 \<longleftrightarrow> \<not> bit k 0" for k c
    using fn_up_down [of k c now q] assms(1) by (simp add: fn_up_def)
  have up: "factory_reset_state (factory_key_up k q) AND KEY_PRESS_FN = 0" for k
    using fn_up_up [OF assms(1), of k] by (simp add: fn_up_def)
  have z: "\<not> within 0x7800 0x7834 KC_Z" by (simp add: within_def KC_Z_def)
  show ?thesis
    unfolding process_record_factory_test_def
    using assms by (simp add: down up fn_up_down fn_up_up combination_bits z Let_def)
qed

lemma ordinary_chain:
  assumes kc: "ordinary kc" and env: "env_passes env" and fn: "fn_up (statics s)"
    and look: "get_record_keycode ops rec True s0 = (kc, s)"
  shows "\<exists>q. quantum_process_record ops env rec s0 = (True, s\<lparr>statics := q\<rparr>) \<and> fn_up q"
proof -
  have ne: "kc \<noteq> KC_MCTRL" "kc \<noteq> KC_LNPAD" "kc \<noteq> KC_SIRI" "kc \<noteq> FN_KEY_1" "kc \<noteq> FN_KEY_2" "kc \<noteq> QK_GRAVE_ESCAPE"
      "kc \<noteq> QK_TRI_LAYER_LOWER" "kc \<noteq> QK_TRI_LAYER_UPPER" "kc \<noteq> QK_BOOTLOADER" "kc \<noteq> QK_REBOOT" "kc \<noteq> QK_DEBUG_TOGGLE"
      "kc \<noteq> QK_CLEAR_EEPROM" "kc \<noteq> QK_ONE_SHOT_ON" "kc \<noteq> QK_ONE_SHOT_OFF" "kc \<noteq> QK_ONE_SHOT_TOGGLE"
      "kc \<noteq> 0x7C18" "kc \<noteq> 0x7C19" "kc \<noteq> 0x7C1A" "kc \<noteq> 0x7C1B" "kc \<noteq> 0x7C1C" "kc \<noteq> 0x7C1D" "kc \<noteq> 0x7C1E"
    by (rule ordinary_not [OF kc]; simp add: KC_MCTRL_def KC_LNPAD_def KC_SIRI_def FN_KEY_1_def FN_KEY_2_def QK_GRAVE_ESCAPE_def
      QK_TRI_LAYER_LOWER_def QK_TRI_LAYER_UPPER_def QK_BOOTLOADER_def QK_REBOOT_def QK_DEBUG_TOGGLE_def QK_CLEAR_EEPROM_def
      QK_ONE_SHOT_ON_def QK_ONE_SHOT_OFF_def QK_ONE_SHOT_TOGGLE_def)+
  have nw: "\<not> within QK_MACRO QK_MACRO_MAX kc" "\<not> within KC_LOPTN KC_RCMMD kc" "\<not> within KC_TASK KC_CTANA kc" "\<not> IS_MAGIC_KEYCODE kc"
    unfolding IS_MAGIC_KEYCODE_def
    by (rule ordinary_not_within [OF kc]; simp add: QK_MACRO_def KC_LOPTN_def KC_TASK_def)+
  obtain q where q: "process_record_factory_test kc (ev_pressed (event rec)) (qe_now env) (statics s) = (True, q)" "fn_up q"
    using factory_passes [OF fn ne(4,5)] by blast
  define q' where "q' = (if ev_pressed (event rec) then q\<lparr>sc_last := 0\<rparr> else q)"
  have "process_record_via ops kc rec s = (True, s)" using nw(1) by (simp add: process_record_via_def)
  moreover have "process_record_kb env kc rec s = (True, s\<lparr>statics := q\<rparr>)"
    using ne nw q env kc
    by (simp add: process_record_kb_def process_record_lemokey_common_def and_then_def process_record_lemokey_def factory_record_def env_passes_def)
  moreover have "process_space_cadet (ucast (qe_now env)) kc rec (s\<lparr>statics := q\<rparr>) = (True, s\<lparr>statics := q'\<rparr>)"
    using ne by (simp add: process_space_cadet_def q'_def)
  moreover have "process_magic ops kc rec t = (True, t)" "process_grave_esc kc rec t = (True, t)" "qe_rgb env kc rec t = (True, t)"
      "process_tri_layer kc rec t = (True, t)" "quantum_keys ops kc rec t = (True, t)" for t
    using ne nw env kc by (simp_all add: process_magic_def process_grave_esc_def process_tri_layer_def quantum_keys_def env_passes_def)
  ultimately have "quantum_process_record ops env rec s0 = (True, s\<lparr>statics := q'\<rparr>)"
    by (simp add: quantum_process_record_def look and_then_def)
  moreover have "fn_up q'" using q(2) by (simp add: q'_def fn_up_def)
  ultimately show ?thesis by blast
qed

lemma statics_frame:
  "layers_ok ops (s\<lparr>statics := q\<rparr>) = layers_ok ops s" "read_source_layers_cache k (s\<lparr>statics := q\<rparr>) = read_source_layers_cache k s"
  by (simp_all add: layers_ok_def memo_ok_def memo_key_def read_source_layers_cache_def)

lemma quantum_typing_hooks:
  assumes keys: "\<And>key. key \<in> P \<Longrightarrow> is_matrix_key key \<and> ordinary (keycode_at ops (layer_of ops key s0) key (eeprom_state s0))"
    and env: "env_passes env"
  shows "typing_hooks ops fn_up s0 P (quantum_hooks ops env)"
  unfolding typing_hooks_def
proof (intro conjI allI impI)
  show "passive_hooks (quantum_hooks ops env)" by (simp add: passive_hooks_def quantum_hooks_def)
  fix e s assume "ev_key e \<in> P \<and> key_event_ready ops fn_up s0 e s"
  then have key: "is_matrix_key (ev_key e)" "ordinary (keycode_at ops (layer_of ops (ev_key e) s0) (ev_key e) (eeprom_state s0))"
    and r: "fn_up (statics s)" "layers_ok ops s" "map_state s = map_state s0"
      "ev_pressed e \<or> read_source_layers_cache (ev_key e) s = layer_of ops (ev_key e) s0"
    using keys by (auto simp: key_event_ready_def)
  have same: "layer_of ops k s = layer_of ops k s0" "eeprom_state s = eeprom_state s0" for k
    using map_state_lookup(2) [OF r(3)] r(3) by (simp_all add: map_state_def)
  have ev: "event (plain e 0) = e" by (simp add: plain_def)
  obtain kc t where t: "get_record_keycode ops (plain e 0) True s = (kc, t)" "layers_ok ops t" "without_lookup t = without_lookup s"
      "kc = keycode_at ops (if ev_pressed e \<and> True then layer_of ops (ev_key e) s else read_source_layers_cache (ev_key e) s) (ev_key e) (eeprom_state s)"
      "\<And>k. is_matrix_key k \<Longrightarrow> read_source_layers_cache k t =
         (if ev_pressed e \<and> True \<and> k = ev_key e then layer_of ops k s else read_source_layers_cache k s)"
    by (rule record_keycode [OF r(2), of "plain e 0" True, unfolded ev, OF key(1)], rule that)
  have "ordinary kc" using key(2) t(4) r(4) same by (auto split: if_splits)
  moreover have "fn_up (statics t)" using r(1) lookup_only_fields(5) [OF t(3)] by simp
  ultimately obtain q where q: "quantum_process_record ops env (plain e 0) s = (True, t\<lparr>statics := q\<rparr>)" "fn_up q"
    using ordinary_chain [OF _ env _ t(1)] by blast
  have "without_lookup (t\<lparr>statics := q\<rparr>) = without_lookup (s\<lparr>statics := q\<rparr>)"
  proof -
    have "without_lookup (x\<lparr>statics := q\<rparr>) = (without_lookup x)\<lparr>statics := q\<rparr>" for x :: "'a kb"
      by (simp add: without_lookup_def)
    then show ?thesis by (simp add: t(3))
  qed
  then have "handled ops fn_up s (t\<lparr>statics := q\<rparr>) (cache_after ops s0 e s)"
    using t(2,5) q(2) same by (simp add: handled_def statics_frame cache_after_def)
  then show "\<exists>s'. process_record_quantum (quantum_hooks ops env) (plain e 0) s = (True, s') \<and>
      (handled ops fn_up s s' (cache_after ops s0 e s) \<or> handled ops fn_up s s' (\<lambda>k. read_source_layers_cache k s))"
    using q(1) by (auto simp: quantum_hooks_def)
  obtain kc' u where u: "get_record_keycode ops (plain e 0) False s = (kc', u)" "layers_ok ops u" "without_lookup u = without_lookup s"
      "\<And>k. is_matrix_key k \<Longrightarrow> read_source_layers_cache k u =
         (if ev_pressed e \<and> False \<and> k = ev_key e then layer_of ops k s else read_source_layers_cache k s)"
    by (rule record_keycode [OF r(2), of "plain e 0" False, unfolded ev, OF key(1)], rule that)
  have "handled ops fn_up s u (\<lambda>k. read_source_layers_cache k s)"
    by (rule looked_up_handled) (use u r(1) in simp_all)
  then show "handled ops fn_up s (post_process_record_quantum (quantum_hooks ops env) (plain e 0) s) (\<lambda>k. read_source_layers_cache k s)"
    using u(1) by (simp add: quantum_hooks_def)
qed

section \<open>The switches reach the host through the handlers\<close>

text \<open>The radio link lets ordinary keys pass: it always answers true, and for an ordinary keycode it does not touch the core.\<close>

lemma wireless_lets_ordinary_pass:
  assumes "ordinary kc"
  shows "\<exists>s'. process_record_wireless ops bufs kc press s = Some s' \<and> wt.core s' = wt.core s"
proof -
  have "\<not> BT_HST1 \<le> kc" using ordinary_range [OF assms] by (simp add: BT_HST1_def word_le_nat_alt)
  moreover have "kc \<noteq> P2P4G" "kc \<noteq> MD_USB" "kc \<noteq> GU_TOGG" "kc \<noteq> BAT_LVL"
    by (rule ordinary_not [OF assms]; simp add: P2P4G_def MD_USB_def GU_TOGG_def BAT_LVL_def)+
  ultimately show ?thesis
    by (simp add: process_record_wireless_def process_record_lemokey_wireless_def Let_def lpm_timer_reset_def wt_emit_def)
qed

text \<open>
  C1.  The switches reach the host, through the real handlers.  A board starts with every key up and its encoder at rest, in the
  boot protocol; the keys in \<open>P\<close>, at most six, hold ordinary keycodes that each type their own basic code, the Fn keys are
  up, and only switches in \<open>P\<close> ever close.  Whatever the switches and their bounces do meanwhile, once the readings of the row
  pins have not changed for 20 ms of readings, the last report the host has received holds exactly the codes of the
  closed switches, and the modifiers are unchanged: scan, debouncer, event loop, tapping, the handler chain of quantum.c
  at whatever time of the clock, layer lookup, action and report together lose nothing and add nothing.
\<close>

theorem switches_reach_host_through_handlers:
  fixes pads :: pads and t :: "'e tapping"
  assumes "typing ops fn_up code s0 M t {}" and "oneshot_layer_data s0 = 0"
    and "\<And>now. env_passes (env now)"
    and "\<And>key. key \<in> P \<Longrightarrow> types ops s0 key (code key) \<and> ordinary (keycode_at ops (layer_of ops key s0) key (eeprom_state s0))"
    and "inj_on code P" and "finite P" and "card P \<le> KEYBOARD_REPORT_KEYS"
    and "\<forall>r \<in> set (pre @ quiet). closed (snd r) \<subseteq> P"
    and "quiet \<noteq> []" and "\<forall>r \<in> set quiet. snd r = pins"
    and "DEBOUNCE \<le> waited (if pre = [] then 0 else fst (last pre)) quiet"
  defines "b \<equiv> fold (board_step ops (\<lambda>now. quantum_hooks ops (env now)) pads) (pre @ quiet) (encoder_init pads (board_static t))"
  shows "byte_keys (host_sees (tapping.core (keyboard_core b))) = code ` closed pins \<and> host_sees (tapping.core (keyboard_core b)) ! 0 = M"
proof -
  have hooks: "typing_hooks ops fn_up s0 P (quantum_hooks ops (env now))" for now
    by (rule quantum_typing_hooks [OF _ assms(3)]) (use assms(4) in \<open>auto simp: types_def\<close>)
  show ?thesis
    unfolding b_def
    by (rule switches_reach_host [where h = "\<lambda>now. quantum_hooks ops (env now)" and Q = fn_up, OF assms(1) hooks assms(2) _ assms(5-11)])
      (use assms(4) in blast)
qed

definition open_env :: "u32 \<Rightarrow> 'e quantum_env" where
  "open_env now = \<lparr>qe_now = now, qe_wireless = \<lambda>kc rec s. (True, s), qe_rgb = \<lambda>kc rec s. (True, s)\<rparr>"

lemma open_env_passes: "env_passes (open_env now)"
  by (simp add: env_passes_def open_env_def)

theorem switches_reach_host_through_handlers_witness:
  "byte_keys (host_sees (tapping.core (keyboard_core (fold (board_step run_ops (\<lambda>now. quantum_hooks run_ops (open_env now)) (\<lambda>_. (True, True)))
      ([(10, ab_pins)] @ [(20, ab_pins), (31, ab_pins)])
      (encoder_init (\<lambda>_. (True, True)) (board_static (tapping_static ab_kb))))))) = {4}"
proof -
  have sub: "\<forall>r \<in> set ([(10, ab_pins)] @ [(20, ab_pins), (31, ab_pins)]). closed (snd r) \<subseteq> ab_keys"
    by (simp add: ab_closed ab_keys_def)
  have keys: "finite ab_keys" "card ab_keys \<le> KEYBOARD_REPORT_KEYS"
    by (simp_all add: ab_keys_def KEYBOARD_REPORT_KEYS_def card_insert_if)
  have time: "DEBOUNCE \<le> waited (if [(10 :: u32, ab_pins)] = [] then 0 else fst (last [(10, ab_pins)])) [(20, ab_pins), (31, ab_pins)]"
    by (simp add: DEBOUNCE_def elapsed_time_def timer_diff32_def)
  have start: "typing run_ops fn_up ab_code ab_kb 0 (tapping_static ab_kb) {}"
    using ab_start(1) by (simp add: typing_def fn_up_def tapping_static_def ab_kb_def kb_static_def quantum_static_def)
  have layer: "layer_of run_ops key ab_kb = 0" for key
    by (simp add: layer_of_def opaque_def ab_kb_def kb_static_def topmost_def)
  have P: "types run_ops ab_kb key (ab_code key) \<and> ordinary (keycode_at run_ops (layer_of run_ops key ab_kb) key (eeprom_state ab_kb))"
    if "key \<in> ab_keys" for key
  proof
    show "types run_ops ab_kb key (ab_code key)" by (rule ab_types [OF that])
    have "keycode_at run_ops 0 key ab_eeprom = 4 \<or> keycode_at run_ops 0 key ab_eeprom = 5"
    proof -
      have "is_matrix_key key" using that by (auto simp: ab_keys_def is_matrix_key_def MATRIX_ROWS_def MATRIX_COLS_def)
      then show ?thesis
        using that ab_keycodes
        by (auto simp: ab_keys_def keycode_at_def keycode_at_keymap_location_def MATRIX_ROWS_def MATRIX_COLS_def
            DYNAMIC_KEYMAP_LAYER_COUNT_def)
    qed
    moreover have "eeprom_state ab_kb = ab_eeprom" by (simp add: ab_kb_def kb_static_def)
    ultimately show "ordinary (keycode_at run_ops (layer_of run_ops key ab_kb) key (eeprom_state ab_kb))"
      by (auto simp: layer ordinary_def within_def)
  qed
  have quiet: "[(20 :: u32, ab_pins), (31, ab_pins)] \<noteq> []" "\<forall>r \<in> set [(20 :: u32, ab_pins), (31, ab_pins)]. snd r = ab_pins"
    by simp_all
  have closed: "ab_code ` closed ab_pins = {4}"
    by (simp add: ab_closed ab_code_def)
  show ?thesis
    unfolding closed [symmetric]
    by (rule switches_reach_host_through_handlers [where env = open_env,
        OF start ab_start(3) open_env_passes P ab_start(4) keys sub quiet time, THEN conjunct1])
qed

end
