(* ===== verification/Handler_Keys.thy ===== *)
theory Handler_Keys
  imports Quantum_Laws
begin

text \<open>
  The keys that handlers act on: macros, space cadet and magic keys do what they promise; a letter of the factory
  reset combination released while Fn is down stays down for the host; a one-shot layer lasts until the next key.
\<close>

section \<open>Frames\<close>

lemma statics_keyboard:
  "keyboard_is (s\<lparr>statics := q\<rparr>) KM = keyboard_is s KM" "at_rest (s\<lparr>statics := q\<rparr>) = at_rest s"
  "host_strokes (s\<lparr>statics := q\<rparr>) = host_strokes s" "host_text (s\<lparr>statics := q\<rparr>) = host_text s"
  by (simp_all add: keyboard_is_def boot_synced_def host_sees_def nkro_active_def at_rest_def host_strokes_def host_text_def)

lemma lookup_sent:
  assumes "without_lookup s' = without_lookup s"
  shows "sent s' = sent s" "host_text s' = host_text s" "eeprom_state s' = eeprom_state s"
proof -
  have "sent (without_lookup s') = sent (without_lookup s)" "eeprom_state (without_lookup s') = eeprom_state (without_lookup s)"
    using assms by simp_all
  then show "sent s' = sent s" "host_text s' = host_text s" "eeprom_state s' = eeprom_state s"
    by (simp_all add: without_lookup_def host_text_def host_strokes_def)
qed

section \<open>Fn strands a letter\<close>

lemma factory_swallows:
  assumes "\<not> fn_up q" and "kc = KC_J \<or> kc = KC_Z"
  shows "\<exists>q'. process_record_factory_test kc False now q = (False, q')"
proof -
  have "\<not> fn_up (factory_key_up KEY_PRESS_J q)" "\<not> fn_up (factory_key_up KEY_PRESS_Z q)"
    using assms(1) by (simp_all add: fn_bit factory_key_up_def bit_and_iff bit_not_iff combination_bits)
  then have fn: "factory_reset_state (factory_key_up KEY_PRESS_J q) AND KEY_PRESS_FN \<noteq> 0"
      "factory_reset_state (factory_key_up KEY_PRESS_Z q) AND KEY_PRESS_FN \<noteq> 0"
    by (simp_all add: fn_up_def)
  have k: "KC_J \<noteq> FN_KEY_1" "KC_J \<noteq> FN_KEY_2" "KC_Z \<noteq> FN_KEY_1" "KC_Z \<noteq> FN_KEY_2" "KC_Z \<noteq> KC_J" "\<not> within 0x7800 0x7834 KC_Z"
    by (simp_all add: factory_keys within_def)
  show ?thesis using assms(2) fn k by (auto simp: process_record_factory_test_def Let_def)
qed

text \<open>
  C18.  Fn strands a letter.  When J or Z is released while the Fn bit of the factory test is set, the handler takes the event and
  answers false, even if the letter went down before Fn and its press was reported: the key is not released, and the host
  keeps it down.
\<close>

theorem fn_strands_letter:
  assumes "keyboard_is s (K, M)" and "layers_ok ops s" and "is_matrix_key (ev_key e)" and "\<not> ev_pressed e"
    and "keycode_at ops (read_source_layers_cache (ev_key e) s) (ev_key e) (eeprom_state s) \<in> {KC_J, KC_Z}"
    and "env_passes env" and "\<not> fn_up (statics s)"
  shows "keyboard_is (snd (process_record ops (quantum_hooks ops env) (plain e 0) s)) (K, M)"
proof -
  have ev: "event (plain e 0) = e" by (simp add: plain_def)
  obtain kc t where t: "get_record_keycode ops (plain e 0) True s = (kc, t)" "without_lookup t = without_lookup s"
      "kc = keycode_at ops (if ev_pressed e \<and> True then layer_of ops (ev_key e) s else read_source_layers_cache (ev_key e) s) (ev_key e) (eeprom_state s)"
    by (rule record_keycode [OF assms(2), of "plain e 0" True, unfolded ev, OF assms(3)], rule that)
  have kc: "kc = KC_J \<or> kc = KC_Z" using t(3) assms(4,5) by simp
  then have o: "ordinary kc" by (auto simp: ordinary_def within_def factory_keys)
  have ne: "kc \<noteq> KC_MCTRL" "kc \<noteq> KC_LNPAD" "kc \<noteq> KC_SIRI"
    by (rule ordinary_not [OF o]; simp add: KC_MCTRL_def KC_LNPAD_def KC_SIRI_def)+
  have nw: "\<not> within KC_LOPTN KC_RCMMD kc" "\<not> within KC_TASK KC_CTANA kc"
    by (rule ordinary_not_within [OF o]; simp add: KC_LOPTN_def KC_TASK_def)+
  have "\<not> fn_up (statics t)" using assms(7) lookup_only_fields(5) [OF t(2)] by simp
  then obtain q where "process_record_factory_test kc False (qe_now env) (statics t) = (False, q)"
    using factory_swallows [OF _ kc] by blast
  then have "process_record_kb env kc (plain e 0) t = (False, t\<lparr>statics := q\<rparr>)"
    using ne nw assms(4,6) o
    by (simp add: process_record_kb_def process_record_lemokey_common_def and_then_def process_record_lemokey_def factory_record_def
        env_passes_def ev)
  then have "quantum_process_record ops env (plain e 0) s = (False, t\<lparr>statics := q\<rparr>)"
    using assms(4) by (simp add: quantum_process_record_def t(1) process_record_via_def and_then_def ev)
  then have "snd (process_record ops (quantum_hooks ops env) (plain e 0) s) = (if IS_NOEVENT e then s else t\<lparr>statics := q\<rparr>)"
    using assms(4) by (simp add: process_record_two quantum_hooks_def ev)
  then show ?thesis using assms(1) lookup_only_fields(2) [OF t(2)] by (simp add: statics_keyboard)
qed

section \<open>Space cadet\<close>

lemma register_mods_code:
  assumes "IS_MODIFIER_KEYCODE k"
  shows "register_mods (MOD_BIT k) s = register_code k s" "unregister_mods (MOD_BIT k) s = unregister_code k s"
proof -
  have "unat (k AND 7) < 8" using word_and_le1 [of k 7] by (simp add: word_le_nat_alt)
  then have "bit (MOD_BIT k) (unat (k AND 7))" by (simp add: MOD_BIT_def bit_simps)
  then have "MOD_BIT k \<noteq> 0" by auto
  then show "register_mods (MOD_BIT k) s = register_code k s" "unregister_mods (MOD_BIT k) s = unregister_code k s"
    using assms modifier_not_basic [OF assms]
    by (simp_all add: register_mods_def unregister_mods_def register_code_def unregister_code_def)
qed

text \<open>The modifier that is held, the one that goes with the tap, the tapped key, and the character it is.\<close>

definition cadet_keys :: "(u16 \<times> u8 \<times> u8 \<times> u8 \<times> u8) list" where
  "cadet_keys = [(0x7C1A, 0xE1, 0xE1, 0x26, 40), (0x7C1B, 0xE5, 0xE5, 0x27, 41), (0x7C18, 0xE0, 0xE1, 0x26, 40),
     (0x7C19, 0xE4, 0xE5, 0x27, 41), (0x7C1C, 0xE2, 0xE1, 0x26, 40), (0x7C1D, 0xE6, 0xE5, 0x27, 41), (0x7C1E, 0xE5, 0x01, 0x28, 10)]"

definition mod_of :: "u8 \<Rightarrow> u8" where
  "mod_of k = (if IS_MODIFIER_KEYCODE k then MOD_BIT k else 0)"

lemma when_modifier_strokes:
  assumes "keyboard_is s ({}, M)"
  shows "keyboard_is (when_modifier k register_mods s) ({}, M OR mod_of k) \<and> host_strokes (when_modifier k register_mods s) = host_strokes s"
    "keyboard_is (when_modifier k unregister_mods s) ({}, M AND NOT (mod_of k)) \<and> host_strokes (when_modifier k unregister_mods s) = host_strokes s"
  using assms strokes_modifier [OF assms, of k] by (simp_all add: when_modifier_def mod_of_def register_mods_code)

lemma cadet_press:
  assumes "at_rest s" and "ev_pressed (event rec)"
  shows "keyboard_is (perform_space_cadet now rec h m k s) ({}, mod_of h) \<and>
    host_strokes (perform_space_cadet now rec h m k s) = host_strokes s \<and>
    sc_last (statics (perform_space_cadet now rec h m k s)) = h \<and> sc_timer (statics (perform_space_cadet now rec h m k s)) = now"
proof -
  let ?s = "s\<lparr>statics := (statics s)\<lparr>sc_last := h, sc_timer := now\<rparr>\<rparr>"
  have "keyboard_is ?s ({}, 0)" using assms(1) by (simp add: at_rest_def statics_keyboard)
  note w = when_modifier_strokes(1) [OF this, of h]
  have send: "statics (send_keyboard_report u) = statics u" for u :: "'a kb"
    by (simp add: send_keyboard_report_def prepare_report_def host_keyboard_send_def emit_def clear_oneshot_mods_def Let_def split_def)
  have "statics (when_modifier h register_mods ?s) = statics ?s"
    by (simp add: when_modifier_def register_mods_def send add_mods_def)
  then show ?thesis using w assms(2) by (simp add: perform_space_cadet_def statics_keyboard)
qed

lemma cadet_release:
  assumes "keyboard_is s ({}, mod_of h)" and "\<not> ev_pressed (event rec)" and "sc_last (statics s) = h"
    and "IS_BASIC_KEYCODE k" and "k \<noteq> 0x39"
  shows "at_rest (perform_space_cadet now rec h m k s) \<and>
    host_strokes (perform_space_cadet now rec h m k s) =
      host_strokes s @ (if timer_diff16 now (sc_timer (statics s)) < TAPPING_TERM then [(mod_of m, k)] else [])"
proof (cases "timer_diff16 now (sc_timer (statics s)) < TAPPING_TERM")
  case True
  let ?u = "if h \<noteq> m then when_modifier m register_mods (when_modifier h unregister_mods s) else s"
  have u: "keyboard_is ?u ({}, mod_of m) \<and> host_strokes ?u = host_strokes s"
  proof (cases "h = m")
    case False
    have "keyboard_is (when_modifier h unregister_mods s) ({}, 0)"
      using when_modifier_strokes(2) [OF assms(1), of h] by simp
    from when_modifier_strokes(1) [OF this, of m] when_modifier_strokes(2) [OF assms(1), of h] False show ?thesis by simp
  qed (use assms(1) in simp)
  note tap = tap_strokes [OF conjunct1 [OF u] assms(4,5)]
  show ?thesis
    using when_modifier_strokes(2) [OF conjunct1 [OF tap], of m] tap u assms(2,3) True
    by (simp add: perform_space_cadet_def at_rest_def Let_def del: if_split)
next
  case False
  then show ?thesis
    using when_modifier_strokes(2) [OF assms(1), of h] assms(2,3) by (simp add: perform_space_cadet_def at_rest_def)
qed

lemma cadet_table:
  assumes "(kc, h, m, k, c) \<in> set cadet_keys"
  shows "process_space_cadet now kc rec s = (False, perform_space_cadet now rec h m k s)" "IS_BASIC_KEYCODE k" "k \<noteq> 0x39"
    "us_layout (mod_of m, k) = Some c"
proof -
  have "us_layout (mod_of 0xE1, 0x26) = Some 40" "us_layout (mod_of 0xE5, 0x27) = Some 41" "us_layout (mod_of 1, 0x28) = Some 10"
    by code_simp+
  then show "process_space_cadet now kc rec s = (False, perform_space_cadet now rec h m k s)" "IS_BASIC_KEYCODE k" "k \<noteq> 0x39"
    "us_layout (mod_of m, k) = Some c"
    using assms by (auto simp: cadet_keys_def process_space_cadet_def IS_BASIC_KEYCODE_def within_def)
qed

text \<open>
  C16.  A space cadet key is a modifier when held and types its character when tapped.  From a keyboard on which nothing is
  held, its press holds its modifier; its release within the tapping term of 200 ms types a parenthesis or a line feed
  on a host with the US layout, a later release types nothing; either way nothing is held afterwards and no other handler
  sees the key.
\<close>

theorem space_cadet_types:
  fixes tdown tup :: u16
  assumes "at_rest s" and "(kc, h, m, k, c) \<in> set cadet_keys" and "ev_pressed (event down)" and "\<not> ev_pressed (event up)"
  defines "u1 \<equiv> process_space_cadet tdown kc down s"
  defines "u2 \<equiv> process_space_cadet tup kc up (snd u1)"
  shows "\<not> fst u1 \<and> \<not> fst u2 \<and> keyboard_is (snd u1) ({}, mod_of h) \<and> host_text (snd u1) = host_text s \<and> at_rest (snd u2) \<and>
    host_text (snd u2) = host_text s @ (if timer_diff16 tup tdown < TAPPING_TERM then [Some c] else [])"
proof -
  note table = cadet_table [OF assms(2)]
  note press = cadet_press [OF assms(1,3), of tdown h m k]
  note release = cadet_release [OF conjunct1 [OF press] assms(4) _ table(2,3), of tup m]
  show ?thesis
    using press release table(4) by (simp add: u1_def u2_def table(1) host_text_def)
qed

text \<open>Left shift with open parenthesis, tapped for 100 ms across the wrap of the clock.\<close>

theorem space_cadet_types_witness:
  "let s = (kb_static ())\<lparr>host_driver := True, keyboard_protocol := 0\<rparr>;
       u1 = process_space_cadet 65500 0x7C1A (plain (ab_event 3 True 1) 0) s;
       u2 = process_space_cadet 64 0x7C1A (plain (ab_event 3 False 101) 0) (snd u1)
   in at_rest (snd u2) \<and> host_text (snd u2) = [Some 40]"
proof -
  let ?s = "(kb_static ())\<lparr>host_driver := True, keyboard_protocol := 0\<rparr>"
  have "at_rest ?s"
    by (auto simp: at_rest_def keyboard_is_def boot_synced_def kb_static_def nkro_active_def host_sees_def byte_ok_def byte_keys_def report_defs)
  moreover have "host_text ?s = []" by (simp add: host_text_def host_strokes_def kb_static_def)
  ultimately show ?thesis
    using space_cadet_types [where s = ?s and kc = "0x7C1A" and h = "0xE1" and m = "0xE1" and k = "0x26" and c = 40 and
        down = "plain (ab_event 3 True 1) 0" and up = "plain (ab_event 3 False 101) 0" and tdown = 65500 and tup = 64]
    by (simp add: cadet_keys_def plain_def ab_event_def timer_diff16_def TAPPING_TERM_def Let_def)
qed

section \<open>Magic keycodes\<close>

lemma clear_keyboard_frame:
  "eeprom_state (clear_keyboard s) = eeprom_state s" "keymap_config (clear_keyboard s) = keymap_config s"
  "real_mods (clear_keyboard s) = 0" "weak_mods (clear_keyboard s) = 0"
proof -
  have send: "eeprom_state (send_keyboard_report u) = eeprom_state u \<and> keymap_config (send_keyboard_report u) = keymap_config u \<and>
      real_mods (send_keyboard_report u) = real_mods u \<and> weak_mods (send_keyboard_report u) = weak_mods u" for u :: "'a kb"
    by (simp add: send_keyboard_report_def prepare_report_def host_keyboard_send_def emit_def clear_oneshot_mods_def Let_def split_def)
  have ext: "eeprom_state (host_consumer_send n u) = eeprom_state u \<and> keymap_config (host_consumer_send n u) = keymap_config u \<and>
      real_mods (host_consumer_send n u) = real_mods u \<and> eeprom_state (host_system_send n u) = eeprom_state u \<and>
      keymap_config (host_system_send n u) = keymap_config u \<and> real_mods (host_system_send n u) = real_mods u" for n and u :: "'a kb"
    by (simp add: host_consumer_send_def host_system_send_def emit_def Let_def)
  show "eeprom_state (clear_keyboard s) = eeprom_state s" "keymap_config (clear_keyboard s) = keymap_config s"
    "real_mods (clear_keyboard s) = 0" "weak_mods (clear_keyboard s) = 0"
    by (simp_all add: clear_keyboard_def clear_keyboard_but_mods_def clear_keyboard_but_mods_and_keys_def Let_def emit_def send ext
        clear_weak_mods_def clear_keys_def clear_mods_def)
qed

context keymap_eeprom
begin

lemma config_stored:
  assumes "good e"
  shows "good (eeconfig_update_keymap ops v e)" "eeconfig_read_keymap ops (eeconfig_update_keymap ops v e) = v"
    "good (eeconfig_update_handedness ops hand e)"
proof -
  have N: "EECONFIG_KEYMAP + 1 < N" "EECONFIG_HANDEDNESS < N"
    using room by (simp_all add: TOTAL_EEPROM_BYTE_COUNT_def EECONFIG_KEYMAP_def EECONFIG_HANDEDNESS_def)
  note u = update_word [OF assms N(1), of v]
  then show "good (eeconfig_update_keymap ops v e)" by (simp add: eeconfig_update_keymap_def)
  have l: "bytes_of_u16 v = [bytes_of_u16 v ! 0, bytes_of_u16 v ! 1]" by (simp add: bytes_of_u16_def)
  have "[contents (eeprom_update_word ops EECONFIG_KEYMAP v e) ! EECONFIG_KEYMAP,
      contents (eeprom_update_word ops EECONFIG_KEYMAP v e) ! (EECONFIG_KEYMAP + 1)] = bytes_of_u16 v"
    using u N length_contents [OF assms] by (subst l) (simp add: nth_patch bytes_of_u16_def)
  then show "eeconfig_read_keymap ops (eeconfig_update_keymap ops v e) = v"
    using read_word [OF conjunct1 [OF u] N(1)] by (simp add: eeconfig_read_keymap_def eeconfig_update_keymap_def u16_of_bytes_of)
  show "good (eeconfig_update_handedness ops hand e)"
    using update_byte [OF assms N(2)] by (simp add: eeconfig_update_handedness_def)
qed

end

lemma bit_put_bit: "n < 16 \<Longrightarrow> bit (put_bit n b c) j = (if j = n then b else bit c j)"
  by (auto simp: put_bit_def bit_simps)

lemma magic_flags_range: "(n, b) \<in> set (magic_flags kc c) \<Longrightarrow> n < 16"
  by (auto simp: magic_flags_def split: if_splits)

lemma bit_fold_put:
  "\<forall>x \<in> set xs. fst x < 16 \<Longrightarrow> distinct (map fst xs) \<Longrightarrow>
   bit (fold (\<lambda>(n, b). put_bit n b) xs d) j = (case map_of xs j of Some b \<Rightarrow> b | None \<Rightarrow> bit d j)"
proof (induction xs arbitrary: d)
  case (Cons x xs)
  obtain n b where x: "x = (n, b)" by (cases x)
  have "j \<notin> fst ` set xs \<Longrightarrow> map_of xs j = None" by (simp add: map_of_eq_None_iff)
  then show ?case using Cons by (auto simp: x bit_put_bit split: option.splits)
qed simp

lemma bit_magic_config:
  "bit (magic_config kc c) j = (case map_of (magic_flags kc c) j of Some b \<Rightarrow> b | None \<Rightarrow> bit c j)"
proof -
  have "distinct (map fst (magic_flags kc c))" by (simp add: magic_flags_def)
  moreover have "\<forall>x \<in> set (magic_flags kc c). fst x < 16" using magic_flags_range by fastforce
  ultimately show ?thesis by (simp add: magic_config_def bit_fold_put)
qed

text \<open>
  What a magic key means, by name: the fields of the configuration it assigns, and their new values.  A key that is not listed
  (the two for the handedness, and the toggle of the GUI key, which the radio link takes over) assigns none.
\<close>

datatype config_field = Swap_Control_Capslock | Capslock_To_Control | Swap_Lalt_Lgui | Swap_Ralt_Rgui | No_Gui | Swap_Grave_Esc
  | Swap_Backslash_Backspace | Nkro | Swap_Lctl_Lgui | Swap_Rctl_Rgui | Oneshot_Enable | Swap_Escape_Capslock

fun field_value :: "config_field \<Rightarrow> u16 \<Rightarrow> bool" where
  "field_value Swap_Control_Capslock = swap_control_capslock"
| "field_value Capslock_To_Control = capslock_to_control"
| "field_value Swap_Lalt_Lgui = swap_lalt_lgui"
| "field_value Swap_Ralt_Rgui = swap_ralt_rgui"
| "field_value No_Gui = no_gui"
| "field_value Swap_Grave_Esc = swap_grave_esc"
| "field_value Swap_Backslash_Backspace = swap_backslash_backspace"
| "field_value Nkro = nkro"
| "field_value Swap_Lctl_Lgui = swap_lctl_lgui"
| "field_value Swap_Rctl_Rgui = swap_rctl_rgui"
| "field_value Oneshot_Enable = oneshot_enable_bit"
| "field_value Swap_Escape_Capslock = swap_escape_capslock"

datatype new_value = On | Off | Opposite config_field

fun value_in :: "u16 \<Rightarrow> new_value \<Rightarrow> bool" where
  "value_in c On = True"
| "value_in c Off = False"
| "value_in c (Opposite f) = (\<not> field_value f c)"

definition magic_table :: "(u16 \<times> (config_field \<times> new_value) list) list" where
  "magic_table = [
     (QK_MAGIC_SWAP_CONTROL_CAPS_LOCK, [(Swap_Control_Capslock, On)]),
     (QK_MAGIC_UNSWAP_CONTROL_CAPS_LOCK, [(Swap_Control_Capslock, Off)]),
     (QK_MAGIC_TOGGLE_CONTROL_CAPS_LOCK, [(Swap_Control_Capslock, Opposite Swap_Control_Capslock)]),
     (QK_MAGIC_CAPS_LOCK_AS_CONTROL_ON, [(Capslock_To_Control, On)]),
     (QK_MAGIC_CAPS_LOCK_AS_CONTROL_OFF, [(Capslock_To_Control, Off)]),
     (QK_MAGIC_SWAP_LALT_LGUI, [(Swap_Lalt_Lgui, On)]),
     (QK_MAGIC_UNSWAP_LALT_LGUI, [(Swap_Lalt_Lgui, Off)]),
     (QK_MAGIC_SWAP_RALT_RGUI, [(Swap_Ralt_Rgui, On)]),
     (QK_MAGIC_UNSWAP_RALT_RGUI, [(Swap_Ralt_Rgui, Off)]),
     (QK_MAGIC_SWAP_ALT_GUI, [(Swap_Lalt_Lgui, On), (Swap_Ralt_Rgui, On)]),
     (QK_MAGIC_UNSWAP_ALT_GUI, [(Swap_Lalt_Lgui, Off), (Swap_Ralt_Rgui, Off)]),
     (QK_MAGIC_TOGGLE_ALT_GUI, [(Swap_Lalt_Lgui, Opposite Swap_Lalt_Lgui), (Swap_Ralt_Rgui, Opposite Swap_Lalt_Lgui)]),
     (QK_MAGIC_GUI_ON, [(No_Gui, Off)]),
     (QK_MAGIC_GUI_OFF, [(No_Gui, On)]),
     (QK_MAGIC_SWAP_GRAVE_ESC, [(Swap_Grave_Esc, On)]),
     (QK_MAGIC_UNSWAP_GRAVE_ESC, [(Swap_Grave_Esc, Off)]),
     (QK_MAGIC_SWAP_BACKSLASH_BACKSPACE, [(Swap_Backslash_Backspace, On)]),
     (QK_MAGIC_UNSWAP_BACKSLASH_BACKSPACE, [(Swap_Backslash_Backspace, Off)]),
     (QK_MAGIC_TOGGLE_BACKSLASH_BACKSPACE, [(Swap_Backslash_Backspace, Opposite Swap_Backslash_Backspace)]),
     (QK_MAGIC_NKRO_ON, [(Nkro, On)]),
     (QK_MAGIC_NKRO_OFF, [(Nkro, Off)]),
     (QK_MAGIC_TOGGLE_NKRO, [(Nkro, Opposite Nkro)]),
     (QK_MAGIC_SWAP_LCTL_LGUI, [(Swap_Lctl_Lgui, On)]),
     (QK_MAGIC_UNSWAP_LCTL_LGUI, [(Swap_Lctl_Lgui, Off)]),
     (QK_MAGIC_SWAP_RCTL_RGUI, [(Swap_Rctl_Rgui, On)]),
     (QK_MAGIC_UNSWAP_RCTL_RGUI, [(Swap_Rctl_Rgui, Off)]),
     (QK_MAGIC_SWAP_CTL_GUI, [(Swap_Lctl_Lgui, On), (Swap_Rctl_Rgui, On)]),
     (QK_MAGIC_UNSWAP_CTL_GUI, [(Swap_Lctl_Lgui, Off), (Swap_Rctl_Rgui, Off)]),
     (QK_MAGIC_TOGGLE_CTL_GUI, [(Swap_Lctl_Lgui, Opposite Swap_Lctl_Lgui), (Swap_Rctl_Rgui, Opposite Swap_Lctl_Lgui)]),
     (QK_MAGIC_SWAP_ESCAPE_CAPS_LOCK, [(Swap_Escape_Capslock, On)]),
     (QK_MAGIC_UNSWAP_ESCAPE_CAPS_LOCK, [(Swap_Escape_Capslock, Off)]),
     (QK_MAGIC_TOGGLE_ESCAPE_CAPS_LOCK, [(Swap_Escape_Capslock, Opposite Swap_Escape_Capslock)])]"

definition magic_meaning :: "u16 \<Rightarrow> config_field \<Rightarrow> new_value option" where
  "magic_meaning kc f = (case map_of magic_table kc of None \<Rightarrow> None | Some m \<Rightarrow> map_of m f)"

fun field_bit :: "config_field \<Rightarrow> nat" where
  "field_bit Swap_Control_Capslock = 0"
| "field_bit Capslock_To_Control = 1"
| "field_bit Swap_Lalt_Lgui = 2"
| "field_bit Swap_Ralt_Rgui = 3"
| "field_bit No_Gui = 4"
| "field_bit Swap_Grave_Esc = 5"
| "field_bit Swap_Backslash_Backspace = 6"
| "field_bit Nkro = 7"
| "field_bit Swap_Lctl_Lgui = 8"
| "field_bit Swap_Rctl_Rgui = 9"
| "field_bit Oneshot_Enable = 10"
| "field_bit Swap_Escape_Capslock = 11"

lemma field_value_bit: "field_value f c = bit c (field_bit f)"
  by (cases f) (simp_all add: swap_control_capslock_def capslock_to_control_def swap_lalt_lgui_def swap_ralt_rgui_def no_gui_def
      swap_grave_esc_def swap_backslash_backspace_def nkro_def swap_lctl_lgui_def swap_rctl_rgui_def oneshot_enable_bit_def
      swap_escape_capslock_def)

lemma field_bit_inj: "field_bit f = field_bit g \<longleftrightarrow> f = g" and field_bit_less: "field_bit f < 12"
  by (cases f; cases g; simp) (cases f; simp)

lemma magic_flags_table:
  assumes "map_of magic_table kc = Some m"
  shows "map_of (magic_flags kc c) = map_of (map (\<lambda>(f, v). (field_bit f, value_in c v)) m)"
proof -
  have "(kc, m) \<in> set magic_table" using assms by (rule map_of_SomeD)
  then show ?thesis unfolding magic_table_def list.set
    by (elim insertE emptyE; clarsimp simp: magic_flags_def magic_codes swap_control_capslock_def swap_lalt_lgui_def
        swap_backslash_backspace_def nkro_def swap_lctl_lgui_def swap_escape_capslock_def fun_eq_iff)
qed

lemma magic_flags_none: "map_of magic_table kc = None \<Longrightarrow> magic_flags kc c = []"
  by (rule ccontr) (auto simp: map_of_eq_None_iff magic_table_def magic_flags_def split: if_splits)

lemma map_of_fields:
  "map_of (map (\<lambda>(f, v). (field_bit f, h v)) m) (field_bit f) = map_option h (map_of m f)"
  by (induction m) (auto simp: field_bit_inj)

lemma magic_config_fields:
  "field_value f (magic_config kc c) = (case magic_meaning kc f of None \<Rightarrow> field_value f c | Some v \<Rightarrow> value_in c v)"
  "12 \<le> j \<Longrightarrow> bit (magic_config kc c) j = bit c j"
proof -
  show "field_value f (magic_config kc c) = (case magic_meaning kc f of None \<Rightarrow> field_value f c | Some v \<Rightarrow> value_in c v)"
    by (cases "map_of magic_table kc")
      (auto simp: field_value_bit bit_magic_config magic_meaning_def magic_flags_none magic_flags_table map_of_fields split: option.splits)
  show "bit (magic_config kc c) j = bit c j" if "12 \<le> j"
  proof (cases "map_of magic_table kc")
    case (Some m)
    have "map_of (map (\<lambda>(f, v). (field_bit f, value_in c v)) m) j = None"
      using that field_bit_less by (induction m) (auto simp: not_le [symmetric])
    then show ?thesis by (simp add: bit_magic_config magic_flags_table [OF Some])
  qed (simp add: bit_magic_config magic_flags_none)
qed

text \<open>
  C15.  A magic key changes the setting it names, now and after a restart.  The handler takes the event; the configuration the
  keyboard uses afterwards is the one in the EEPROM; every field that the key's name stands for has the value it stands for, and every
  other field and spare bit is as it was stored; and no modifier is left on.
\<close>

theorem magic_key_persists:
  fixes s :: "'e kb"
  assumes "keymap_eeprom ops contents good N" and "good (eeprom_state s)" and "IS_MAGIC_KEYCODE kc" and "ev_pressed (event rec)"
  defines "old \<equiv> eeconfig_read_keymap ops (eeprom_state s)"
  defines "r \<equiv> process_magic ops kc rec s"
  shows "\<not> fst r \<and> good (eeprom_state (snd r)) \<and> eeconfig_read_keymap ops (eeprom_state (snd r)) = keymap_config (snd r) \<and>
    (\<forall>f. field_value f (keymap_config (snd r)) =
      (case magic_meaning kc f of None \<Rightarrow> field_value f old | Some v \<Rightarrow> value_in old v)) \<and>
    (\<forall>j \<ge> 12. bit (keymap_config (snd r)) j = bit old j) \<and> real_mods (snd r) = 0 \<and> weak_mods (snd r) = 0"
proof -
  let ?s = "s\<lparr>keymap_config := old\<rparr>"
  let ?c = "if is_nkro_magic kc then clear_keyboard ?s else ?s"
  let ?v = "magic_config kc old"
  define e where "e = (if kc = QK_MAGIC_EE_HANDS_LEFT \<or> kc = QK_MAGIC_EE_HANDS_RIGHT
    then eeconfig_update_handedness ops (kc = QK_MAGIC_EE_HANDS_LEFT) (eeprom_state s) else eeprom_state s)"
  note store = keymap_eeprom.config_stored [OF assms(1)]
  have c: "keymap_config ?c = old" "eeprom_state ?c = eeprom_state s" by (simp_all add: clear_keyboard_frame)
  have e: "good e" using store(3) assms(2) by (simp add: e_def)
  have r: "r = (False, clear_keyboard (?c\<lparr>keymap_config := ?v, eeprom_state := eeconfig_update_keymap ops ?v e\<rparr>))"
    using assms(3,4) c by (auto simp: r_def process_magic_def Let_def e_def old_def)
  show ?thesis
    using store(1,2) [OF e, of ?v] by (simp add: r clear_keyboard_frame magic_config_fields)
qed

text \<open>The toggle of Alt and GUI on a configuration in which nothing is swapped.\<close>

theorem magic_key_persists_witness:
  "let s = kb_static (Some (replicate 2048 0));
       r = process_magic (transient_ops 2048 (\<lambda>buf a. buf)) QK_MAGIC_TOGGLE_ALT_GUI (plain (ab_event 3 True 1) 0) s
   in eeconfig_read_keymap (transient_ops 2048 (\<lambda>buf a. buf)) (eeprom_state (snd r)) = keymap_config (snd r) \<and>
     swap_lalt_lgui (keymap_config (snd r)) \<and> swap_ralt_rgui (keymap_config (snd r)) \<and> \<not> no_gui (keymap_config (snd r))"
proof -
  let ?s = "kb_static (Some (replicate 2048 (0 :: u8)))"
  have zero: "eeconfig_read_keymap (transient_ops 2048 (\<lambda>buf a. buf)) (eeprom_state ?s) = 0"
    using transient.read_word [of "Some (replicate 2048 0)" 2048 EECONFIG_KEYMAP "\<lambda>buf a. buf"]
    by (simp add: eeconfig_read_keymap_def EECONFIG_KEYMAP_def kb_static_def u16_of_bytes_def)
  have meaning: "magic_meaning QK_MAGIC_TOGGLE_ALT_GUI Swap_Lalt_Lgui = Some (Opposite Swap_Lalt_Lgui)"
    "magic_meaning QK_MAGIC_TOGGLE_ALT_GUI Swap_Ralt_Rgui = Some (Opposite Swap_Lalt_Lgui)"
    "magic_meaning QK_MAGIC_TOGGLE_ALT_GUI No_Gui = None"
    by (simp_all add: magic_meaning_def magic_table_def magic_codes)
  have kc: "IS_MAGIC_KEYCODE QK_MAGIC_TOGGLE_ALT_GUI" by (simp add: IS_MAGIC_KEYCODE_def within_def magic_codes)
  have off: "swap_lalt_lgui 0 = False" "no_gui 0 = False" by (simp_all add: swap_lalt_lgui_def no_gui_def)
  have start: "\<exists>m. eeprom_state ?s = Some m \<and> length m = 2048" "ev_pressed (event (plain (ab_event 3 True 1) 0))"
    by (simp_all add: kb_static_def plain_def ab_event_def)
  note r = magic_key_persists [OF p1_ram.keymap_eeprom_axioms start(1) kc start(2), of "\<lambda>buf a. buf", unfolded zero]
  note fields = r [THEN conjunct2, THEN conjunct2, THEN conjunct2, THEN conjunct1, rule_format]
  show ?thesis
    using r [THEN conjunct2, THEN conjunct2, THEN conjunct1] fields [of Swap_Lalt_Lgui] fields [of Swap_Ralt_Rgui] fields [of No_Gui]
    by (simp add: meaning off)
qed

section \<open>Macro keys\<close>

lemma item_count: "list_all item_ok its \<Longrightarrow> length its \<le> length (concat (map item_bytes its))"
proof (induction its)
  case (Cons it its)
  then show ?case by (cases it) auto
qed simp

lemma chars_typed:
  assumes "at_rest s" and "list_all (\<lambda>c. c < 128) str"
  shows "at_rest (fold item_step (map Item_Char str) s) \<and>
    host_text (fold item_step (map Item_Char str) s) = host_text s @ map Some (filter typable str)"
  using assms
proof (induction str arbitrary: s)
  case (Cons c str)
  obtain t where t: "send_char c s = Some t" "at_rest t" "host_text t = host_text s @ (if typable c then [Some c] else [])"
    using send_char_types [OF Cons.prems(1), of c] Cons.prems(2) by auto
  then show ?case using Cons.IH [OF t(2)] Cons.prems(2) by (cases "typable c") simp_all
qed simp

text \<open>
  C11.  A macro key types its text.  When VIA has reset the macro area and written macros that fit in it, and a key holds the
  keycode of one of the first sixteen macros and that macro is text, then pressing the key on a keyboard on which
  nothing is held makes a host with the US layout read exactly the characters of the text that have a key; nothing is
  held afterwards and no other handler sees the key.
\<close>

theorem macro_key_types_text:
  fixes s :: "'e kb" and rec :: keyrecord and i :: nat
  defines "key \<equiv> ev_key (event rec)"
  assumes "keymap_eeprom ops contents good N" and "good e" and "list_all (list_all item_ok) ms"
    and "length (macro_image ms) \<le> DYNAMIC_KEYMAP_MACRO_EEPROM_SIZE"
    and "i < length ms" and "i < DYNAMIC_KEYMAP_MACRO_COUNT" and "ms ! i = map Item_Char str"
    and "eeprom_state s = dynamic_keymap_macro_set_buffer ops 0 (macro_image ms) (dynamic_keymap_macro_reset ops e)"
    and "at_rest s" and "layers_ok ops s" and "is_matrix_key key" and "ev_pressed (event rec)"
    and "keycode_at ops (layer_of ops key s) key (eeprom_state s) = QK_MACRO + of_nat i"
  shows "\<exists>t. quantum_process_record ops env rec s = (False, t) \<and> at_rest t \<and> host_text t = host_text s @ map Some (filter typable str)"
proof -
  obtain kc s1 where k: "get_record_keycode ops rec True s = (kc, s1)" "without_lookup s1 = without_lookup s"
      "kc = keycode_at ops (if ev_pressed (event rec) \<and> True then layer_of ops key s else read_source_layers_cache key s) key (eeprom_state s)"
    by (rule record_keycode [OF assms(11), of rec True, folded key_def, OF assms(12)], rule that)
  have kc: "kc = QK_MACRO + of_nat i" using k(3) assms(13,14) by simp
  have small: "i < 16" using assms(7) by (simp add: DYNAMIC_KEYMAP_MACRO_COUNT_def)
  have s1: "at_rest s1" "host_text s1 = host_text s" "eeprom_state s1 = eeprom_state s"
    using lookup_sent [OF k(2)] lookup_only_fields(2) [OF k(2)] assms(10) by (simp_all add: at_rest_def)
  have "length (ms ! i) \<le> length (concat (map item_bytes (ms ! i)))"
    using item_count [of "ms ! i"] assms(4,6) by (simp add: list_all_length)
  also have "\<dots> < length (macro_image ms)"
    using length_macro_image [OF assms(6)] by (simp add: macro_bytes_def)
  finally have fuel: "length (ms ! i) < Suc DYNAMIC_KEYMAP_MACRO_EEPROM_SIZE" using assms(5) by simp
  have ascii: "list_all (\<lambda>c. c < 128) str"
    using assms(4,6,8) by (auto simp: list_all_length)
  have "eeprom_state s1 = dynamic_keymap_macro_set_buffer ops 0 (macro_image ms) (dynamic_keymap_macro_reset ops e)"
    using s1(3) assms(9) by simp
  from keymap_eeprom.macro_played [OF assms(2-7) fuel this]
  have play: "macro_play ops (Suc DYNAMIC_KEYMAP_MACRO_EEPROM_SIZE) i s1 = Some (fold item_step (map Item_Char str) s1)"
    by (simp add: assms(8))
  have i: "unat (of_nat i :: u16) = i" using small by (simp add: unat_of_nat)
  then have "unat (QK_MACRO + of_nat i) = 0x7700 + i" using small by (simp add: QK_MACRO_def unat_word_ariths)
  then have range: "within QK_MACRO QK_MACRO_MAX (QK_MACRO + of_nat i)"
    using small by (simp add: within_def QK_MACRO_def QK_MACRO_MAX_def word_le_nat_alt)
  have id: "unat (ucast (QK_MACRO + of_nat i - QK_MACRO :: u16) :: u8) = i"
    using small i by (simp add: unsigned_ucast_eq take_bit_nat_eq_self)
  have "process_record_via ops kc rec s1 = (False, fold item_step (map Item_Char str) s1)"
    using range id play assms(13) by (simp add: process_record_via_def kc)
  then have "quantum_process_record ops env rec s = (False, fold item_step (map Item_Char str) s1)"
    by (simp add: quantum_process_record_def k(1) and_then_def)
  then show ?thesis using chars_typed [OF s1(1) ascii] s1(2) by simp
qed

text \<open>A key with the first macro, which is Hi, and a key with J, in a RAM EEPROM.\<close>

definition hi_eeprom :: "u8 list option" where
  "hi_eeprom = dynamic_keymap_macro_set_buffer run_ops 0 (macro_image [[Item_Char 72, Item_Char 105]])
     (dynamic_keymap_macro_reset run_ops (dynamic_keymap_set_keycode run_ops 0 2 3 0x7700 (Some (replicate 2048 0))))"

definition boot_kb :: "u8 list option \<Rightarrow> u8 list option kb" where
  "boot_kb e = (kb_static e)\<lparr>host_driver := True, keyboard_protocol := 0\<rparr>"

lemma boot_kb_start:
  "layers_ok ops (boot_kb e)" "at_rest (boot_kb e)" "host_text (boot_kb e) = []" "layer_of ops key (boot_kb e) = 0"
  "eeprom_state (boot_kb e) = e" "is_matrix_key (ev_key (ab_event 3 p n))"
  "keycode_at ops 0 (ev_key (ab_event 3 p n)) e = dynamic_keymap_get_keycode ops 0 2 3 e"
proof -
  show "layers_ok ops (boot_kb e)"
    using layers_ok_static [of ops e] by (simp add: boot_kb_def layers_ok_def memo_ok_def memo_key_def)
  show "at_rest (boot_kb e)"
    by (auto simp: at_rest_def boot_kb_def keyboard_is_def boot_synced_def kb_static_def nkro_active_def host_sees_def byte_ok_def
        byte_keys_def report_defs)
  show "host_text (boot_kb e) = []" by (simp add: boot_kb_def host_text_def host_strokes_def kb_static_def)
  show "layer_of ops key (boot_kb e) = 0" by (simp add: layer_of_def opaque_def boot_kb_def kb_static_def topmost_def)
  show "eeprom_state (boot_kb e) = e" by (simp add: boot_kb_def kb_static_def)
  show m: "is_matrix_key (ev_key (ab_event 3 p n))" by (simp add: ab_event_def is_matrix_key_def MATRIX_ROWS_def MATRIX_COLS_def)
  show "keycode_at ops 0 (ev_key (ab_event 3 p n)) e = dynamic_keymap_get_keycode ops 0 2 3 e"
    using m by (simp add: keycode_at_def keycode_at_keymap_location_def DYNAMIC_KEYMAP_LAYER_COUNT_def MATRIX_ROWS_def MATRIX_COLS_def)
      (simp add: ab_event_def)
qed

theorem macro_key_types_text_witness:
  "\<exists>t. quantum_process_record run_ops (open_env 0) (plain (ab_event 3 True 1) 0) (boot_kb hi_eeprom) = (False, t) \<and>
    at_rest t \<and> host_text t = [Some 72, Some 105]"
proof -
  let ?ops = "transient_ops 2048 (\<lambda>b _. b)" and ?key = "dynamic_keymap_set_keycode run_ops 0 2 3 0x7700 (Some (replicate 2048 0))"
  have in_range: "(0 :: nat) < DYNAMIC_KEYMAP_LAYER_COUNT" "(2 :: nat) < MATRIX_ROWS" "(3 :: nat) < MATRIX_COLS" by (simp_all add: keymap_sizes)
  have good: "\<exists>m. ?key = Some m \<and> length m = 2048"
    using p1_ram.set_good [of "Some (replicate 2048 0)" "\<lambda>b _. b"] by (simp add: run_ops_def)
  have "dynamic_keymap_get_keycode run_ops 0 2 3 ?key = 0x7700"
    unfolding run_ops_def using in_range by (simp add: p1_ram.get_set_keycode)
  moreover note reset = p1_ram.macro_reset_leaves_keys [OF good in_range, of "\<lambda>b _. b", folded run_ops_def]
  moreover have "dynamic_keymap_get_keycode run_ops 0 2 3 hi_eeprom = dynamic_keymap_get_keycode run_ops 0 2 3 (dynamic_keymap_macro_reset run_ops ?key)"
    unfolding hi_eeprom_def using p1_ram.macros_leave_keys [OF conjunct1 [OF reset] in_range, of "\<lambda>b _. b", folded run_ops_def] by simp
  ultimately have kc: "dynamic_keymap_get_keycode run_ops 0 2 3 hi_eeprom = 0x7700" by simp
  have ev: "event (plain e 0) = e" for e by (simp add: plain_def)
  show ?thesis
    using macro_key_types_text [OF p1_ram.keymap_eeprom_axioms [of "\<lambda>b _. b", folded run_ops_def] good,
        of "[[Item_Char 72, Item_Char 105]]" 0 "[72, 105]" "boot_kb hi_eeprom" "plain (ab_event 3 True 1) 0" "open_env 0"]
    by (simp add: boot_kb_start ev kc macro_image_def macro_bytes_def keymap_layout DYNAMIC_KEYMAP_MACRO_COUNT_def QK_MACRO_def
        typable_def hi_eeprom_def [symmetric]) (simp add: hi_eeprom_def macro_image_def macro_bytes_def ab_event_def)
qed

text \<open>J is down and Fn was pressed after it: releasing J leaves it down.\<close>

definition j_eeprom :: "u8 list option" where
  "j_eeprom = dynamic_keymap_set_keycode run_ops 0 2 3 KC_J (Some (replicate 2048 0))"

theorem fn_strands_letter_witness:
  "let s = (register_code 0x0D (boot_kb j_eeprom))\<lparr>statics := quantum_static\<lparr>factory_reset_state := KEY_PRESS_FN OR KEY_PRESS_J\<rparr>\<rparr>
   in keyboard_is (snd (process_record run_ops (quantum_hooks run_ops (open_env 0)) (plain (ab_event 3 False 9) 0) s)) ({0x0D}, 0)"
proof -
  let ?q = "quantum_static\<lparr>factory_reset_state := KEY_PRESS_FN OR KEY_PRESS_J\<rparr>"
  let ?s = "(register_code 0x0D (boot_kb j_eeprom))\<lparr>statics := ?q\<rparr>"
  have j: "IS_BASIC_KEYCODE 0x0D" by (simp add: IS_BASIC_KEYCODE_def within_def)
  note out = basic_without_output(1) [OF j, of "boot_kb j_eeprom"]
  have "keyboard_is (boot_kb j_eeprom) ({}, 0)" using boot_kb_start(2) by (simp add: at_rest_def)
  then have k: "keyboard_is ?s ({0x0D}, 0)"
    using keyboard_is_register [of "boot_kb j_eeprom" "{}" 0, OF _ j] by (simp add: statics_keyboard KEYBOARD_REPORT_KEYS_def)
  have l: "layers_ok run_ops ?s"
    using output_only_fields(2) [OF out] boot_kb_start(1) by (simp add: statics_frame)
  have "read_source_layers_cache (ev_key (ab_event 3 False 9)) (boot_kb j_eeprom) = 0"
    using boot_kb_start(6) [of False 9]
    by (simp add: read_source_layers_cache_def read_source_layers_cache_impl_def cache_planes boot_kb_def kb_static_def ab_event_def
        entry_of_def MATRIX_COLS_def Let_def)
  then have c: "read_source_layers_cache (ev_key (ab_event 3 False 9)) ?s = 0"
    using output_only_fields(3) [OF out] by (simp add: statics_frame)
  have "eeprom_state ?s = j_eeprom" using output_only_fields(1) [OF out] boot_kb_start(5) [of j_eeprom] by (simp add: map_state_def)
  moreover have "dynamic_keymap_get_keycode run_ops 0 2 3 j_eeprom = KC_J"
    unfolding j_eeprom_def run_ops_def by (simp add: p1_ram.get_set_keycode keymap_sizes)
  ultimately have kc: "keycode_at run_ops (read_source_layers_cache (ev_key (ab_event 3 False 9)) ?s) (ev_key (ab_event 3 False 9))
      (eeprom_state ?s) \<in> {KC_J, KC_Z}"
    by (simp add: c boot_kb_start(7))
  have "\<not> fn_up (statics ?s)" by (simp add: fn_up_def key_press_defs)
  from fn_strands_letter [OF k l boot_kb_start(6) _ kc open_env_passes this] show ?thesis
    by (simp add: ab_event_def Let_def)
qed

section \<open>One-shot layers\<close>

text \<open>An ordinary key through the handlers and the layer lookup, up to its action.\<close>

lemma ordinary_record:
  fixes e :: keyevent
  assumes "layers_ok ops s" and "is_matrix_key (ev_key e)" and "\<not> IS_NOEVENT e" and "env_passes env" and "fn_up (statics s)"
  defines "l \<equiv> if ev_pressed e then layer_of ops (ev_key e) s else read_source_layers_cache (ev_key e) s"
  assumes "ordinary (keycode_at ops l (ev_key e) (eeprom_state s))" and "action_at ops l (ev_key e) s = ACTION_KEY (ucast c)"
  obtains v where "layers_ok ops v" "fn_up (statics v)" "map_state v = map_state s" "read_source_layers_cache (ev_key e) v = l"
    "process_record_n (Suc n) ops (quantum_hooks ops env) (plain e 0) s =
      (let (r, u) = process_action (process_record_n n ops (quantum_hooks ops env)) (plain e 0) (ACTION_KEY (ucast c)) v
       in (r, snd (get_record_keycode ops r False u)))"
proof -
  have ev: "event (plain e 0) = e" by (simp add: plain_def)
  obtain kc t where t: "get_record_keycode ops (plain e 0) True s = (kc, t)" "layers_ok ops t" "without_lookup t = without_lookup s"
      "kc = keycode_at ops (if ev_pressed e \<and> True then layer_of ops (ev_key e) s else read_source_layers_cache (ev_key e) s) (ev_key e) (eeprom_state s)"
      "\<And>k. is_matrix_key k \<Longrightarrow> read_source_layers_cache k t =
         (if ev_pressed e \<and> True \<and> k = (ev_key e) then layer_of ops k s else read_source_layers_cache k s)"
    by (rule record_keycode [OF assms(1), of "plain e 0" True, unfolded ev, OF assms(2)], rule that)
  have kc: "ordinary kc" using assms(7) t(4) by (simp add: l_def split: if_splits)
  have "fn_up (statics t)" using assms(5) lookup_only_fields(5) [OF t(3)] by simp
  from ordinary_chain [OF kc assms(4) this t(1)] obtain q where
    q: "quantum_process_record ops env (plain e 0) s = (True, t\<lparr>statics := q\<rparr>)" "fn_up q" by blast
  let ?t = "t\<lparr>statics := q\<rparr>"
  have m: "map_state ?t = map_state s" using lookup_only_fields(1) [OF t(3)] by (simp add: map_state_def)
  have ok: "layers_ok ops ?t" "key_ok (ev_key e)" using t(2) assms(2) by (simp_all add: statics_frame key_ok_def)
  have cached: "read_source_layers_cache (ev_key e) ?t = l" using t(5) [OF assms(2)] by (simp add: statics_frame l_def)
  obtain a v where st: "store_or_get_action ops (ev_pressed e) (ev_key e) ?t = (a, v)" by (cases "store_or_get_action ops (ev_pressed e) (ev_key e) ?t")
  have top: "of_nat (topmost {i. i < MAX_LAYER \<and> opaque ops (layer_state ?t OR default_layer_state ?t) (ev_key e) ?t i}) = layer_of ops (ev_key e) s"
    using map_state_lookup(2) [OF m, of ops "ev_key e"] by (simp add: layer_of_def)
  obtain l' where l': "a = action_at ops l' (ev_key e) ?t" "layers_ok ops v" "l' = l"
      "\<And>k. is_matrix_key k \<Longrightarrow> read_source_layers_cache k v = (if ev_pressed e \<and> (ev_key e) = k then l' else read_source_layers_cache k ?t)"
    by (rule store_or_get [OF ok st], rule that) (use top cached in \<open>auto simp: l_def split: if_splits\<close>)
  have look: "without_lookup v = without_lookup ?t" by (rule store_without_lookup [OF ok(1) st])
  have a: "a = ACTION_KEY (ucast c)" using l'(1,3) assms(8) map_state_lookup(1) [OF m] by simp
  have "process_record_n (Suc n) ops (quantum_hooks ops env) (plain e 0) s =
      (let (r, u) = process_action (process_record_n n ops (quantum_hooks ops env)) (plain e 0) (ACTION_KEY (ucast c)) v
       in (r, snd (get_record_keycode ops r False u)))"
    using assms(3) q(1) st a by (simp add: ev quantum_hooks_def)
  moreover have "fn_up (statics v)" "map_state v = map_state s"
    using lookup_only_fields(1,5) [OF look] q(2) m by simp_all
  ultimately show thesis using that l'(2,3) l'(4) [OF assms(2)] cached by simp
qed

lemma post_map_state:
  assumes "layers_ok ops s" and "is_matrix_key (ev_key (event r))"
  shows "map_state (snd (get_record_keycode ops r False s)) = map_state s"
proof -
  obtain kc t where "get_record_keycode ops r False s = (kc, t)" "without_lookup t = without_lookup s"
    by (rule record_keycode [OF assms, of False], rule that)
  then show ?thesis using lookup_only_fields(1) by simp
qed

lemma layers_ok_fields: "layers_ok ops (s\<lparr>layer_state := x, oneshot_layer_data := y\<rparr>) = layers_ok ops s"
  "layers_ok ops (s\<lparr>layer_state := x\<rparr>) = layers_ok ops s"
  "layers_ok ops (s\<lparr>oneshot_layer_data := y, layer_state := x\<rparr>) = layers_ok ops s"
  "read_source_layers_cache k (s\<lparr>layer_state := x\<rparr>) = read_source_layers_cache k s"
  "read_source_layers_cache k (s\<lparr>oneshot_layer_data := y, layer_state := x\<rparr>) = read_source_layers_cache k s"
  "layers_ok ops (s\<lparr>oneshot_layer_data := y\<rparr>) = layers_ok ops s"
  "read_source_layers_cache k (s\<lparr>oneshot_layer_data := y\<rparr>) = read_source_layers_cache k s"
  by (simp_all add: layers_ok_def memo_ok_def memo_key_def read_source_layers_cache_def)

lemma oneshot_ended:
  assumes "layers_ok ops s" and "is_matrix_key (ev_key e)" and "\<not> IS_NOEVENT e" and "env_passes env" and "fn_up (statics s)"
    and "types ops s (ev_key e) c" and "ordinary (keycode_at ops (layer_of ops (ev_key e) s) (ev_key e) (eeprom_state s))"
    and "ev_pressed e" and "oneshot_is l 2 s" and "oneshot_enable_bit (keymap_config s)"
  shows "map_state (snd (process_record ops (quantum_hooks ops env) (plain e 0) s)) =
    (eeprom_state s, keymap_config s, layer_state s AND NOT (layer_bit l) AND NOT 1, default_layer_state s, 0)"
proof -
  let ?key = "ev_key e" let ?h = "quantum_hooks ops env" let ?r = "plain (e\<lparr>ev_pressed := False\<rparr>) 0"
  have c: "action_at ops (layer_of ops ?key s) ?key s = ACTION_KEY (ucast c)" "IS_BASIC_KEYCODE c" using assms(6) by (simp_all add: types_def)
  obtain v where v: "layers_ok ops v" "fn_up (statics v)" "map_state v = map_state s" "read_source_layers_cache ?key v = layer_of ops ?key s"
    and run: "process_record_n 2 ops ?h (plain e 0) s =
      (let (r, u) = process_action (process_record_n 1 ops ?h) (plain e 0) (ACTION_KEY (ucast c)) v
       in (r, snd (get_record_keycode ops r False u)))"
    by (rule ordinary_record [OF assms(1-5), of c 1]) (use assms(7,8) c in \<open>simp_all add: numeral_2_eq_2\<close>)
  have d: "oneshot_layer_data v = oneshot_layer_data s" "keymap_config v = keymap_config s" "layer_state v = layer_state s"
      "eeprom_state v = eeprom_state s" "default_layer_state v = default_layer_state s"
    using v(3) by (simp_all add: map_state_def)
  then have os: "oneshot_is l 2 v" using assms(9) by (simp add: oneshot_is_def)
  define v1 where "v1 = v\<lparr>oneshot_layer_data := 0, layer_state := layer_state v AND NOT (layer_bit l)\<rparr>"
  have clear: "clear_oneshot_layer_state ONESHOT_OTHER_KEY_PRESSED v = v1"
    using oneshot_is_clear [OF os narrow_states(3)] d assms(10) by (simp add: ONESHOT_OTHER_KEY_PRESSED_def v1_def)
  have act: "is_oneshot_layer_active v" "\<not> is_oneshot_layer_active v1"
    using oneshot_is_get [OF os] by (simp_all add: is_oneshot_layer_active_def v1_def get_oneshot_layer_state_def)
  have nm: "\<not> IS_MODIFIER_KEYCODE c" using basic_not_modifier [OF c(2)] by simp
  define w where "w = register_code c v1"
  have w: "without_output w = without_output v1" by (simp add: w_def basic_without_output [OF c(2)])
  note wf = output_only_fields [OF w]
  have wd: "oneshot_layer_data w = 0" "layer_state w = layer_state s AND NOT (layer_bit l)" "eeprom_state w = eeprom_state s"
      "keymap_config w = keymap_config s" "default_layer_state w = default_layer_state s"
    using wf(1) d by (simp_all add: map_state_def v1_def)
  have g: "get_oneshot_layer u = 0" "get_oneshot_layer_state u = 0" if "oneshot_layer_data u = 0" for u :: "'a kb"
    using that by (simp_all add: get_oneshot_layer_def get_oneshot_layer_state_def)
  define x where "x = layer_on 0 w"
  have x: "x = w\<lparr>layer_state := layer_state w OR 1\<rparr>" by (simp add: x_def layer_on_def layer_state_set_def layer_bit_def)
  have xok: "layers_ok ops x" "fn_up (statics x)" "read_source_layers_cache ?key x = layer_of ops ?key s"
    using v(1,2,4) wf(2-4) by (simp_all add: x layers_ok_fields v1_def)
  have xm: "eeprom_state x = eeprom_state s" "keymap_config x = keymap_config s" using wd by (simp_all add: x)
  have xa: "action_at ops k ?key x = action_at ops k ?key s" for k using xm by (simp add: action_at_def)
  have rel: "\<not> IS_NOEVENT (e\<lparr>ev_pressed := False\<rparr>)" "is_matrix_key (ev_key (e\<lparr>ev_pressed := False\<rparr>))"
    using assms(2,3) by (simp_all add: IS_NOEVENT_def)
  obtain y where y: "layers_ok ops y" "map_state y = map_state x"
    and run2: "process_record_n 1 ops ?h ?r x =
      (let (r, u) = process_action (process_record_n 0 ops ?h) ?r (ACTION_KEY (ucast c)) y
       in (r, snd (get_record_keycode ops r False u)))"
    by (rule ordinary_record [OF xok(1) rel(2,1) assms(4) xok(2), of c 0]) (use assms(7) c xok(3) xm xa in \<open>simp_all\<close>)
  have yi: "\<not> is_oneshot_layer_active y" using y(2) wd(1) by (intro run_inactive) (simp add: map_state_def x)
  define z where "z = unregister_code c y"
  have z: "without_output z = without_output y" by (simp add: z_def basic_without_output [OF c(2)])
  note zf = output_only_fields [OF z]
  have er: "event ?r = e\<lparr>ev_pressed := False\<rparr>" by (simp add: plain_def)
  have out: "process_record_n 1 ops ?h ?r x = (?r, snd (get_record_keycode ops ?r False z))"
    unfolding run2 plain_action [OF yi] by (simp add: er z_def)
  define z' where "z' = snd (get_record_keycode ops ?r False z)"
  have zm: "map_state z' = map_state x" "layers_ok ops z'"
  proof -
    have "layers_ok ops z" using zf(2) y(1) by simp
    then obtain kc t where "get_record_keycode ops ?r False z = (kc, t)" "without_lookup t = without_lookup z" "layers_ok ops t"
      using record_keycode [of ops z ?r False] rel(2) unfolding er by blast
    then show "map_state z' = map_state x" "layers_ok ops z'"
      using lookup_only_fields(1) [of t z] zf(1) y(2) by (simp_all add: z'_def)
  qed
  have ends: "process_action (process_record_n 1 ops ?h) (plain e 0) (ACTION_KEY (ucast c)) v = (?r, layer_off (get_oneshot_layer z') z')"
  proof -
    have en: "ends_oneshot_layer (plain e 0) (ACTION_KEY (ucast c)) v"
      using act(1) assms(8,10) d nm by (simp add: ends_oneshot_layer_def key_action_fields act_defs plain_def)
    have sw: "action_switch (plain e 0) (ACTION_KEY (ucast c)) v1 = (plain e 0, w)"
      using assms(8) by (simp add: action_switch_def key_action_fields act_defs mods_key_def side_mods_def w_def plain_def)
    have rr: "(plain e 0)\<lparr>event := (event (plain e 0))\<lparr>ev_pressed := False\<rparr>\<rparr> = ?r" by (simp add: plain_def)
    have nl: "\<not> is_layer_action (ACTION_KEY (ucast c))" by (simp add: is_layer_action_def key_action_fields act_defs)
    show ?thesis
      using en sw act(2) nl out g [OF wd(1)] rr
      by (simp add: process_action_def Let_def clear x_def z'_def)
  qed
  have zd: "layer_state z' = layer_state x" "oneshot_layer_data z' = 0" "eeprom_state z' = eeprom_state s"
      "keymap_config z' = keymap_config s" "default_layer_state z' = default_layer_state s"
    using zm(1) wd by (simp_all add: map_state_def x)
  have off: "layer_off (get_oneshot_layer z') z' = z'\<lparr>layer_state := layer_state x AND NOT 1\<rparr>"
    using g [OF zd(2)] zd(1) by (simp add: layer_off_def layer_state_set_def layer_bit_def)
  have fin: "map_state (snd (process_record ops ?h (plain e 0) s)) = map_state (z'\<lparr>layer_state := layer_state x AND NOT 1\<rparr>)"
    using post_map_state [of ops "z'\<lparr>layer_state := layer_state x AND NOT 1\<rparr>" ?r] zm(2) rel(2)
    by (simp add: process_record_def run ends off layers_ok_fields er del: One_nat_def)
  have "layer_state x AND NOT 1 = layer_state s AND NOT (layer_bit l) AND NOT 1"
    unfolding x wd by (simp add: wd) (rule bit_word_eqI, auto simp: bit_simps)
  then show ?thesis using fin zd by (simp add: map_state_def)
qed

lemma oneshot_fields:
  assumes "unat (l :: u8) < 16"
  shows "kind_id (ACTION_LAYER_ONESHOT (ucast l)) = ACT_LAYER_TAP" "layer_tap_code (ACTION_LAYER_ONESHOT (ucast l)) = OP_ONESHOT"
    "ucast (layer_tap_val (ACTION_LAYER_ONESHOT (ucast l))) = l"
proof -
  have all: "list_all (\<lambda>n. let a = ACTION_LAYER_ONESHOT (ucast (word_of_nat n :: u8)) in kind_id a = ACT_LAYER_TAP \<and>
      layer_tap_code a = OP_ONESHOT \<and> ucast (layer_tap_val a) = (word_of_nat n :: u8)) [0..<16]"
    by code_simp
  have "unat l \<in> set [0..<16]" using assms by simp
  with all have "let a = ACTION_LAYER_ONESHOT (ucast (word_of_nat (unat l) :: u8)) in kind_id a = ACT_LAYER_TAP \<and>
      layer_tap_code a = OP_ONESHOT \<and> ucast (layer_tap_val a) = (word_of_nat (unat l) :: u8)"
    by (simp only: list_all_iff)
  then show "kind_id (ACTION_LAYER_ONESHOT (ucast l)) = ACT_LAYER_TAP" "layer_tap_code (ACTION_LAYER_ONESHOT (ucast l)) = OP_ONESHOT"
    "ucast (layer_tap_val (ACTION_LAYER_ONESHOT (ucast l))) = l"
    by (simp_all add: Let_def)
qed

lemma oneshot_key_action:
  assumes "unat l < 16" and "\<not> is_oneshot_layer_active s \<or> \<not> ev_pressed (event rec)"
  shows "snd (process_action again rec (ACTION_LAYER_ONESHOT (ucast l)) s) =
    (let u = oneshot_layer_key (ev_pressed (event rec)) (tap_count rec) l s in emit (Led_Set (host_keyboard_leds u)) u)"
proof -
  have "\<not> ends_oneshot_layer rec (ACTION_LAYER_ONESHOT (ucast l)) s" using assms(2) by (auto simp: ends_oneshot_layer_def)
  then show ?thesis
    by (simp add: process_action_def action_switch_def is_layer_action_def oneshot_fields [OF assms(1)] act_defs Let_def
      action_layer_tap_def) (simp add: op_defs)
qed

lemma modifier_keeps_oneshot:
  assumes "IS_MODIFIER_KEYCODE m"
  shows "layer_state (snd (process_action again rec (ACTION_KEY (ucast m)) s)) = layer_state s \<and>
    oneshot_layer_data (snd (process_action again rec (ACTION_KEY (ucast m)) s)) = oneshot_layer_data s"
proof -
  have send: "layer_state (send_keyboard_report u) = layer_state u" "oneshot_layer_data (send_keyboard_report u) = oneshot_layer_data u" for u :: "'a kb"
    using output_only_fields(1) [OF send_without_output [of u]] by (simp_all add: map_state_def)
  have "\<not> ends_oneshot_layer rec (ACTION_KEY (ucast m)) s"
    using assms by (simp add: ends_oneshot_layer_def key_action_fields act_defs)
  then show ?thesis using assms modifier_not_basic [OF assms]
    by (simp add: process_action_def action_switch_def is_layer_action_def key_action_fields act_defs mods_key_def side_mods_def
      register_code_def unregister_code_def send add_mods_def del_mods_def)
qed

text \<open>The state after the press and after the release of a one-shot layer key.\<close>

lemma oneshot_pressed:
  assumes "oneshot_enable_bit (keymap_config s)" and "\<not> is_oneshot_layer_active s" and "unat l < 16" and "ev_pressed (event down)"
  obtains x where "snd (process_action again down (ACTION_LAYER_ONESHOT (ucast l)) s) =
    s\<lparr>oneshot_layer_data := push_bit 3 l OR 3, layer_state := layer_state s OR layer_bit l, sent := x\<rparr>"
proof -
  have "oneshot_layer_key True n l s = s\<lparr>oneshot_layer_data := push_bit 3 l OR 3, layer_state := layer_state s OR layer_bit l\<rparr>" for n
    using assms(1) by (simp add: oneshot_layer_key_def set_oneshot_layer_def layer_on_def layer_state_set_def ONESHOT_START_def)
  then show thesis using that oneshot_key_action [OF assms(3), of s down again] assms(2,4) by (simp add: emit_def Let_def)
qed

lemma oneshot_released:
  assumes "oneshot_enable_bit (keymap_config s)" and "oneshot_is l 3 s" and "\<not> ev_pressed (event up)" and "tap_count up \<le> 1"
  obtains x where "snd (process_action again up (ACTION_LAYER_ONESHOT (ucast l)) s) =
    s\<lparr>oneshot_layer_data := push_bit 3 l OR 2, sent := x\<rparr>"
proof -
  have l: "unat l < 16" using assms(2) by (simp add: oneshot_is_def)
  have kbit: "(3 :: u8) AND NOT 1 = 2" by simp
  have "clear_oneshot_layer_state 1 s = s\<lparr>oneshot_layer_data := push_bit 3 l OR 2\<rparr>"
    using oneshot_is_clear [OF assms(2) narrow_states(2)] by (simp add: kbit)
  then have "oneshot_layer_key False (tap_count up) l s = s\<lparr>oneshot_layer_data := push_bit 3 l OR 2\<rparr>"
    using assms(1,4) by (simp add: oneshot_layer_key_def ONESHOT_PRESSED_def Let_def not_less)
  then show thesis using that oneshot_key_action [OF l, of s up again] assms(3) by (simp add: emit_def Let_def)
qed

lemma oneshot_waiting:
  fixes s :: "'e kb" and again :: "keyrecord \<Rightarrow> 'e kb \<Rightarrow> keyrecord \<times> 'e kb"
  assumes "oneshot_enable_bit (keymap_config s)" and "\<not> is_oneshot_layer_active s" and "unat l < 16"
    and "ev_pressed (event down)" and "\<not> ev_pressed (event up)" and "tap_count up \<le> 1"
  defines "s1 \<equiv> snd (process_action again down (ACTION_LAYER_ONESHOT (ucast l)) s)"
  obtains x y where "s1 = s\<lparr>oneshot_layer_data := push_bit 3 l OR 3, layer_state := layer_state s OR layer_bit l, sent := x\<rparr>"
    "snd (process_action again up (ACTION_LAYER_ONESHOT (ucast l)) s1) =
     s\<lparr>layer_state := layer_state s OR layer_bit l, oneshot_layer_data := push_bit 3 l OR 2, sent := y\<rparr>"
proof -
  obtain x where s1: "s1 = s\<lparr>oneshot_layer_data := push_bit 3 l OR 3, layer_state := layer_state s OR layer_bit l, sent := x\<rparr>"
    using oneshot_pressed [OF assms(1-4), of again] unfolding s1_def by blast
  have "oneshot_is l 3 s1" "oneshot_enable_bit (keymap_config s1)"
    using assms(1,3) by (simp_all add: s1 oneshot_is_def narrow_states)
  from oneshot_released [OF this(2,1) assms(5,6), of again] obtain y where
    "snd (process_action again up (ACTION_LAYER_ONESHOT (ucast l)) s1) = s1\<lparr>oneshot_layer_data := push_bit 3 l OR 2, sent := y\<rparr>" by blast
  with that s1 show thesis by simp
qed

text \<open>
  C37.  A one-shot layer lasts until the next key goes down.  The press of a one-shot layer key switches its layer on, its
  release leaves it on, and so do modifiers.  The press of the next ordinary key, looked up on that layer and processed
  through the handlers, switches the layer off and ends the one-shot state at once, not at the key's release (it also
  leaves layer 0 off, because the made-up release is processed between switching layer 0 on and off).
\<close>

theorem oneshot_layer_life:
  fixes s :: "'e kb" and l :: u8 and ops :: "'e eeprom_ops"
    and again :: "keyrecord \<Rightarrow> 'e kb \<Rightarrow> keyrecord \<times> 'e kb" and rec :: keyrecord and env :: "'e quantum_env"
  assumes "oneshot_enable_bit (keymap_config s)" and "\<not> is_oneshot_layer_active s" and "unat l < 16"
    and "layers_ok ops s" and "fn_up (statics s)" and "env_passes env"
    and "ev_pressed (event down)" and "\<not> ev_pressed (event up)" and "tap_count up \<le> 1"
  defines "s1 \<equiv> snd (process_action again down (ACTION_LAYER_ONESHOT (ucast l)) s)"
  defines "s2 \<equiv> snd (process_action again up (ACTION_LAYER_ONESHOT (ucast l)) s1)"
  assumes "IS_MODIFIER_KEYCODE m"
    and "ev_pressed e" and "\<not> IS_NOEVENT e" and "is_matrix_key (ev_key e)" and "types ops s2 (ev_key e) c"
    and "ordinary (keycode_at ops (layer_of ops (ev_key e) s2) (ev_key e) (eeprom_state s2))"
  defines "sm \<equiv> snd (process_action again rec (ACTION_KEY (ucast m)) s2)"
    and "s3 \<equiv> snd (process_record ops (quantum_hooks ops env) (plain e 0) s2)"
  shows "layer_state s1 = layer_state s OR layer_bit l \<and> is_oneshot_layer_active s1 \<and>
    layer_state s2 = layer_state s1 \<and> is_oneshot_layer_active s2 \<and>
    layer_state sm = layer_state s2 \<and> is_oneshot_layer_active sm \<and>
    layer_state s3 = layer_state s AND NOT (layer_bit l) AND NOT 1 \<and> \<not> is_oneshot_layer_active s3"
proof -
  obtain x y where s1: "s1 = s\<lparr>oneshot_layer_data := push_bit 3 l OR 3, layer_state := layer_state s OR layer_bit l, sent := x\<rparr>"
    and s2: "s2 = s\<lparr>layer_state := layer_state s OR layer_bit l, oneshot_layer_data := push_bit 3 l OR 2, sent := y\<rparr>"
    using oneshot_waiting [OF assms(1-3,7-9), of again, folded s1_def, folded s2_def] by blast
  have o1: "oneshot_is l 3 s1" using assms(3) by (simp add: oneshot_is_def s1 narrow_states)
  have o2: "oneshot_is l 2 s2" using assms(3) by (simp add: oneshot_is_def s2 narrow_states)
  have ok: "layers_ok ops s2" "fn_up (statics s2)" "oneshot_enable_bit (keymap_config s2)" "layer_state s2 = layer_state s OR layer_bit l"
    using assms(1,4,5) by (simp_all add: s2 layers_ok_def memo_ok_def memo_key_def)
  have m: "layer_state sm = layer_state s2" "oneshot_layer_data sm = oneshot_layer_data s2"
    unfolding sm_def using modifier_keeps_oneshot [OF assms(12), of again rec s2] by auto
  have active: "is_oneshot_layer_active s1" "is_oneshot_layer_active s2" "is_oneshot_layer_active sm"
    using oneshot_is_get [OF o1] oneshot_is_get [OF o2] m(2)
    by (simp_all add: is_oneshot_layer_active_def get_oneshot_layer_state_def)
  have "map_state s3 = (eeprom_state s2, keymap_config s2, layer_state s2 AND NOT (layer_bit l) AND NOT 1, default_layer_state s2, 0)"
    unfolding s3_def by (rule oneshot_ended [OF ok(1) assms(15,14,6) ok(2) assms(16,17,13) o2 ok(3)])
  then have s3: "layer_state s3 = (layer_state s OR layer_bit l) AND NOT (layer_bit l) AND NOT 1" "oneshot_layer_data s3 = 0"
    using ok(4) by (simp_all add: map_state_def)
  have "(layer_state s OR layer_bit l) AND NOT (layer_bit l) AND NOT 1 = layer_state s AND NOT (layer_bit l) AND NOT 1"
    by (rule bit_word_eqI) (auto simp: bit_simps)
  moreover have "layer_state s1 = layer_state s OR layer_bit l" by (simp add: s1)
  ultimately show ?thesis using active s3 m(1) ok(4)
    by (simp add: is_oneshot_layer_active_def get_oneshot_layer_state_def)
qed

text \<open>A board whose layer 1 has A at one key, with one-shot keys enabled.\<close>

definition os_kb :: "u8 list option kb" where
  "os_kb = (kb_static (dynamic_keymap_set_keycode run_ops 1 2 3 4 (Some (replicate 2048 0))))\<lparr>keymap_config := 0x400\<rparr>"

lemma os_action: "action_for_keycode 0x400 4 = 4"
proof -
  have no_swap: "keycode_config 0x400 4 = 4" by (simp add: keycode_config_other kc_defs)
  show ?thesis unfolding action_for_keycode_def no_swap
    by (simp add: action_of_def within_def kc_defs no_swap) (simp add: action_defs act_defs)
qed

theorem oneshot_layer_life_witness:
  "let down = plain (ab_event 0 True 10) 1; up = plain (ab_event 0 False 50) 1;
       s2 = snd (process_action Pair up (ACTION_LAYER_ONESHOT 1) (snd (process_action Pair down (ACTION_LAYER_ONESHOT 1) os_kb)))
   in layer_state s2 = 2 \<and>
      layer_state (snd (process_record run_ops (quantum_hooks run_ops (open_env 60)) (plain (ab_event 3 True 90) 0) s2)) = 0"
proof -
  let ?e = "ab_event 3 True 90" let ?key = "\<lparr>key_row = 2, key_col = 3\<rparr> :: keypos"
  let ?down = "plain (ab_event 0 True 10) 1" let ?up = "plain (ab_event 0 False 50) 1"
  let ?s2 = "snd (process_action Pair ?up (ACTION_LAYER_ONESHOT (ucast (1 :: u8))) (snd (process_action Pair ?down (ACTION_LAYER_ONESHOT (ucast (1 :: u8))) os_kb)))"
  have start: "oneshot_enable_bit (keymap_config os_kb)" "\<not> is_oneshot_layer_active os_kb" "unat (1 :: u8) < 16" "fn_up (statics os_kb)"
      "layer_state os_kb = 0"
    by (simp_all add: os_kb_def kb_static_def oneshot_enable_bit_def bit_numeral_rec is_oneshot_layer_active_def get_oneshot_layer_state_def
      fn_up_def quantum_static_def)
  have ok: "layers_ok run_ops os_kb"
    using layers_ok_static [of run_ops "dynamic_keymap_set_keycode run_ops 1 2 3 4 (Some (replicate 2048 0))"]
    by (simp add: os_kb_def layers_ok_def memo_ok_def memo_key_def)
  have strokes: "ev_pressed (event ?down)" "\<not> ev_pressed (event ?up)" "tap_count ?up \<le> 1" by (simp_all add: plain_def ab_event_def)
  obtain x y where s2: "?s2 = os_kb\<lparr>layer_state := layer_state os_kb OR layer_bit 1, oneshot_layer_data := push_bit 3 1 OR 2, sent := y\<rparr>"
    using oneshot_waiting [OF start(1-3) strokes, of Pair] by blast
  define S where "S = ?s2"
  have S: "eeprom_state S = dynamic_keymap_set_keycode run_ops 1 2 3 4 (Some (replicate 2048 0))" "keymap_config S = 0x400"
      "layer_state S = 2" "default_layer_state S = 0"
    unfolding S_def s2 by (simp_all add: os_kb_def kb_static_def layer_bit_def)
  have code: "keycode_at run_ops 1 ?key (eeprom_state S) = 4"
    unfolding S by (simp add: keycode_at_def keycode_at_keymap_location_def is_matrix_key_def MATRIX_ROWS_def
      MATRIX_COLS_def DYNAMIC_KEYMAP_LAYER_COUNT_def run_ops_def p1_ram.get_set_keycode p1_ram.set_good keymap_sizes)
  have act: "action_at run_ops 1 ?key S = 4"
    by (simp only: action_at_def code S(2) os_action)
  have only: "bit (layer_state S OR default_layer_state S) i \<longleftrightarrow> i = 1" for i
    using bit_exp_iff [of 1 i, where 'a = "8 word"] unfolding S by auto
  have "layer_of run_ops ?key S = 1"
  proof -
    have "{i. i < MAX_LAYER \<and> opaque run_ops (layer_state S OR default_layer_state S) ?key S i} = {1}"
      using act by (auto simp: opaque_def only MAX_LAYER_def DYNAMIC_KEYMAP_LAYER_COUNT_def action_defs act_defs)
    then show ?thesis by (simp add: layer_of_def topmost_def)
  qed
  then have key: "types run_ops S ?key 4" "ordinary (keycode_at run_ops (layer_of run_ops ?key S) ?key (eeprom_state S))"
    using act code by (simp_all add: types_def is_matrix_key_def MATRIX_ROWS_def MATRIX_COLS_def IS_BASIC_KEYCODE_def within_def
      action_defs act_defs ordinary_def)
  have press: "IS_MODIFIER_KEYCODE 0xE1" "ev_pressed ?e" "\<not> IS_NOEVENT ?e" "ev_key ?e = ?key" "is_matrix_key ?key"
    using key(1) by (simp_all add: IS_MODIFIER_KEYCODE_def within_def ab_event_def IS_NOEVENT_def KEYLOC_TICK_def types_def)
  have "layer_state S = layer_state (snd (process_action Pair ?down (ACTION_LAYER_ONESHOT (ucast (1 :: u8))) os_kb)) \<and>
      layer_state (snd (process_record run_ops (quantum_hooks run_ops (open_env 60)) (plain ?e 0) S)) = layer_state os_kb AND NOT (layer_bit 1) AND NOT 1"
    using oneshot_layer_life [OF start(1-3) ok start(4) open_env_passes [of 60] strokes press(1-3) press(5) [folded press(4)]
      key [folded press(4), unfolded S_def], of no_record] unfolding S_def by blast
  then show ?thesis using S(3) start(5) by (simp add: S_def Let_def)
qed

end
