(* ===== verification/Factory_Laws.thy ===== *)
theory Factory_Laws
  imports Factory_Test
begin

text \<open>
  A factory reset is deliberate: it happens only after Fn, J and Z have been held together for more than three seconds.
\<close>

section \<open>Runs\<close>

text \<open>
  What happens to the factory test: key events with the time they are handled at, commands with the transport and the pin
  they are answered with, and calls of its task.
\<close>

datatype factory_input = Key_Event u16 bool u32 | Factory_Rx u8 u8 "u8 list" | Factory_Task u32

fun factory_step :: "'e eeprom_ops \<Rightarrow> factory_env \<Rightarrow> factory_input \<Rightarrow> 'e kb \<Rightarrow> 'e kb" where
  "factory_step ops env (Key_Event kc press now) s = s\<lparr>statics := snd (process_record_factory_test kc press now (statics s))\<rparr>"
| "factory_step ops env (Factory_Rx transport pin data) s = s\<lparr>statics := fst (factory_test_rx transport pin data (statics s))\<rparr>"
| "factory_step ops env (Factory_Task now) s = fst (factory_test_task ops env now s)"

text \<open>A group of keys is held after a run when one of them went down and none of them came up since.\<close>

definition no_release :: "u16 set \<Rightarrow> factory_input list \<Rightarrow> bool" where
  "no_release G es \<longleftrightarrow> (\<forall>kc now. Key_Event kc False now \<in> set es \<longrightarrow> kc \<notin> G)"

definition held_after :: "u16 set \<Rightarrow> factory_input list \<Rightarrow> bool" where
  "held_after G es \<longleftrightarrow> (\<exists>pre kc now post. es = pre @ Key_Event kc True now # post \<and> kc \<in> G \<and> no_release G post)"

definition fn_keys :: "u16 set" where "fn_keys = {FN_KEY_1, FN_KEY_2}"
definition reset_keys :: "u16 set" where "reset_keys = fn_keys \<union> {KC_J, KC_Z}"

lemma no_release_snoc: "no_release G (es @ [x]) \<longleftrightarrow> no_release G es \<and> no_release G [x]"
  by (auto simp: no_release_def)

lemma held_snoc: "held_after G es \<Longrightarrow> no_release G [x] \<Longrightarrow> held_after G (es @ [x])"
  unfolding held_after_def using no_release_snoc [of G] by (metis append.assoc append_Cons)

lemma held_press: "kc \<in> G \<Longrightarrow> held_after G (es @ [Key_Event kc True now])"
  unfolding held_after_def no_release_def by fastforce

section \<open>One step\<close>

text \<open>The bits of Fn, J, Z and of the first backlight key.\<close>

definition group :: "nat \<Rightarrow> u16 set" where
  "group i = (if i = 0 then fn_keys else if i = 1 then {KC_J} else {KC_Z})"

lemma key_powers:
  "KEY_PRESS_FN = push_bit 0 1" "KEY_PRESS_J = push_bit 1 1" "KEY_PRESS_Z = push_bit 2 1" "KEY_PRESS_BL_KEY1 = push_bit 3 1"
  "KEY_PRESS_BL_KEY2 = push_bit 4 1"
  by (simp_all add: key_press_defs)

lemma bit_power_u8: "n < 8 \<Longrightarrow> bit (push_bit n (1 :: u8)) i = (i = n)"
  by (auto simp: bit_simps)

lemma key_bits:
  "bit KEY_PRESS_FN i = (i = 0)" "bit KEY_PRESS_J i = (i = 1)" "bit KEY_PRESS_Z i = (i = 2)" "bit KEY_PRESS_BL_KEY1 i = (i = 3)"
  "bit KEY_PRESS_BL_KEY2 i = (i = 4)"
  unfolding key_powers by (rule bit_power_u8, simp)+

lemma keys_differ:
  "FN_KEY_1 \<noteq> KC_J" "FN_KEY_1 \<noteq> KC_Z" "FN_KEY_2 \<noteq> KC_J" "FN_KEY_2 \<noteq> KC_Z" "KC_J \<noteq> KC_Z" "BL_CYCLE_KEY \<notin> reset_keys"
  "BL_TRIG_KEY \<notin> reset_keys" "FN_BL_TRIG_KEY \<notin> reset_keys" "\<not> within 0x7800 0x7834 KC_Z"
  by (simp_all add: factory_keys reset_keys_def fn_keys_def within_def)

lemma down_fields:
  "factory_reset_state (factory_key_down k c now q) = factory_reset_state q OR k"
  "factory_reset_timer (factory_key_down k c now q) = (if factory_reset_state q OR k = c then now else factory_reset_timer q)"
  by (simp_all add: factory_key_down_def factory_timer_start_def Let_def)

lemma up_fields:
  "factory_reset_state (factory_key_up k q) = factory_reset_state q AND NOT k" "factory_reset_timer (factory_key_up k q) = 0"
  by (simp_all add: factory_key_up_def)

text \<open>The effect of a key event on the bits and the timer, by the kind of key.\<close>

lemma key_effect:
  defines "q' kc press now q \<equiv> snd (process_record_factory_test kc press now q)"
  shows "kc \<in> fn_keys \<Longrightarrow> factory_reset_state (q' kc press now q) =
      (if press then factory_reset_state q OR KEY_PRESS_FN else factory_reset_state q AND NOT KEY_PRESS_FN) \<and>
      factory_reset_timer (q' kc press now q) = (if press then factory_reset_timer q else 0)"
    and "q' KC_J press now q = (if press then factory_key_down KEY_PRESS_J 0x07 now q else factory_key_up KEY_PRESS_J q)"
    and "q' KC_Z press now q = (if press then factory_key_down KEY_PRESS_Z 0x07 now q else factory_key_up KEY_PRESS_Z q)"
    and "kc \<notin> reset_keys \<Longrightarrow> \<exists>k. \<not> bit k 0 \<and> \<not> bit k 1 \<and> \<not> bit k 2 \<and>
      (q' kc press now q = factory_key_down k 0x19 now q \<or> q' kc press now q = factory_key_up k q \<or>
       factory_reset_state (q' kc press now q) = factory_reset_state q \<and> factory_reset_timer (q' kc press now q) = factory_reset_timer q)"
proof -
  show "factory_reset_state (q' kc press now q) =
      (if press then factory_reset_state q OR KEY_PRESS_FN else factory_reset_state q AND NOT KEY_PRESS_FN) \<and>
      factory_reset_timer (q' kc press now q) = (if press then factory_reset_timer q else 0)" if "kc \<in> fn_keys"
    using that by (auto simp: q'_def fn_keys_def process_record_factory_test_def up_fields)
  show "q' KC_J press now q = (if press then factory_key_down KEY_PRESS_J 0x07 now q else factory_key_up KEY_PRESS_J q)"
    using keys_differ by (simp add: q'_def process_record_factory_test_def Let_def)
  show "q' KC_Z press now q = (if press then factory_key_down KEY_PRESS_Z 0x07 now q else factory_key_up KEY_PRESS_Z q)"
    using keys_differ by (simp add: q'_def process_record_factory_test_def Let_def)
  show "\<exists>k. \<not> bit k 0 \<and> \<not> bit k 1 \<and> \<not> bit k 2 \<and>
      (q' kc press now q = factory_key_down k 0x19 now q \<or> q' kc press now q = factory_key_up k q \<or>
       factory_reset_state (q' kc press now q) = factory_reset_state q \<and> factory_reset_timer (q' kc press now q) = factory_reset_timer q)"
    if "kc \<notin> reset_keys"
  proof -
    have n: "kc \<noteq> FN_KEY_1" "kc \<noteq> FN_KEY_2" "kc \<noteq> KC_J" "kc \<noteq> KC_Z" using that by (auto simp: reset_keys_def fn_keys_def)
    consider "kc = BL_CYCLE_KEY" | "kc \<noteq> BL_CYCLE_KEY" "kc = BL_TRIG_KEY \<or> kc = FN_BL_TRIG_KEY"
      | "kc \<noteq> BL_CYCLE_KEY" "kc \<noteq> BL_TRIG_KEY" "kc \<noteq> FN_BL_TRIG_KEY" by blast
    then show ?thesis
    proof cases
      case 1
      show ?thesis
        by (rule exI [of _ KEY_PRESS_BL_KEY1])
          (use n in \<open>auto simp: 1 [symmetric] q'_def process_record_factory_test_def Let_def key_bits\<close>)
    next
      case 2
      then show ?thesis
        by (intro exI [of _ KEY_PRESS_BL_KEY2]) (use n in \<open>auto simp: q'_def process_record_factory_test_def Let_def key_bits\<close>)
    next
      case 3
      then show ?thesis
        by (intro exI [of _ KEY_PRESS_BL_KEY2]) (use n in \<open>auto simp: q'_def process_record_factory_test_def Let_def key_bits\<close>)
    qed
  qed
qed

lemma key_step_bits:
  assumes "bit (factory_reset_state (snd (process_record_factory_test kc press now q))) i" and "i < 3"
  shows "press \<and> kc \<in> group i \<or> bit (factory_reset_state q) i \<and> no_release (group i) [Key_Event kc press now]"
proof -
  have i: "i = 0 \<or> i = 1 \<or> i = 2" using assms(2) by auto
  consider "kc \<in> fn_keys" | "kc = KC_J" | "kc = KC_Z" | "kc \<notin> reset_keys" by (auto simp: reset_keys_def)
  then show ?thesis
  proof cases
    case 4
    then have "kc \<notin> group i" by (auto simp: group_def reset_keys_def)
    with key_effect(4) [OF 4, of press now q] assms(1) i show ?thesis
      by (auto simp: no_release_def down_fields up_fields bit_or_iff bit_and_iff bit_not_iff)
  qed (use assms(1) i keys_differ key_effect(1) [of kc press now q] key_effect(2,3) [of press now q] in
      \<open>auto simp: no_release_def down_fields up_fields bit_or_iff bit_and_iff bit_not_iff key_bits group_def fn_keys_def
        split: if_splits\<close>)
qed

lemma key_step_timer:
  fixes q now
  assumes "factory_reset_timer q' \<noteq> 0" and "q' = snd (process_record_factory_test kc press now q)"
  shows "factory_reset_timer q' = now \<and> press \<and> kc \<in> {KC_J, KC_Z} \<and> factory_reset_state q' = KEY_PRESS_FACTORY_RESET \<or>
    bit (factory_reset_state q') 3 \<or>
    factory_reset_timer q' = factory_reset_timer q \<and> no_release reset_keys [Key_Event kc press now] \<and> \<not> bit (factory_reset_state q) 3"
proof -
  have seven: "KEY_PRESS_FACTORY_RESET = 0x07" by (simp add: key_press_defs)
  have bl: "bit a 3 \<or> bit k 3" if "a OR k = 0x19" for a k :: u8
    using arg_cong [OF that, of "\<lambda>w. bit w 3"] by (simp add: bit_or_iff)
  consider "kc \<in> fn_keys" | "kc = KC_J" | "kc = KC_Z" | "kc \<notin> reset_keys" by (auto simp: reset_keys_def)
  then show ?thesis
  proof cases
    case 4
    with key_effect(4) [OF 4, of press now q] assms show ?thesis
      by (auto simp: no_release_def down_fields up_fields bit_or_iff split: if_splits dest: bl)
  qed (use assms key_effect(1) [of kc press now q] key_effect(2,3) [of press now q] in
      \<open>auto simp: no_release_def down_fields up_fields bit_or_iff seven split: if_splits\<close>)
qed

text \<open>Commands and the task keep the bits and the timer, or clear them.\<close>

lemma rx_step:
  "factory_reset_state (fst (factory_test_rx transport pin data q)) = factory_reset_state q"
  "factory_reset_timer (fst (factory_test_rx transport pin data q)) \<in> {0, factory_reset_timer q}"
  by (simp_all add: factory_test_rx_def)

lemma ind_timer_fields [simp]:
  "factory_reset_state (factory_reset_ind_timer_check now q) = factory_reset_state q"
  "factory_reset_timer (factory_reset_ind_timer_check now q) = factory_reset_timer q"
  by (simp_all add: factory_reset_ind_timer_check_def)

lemma task_step:
  fixes s :: "'e kb" and ops :: "'e eeprom_ops" and env :: factory_env and now :: u32
  defines "q \<equiv> statics s" and "q' \<equiv> statics (fst (factory_test_task ops env now s))"
  shows "factory_reset_state q' = factory_reset_state q \<and> factory_reset_timer q' = factory_reset_timer q \<or>
    factory_reset_state q' = 0 \<and> factory_reset_timer q' = 0"
  by (simp add: q_def q'_def factory_test_task_def factory_timer_check_def Let_def)

lemma task_resets:
  assumes "Lkbt51_Factory_Reset \<in> set (snd (factory_test_task ops env now s)) \<or>
    eeprom_state (fst (factory_test_task ops env now s)) \<noteq> eeprom_state s"
  shows "factory_reset_timer (statics s) \<noteq> 0 \<and> 3000 < timer_diff32 now (factory_reset_timer (statics s)) \<and>
    factory_reset_state (statics s) = KEY_PRESS_FACTORY_RESET"
  using assms by (auto simp: factory_test_task_def factory_timer_check_def Let_def split: if_splits)

section \<open>The invariant\<close>

text \<open>After a run: all three groups are held since the press at time T of the last of J and Z, and no reset key came up.\<close>

definition armed_since :: "factory_input list \<Rightarrow> u32 \<Rightarrow> bool" where
  "armed_since es T \<longleftrightarrow> (\<exists>pre kc post. es = pre @ Key_Event kc True T # post \<and> kc \<in> {KC_J, KC_Z} \<and> no_release reset_keys post \<and>
     (\<forall>i < 3. held_after (group i) (pre @ [Key_Event kc True T])))"

definition factory_inv :: "factory_input list \<Rightarrow> quantum_statics \<Rightarrow> bool" where
  "factory_inv es q \<longleftrightarrow> (\<forall>i < 3. bit (factory_reset_state q) i \<longrightarrow> held_after (group i) es) \<and>
     (factory_reset_timer q \<noteq> 0 \<longrightarrow> armed_since es (factory_reset_timer q) \<or> bit (factory_reset_state q) 3)"

lemma armed_snoc: "armed_since es T \<Longrightarrow> no_release reset_keys [x] \<Longrightarrow> armed_since (es @ [x]) T"
  unfolding armed_since_def using no_release_snoc [of reset_keys] by (metis append.assoc append_Cons)

lemma reset_bits: "i < 3 \<Longrightarrow> bit KEY_PRESS_FACTORY_RESET i"
  by (auto simp: KEY_PRESS_FACTORY_RESET_def bit_or_iff key_bits)

lemma reset_no_bl: "\<not> bit KEY_PRESS_FACTORY_RESET 3"
  by (simp add: KEY_PRESS_FACTORY_RESET_def bit_or_iff key_bits)

lemma inv_key:
  fixes q kc press now
  assumes "factory_inv es q"
  defines "q' \<equiv> snd (process_record_factory_test kc press now q)" and "x \<equiv> Key_Event kc press now"
  shows "factory_inv (es @ [x]) q'"
proof -
  have held: "held_after (group i) (es @ [x])" if "i < 3" "bit (factory_reset_state q') i" for i
    using key_step_bits [OF that(2) [unfolded q'_def] that(1)] assms(1) that(1)
    by (auto simp: factory_inv_def x_def intro: held_press held_snoc)
  moreover have "armed_since (es @ [x]) (factory_reset_timer q') \<or> bit (factory_reset_state q') 3" if t: "factory_reset_timer q' \<noteq> 0"
  proof -
    from key_step_timer [OF t q'_def [THEN meta_eq_to_obj_eq]] consider
        "factory_reset_timer q' = now" "press" "kc \<in> {KC_J, KC_Z}" "factory_reset_state q' = KEY_PRESS_FACTORY_RESET"
      | "bit (factory_reset_state q') 3"
      | "factory_reset_timer q' = factory_reset_timer q" "no_release reset_keys [x]" "\<not> bit (factory_reset_state q) 3"
      unfolding x_def by blast
    then show ?thesis
    proof cases
      case 1
      have "\<forall>i < 3. held_after (group i) (es @ [Key_Event kc True now])"
        using held 1(2,4) reset_bits by (simp add: x_def)
      moreover have "no_release reset_keys []" by (simp add: no_release_def)
      ultimately show ?thesis using 1 unfolding armed_since_def x_def by blast
    next
      case 3
      with assms(1) t show ?thesis by (simp add: factory_inv_def armed_snoc)
    qed simp
  qed
  ultimately show ?thesis by (simp add: factory_inv_def)
qed

text \<open>An input that is not a key keeps the invariant when it keeps the bits and keeps or clears the timer, or clears both.\<close>

lemma inv_other:
  assumes "factory_inv es q" and "\<forall>G. no_release G [x]"
    and "factory_reset_state q' = factory_reset_state q \<and> factory_reset_timer q' \<in> {0, factory_reset_timer q} \<or>
      factory_reset_state q' = 0 \<and> factory_reset_timer q' = 0"
  shows "factory_inv (es @ [x]) q'"
  using assms by (auto simp: factory_inv_def intro: held_snoc armed_snoc)

lemma factory_inv_run:
  "statics s = quantum_static \<Longrightarrow> factory_inv es (statics (fold (factory_step ops env) es s))"
proof (induction es rule: rev_induct)
  case Nil
  then show ?case by (simp add: factory_inv_def quantum_static_def)
next
  case (snoc x es)
  let ?s = "fold (factory_step ops env) es s"
  have inv: "factory_inv es (statics ?s)" using snoc by simp
  show ?case
  proof (cases x)
    case (Key_Event kc press now)
    then show ?thesis using inv_key [OF inv, of kc press now] by simp
  next
    case (Factory_Rx transport pin data)
    have "\<forall>G. no_release G [x]" by (simp add: no_release_def Factory_Rx)
    from inv_other [OF inv this] rx_step [of transport pin data "statics ?s"] show ?thesis by (simp add: Factory_Rx)
  next
    case (Factory_Task now)
    have "\<forall>G. no_release G [x]" by (simp add: no_release_def Factory_Task)
    from inv_other [OF inv this, of "statics (fst (factory_test_task ops env now ?s))"] task_step [where s = ?s and ops = ops and env = env and now = now]
    show ?thesis by (auto simp: Factory_Task)
  qed
qed

text \<open>
  C17.  A factory reset is deliberate.  From power on, whatever keys are pressed and released and whatever commands arrive: when
  the task of the factory test resets the radio module or changes the EEPROM, then J or Z went down more than three seconds
  before, at that moment a Fn key, J and Z were all held, and none of them has come up since.
\<close>

theorem factory_reset_deliberate:
  assumes "statics s = quantum_static" and "t = fold (factory_step ops env) es s"
    and "Lkbt51_Factory_Reset \<in> set (snd (factory_test_task ops env now t)) \<or>
      eeprom_state (fst (factory_test_task ops env now t)) \<noteq> eeprom_state t"
  shows "\<exists>pre kc T post. es = pre @ Key_Event kc True T # post \<and> kc \<in> {KC_J, KC_Z} \<and> 3000 < timer_diff32 now T \<and>
    no_release ({FN_KEY_1, FN_KEY_2} \<union> {KC_J, KC_Z}) post \<and>
    held_after {FN_KEY_1, FN_KEY_2} (pre @ [Key_Event kc True T]) \<and> held_after {KC_J} (pre @ [Key_Event kc True T]) \<and>
    held_after {KC_Z} (pre @ [Key_Event kc True T])"
proof -
  let ?T = "factory_reset_timer (statics t)"
  note fired = task_resets [OF assms(3)]
  have "armed_since es ?T"
    using factory_inv_run [OF assms(1), of es ops env] fired reset_no_bl by (simp add: factory_inv_def assms(2))
  then obtain pre kc post where r: "es = pre @ Key_Event kc True ?T # post" "kc \<in> {KC_J, KC_Z}" "no_release reset_keys post"
      "\<forall>i < 3. held_after (group i) (pre @ [Key_Event kc True ?T])"
    by (auto simp: armed_since_def)
  from r(4) [rule_format, of 0] r(4) [rule_format, of 1] r(4) [rule_format, of 2] r(1-3) fired show ?thesis
    by (intro exI [of _ pre] exI [of _ kc] exI [of _ ?T] exI [of _ post]) (simp add: group_def fn_keys_def reset_keys_def)
qed

text \<open>Fn, J and Z go down within 20 ms; the task runs once after a second, and once again 3.001 s after the last press.\<close>

theorem factory_reset_deliberate_witness:
  "let s = kb_static (Some (replicate 2048 0));
       ops = transient_ops 2048 (\<lambda>buf a. buf);
       env = \<lparr>fe_builddate = [], fe_firmware = \<lparr>keymaps = [], encoder_map = []\<rparr>, fe_rgb_enabled = True\<rparr>;
       es = [Key_Event FN_KEY_1 True 10, Key_Event KC_J True 20, Key_Event KC_Z True 30, Factory_Task 1000];
       t = fold (factory_step ops env) es s
   in Lkbt51_Factory_Reset \<in> set (snd (factory_test_task ops env 3031 t)) \<and>
     (\<exists>pre kc T post. es = pre @ Key_Event kc True T # post \<and> kc \<in> {KC_J, KC_Z} \<and> 3000 < timer_diff32 3031 T \<and>
       held_after {FN_KEY_1, FN_KEY_2} (pre @ [Key_Event kc True T]))"
proof -
  let ?s = "kb_static (Some (replicate 2048 (0 :: u8)))" and ?ops = "transient_ops 2048 (\<lambda>buf a. buf)"
  let ?env = "\<lparr>fe_builddate = [], fe_firmware = \<lparr>keymaps = [], encoder_map = []\<rparr>, fe_rgb_enabled = True\<rparr>"
  let ?es = "[Key_Event FN_KEY_1 True 10, Key_Event KC_J True 20, Key_Event KC_Z True 30, Factory_Task 1000]"
  have q: "statics ?s = quantum_static" by (simp add: kb_static_def)
  have keys: "statics (fold (factory_step ?ops ?env) ?es ?s) =
      quantum_static\<lparr>factory_reset_state := KEY_PRESS_FACTORY_RESET, factory_reset_timer := 30\<rparr>"
    using keys_differ
    by (simp add: q process_record_factory_test_def factory_key_down_def factory_timer_start_def quantum_static_def key_press_defs Let_def
        factory_test_task_def factory_timer_check_def timer_diff32_def)
  have "Lkbt51_Factory_Reset \<in> set (snd (factory_test_task ?ops ?env 3031 t))"
    if "statics t = quantum_static\<lparr>factory_reset_state := KEY_PRESS_FACTORY_RESET, factory_reset_timer := 30\<rparr>" for t
    by (simp add: factory_test_task_def factory_timer_check_def that timer_diff32_def Let_def)
  note fired = this [OF keys]
  from factory_reset_deliberate [OF q refl disjI1 [OF fired]] fired show ?thesis
    by (auto simp only: Let_def)
qed

end
