(* ===== verification/Spec2Isabelle.thy ===== *)
theory Spec2Isabelle
  imports Bitwise Ring_Queue Remap_Restart Debounce_Defer Wireless_Link Encoder_Laws Handler_Keys Factory_Laws
begin

text \<open>
  A model of the firmware of a wireless mechanical keyboard, and the theorems that make its key path, its settings and its radio
  link correct.  The repository is QMK with the additions of Keychron and Lemokey; the build that is modelled is the Keychron P1
  (\<open>keyboards/keychron/p1\<close>): WB32F3G71, a matrix of 6 rows and 15 columns, four layers, one encoder, VIA, N-key rollover, mouse and extra keys,
  an LKBT51 radio module, 2048 bytes of EEPROM.  Paths below are under \<open>src/\<close>.

  \<^bold>\<open>The parts and how they interact.\<close>  The main loop calls \<open>keyboard_task\<close> (quantum/keyboard.c) as fast as it can.  It scans the
  switch matrix (quantum/matrix.c), debounces it (quantum/debounce), and executes one key event per change.  An event passes the
  tapping state machine (action\_tapping.c), the layer lookup (action\_layer.c, keymap\_common.c, keycode\_config.c) and the action
  processing (action.c), which changes the modifiers, the layers and the keyboard report (action\_util.c, report.c) and hands the
  report to the host driver (host.c): USB, or the radio link of common/wireless, which buffers it for the module.  The keymap is in
  the EEPROM (dynamic\_keymap.c, eeconfig.c), which the configuration tool edits through via.c, and which can be emulated in flash
  (wear\_leveling.c).

  \<^bold>\<open>Conventions.\<close>  A file-level or static variable is a field of a record, a function is a definition of the same name that takes
  and returns the record, and a macro or constant is a definition.  Unsigned integers are words of their width (\<open>u8\<close>, \<open>u16\<close>, \<open>u32\<close>);
  signed ones are \<open>int\<close> with the conversion written out.  What leaves the firmware is a trace, newest first: \<open>sent\<close> of the core,
  \<open>mouse_sent\<close>, \<open>switches\<close>.  What comes in is an argument: pin levels, timer readings, bytes from the radio module, ADC samples.  A
  function that may leave an array returns an option, and None is the access outside it.  The hooks of a keyboard or keymap are parameters
  (\<open>hooks\<close>, \<open>via_command_kb\<close>), which Quantum fills with the handlers of quantum.c; so are the flash controller and the EEPROM driver (\<open>flash_ops\<close>, \<open>wl_env\<close>, \<open>eeprom_ops\<close>), each with the
  laws it promises as a locale.

  \<^bold>\<open>Theories, in the order of the code.\<close>

  \<^item> Prelude: word abbreviations, rule collections, facts on words and lists.  Bitwise: quantum/bitwise.c.  Ring\_Queue:
    quantum/ring\_buffer.h and the interface \<open>fifo\<close> of bounded queues, which the report buffer also provides.

  \<^item> Wear\_Log, Wear\_Leveling: the log entries and the operations of quantum/wear\_leveling; \<open>wl\<close> is the structure \<open>wear_leveling\<close>, \<open>wl_env\<close> the
    functions and sizes of the backing store.  Wear\_Replay, Wear\_Durable, Wear\_Live: the log is a list of entries, the store determines the
    cache, and runs of writes and restarts.  Flash\_Driver: wear\_leveling\_legacy.c and the whole stack over a flash controller.

  \<^item> Eeprom: drivers/eeprom and the interface \<open>eeprom\<close>.  Dynamic\_Keymap, Keymap\_Store: dynamic\_keymap.c and the keymap as a table.
    Eeconfig: eeconfig.c.  Via: the protocol of via.c.  Remap\_Restart: the start of the firmware (\<open>via_init\<close>, \<open>magic\<close>
    of quantum/bootmagic), which keeps the settings it finds or installs the defaults, and the composition of these with the flash.

  \<^item> Report, Keyboard, Keymap\_Common, Keycode\_Laws, Action\_Layer, Action, Action\_Laws, Report\_Sending: report.c, host.c and action\_util.c,
    the lookup of an action, the layers and their cache, action.c, and what the host is told.  The record \<open>kb\<close> is the state of all of them.

  \<^item> Action\_Tapping, Tapping\_Laws: the tapping state machine (\<open>tapping\<close>) and its decisions.  Typing: events of ordinary keys to the host.

  \<^item> Debounce, Debounce\_Laws, Debounce\_Defer: the seven debouncers and one contract for them.  Matrix\_Scan: the scan.  Mousekey: mousekey.c.
    Main\_Loop: keyboard.c and encoder.c over the record \<open>board\<close>, which holds the others.  Main\_Loop\_Laws, Encoder\_Laws: their laws,
    for the encoder with the interrupts of its pins between the readings.

  \<^item> Send\_String, Send\_String\_Laws, Macro\_Laws: send\_string.c and the macros of dynamic\_keymap.c, and the text they type.  Factory\_Test:
    keychron/common/factory\_test.c; Factory\_Laws: a factory reset is deliberate.  Quantum: the chain of handlers in quantum.c a looked-up keycode passes, with process\_magic.c,
    process\_space\_cadet.c, process\_grave\_esc.c, process\_tri\_layer.c, via.c and the keyboard's own handlers in common/lemokey\_common.c
    and p1.c; their statics are the record \<open>quantum_statics\<close>.  Quantum\_Laws, Handler\_Keys: ordinary keys pass the chain, and what
    the keys that belong to a handler do, and the life of a one-shot layer.

  \<^item> Report\_Buffer, Lkbt51, Battery, Wireless, Wireless\_Tasks: common/wireless; the record \<open>wt\<close> is the state of the link.  Wireless\_Laws,
    Wireless\_Link: the invariant that what returns at all keeps, the event loop, the frames of the module, and the defects found in it:
    the module's task is \<open>lkbt51_task\<close> with its read everywhere, and that read leaves its buffers once a command has been sent
    (\<open>radio_reads_overrun\<close>), so runs over many passes are stated for the state machine and its queues, not for the read.

  \<^bold>\<open>What the lemmas show.\<close>  The refinements say what each part is to its client: a wear-levelled flash is a byte array kept over any
  sequence of writes and restarts (the power goes off between two operations, not inside one), the EEPROM keymap a table, the report a set of keys, the debouncer a set of independent one-key automata that settle, the
  tapping machine a decision between tap and hold that keeps the order of keys, through any ticks in between, the event queue and the report buffer bounded queues, the encoder a
  counter of detents.  Theorems compose them: \<open>switches_reach_host_through_handlers\<close> from the row pins to the host's report,
  \<open>typing_reaches_host\<close> from the events, \<open>macro_key_types_text\<close> from a macro in the EEPROM to the text the host reads, and \<open>via_remap_survives_restart\<close> below from the configuration tool to the lookup after a power cycle.  Invariants and
  types say that rings and queues keep their index ranges; the error theorems prove the defects the model showed at the lines named
  in the manifest.

  \<^bold>\<open>Bounds and fuel.\<close>  \<open>process_record_n\<close> has fuel 2: a release never recurses and a press once (\<open>process_record_depth\<close>).  \<open>drain\<close>
  has one unit per slot of the waiting buffer, and \<open>action_exec_ring\<close> shows that it is the loop of the code (\<open>drain_loop\<close>), ended by that
  loop's own condition: the buffer is empty, or its oldest event has to wait.  The replay of
  the write log has one unit per word of the log area; every entry takes at least one.  The event loop of the radio link has one
  unit per slot of its queue.  Ordinary typing is proved for up to six keys (\<open>KEYBOARD_REPORT_KEYS\<close>), the size of the boot report.

  \<^bold>\<open>Not modelled.\<close>  The RGB and LED matrix, the indicators and animations: output without influence on the key path; the switches they are
  told of are in the trace.  The USB stack, ChibiOS and the register-level flash routines: hardware access, here parameters or
  traces.  The low-power modes, the real-time clock and the configuration of pins: no state the rest reads.  The serial transport, which the build does not
  use for keys.  The RGB keys (\<open>process_rgb\<close>) and the keys of the radio link are parameters of the chain of handlers (\<open>quantum_env\<close>);
  \<open>wireless_lets_ordinary_pass\<close> shows that the latter meet what is asked of them.  The features a keymap may turn on and this one does not
  (auto shift, combos, tap dances and the like), the number-to-text helpers of quantum.c and the callbacks of
  lemokey\_task.c that the build leaves empty have no definition.
\<close>

section \<open>From the configuration tool to the key, over a power cycle\<close>

text \<open>
  C3.  What the configuration tool writes is what the keys do after the power has been off.  A board with a blank flash chip
  is switched on for the first time: the firmware finds no valid settings and installs its own keymap.  After any
  session of set-key reports, which pass the keyboard's own hook whatever that does with its other commands, and a
  restart through the same start-up, which checks VIA's mark and the settings' mark again and finds them valid, the
  lookup of every key gives the keycode last set for it, and the firmware's keycode for a key never set; on any flash
  controller that completes its operations.
\<close>

theorem via_remap_survives_restart:
  fixes ops :: "'f flash_ops" and ctx :: "'f wl option via_context" and p :: "u8 list" and fw :: firmware_keymap
  assumes "healthy_chip ops cfg is_open" and "TOTAL_EEPROM_BYTE_COUNT \<le> lc_logical_size cfg"
    and "\<forall>x < lc_backing_size cfg. flash_load ops (base_page_address cfg + of_nat x) f = 0xFFFF"
    and "date_ok p" and "via_command_kb ctx = lemokey_via_command_kb dfu test"
  defines "env \<equiv> legacy_env ops cfg"
  defines "start \<equiv> board_start (wl_eeprom_ops env) (wl_eeprom_restart env) p fw"
  shows "\<exists>e. via_session (wl_eeprom_ops env) ctx cs (eeprom_state (start (Some (power_on env f)))) = Some e \<and>
    (\<forall>l key. key_in_range l key \<longrightarrow>
      fst (keymap_key_to_keycode (wl_eeprom_ops env) l key (start e)) =
        fold remap cs (firmware_table fw) (l, key_row key, key_col key))"
  using healthy_chip.remap_survives [OF assms(1-5), of cs fw] by (auto simp: start_def env_def fresh_lookup start_memo)

theorem via_remap_survives_restart_witness:
  "let env = legacy_env (nor_ops 2048) f303_config; p = map of_nat [50, 48, 50, 52, 45, 48, 49, 45, 51, 49];
       fw = \<lparr>keymaps = [replicate 6 (replicate 15 4)], encoder_map = []\<rparr>;
       ctx = \<lparr>via_builddate = p, via_firmware = fw, via_timer = 0, via_matrix = [],
         via_custom_value = Pair, via_command_kb = lemokey_via_command_kb Pair Pair\<rparr>;
       start = board_start (wl_eeprom_ops env) (wl_eeprom_restart env) p fw
   in \<exists>e. via_session (wl_eeprom_ops env) ctx [(1, 2, 3, 0x4104), (1, 2, 4, 5), (1, 2, 3, 0x2204)]
          (eeprom_state (start (Some (power_on env \<lparr>nor_mem = (\<lambda>x. 0xFFFF), nor_locked = True\<rparr>)))) = Some e \<and>
        fst (keymap_key_to_keycode (wl_eeprom_ops env) 1 \<lparr>key_row = 2, key_col = 3\<rparr> (start e)) = 0x2204 \<and>
        fst (keymap_key_to_keycode (wl_eeprom_ops env) 0 \<lparr>key_row = 2, key_col = 3\<rparr> (start e)) = 4"
proof -
  let ?p = "map of_nat [50, 48, 50, 52, 45, 48, 49, 45, 51, 49] :: u8 list"
  let ?fw = "\<lparr>keymaps = [replicate 6 (replicate 15 4)], encoder_map = []\<rparr>"
  let ?ctx = "\<lparr>via_builddate = ?p, via_firmware = ?fw, via_timer = 0, via_matrix = [],
         via_custom_value = Pair, via_command_kb = lemokey_via_command_kb Pair Pair\<rparr> :: nor_flash wl option via_context"
  have room: "TOTAL_EEPROM_BYTE_COUNT \<le> lc_logical_size f303_config"
    by (simp add: TOTAL_EEPROM_BYTE_COUNT_def f303_config_def)
  have key: "key_in_range 1 \<lparr>key_row = 2, key_col = 3\<rparr>" "key_in_range 0 \<lparr>key_row = 2, key_col = 3\<rparr>"
    by (simp_all add: key_in_range_def is_matrix_key_def MATRIX_ROWS_def MATRIX_COLS_def DYNAMIC_KEYMAP_LAYER_COUNT_def)
  have date: "date_ok ?p" by (simp add: date_ok_def is_digit_def)
  have table: "firmware_table ?fw (0, 2, 3) = 4"
    by (simp add: firmware_table_def keycode_at_keymap_location_raw_def keymap_layer_count_raw_def keymap_sizes)
  have blank: "\<forall>x < lc_backing_size f303_config. flash_load (nor_ops 2048) (base_page_address f303_config + of_nat x)
      \<lparr>nor_mem = (\<lambda>x. 0xFFFF), nor_locked = True\<rparr> = 0xFFFF"
    by (simp add: nor_ops_def)
  have "via_command_kb ?ctx = lemokey_via_command_kb Pair Pair" by simp
  from via_remap_survives_restart [OF f303.healthy_chip_axioms room blank date this,
      of "[(1, 2, 3, 0x4104), (1, 2, 4, 5), (1, 2, 3, 0x2204)]" ?fw] key table
  show ?thesis by (auto simp: remap_def Let_def dest: spec2)
qed

end
